(* ===== verification/Prelude.thy ===== *)
theory Prelude
  imports Main "HOL-Library.Word" "HOL-Library.Multiset"
begin

text \<open>
  Shared vocabulary of the development: the result of code that may end the process
  (\<open>Alarmp(SPLOG_FATAL, ...)\<close> and \<open>Alarm(EXIT, ...)\<close> do not return), C integer conversions,
  \<open>for\<close> loops over a state, and the generic lemmas and interface locales that several
  components use.
\<close>

named_theorems res_simps \<open>unfolding of the result type\<close>
named_theorems frame_simps \<open>fields an operation leaves unchanged\<close>

unbundle bit_operations_syntax

section \<open>Results of code that may end the process\<close>

text \<open>
  \<open>Alarm_exit f\<close>: the function \<open>f\<close> raised a fatal alarm, which ends the process.
  \<open>Undefined f\<close>: \<open>f\<close> would read an uninitialised variable or leave an array, which C
  leaves undefined.
\<close>

datatype fatal = Alarm_exit string | Undefined string

type_synonym 'a result = "fatal + 'a"

definition bind_res :: "'a result \<Rightarrow> ('a \<Rightarrow> 'b result) \<Rightarrow> 'b result" where
  "bind_res r f = (case r of Inl e \<Rightarrow> Inl e | Inr x \<Rightarrow> f x)"

definition guard_res :: "bool \<Rightarrow> fatal \<Rightarrow> 'a result \<Rightarrow> 'a result" where
  "guard_res bad e r = (if bad then Inl e else r)"

lemma bind_res_Inl [simp, res_simps]: "bind_res (Inl e) f = Inl e"
  by (simp add: bind_res_def)

lemma bind_res_Inr [simp, res_simps]: "bind_res (Inr x) f = f x"
  by (simp add: bind_res_def)

lemma bind_res_eq_Inr [res_simps]:
  "bind_res r f = Inr y \<longleftrightarrow> (\<exists>x. r = Inr x \<and> f x = Inr y)"
  by (cases r) auto

lemma bind_res_eq_Inl [res_simps]:
  "bind_res r f = Inl e \<longleftrightarrow> r = Inl e \<or> (\<exists>x. r = Inr x \<and> f x = Inl e)"
  by (cases r) auto

lemma bind_res_assoc: "bind_res (bind_res r f) g = bind_res r (\<lambda>x. bind_res (f x) g)"
  by (cases r) auto

lemma bind_res_elim [elim!]:
  assumes "bind_res r f = Inr y"
  obtains x where "r = Inr x" and "f x = Inr y"
  using assms by (auto simp: bind_res_eq_Inr)

lemma guard_res_eq_Inr [simp, res_simps]: "guard_res b e r = Inr y \<longleftrightarrow> \<not> b \<and> r = Inr y"
  by (simp add: guard_res_def)

lemma guard_res_False [simp, res_simps]: "guard_res False e r = r"
  by (simp add: guard_res_def)

lemma guard_res_True [simp, res_simps]: "guard_res True e r = Inl e"
  by (simp add: guard_res_def)

lemma guard_res_eq_Inl: "guard_res b e r = Inl e' \<longleftrightarrow> (b \<and> e = e') \<or> (\<not> b \<and> r = Inl e')"
  by (auto simp: guard_res_def)

section \<open>Loops\<close>

text \<open>
  \<open>fold_res f xs s\<close> is a loop over \<open>xs\<close> whose body \<open>f\<close> changes the state and may end the
  process. \<open>fold_ctl\<close> is a loop whose body may also leave it (\<open>break\<close> or \<open>return\<close>).
\<close>

primrec fold_res :: "('i \<Rightarrow> 's \<Rightarrow> 's result) \<Rightarrow> 'i list \<Rightarrow> 's \<Rightarrow> 's result" where
  "fold_res f [] s = Inr s"
| "fold_res f (x # xs) s = bind_res (f x s) (fold_res f xs)"

datatype 's ctl = Continue 's | Break 's

primrec fold_ctl :: "('i \<Rightarrow> 's \<Rightarrow> 's ctl result) \<Rightarrow> 'i list \<Rightarrow> 's \<Rightarrow> 's result" where
  "fold_ctl f [] s = Inr s"
| "fold_ctl f (x # xs) s =
     (case f x s of
        Inl e \<Rightarrow> Inl e
      | Inr (Continue s') \<Rightarrow> fold_ctl f xs s'
      | Inr (Break s') \<Rightarrow> Inr s')"

lemma fold_res_append: "fold_res f (xs @ ys) s = bind_res (fold_res f xs s) (fold_res f ys)"
  by (induction xs arbitrary: s) (auto simp: bind_res_def split: sum.splits)

lemma fold_res_cong:
  "(\<And>x s. x \<in> set xs \<Longrightarrow> f x s = g x s) \<Longrightarrow> fold_res f xs s = fold_res g xs s"
  by (induction xs arbitrary: s) (auto simp: bind_res_def split: sum.splits)

lemma fold_res_snoc: "fold_res f (xs @ [x]) s = bind_res (fold_res f xs s) (f x)"
  by (simp add: fold_res_append bind_res_def split: sum.splits)

lemma fold_res_inv:
  assumes "fold_res f xs s = Inr s'"
    and "P s"
    and "\<And>x t t'. x \<in> set xs \<Longrightarrow> P t \<Longrightarrow> f x t = Inr t' \<Longrightarrow> P t'"
  shows "P s'"
  using assms
proof (induction xs arbitrary: s)
  case (Cons x xs)
  from Cons.prems(1) obtain t where t: "f x s = Inr t" and rest: "fold_res f xs t = Inr s'"
    by auto
  have "P t" using Cons.prems(2) Cons.prems(3) [OF _ _ t] by simp
  then show ?case using Cons.prems(3) by (intro Cons.IH [OF rest]) auto
qed simp

lemma fold_ctl_inv:
  assumes "fold_ctl f xs s = Inr s'"
    and "P s"
    and "\<And>x t t'. x \<in> set xs \<Longrightarrow> P t \<Longrightarrow> f x t = Inr (Continue t') \<or> f x t = Inr (Break t') \<Longrightarrow> P t'"
  shows "P s'"
  using assms
proof (induction xs arbitrary: s)
  case (Cons x xs)
  show ?case
  proof (cases "f x s")
    case (Inr c)
    show ?thesis
    proof (cases c)
      case (Continue t)
      have "P t" using Cons.prems(2) Cons.prems(3) [of x s t] Inr Continue by simp
      moreover have "fold_ctl f xs t = Inr s'" using Cons.prems(1) Inr Continue by simp
      ultimately show ?thesis using Cons.prems(3) by (intro Cons.IH [of t]) auto
    next
      case (Break t)
      then show ?thesis using Cons.prems Inr by auto
    qed
  qed (use Cons.prems in simp)
qed simp

lemma fold_res_frame:
  assumes "fold_res f xs s = Inr s'"
    and "\<And>x t t'. f x t = Inr t' \<Longrightarrow> g t' = g t"
  shows "g s' = g s"
  by (rule fold_res_inv [OF assms(1), where P = "\<lambda>t. g t = g s"]) (auto dest: assms(2))

lemma fold_ctl_frame:
  assumes "fold_ctl f xs s = Inr s'"
    and "\<And>x t t'. f x t = Inr (Continue t') \<or> f x t = Inr (Break t') \<Longrightarrow> g t' = g t"
  shows "g s' = g s"
  by (rule fold_ctl_inv [OF assms(1), where P = "\<lambda>t. g t = g s"]) (auto simp: assms(2))

section \<open>C integer conversions\<close>

text \<open>
  Values of the types \<open>int16\<close>, \<open>int16u\<close> and \<open>int32\<close> are kept as \<open>int\<close>; the conversion on
  assignment to a narrower type is written out. Conversion to a signed type keeps the low
  bits in two's complement.
\<close>

definition to_int16 :: "int \<Rightarrow> int" where
  "to_int16 x = (x + 2 ^ 15) mod 2 ^ 16 - 2 ^ 15"

definition to_int16u :: "int \<Rightarrow> int" where
  "to_int16u x = x mod 2 ^ 16"

definition to_int32 :: "int \<Rightarrow> int" where
  "to_int32 x = (x + 2 ^ 31) mod 2 ^ 32 - 2 ^ 31"

lemma to_int16_id [simp]: "- (2 ^ 15) \<le> x \<Longrightarrow> x < 2 ^ 15 \<Longrightarrow> to_int16 x = x"
  by (simp add: to_int16_def)

lemma to_int16_range: "- (2 ^ 15) \<le> to_int16 x \<and> to_int16 x < 2 ^ 15"
  by (simp add: to_int16_def)

lemma to_int16u_id [simp]: "0 \<le> x \<Longrightarrow> x < 2 ^ 16 \<Longrightarrow> to_int16u x = x"
  by (simp add: to_int16u_def)

lemma to_int16u_range: "0 \<le> to_int16u x \<and> to_int16u x < 2 ^ 16"
  by (simp add: to_int16u_def)

lemma to_int32_id [simp]: "- (2 ^ 31) \<le> x \<Longrightarrow> x < 2 ^ 31 \<Longrightarrow> to_int32 x = x"
  by (simp add: to_int32_def)

text \<open>C integer division truncates towards zero.\<close>

definition c_div :: "int \<Rightarrow> int \<Rightarrow> int" where
  "c_div a b = sgn a * sgn b * (\<bar>a\<bar> div \<bar>b\<bar>)"

definition c_mod :: "int \<Rightarrow> int \<Rightarrow> int" where
  "c_mod a b = a - b * c_div a b"

lemma c_div_nonneg: "0 \<le> a \<Longrightarrow> 0 < b \<Longrightarrow> c_div a b = a div b"
  by (cases "a = 0") (simp_all add: c_div_def)

lemma c_mod_nonneg: "0 \<le> a \<Longrightarrow> 0 < b \<Longrightarrow> c_mod a b = a mod b"
  by (simp add: c_mod_def c_div_nonneg minus_mult_div_eq_mod)

section \<open>Lists\<close>

text \<open>The index of the first element with a property, the shape of every lookup loop.\<close>

primrec find_index_from :: "int \<Rightarrow> ('a \<Rightarrow> bool) \<Rightarrow> 'a list \<Rightarrow> int" where
  "find_index_from i P [] = - 1"
| "find_index_from i P (x # xs) = (if P x then i else find_index_from (i + 1) P xs)"

abbreviation find_index :: "('a \<Rightarrow> bool) \<Rightarrow> 'a list \<Rightarrow> int" where
  "find_index \<equiv> find_index_from 0"

lemma find_index_from_none:
  "0 \<le> i \<Longrightarrow> find_index_from i P xs = - 1 \<longleftrightarrow> (\<forall>x \<in> set xs. \<not> P x)"
  by (induction xs arbitrary: i) auto

lemma find_index_from_some:
  assumes "0 \<le> i" and "find_index_from i P xs = k" and "k \<noteq> - 1"
  shows "i \<le> k \<and> k < i + int (length xs) \<and> P (xs ! nat (k - i)) \<and>
    (\<forall>j < nat (k - i). \<not> P (xs ! j))"
  using assms
proof (induction xs arbitrary: i)
  case (Cons x xs)
  show ?case
  proof (cases "P x")
    case True
    with Cons.prems show ?thesis by auto
  next
    case False
    have ih: "i + 1 \<le> k \<and> k < i + 1 + int (length xs) \<and> P (xs ! nat (k - (i + 1))) \<and>
      (\<forall>j < nat (k - (i + 1)). \<not> P (xs ! j))"
      using Cons.prems False by (intro Cons.IH) auto
    then have n: "nat (k - i) = Suc (nat (k - (i + 1)))" by linarith
    show ?thesis
      using ih False by (auto simp: n less_Suc_eq_0_disj)
  qed
qed simp

lemma find_index_range:
  "find_index P xs = - 1 \<or> (0 \<le> find_index P xs \<and> find_index P xs < int (length xs))"
  using find_index_from_some [of 0 P xs] by fastforce

lemma find_index_neg [simp]: "find_index P xs < 0 \<longleftrightarrow> (\<forall>x \<in> set xs. \<not> P x)"
  using find_index_range [of P xs] find_index_from_none [of 0 P xs] by force

lemma find_index_ge [simp]: "0 \<le> find_index P xs \<longleftrightarrow> (\<exists>x \<in> set xs. P x)"
  using find_index_neg [of P xs] by (auto simp del: find_index_neg simp: not_less [symmetric])

lemma find_index_sound:
  assumes "0 \<le> find_index P xs"
  shows "nat (find_index P xs) < length xs" and "P (xs ! nat (find_index P xs))"
    and "\<forall>j < nat (find_index P xs). \<not> P (xs ! j)"
  using find_index_from_some [of 0 P xs] assms by (auto simp del: find_index_ge simp: nat_less_iff)

lemma sum_list_split_zero: "sum_list (map f xs) = (0::nat) \<longleftrightarrow> (\<forall>x \<in> set xs. f x = 0)"
  by (induction xs) auto

text \<open>Overwriting a range of a buffer (\<open>memcpy\<close> into it).\<close>

definition write_at :: "nat \<Rightarrow> 'a list \<Rightarrow> 'a list \<Rightarrow> 'a list" where
  "write_at off src dst = take off dst @ src @ drop (off + length src) dst"

lemma length_write_at [simp]:
  "off + length src \<le> length dst \<Longrightarrow> length (write_at off src dst) = length dst"
  by (simp add: write_at_def)

lemma take_write_at_before [simp]:
  "n \<le> off \<Longrightarrow> off \<le> length dst \<Longrightarrow> take n (write_at off src dst) = take n dst"
  by (simp add: write_at_def)

lemma take_drop_write_at [simp]:
  "off \<le> length dst \<Longrightarrow> n = length src \<Longrightarrow> take n (drop off (write_at off src dst)) = src"
  by (simp add: write_at_def)

section \<open>Reachable states\<close>

text \<open>
  The interface between a step relation and its invariant: the laws a component proves for
  one step give the property in every state a run reaches.
\<close>

locale step_system =
  fixes init :: "'s \<Rightarrow> bool"
    and step :: "'s \<Rightarrow> 's \<Rightarrow> bool"
    and inv :: "'s \<Rightarrow> bool"
  assumes init_inv: "init s \<Longrightarrow> inv s"
    and step_inv: "inv s \<Longrightarrow> step s t \<Longrightarrow> inv t"
begin

lemma run_inv: "step\<^sup>*\<^sup>* s t \<Longrightarrow> inv s \<Longrightarrow> inv t"
  by (induction rule: rtranclp_induct) (auto intro: step_inv)

lemma reach_inv: "init s \<Longrightarrow> step\<^sup>*\<^sup>* s t \<Longrightarrow> inv t"
  by (blast intro: run_inv init_inv)

end

end
