(* ===== verification/Net_Types.thy ===== *)
theory Net_Types
  imports Prelude
begin

text \<open>
  Byte order and packet types: the macros of \<open>arch.h\<close> and \<open>net_types.h\<close>, the headers that
  travel on the wire, and the routines that turn a header round between byte orders
  (\<open>Flip_pack\<close>, \<open>Flip_token\<close> of \<open>network.c\<close>, \<open>Flip_frag\<close> of \<open>protocol.c\<close>). Bit fields are
  \<open>32 word\<close>s; sequence numbers and lengths are \<open>int\<close>s in the range of their C type.
\<close>

unbundle bit_operations_syntax

type_synonym byte = "8 word"
type_synonym proc_id = "32 word"

section \<open>Byte order\<close>

definition ENDIAN_TYPE :: "32 word" where
  "ENDIAN_TYPE = 0x80000080"

text \<open>The build's \<open>config.h\<close> leaves \<open>WORDS_BIGENDIAN\<close> undefined.\<close>

definition ARCH_ENDIAN :: "32 word" where
  "ARCH_ENDIAN = 0x80000080"

definition Set_endian :: "32 word \<Rightarrow> 32 word" where
  "Set_endian t = (t AND NOT ENDIAN_TYPE) OR ARCH_ENDIAN"

definition Same_endian :: "32 word \<Rightarrow> bool" where
  "Same_endian t \<longleftrightarrow> t AND ENDIAN_TYPE = ARCH_ENDIAN"

definition Flip_int16 :: "16 word \<Rightarrow> 16 word" where
  "Flip_int16 t = (drop_bit 8 t AND 0x00ff) OR (push_bit 8 t AND 0xff00)"

definition Flip_int32 :: "32 word \<Rightarrow> 32 word" where
  "Flip_int32 t = (drop_bit 24 t AND 0x000000ff) OR (drop_bit 8 t AND 0x0000ff00)
     OR (push_bit 8 t AND 0x00ff0000) OR (push_bit 24 t AND 0xff000000)"

text \<open>The same macros on fields kept as integers.\<close>

definition flip16 :: "int \<Rightarrow> int" where
  "flip16 x = sint (Flip_int16 (word_of_int x))"

definition flip16u :: "int \<Rightarrow> int" where
  "flip16u x = uint (Flip_int16 (word_of_int x))"

definition flip32 :: "int \<Rightarrow> int" where
  "flip32 x = sint (Flip_int32 (word_of_int x))"

lemma mask16_low: "(0x00ff :: 16 word) = mask 8"
  by (simp add: mask_eq_exp_minus_1)

lemma mask16_high: "(0xff00 :: 16 word) = push_bit 8 (mask 8)"
  by (simp add: mask_eq_exp_minus_1 push_bit_eq_mult)

lemma bit_Flip_int16:
  "n < 16 \<Longrightarrow> bit (Flip_int16 t) n \<longleftrightarrow> bit t (if n < 8 then n + 8 else n - 8)"
  unfolding Flip_int16_def mask16_low mask16_high by (auto simp: bit_simps add.commute)

lemma Flip_int16_invol: "Flip_int16 (Flip_int16 t) = t"
  by (rule bit_word_eqI) (auto simp: bit_Flip_int16)

lemma mask32_bytes:
  "(0x000000ff :: 32 word) = mask 8"
  "(0x0000ff00 :: 32 word) = push_bit 8 (mask 8)"
  "(0x00ff0000 :: 32 word) = push_bit 16 (mask 8)"
  "(0xff000000 :: 32 word) = push_bit 24 (mask 8)"
  by (simp_all add: mask_eq_exp_minus_1 push_bit_eq_mult)

lemma bit_Flip_int32:
  "n < 32 \<Longrightarrow> bit (Flip_int32 t) n \<longleftrightarrow>
     bit t (if n < 8 then n + 24 else if n < 16 then n + 8 else if n < 24 then n - 8 else n - 24)"
  unfolding Flip_int32_def mask32_bytes by (auto simp: bit_simps add.commute)

lemma Flip_int32_invol: "Flip_int32 (Flip_int32 t) = t"
  by (rule bit_word_eqI) (auto simp: bit_Flip_int32)

lemma bit_ENDIAN_TYPE:
  assumes "n < 32"
  shows "bit ENDIAN_TYPE n \<longleftrightarrow> n = 7 \<or> n = 31"
proof -
  have e: "ENDIAN_TYPE = push_bit 7 1 OR push_bit 31 1"
    by (simp add: ENDIAN_TYPE_def push_bit_eq_mult)
  show ?thesis
    unfolding e bit_or_iff bit_push_bit_iff bit_1_iff using assms by auto
qed

lemma Same_endian_bits: "Same_endian t \<longleftrightarrow> bit t 7 \<and> bit t 31"
proof
  assume s: "Same_endian t"
  then have "bit (t AND ENDIAN_TYPE) 7" and "bit (t AND ENDIAN_TYPE) 31"
    by (simp_all add: Same_endian_def ARCH_ENDIAN_def ENDIAN_TYPE_def [symmetric] bit_ENDIAN_TYPE)
  then show "bit t 7 \<and> bit t 31" by (simp add: bit_simps)
next
  assume "bit t 7 \<and> bit t 31"
  then show "Same_endian t"
    unfolding Same_endian_def ARCH_ENDIAN_def ENDIAN_TYPE_def [symmetric]
    by (intro bit_word_eqI) (auto simp: bit_simps bit_ENDIAN_TYPE)
qed

lemma Same_endian_Flip: "Same_endian (Flip_int32 t) \<longleftrightarrow> Same_endian t"
  by (auto simp: Same_endian_bits bit_Flip_int32)

lemma Same_endian_Set_endian: "Same_endian (Set_endian t)"
  unfolding Same_endian_bits Set_endian_def ARCH_ENDIAN_def ENDIAN_TYPE_def [symmetric]
  by (simp add: bit_simps bit_ENDIAN_TYPE)

lemma flip32_invol: "- (2 ^ 31) \<le> x \<Longrightarrow> x < 2 ^ 31 \<Longrightarrow> flip32 (flip32 x) = x"
  by (simp add: flip32_def Flip_int32_invol sint_sbintrunc' signed_take_bit_int_eq_self)

lemma flip16_invol: "- (2 ^ 15) \<le> x \<Longrightarrow> x < 2 ^ 15 \<Longrightarrow> flip16 (flip16 x) = x"
  by (simp add: flip16_def Flip_int16_invol sint_sbintrunc' signed_take_bit_int_eq_self)

lemma flip16u_invol: "0 \<le> x \<Longrightarrow> x < 2 ^ 16 \<Longrightarrow> flip16u (flip16u x) = x"
  by (simp add: flip16u_def Flip_int16_invol uint_word_of_int_eq take_bit_int_eq_self)

section \<open>Packet types\<close>

abbreviation (input) UNRELIABLE_TYPE :: "32 word" where "UNRELIABLE_TYPE \<equiv> 0x00000001"
abbreviation (input) RELIABLE_TYPE :: "32 word" where "RELIABLE_TYPE \<equiv> 0x00000002"
abbreviation (input) FIFO_TYPE :: "32 word" where "FIFO_TYPE \<equiv> 0x00000004"
abbreviation (input) AGREED_TYPE :: "32 word" where "AGREED_TYPE \<equiv> 0x00000008"
abbreviation (input) SAFE_TYPE :: "32 word" where "SAFE_TYPE \<equiv> 0x00000010"
abbreviation (input) REGULAR_TYPE :: "32 word" where "REGULAR_TYPE \<equiv> 0x0000001f"
abbreviation (input) BLOCK_REGULAR_DELIVERY :: "32 word" where "BLOCK_REGULAR_DELIVERY \<equiv> 0x00000020"
abbreviation (input) ROUTED_TYPE :: "32 word" where "ROUTED_TYPE \<equiv> 0x00000020"
abbreviation (input) HURRY_TYPE :: "32 word" where "HURRY_TYPE \<equiv> 0x00000040"
abbreviation (input) ALIVE_TYPE :: "32 word" where "ALIVE_TYPE \<equiv> 0x00000100"
abbreviation (input) JOIN_TYPE :: "32 word" where "JOIN_TYPE \<equiv> 0x00000200"
abbreviation (input) REFER_TYPE :: "32 word" where "REFER_TYPE \<equiv> 0x00000400"
abbreviation (input) MEMBERSHIP_TYPE :: "32 word" where "MEMBERSHIP_TYPE \<equiv> 0x00000700"
abbreviation (input) FORM1_TYPE :: "32 word" where "FORM1_TYPE \<equiv> 0x00001000"
abbreviation (input) FORM2_TYPE :: "32 word" where "FORM2_TYPE \<equiv> 0x00002000"
abbreviation (input) FORM_TYPE :: "32 word" where "FORM_TYPE \<equiv> 0x00003000"
abbreviation (input) ARQ_TYPE :: "32 word" where "ARQ_TYPE \<equiv> 0x000f0000"
abbreviation (input) RETRANS_TYPE :: "32 word" where "RETRANS_TYPE \<equiv> 0x00f00000"
abbreviation (input) STATUS_TYPE :: "32 word" where "STATUS_TYPE \<equiv> 0x01000000"
abbreviation (input) PARTITION_TYPE :: "32 word" where "PARTITION_TYPE \<equiv> 0x02000000"
abbreviation (input) FC_TYPE :: "32 word" where "FC_TYPE \<equiv> 0x04000000"
abbreviation (input) RELOAD_TYPE :: "32 word" where "RELOAD_TYPE \<equiv> 0x08000000"
abbreviation (input) CONTROL_TYPE :: "32 word" where "CONTROL_TYPE \<equiv> 0x0f000000"

definition Is_reliable :: "32 word \<Rightarrow> bool" where "Is_reliable t \<longleftrightarrow> t AND RELIABLE_TYPE \<noteq> 0"
definition Is_fifo :: "32 word \<Rightarrow> bool" where "Is_fifo t \<longleftrightarrow> t AND FIFO_TYPE \<noteq> 0"
definition Is_agreed :: "32 word \<Rightarrow> bool" where "Is_agreed t \<longleftrightarrow> t AND AGREED_TYPE \<noteq> 0"
definition Is_safe :: "32 word \<Rightarrow> bool" where "Is_safe t \<longleftrightarrow> t AND SAFE_TYPE \<noteq> 0"

text \<open>\<open>Is_regular\<close> is also compared as a number, so it keeps its value.\<close>

definition Is_regular :: "32 word \<Rightarrow> 32 word" where "Is_regular t = t AND REGULAR_TYPE"

definition Is_routed :: "32 word \<Rightarrow> bool" where "Is_routed t \<longleftrightarrow> t AND ROUTED_TYPE \<noteq> 0"
definition Set_routed :: "32 word \<Rightarrow> 32 word" where "Set_routed t = t OR ROUTED_TYPE"
definition Clear_routed :: "32 word \<Rightarrow> 32 word" where "Clear_routed t = t AND NOT ROUTED_TYPE"
definition Is_hurry :: "32 word \<Rightarrow> bool" where "Is_hurry t \<longleftrightarrow> t AND HURRY_TYPE \<noteq> 0"
definition Is_alive :: "32 word \<Rightarrow> bool" where "Is_alive t \<longleftrightarrow> t AND ALIVE_TYPE \<noteq> 0"
definition Is_join :: "32 word \<Rightarrow> bool" where "Is_join t \<longleftrightarrow> t AND JOIN_TYPE \<noteq> 0"
definition Is_refer :: "32 word \<Rightarrow> bool" where "Is_refer t \<longleftrightarrow> t AND REFER_TYPE \<noteq> 0"
definition Is_membership :: "32 word \<Rightarrow> bool" where "Is_membership t \<longleftrightarrow> t AND MEMBERSHIP_TYPE \<noteq> 0"
definition Is_form :: "32 word \<Rightarrow> bool" where "Is_form t \<longleftrightarrow> t AND FORM_TYPE \<noteq> 0"
definition Is_form1 :: "32 word \<Rightarrow> bool" where "Is_form1 t \<longleftrightarrow> t AND FORM1_TYPE \<noteq> 0"
definition Is_form2 :: "32 word \<Rightarrow> bool" where "Is_form2 t \<longleftrightarrow> t AND FORM2_TYPE \<noteq> 0"
definition Is_status :: "32 word \<Rightarrow> bool" where "Is_status t \<longleftrightarrow> t AND STATUS_TYPE \<noteq> 0"
definition Is_partition :: "32 word \<Rightarrow> bool" where "Is_partition t \<longleftrightarrow> t AND PARTITION_TYPE \<noteq> 0"
definition Is_fc :: "32 word \<Rightarrow> bool" where "Is_fc t \<longleftrightarrow> t AND FC_TYPE \<noteq> 0"
definition Is_conf_reload :: "32 word \<Rightarrow> bool" where "Is_conf_reload t \<longleftrightarrow> t AND RELOAD_TYPE \<noteq> 0"
definition Is_control :: "32 word \<Rightarrow> bool" where "Is_control t \<longleftrightarrow> t AND CONTROL_TYPE \<noteq> 0"

lemmas type_bits = Is_reliable_def Is_fifo_def Is_agreed_def Is_safe_def Is_regular_def
  Is_routed_def Set_routed_def Clear_routed_def Is_hurry_def Is_alive_def Is_join_def
  Is_refer_def Is_membership_def Is_form_def Is_form1_def Is_form2_def Is_status_def
  Is_partition_def Is_fc_def Is_conf_reload_def Is_control_def

section \<open>The two counters in a token's type\<close>

definition Get_arq :: "32 word \<Rightarrow> nat" where
  "Get_arq t = unat (drop_bit 16 (t AND ARQ_TYPE))"

definition Set_arq :: "32 word \<Rightarrow> nat \<Rightarrow> 32 word" where
  "Set_arq t val = (t AND NOT ARQ_TYPE) OR (push_bit 16 (of_nat val) AND ARQ_TYPE)"

definition Get_retrans :: "32 word \<Rightarrow> nat" where
  "Get_retrans t = unat (drop_bit 20 (t AND RETRANS_TYPE))"

definition Set_retrans :: "32 word \<Rightarrow> nat \<Rightarrow> 32 word" where
  "Set_retrans t val = (t AND NOT RETRANS_TYPE) OR (push_bit 20 (of_nat val) AND RETRANS_TYPE)"

text \<open>
  The contract of a counter kept in four bits of a type word: what is read back after a
  write, and that a write to one counter is not seen through the other. Clients count
  modulo 16.
\<close>

locale nibble_field =
  fixes get :: "32 word \<Rightarrow> nat"
    and set :: "32 word \<Rightarrow> nat \<Rightarrow> 32 word"
  assumes get_set: "get (set t v) = v mod 16"
    and get_less: "get t < 16"
begin

lemma get_set_small: "v < 16 \<Longrightarrow> get (set t v) = v"
  by (simp add: get_set)

lemma bump: "get (set t (Suc (get t))) = Suc (get t) mod 16"
  by (simp add: get_set)

lemma bump_iter: "get (((\<lambda>u. set u (Suc (get u))) ^^ n) t) = (get t + n) mod 16"
proof (induction n)
  case 0
  show ?case using get_less [of t] by simp
next
  case (Suc n)
  then show ?case by (simp add: get_set mod_Suc_eq)
qed

end

locale nibble_pair = fst: nibble_field get1 set1 + snd: nibble_field get2 set2
  for get1 set1 get2 set2 +
  assumes get1_set2: "get1 (set2 t v) = get1 t"
    and get2_set1: "get2 (set1 t v) = get2 t"
begin

lemma write_both: "get1 (set2 (set1 t v) w) = v mod 16 \<and> get2 (set2 (set1 t v) w) = w mod 16"
  by (simp add: get1_set2 fst.get_set snd.get_set)

end

lemma nibble_masks:
  "ARQ_TYPE = push_bit 16 (mask 4)"
  "RETRANS_TYPE = push_bit 20 (mask 4)"
  by (simp_all add: mask_eq_exp_minus_1 push_bit_eq_mult)

lemma drop_and_nibble:
  "drop_bit 16 (t AND ARQ_TYPE) = take_bit 4 (drop_bit 16 t)"
  "drop_bit 20 (t AND RETRANS_TYPE) = take_bit 4 (drop_bit 20 t)"
  unfolding nibble_masks
  by (rule bit_word_eqI; auto simp: bit_simps)+

lemma nibble_of_set:
  "take_bit 4 (drop_bit 16 (Set_arq t v)) = take_bit 4 (of_nat v)"
  "take_bit 4 (drop_bit 20 (Set_retrans t v)) = take_bit 4 (of_nat v)"
  "take_bit 4 (drop_bit 16 (Set_retrans t v)) = take_bit 4 (drop_bit 16 t)"
  "take_bit 4 (drop_bit 20 (Set_arq t v)) = take_bit 4 (drop_bit 20 t)"
  unfolding Set_arq_def Set_retrans_def nibble_masks
  by (rule bit_word_eqI; auto simp: bit_simps)+

lemma unat_take_nibble: "unat (take_bit 4 (of_nat v :: 32 word)) = v mod 16"
proof -
  have "unat (take_bit 4 (of_nat v :: 32 word)) = take_bit 4 (unat (of_nat v :: 32 word))"
    by (rule unsigned_take_bit_eq)
  also have "\<dots> = (v mod 2 ^ 32) mod 2 ^ 4"
    by (simp add: unat_of_nat take_bit_eq_mod)
  also have "\<dots> = v mod 16"
    by (simp add: mod_mod_cancel)
  finally show ?thesis .
qed

interpretation arq_retrans: nibble_pair Get_arq Set_arq Get_retrans Set_retrans
proof
  fix t v
  show "Get_arq (Set_arq t v) = v mod 16" "Get_retrans (Set_retrans t v) = v mod 16"
    unfolding Get_arq_def Get_retrans_def drop_and_nibble nibble_of_set
    by (rule unat_take_nibble)+
  show "Get_arq t < 16" "Get_retrans t < 16"
    unfolding Get_arq_def Get_retrans_def drop_and_nibble unsigned_take_bit_eq
    by (simp_all add: take_bit_eq_mod)
  show "Get_arq (Set_retrans t v) = Get_arq t" "Get_retrans (Set_arq t v) = Get_retrans t"
    unfolding Get_arq_def Get_retrans_def drop_and_nibble nibble_of_set by simp_all
qed

section \<open>Headers\<close>

record membership_id =
  m_proc_id :: proc_id
  m_time :: int

record fragment_header =
  fragment_index :: int
  fragment_len :: int

record packet_header =
  p_type :: "32 word"
  p_transmiter_id :: proc_id
  p_proc_id :: proc_id
  p_memb_id :: membership_id
  p_seq :: int
  p_token_round :: int
  p_conf_hash :: "32 word"
  p_data_len :: int
  p_padding :: int
  p_first_frag_header :: fragment_header

record token_header =
  t_type :: "32 word"
  t_transmiter_id :: proc_id
  t_proc_id :: proc_id
  t_memb_id :: membership_id
  t_seq :: int
  t_aru :: int
  t_aru_last_id :: proc_id
  t_flow_control :: int
  t_rtr_len :: int
  t_conf_hash :: "32 word"

text \<open>
  A retransmission request of one ring: \<open>ring_rtr\<close> followed in the token's body by its
  \<open>num_seq\<close> sequence numbers.
\<close>

record ring_rtr =
  r_memb_id :: membership_id
  r_proc_id :: proc_id
  r_seg_index :: int
  r_seqs :: "int list"

abbreviation (input) sizeof_packet_header :: int where "sizeof_packet_header \<equiv> 40"
abbreviation (input) sizeof_fragment_header :: int where "sizeof_fragment_header \<equiv> 4"
abbreviation (input) sizeof_token_header :: int where "sizeof_token_header \<equiv> 40"
abbreviation (input) sizeof_ring_rtr :: int where "sizeof_ring_rtr \<equiv> 16"
abbreviation (input) sizeof_int32 :: int where "sizeof_int32 \<equiv> 4"
abbreviation (input) sizeof_token_body :: int where "sizeof_token_body \<equiv> 65535 - 20 - 8 - sizeof_token_header"

definition Memb_is_equal :: "membership_id \<Rightarrow> membership_id \<Rightarrow> bool" where
  "Memb_is_equal m1 m2 \<longleftrightarrow> m_proc_id m1 = m_proc_id m2 \<and> m_time m1 = m_time m2"

lemma Memb_is_equal_iff [simp]: "Memb_is_equal m1 m2 \<longleftrightarrow> m1 = m2"
  by (auto simp: Memb_is_equal_def)

section \<open>Turning headers round\<close>

definition Flip_memb_id :: "membership_id \<Rightarrow> membership_id" where
  "Flip_memb_id m = \<lparr> m_proc_id = Flip_int32 (m_proc_id m), m_time = flip32 (m_time m) \<rparr>"

definition Flip_frag :: "fragment_header \<Rightarrow> fragment_header" where
  "Flip_frag f =
     f\<lparr> fragment_index := flip16 (fragment_index f), fragment_len := flip16 (fragment_len f) \<rparr>"

definition Flip_pack :: "packet_header \<Rightarrow> packet_header" where
  "Flip_pack p = p\<lparr>
     p_type := Flip_int32 (p_type p),
     p_transmiter_id := Flip_int32 (p_transmiter_id p),
     p_proc_id := Flip_int32 (p_proc_id p),
     p_memb_id := Flip_memb_id (p_memb_id p),
     p_seq := flip32 (p_seq p),
     p_token_round := flip32 (p_token_round p),
     p_conf_hash := Flip_int32 (p_conf_hash p),
     p_data_len := flip16u (p_data_len p) \<rparr>"

definition Flip_token :: "token_header \<Rightarrow> token_header" where
  "Flip_token t = t\<lparr>
     t_type := Flip_int32 (t_type t),
     t_transmiter_id := Flip_int32 (t_transmiter_id t),
     t_proc_id := Flip_int32 (t_proc_id t),
     t_memb_id := Flip_memb_id (t_memb_id t),
     t_seq := flip32 (t_seq t),
     t_aru := flip32 (t_aru t),
     t_aru_last_id := Flip_int32 (t_aru_last_id t),
     t_flow_control := flip16 (t_flow_control t),
     t_rtr_len := flip16u (t_rtr_len t),
     t_conf_hash := Flip_int32 (t_conf_hash t) \<rparr>"

text \<open>
  \<open>Flip_token_body\<close> walks the requests and turns each field round; the count \<open>num_seq\<close> and
  the byte length it is driven by are implicit in the list of requests.
\<close>

definition Flip_ring_rtr :: "ring_rtr \<Rightarrow> ring_rtr" where
  "Flip_ring_rtr r = r\<lparr>
     r_memb_id := Flip_memb_id (r_memb_id r),
     r_proc_id := Flip_int32 (r_proc_id r),
     r_seg_index := flip16 (r_seg_index r),
     r_seqs := map flip32 (r_seqs r) \<rparr>"

definition Flip_token_body :: "ring_rtr list \<Rightarrow> ring_rtr list" where
  "Flip_token_body rs = map Flip_ring_rtr rs"

text \<open>Values that fit the C types of the fields.\<close>

abbreviation int32_range :: "int \<Rightarrow> bool" where
  "int32_range x \<equiv> - (2 ^ 31) \<le> x \<and> x < 2 ^ 31"

abbreviation int16_range :: "int \<Rightarrow> bool" where
  "int16_range x \<equiv> - (2 ^ 15) \<le> x \<and> x < 2 ^ 15"

abbreviation int16u_range :: "int \<Rightarrow> bool" where
  "int16u_range x \<equiv> 0 \<le> x \<and> x < 2 ^ 16"

definition packet_typed :: "packet_header \<Rightarrow> bool" where
  "packet_typed p \<longleftrightarrow> int32_range (m_time (p_memb_id p)) \<and> int32_range (p_seq p) \<and>
     int32_range (p_token_round p) \<and> int16u_range (p_data_len p)"

definition token_typed :: "token_header \<Rightarrow> bool" where
  "token_typed t \<longleftrightarrow> int32_range (m_time (t_memb_id t)) \<and> int32_range (t_seq t) \<and>
     int32_range (t_aru t) \<and> int16_range (t_flow_control t) \<and> int16u_range (t_rtr_len t)"

definition ring_rtr_typed :: "ring_rtr \<Rightarrow> bool" where
  "ring_rtr_typed r \<longleftrightarrow> int32_range (m_time (r_memb_id r)) \<and> int16_range (r_seg_index r) \<and>
     list_all int32_range (r_seqs r)"

definition frag_typed :: "fragment_header \<Rightarrow> bool" where
  "frag_typed f \<longleftrightarrow> int16_range (fragment_index f) \<and> int16_range (fragment_len f)"

text \<open>
  A header that can be turned round and back: the receiver turns it to its own order, a
  router turns it back before it forwards it (\<open>Net_recv\<close>), and the order marker in the type
  is read the same in both forms.
\<close>

locale flipper =
  fixes flip :: "'a \<Rightarrow> 'a"
    and typed :: "'a \<Rightarrow> bool"
  assumes flip_flip: "typed x \<Longrightarrow> flip (flip x) = x"
begin

lemma flip_inj: "typed x \<Longrightarrow> typed y \<Longrightarrow> flip x = flip y \<Longrightarrow> x = y"
  by (metis flip_flip)

lemma flip_map: "list_all typed xs \<Longrightarrow> map flip (map flip xs) = xs"
  by (induction xs) (auto simp: flip_flip)

end

lemma Flip_memb_id_invol: "int32_range (m_time m) \<Longrightarrow> Flip_memb_id (Flip_memb_id m) = m"
  by (simp add: Flip_memb_id_def Flip_int32_invol flip32_invol)

interpretation flip32: flipper flip32 int32_range
  by unfold_locales (simp add: flip32_invol)

interpretation pack: flipper Flip_pack packet_typed
  by unfold_locales
    (simp add: Flip_pack_def packet_typed_def Flip_int32_invol flip32_invol flip16u_invol
      Flip_memb_id_invol)

interpretation token: flipper Flip_token token_typed
  by unfold_locales
    (simp add: Flip_token_def token_typed_def Flip_int32_invol flip32_invol flip16_invol
      flip16u_invol Flip_memb_id_invol)

interpretation frag: flipper Flip_frag frag_typed
  by unfold_locales (simp add: Flip_frag_def frag_typed_def flip16_invol)

interpretation rtr: flipper Flip_ring_rtr ring_rtr_typed
proof
  fix r
  assume t: "ring_rtr_typed r"
  then have "map flip32 (map flip32 (r_seqs r)) = r_seqs r"
    by (intro flip32.flip_map) (simp add: ring_rtr_typed_def)
  with t show "Flip_ring_rtr (Flip_ring_rtr r) = r"
    by (simp add: Flip_ring_rtr_def ring_rtr_typed_def Flip_int32_invol flip16_invol
        Flip_memb_id_invol)
qed

end
