(* ===== verification/Configuration.thy ===== *)
theory Configuration
  imports Net_Types
begin

text \<open>
  \<open>configuration.c\<close> and \<open>configuration.h\<close>: the daemons of the configuration file in their
  segments, the lookups every other component uses (leader, last and previous daemon of a
  ring, position of a daemon), the run-time settings with their validation, and the check
  that decides how a reloaded configuration is installed.

  A segment's array \<open>procs\<close> with its count \<open>num_procs\<close> is a list, and so are \<open>allprocs\<close>,
  \<open>segments\<close>, \<open>ifc\<close> and \<open>seg_addrs\<close>. Pointers to a \<open>proc\<close> are its value. The address type
  \<open>spu_addr\<close> and its operations belong to another library: an address is opaque here and
  the comparisons are arguments of the definitions that use them.
\<close>

unbundle bit_operations_syntax

section \<open>Data\<close>

datatype spu_addr = Spu_addr nat

record spread_if =
  iftype :: int
  ifaddr :: spu_addr

record proc =
  pr_name :: string
  pr_addr :: spu_addr
  pr_id :: proc_id
  pr_ifc :: "spread_if list"
  pr_seg_index :: int
  pr_index_in_seg :: int

record segment =
  seg_addrs :: "spu_addr list"
  procs :: "proc list"

record configuration =
  hash_code :: "32 word"
  allprocs :: "proc list"
  segments :: "segment list"

datatype port_reuse = PORT_REUSE_AUTO | PORT_REUSE_ON | PORT_REUSE_OFF

abbreviation (input) MAX_PROC_NAME :: nat where "MAX_PROC_NAME \<equiv> 20"
abbreviation (input) MAX_PROCS_SEGMENT :: int where "MAX_PROCS_SEGMENT \<equiv> 128"
abbreviation (input) MAX_SEGMENTS :: int where "MAX_SEGMENTS \<equiv> 20"
abbreviation (input) MAX_PROCS_RING :: int where "MAX_PROCS_RING \<equiv> 128"
abbreviation (input) MAX_REPS :: int where "MAX_REPS \<equiv> 25"
abbreviation (input) MAX_PACKETS_IN_STRUCT :: int where "MAX_PACKETS_IN_STRUCT \<equiv> 8192"
abbreviation (input) PACKET_MASK :: int where "PACKET_MASK \<equiv> 0x00001fff"
abbreviation (input) MAX_SEQ_GAP :: int where "MAX_SEQ_GAP \<equiv> 1600"
abbreviation (input) MAX_EVS_ROUNDS :: int where "MAX_EVS_ROUNDS \<equiv> 500"
abbreviation (input) WATER_MARK :: int where "WATER_MARK \<equiv> 500"
abbreviation (input) MAX_WRAP_SEQUENCE_VALUE :: int where "MAX_WRAP_SEQUENCE_VALUE \<equiv> 2 ^ 30"
abbreviation (input) DEFAULT_MAX_SESSION_MESSAGES :: int where "DEFAULT_MAX_SESSION_MESSAGES \<equiv> 1000"

section \<open>Lookups\<close>

definition Conf_proc_ref_by_id_in_conf :: "configuration \<Rightarrow> proc_id \<Rightarrow> int" where
  "Conf_proc_ref_by_id_in_conf config i = find_index (\<lambda>p. pr_id p = i) (allprocs config)"

definition Conf_proc_ref_by_name_in_conf :: "configuration \<Rightarrow> string \<Rightarrow> int" where
  "Conf_proc_ref_by_name_in_conf config n = find_index (\<lambda>p. pr_name p = n) (allprocs config)"

text \<open>The index and the entry that the caller's \<open>proc *p\<close> receives.\<close>

definition Conf_proc_by_id_in_conf :: "configuration \<Rightarrow> proc_id \<Rightarrow> (int \<times> proc) option" where
  "Conf_proc_by_id_in_conf config i =
     (let ret = Conf_proc_ref_by_id_in_conf config i
      in if 0 \<le> ret then Some (ret, allprocs config ! nat ret) else None)"

definition Conf_proc_by_name_in_conf :: "configuration \<Rightarrow> string \<Rightarrow> (int \<times> proc) option" where
  "Conf_proc_by_name_in_conf config n =
     (let ret = Conf_proc_ref_by_name_in_conf config n
      in if 0 \<le> ret then Some (ret, allprocs config ! nat ret) else None)"

definition Conf_id_in_seg :: "segment \<Rightarrow> proc_id \<Rightarrow> int" where
  "Conf_id_in_seg seg i = find_index (\<lambda>p. pr_id p = i) (procs seg)"

definition Conf_id_in_conf :: "configuration \<Rightarrow> proc_id \<Rightarrow> int" where
  "Conf_id_in_conf config i = find_index (\<lambda>seg. 0 \<le> Conf_id_in_seg seg i) (segments config)"

definition Conf_num_procs :: "configuration \<Rightarrow> int" where
  "Conf_num_procs config = foldl (\<lambda>ret seg. ret + int (length (procs seg))) 0 (segments config)"

definition Conf_num_segments :: "configuration \<Rightarrow> int" where
  "Conf_num_segments config = int (length (segments config))"

text \<open>Reading \<open>segments[i]\<close>, which C does not check.\<close>

definition seg_at :: "configuration \<Rightarrow> int \<Rightarrow> segment result" where
  "seg_at config i =
     (if 0 \<le> i \<and> i < int (length (segments config)) then Inr (segments config ! nat i)
      else Inl (Undefined ''segments''))"

text \<open>The scan for the first segment with a member, and its first or last member.\<close>

primrec first_nonempty :: "segment list \<Rightarrow> proc list" where
  "first_nonempty [] = []"
| "first_nonempty (s # ss) = (if procs s \<noteq> [] then procs s else first_nonempty ss)"

definition Conf_leader :: "configuration \<Rightarrow> proc_id result" where
  "Conf_leader config =
     (case first_nonempty (segments config) of
        p # _ \<Rightarrow> Inr (pr_id p)
      | [] \<Rightarrow> Inl (Alarm_exit ''Conf_leader''))"

definition Conf_last :: "configuration \<Rightarrow> proc_id result" where
  "Conf_last config =
     (case first_nonempty (rev (segments config)) of
        [] \<Rightarrow> Inl (Alarm_exit ''Conf_last'')
      | ps \<Rightarrow> Inr (pr_id (last ps)))"

definition Conf_previous :: "proc \<Rightarrow> configuration \<Rightarrow> proc_id result" where
  "Conf_previous My config =
     bind_res (seg_at config (pr_seg_index My)) (\<lambda>my_seg.
       let k = nat (pr_seg_index My);
           index_in_seg = Conf_id_in_seg my_seg (pr_id My)
       in if 0 < index_in_seg then Inr (pr_id (procs my_seg ! nat (index_in_seg - 1)))
          else (case first_nonempty (rev (take k (segments config))) of
                  p # ps \<Rightarrow> Inr (pr_id (last (p # ps)))
                | [] \<Rightarrow>
                  (case first_nonempty (rev (drop k (segments config))) of
                     p # ps \<Rightarrow> Inr (pr_id (last (p # ps)))
                   | [] \<Rightarrow> Inl (Alarm_exit ''Conf_previous''))))"

definition Conf_seg_leader :: "configuration \<Rightarrow> int \<Rightarrow> proc_id result" where
  "Conf_seg_leader config i =
     bind_res (seg_at config i) (\<lambda>seg.
       case procs seg of
         p # _ \<Rightarrow> Inr (pr_id p)
       | [] \<Rightarrow> Inl (Alarm_exit ''Conf_seg_leader''))"

definition Conf_seg_last :: "configuration \<Rightarrow> int \<Rightarrow> proc_id result" where
  "Conf_seg_last config i =
     bind_res (seg_at config i) (\<lambda>seg.
       if procs seg \<noteq> [] then Inr (pr_id (procs seg ! (length (procs seg) - 1)))
       else Inl (Alarm_exit ''Conf_seg_last''))"

definition Conf_num_procs_in_seg :: "configuration \<Rightarrow> int \<Rightarrow> int result" where
  "Conf_num_procs_in_seg config i =
     bind_res (seg_at config i) (\<lambda>seg. Inr (int (length (procs seg))))"

text \<open>
  Appending a configured daemon to a segment of a membership; the second component is the
  function's return value. \<open>Config\<close> is the loaded configuration.
\<close>

definition Conf_append_id_to_seg :: "configuration \<Rightarrow> segment \<Rightarrow> proc_id \<Rightarrow> segment \<times> int" where
  "Conf_append_id_to_seg Config seg i =
     (case Conf_proc_by_id_in_conf Config i of
        Some (_, p) \<Rightarrow> (seg\<lparr> procs := procs seg @ [p] \<rparr>, 0)
      | None \<Rightarrow> (seg, - 1))"

text \<open>
  \<open>Conf_config_copy\<close> copies the table and finds each member of a segment again in the
  copied table; a member that is not in the table fails an \<open>assert\<close>.
\<close>

definition Conf_config_copy :: "configuration \<Rightarrow> configuration result" where
  "Conf_config_copy src =
     bind_res
       (fold_res (\<lambda>seg acc.
          bind_res
            (fold_res (\<lambda>q ps.
               case Conf_proc_by_id_in_conf src (pr_id q) of
                 None \<Rightarrow> Inl (Alarm_exit ''Conf_config_copy'')
               | Some (_, p) \<Rightarrow> Inr (ps @ [p])) (procs seg) [])
            (\<lambda>ps. Inr (acc @ [seg\<lparr> procs := ps \<rparr>])))
          (segments src) [])
       (\<lambda>segs. Inr (src\<lparr> segments := segs \<rparr>))"

text \<open>
  \<open>stdhcode_oaat\<close> is the hash of another library; \<open>tlen\<close> counts the terminating null.
\<close>

definition Conf_str_to_id :: "(string \<Rightarrow> 32 word) \<Rightarrow> string \<Rightarrow> proc_id result" where
  "Conf_str_to_id oaat str =
     (let tlen = length str + 1;
          ret = oaat str;
          ret = (if ret = 0 \<or> ret = - 1
                 then let r = push_bit 16 (of_nat tlen) in if r = 0 then push_bit 16 1 else r
                 else ret)
      in if ret = 0 \<or> ret = - 1 then Inl (Alarm_exit ''Conf_str_to_id'') else Inr ret)"

section \<open>Settings\<close>

text \<open>
  The static variables of \<open>configuration.c\<close>. \<open>My\<close> is this daemon's entry; each of the other
  files keeps a copy of it that is refreshed at every reload, so one field serves them all.
\<close>

record conf_state =
  Config :: configuration
  My :: proc
  EnableDangerousMonitor :: bool
  SocketPortReuse :: port_reuse
  RuntimeDir :: "string option"
  User :: "string option"
  Group :: "string option"
  MaxSessionMessages :: int
  C_Window :: int
  C_PersonalWindow :: int
  C_AcceleratedRingFlag :: bool
  C_AcceleratedRing :: bool
  C_AcceleratedWindow :: int
  TimeoutMask :: "32 word"
  TokenTimeout :: int
  HurryTimeout :: int
  AliveTimeout :: int
  JoinTimeout :: int
  RepTimeout :: int
  SegTimeout :: int
  GatherTimeout :: int
  FormTimeout :: int
  LookupTimeout :: int
  WideAreaNetworkFlag :: bool
  WideAreaNetwork :: bool
  ExcludeSegAddrsFromHash :: bool
  IgnoreMulticastJoinErrors :: bool
  Conf_Reload_State :: bool
  Conf_Reload_Singleton_State :: bool
  Conf_Active_IP_Version :: int

definition Conf_in_reload_singleton_state :: "conf_state \<Rightarrow> bool" where
  "Conf_in_reload_singleton_state c = Conf_Reload_Singleton_State c"

definition Conf_reload_singleton_state_begin :: "conf_state \<Rightarrow> conf_state" where
  "Conf_reload_singleton_state_begin c = c\<lparr> Conf_Reload_Singleton_State := True \<rparr>"

definition Conf_reload_singleton_state_end :: "conf_state \<Rightarrow> conf_state" where
  "Conf_reload_singleton_state_end c = c\<lparr> Conf_Reload_Singleton_State := False \<rparr>"

definition Conf_set_dangerous_monitor_state :: "bool \<Rightarrow> conf_state \<Rightarrow> conf_state" where
  "Conf_set_dangerous_monitor_state s c = c\<lparr> EnableDangerousMonitor := s \<rparr>"

definition Conf_set_port_reuse_type :: "port_reuse \<Rightarrow> conf_state \<Rightarrow> conf_state" where
  "Conf_set_port_reuse_type s c = c\<lparr> SocketPortReuse := s \<rparr>"

text \<open>A null or empty value is ignored; one that is too long ends the process.\<close>

definition set_param_if_valid :: "string option \<Rightarrow> string option \<Rightarrow> nat \<Rightarrow> string option result" where
  "set_param_if_valid param val max_value_len =
     (case val of
        None \<Rightarrow> Inr param
      | Some v \<Rightarrow>
          if v = [] then Inr param
          else guard_res (max_value_len < length v) (Alarm_exit ''set_param_if_valid'')
                 (Inr (Some v)))"

definition Conf_set_user :: "string option \<Rightarrow> conf_state \<Rightarrow> conf_state result" where
  "Conf_set_user u c =
     bind_res (set_param_if_valid (User c) u 32) (\<lambda>p. Inr (c\<lparr> User := p \<rparr>))"

definition Conf_set_group :: "string option \<Rightarrow> conf_state \<Rightarrow> conf_state result" where
  "Conf_set_group g c =
     bind_res (set_param_if_valid (Group c) g 32) (\<lambda>p. Inr (c\<lparr> Group := p \<rparr>))"

text \<open>\<open>MAXPATHLEN\<close> is the system's.\<close>

definition Conf_set_runtime_dir :: "nat \<Rightarrow> string option \<Rightarrow> conf_state \<Rightarrow> conf_state result" where
  "Conf_set_runtime_dir maxpathlen dir c =
     bind_res (set_param_if_valid (RuntimeDir c) dir maxpathlen) (\<lambda>p. Inr (c\<lparr> RuntimeDir := p \<rparr>))"

definition Conf_get_runtime_dir :: "conf_state \<Rightarrow> string" where
  "Conf_get_runtime_dir c = (case RuntimeDir c of Some d \<Rightarrow> d | None \<Rightarrow> ''/var/run/spread'')"

definition Conf_get_user :: "conf_state \<Rightarrow> string" where
  "Conf_get_user c = (case User c of Some u \<Rightarrow> u | None \<Rightarrow> ''spread'')"

definition Conf_get_group :: "conf_state \<Rightarrow> string" where
  "Conf_get_group c = (case Group c of Some g \<Rightarrow> g | None \<Rightarrow> ''spread'')"

definition Conf_set_max_session_messages :: "int \<Rightarrow> conf_state \<Rightarrow> conf_state" where
  "Conf_set_max_session_messages m c =
     c\<lparr> MaxSessionMessages := (if m < 0 then DEFAULT_MAX_SESSION_MESSAGES else m) \<rparr>"

text \<open>\<open>af_inet\<close> and \<open>af_inet6\<close> are the system's constants.\<close>

definition Conf_set_active_ip_version :: "int \<Rightarrow> int \<Rightarrow> int \<Rightarrow> conf_state \<Rightarrow> conf_state result" where
  "Conf_set_active_ip_version af_inet af_inet6 ipver c =
     guard_res (Conf_Active_IP_Version c \<noteq> - 1 \<and> ipver \<noteq> Conf_Active_IP_Version c)
       (Alarm_exit ''Conf_set_active_ip_version'')
       (if ipver = af_inet \<or> ipver = af_inet6 then Inr (c\<lparr> Conf_Active_IP_Version := ipver \<rparr>)
        else Inl (Alarm_exit ''Conf_set_active_ip_version''))"

definition Conf_set_window :: "int \<Rightarrow> conf_state \<Rightarrow> conf_state result" where
  "Conf_set_window w c =
     guard_res (w \<le> 0) (Alarm_exit ''Conf_set_window'') (Inr (c\<lparr> C_Window := w \<rparr>))"

definition Conf_set_personal_window :: "int \<Rightarrow> conf_state \<Rightarrow> conf_state result" where
  "Conf_set_personal_window w c =
     guard_res (w \<le> 0) (Alarm_exit ''Conf_set_personal_window'')
       (Inr (c\<lparr> C_PersonalWindow := w \<rparr>))"

definition Conf_set_accelerated_ring_flag :: "bool \<Rightarrow> conf_state \<Rightarrow> conf_state" where
  "Conf_set_accelerated_ring_flag b c = c\<lparr> C_AcceleratedRingFlag := b \<rparr>"

definition Conf_set_accelerated_ring :: "bool \<Rightarrow> conf_state \<Rightarrow> conf_state" where
  "Conf_set_accelerated_ring b c = c\<lparr> C_AcceleratedRing := b \<rparr>"

definition Conf_set_accelerated_window :: "int \<Rightarrow> conf_state \<Rightarrow> conf_state result" where
  "Conf_set_accelerated_window w c =
     guard_res (w < 0) (Alarm_exit ''Conf_set_accelerated_window'')
       (Inr (c\<lparr> C_AcceleratedWindow := w \<rparr>))"

abbreviation (input) TOKEN_TIMEOUT_CONF :: "32 word" where "TOKEN_TIMEOUT_CONF \<equiv> push_bit 0 1"
abbreviation (input) HURRY_TIMEOUT_CONF :: "32 word" where "HURRY_TIMEOUT_CONF \<equiv> push_bit 1 1"
abbreviation (input) ALIVE_TIMEOUT_CONF :: "32 word" where "ALIVE_TIMEOUT_CONF \<equiv> push_bit 2 1"
abbreviation (input) JOIN_TIMEOUT_CONF :: "32 word" where "JOIN_TIMEOUT_CONF \<equiv> push_bit 3 1"
abbreviation (input) REP_TIMEOUT_CONF :: "32 word" where "REP_TIMEOUT_CONF \<equiv> push_bit 4 1"
abbreviation (input) SEG_TIMEOUT_CONF :: "32 word" where "SEG_TIMEOUT_CONF \<equiv> push_bit 5 1"
abbreviation (input) GATHER_TIMEOUT_CONF :: "32 word" where "GATHER_TIMEOUT_CONF \<equiv> push_bit 6 1"
abbreviation (input) FORM_TIMEOUT_CONF :: "32 word" where "FORM_TIMEOUT_CONF \<equiv> push_bit 7 1"
abbreviation (input) LOOKUP_TIMEOUT_CONF :: "32 word" where "LOOKUP_TIMEOUT_CONF \<equiv> push_bit 8 1"
abbreviation (input) ALL_TIMEOUT_CONF :: "32 word" where "ALL_TIMEOUT_CONF \<equiv> 0x1FF"

definition Conf_set_token_timeout :: "int \<Rightarrow> conf_state \<Rightarrow> conf_state result" where
  "Conf_set_token_timeout t c =
     guard_res (t \<le> 0) (Alarm_exit ''Conf_set_token_timeout'')
       (Inr (c\<lparr> TimeoutMask := TimeoutMask c OR TOKEN_TIMEOUT_CONF, TokenTimeout := t \<rparr>))"

definition Conf_set_hurry_timeout :: "int \<Rightarrow> conf_state \<Rightarrow> conf_state result" where
  "Conf_set_hurry_timeout t c =
     guard_res (t \<le> 0) (Alarm_exit ''Conf_set_hurry_timeout'')
       (Inr (c\<lparr> TimeoutMask := TimeoutMask c OR HURRY_TIMEOUT_CONF, HurryTimeout := t \<rparr>))"

definition Conf_set_alive_timeout :: "int \<Rightarrow> conf_state \<Rightarrow> conf_state result" where
  "Conf_set_alive_timeout t c =
     guard_res (t \<le> 0) (Alarm_exit ''Conf_set_alive_timeout'')
       (Inr (c\<lparr> TimeoutMask := TimeoutMask c OR ALIVE_TIMEOUT_CONF, AliveTimeout := t \<rparr>))"

definition Conf_set_join_timeout :: "int \<Rightarrow> conf_state \<Rightarrow> conf_state result" where
  "Conf_set_join_timeout t c =
     guard_res (t \<le> 0) (Alarm_exit ''Conf_set_join_timeout'')
       (Inr (c\<lparr> TimeoutMask := TimeoutMask c OR JOIN_TIMEOUT_CONF, JoinTimeout := t \<rparr>))"

definition Conf_set_rep_timeout :: "int \<Rightarrow> conf_state \<Rightarrow> conf_state result" where
  "Conf_set_rep_timeout t c =
     guard_res (t \<le> 0) (Alarm_exit ''Conf_set_rep_timeout'')
       (Inr (c\<lparr> TimeoutMask := TimeoutMask c OR REP_TIMEOUT_CONF, RepTimeout := t \<rparr>))"

definition Conf_set_seg_timeout :: "int \<Rightarrow> conf_state \<Rightarrow> conf_state result" where
  "Conf_set_seg_timeout t c =
     guard_res (t \<le> 0) (Alarm_exit ''Conf_set_seg_timeout'')
       (Inr (c\<lparr> TimeoutMask := TimeoutMask c OR SEG_TIMEOUT_CONF, SegTimeout := t \<rparr>))"

definition Conf_set_gather_timeout :: "int \<Rightarrow> conf_state \<Rightarrow> conf_state result" where
  "Conf_set_gather_timeout t c =
     guard_res (t \<le> 0) (Alarm_exit ''Conf_set_gather_timeout'')
       (Inr (c\<lparr> TimeoutMask := TimeoutMask c OR GATHER_TIMEOUT_CONF, GatherTimeout := t \<rparr>))"

definition Conf_set_form_timeout :: "int \<Rightarrow> conf_state \<Rightarrow> conf_state result" where
  "Conf_set_form_timeout t c =
     guard_res (t \<le> 0) (Alarm_exit ''Conf_set_form_timeout'')
       (Inr (c\<lparr> TimeoutMask := TimeoutMask c OR FORM_TIMEOUT_CONF, FormTimeout := t \<rparr>))"

definition Conf_set_lookup_timeout :: "int \<Rightarrow> conf_state \<Rightarrow> conf_state result" where
  "Conf_set_lookup_timeout t c =
     guard_res (t \<le> 0) (Alarm_exit ''Conf_set_lookup_timeout'')
       (Inr (c\<lparr> TimeoutMask := TimeoutMask c OR LOOKUP_TIMEOUT_CONF, LookupTimeout := t \<rparr>))"

definition Conf_memb_timeouts_set :: "conf_state \<Rightarrow> bool" where
  "Conf_memb_timeouts_set c \<longleftrightarrow> TimeoutMask c \<noteq> 0"

definition Conf_all_memb_timeouts_set :: "conf_state \<Rightarrow> bool" where
  "Conf_all_memb_timeouts_set c \<longleftrightarrow> TimeoutMask c = ALL_TIMEOUT_CONF"

definition Conf_set_wide_area_network_flag :: "bool \<Rightarrow> conf_state \<Rightarrow> conf_state" where
  "Conf_set_wide_area_network_flag b c = c\<lparr> WideAreaNetworkFlag := b \<rparr>"

definition Conf_set_wide_area_network :: "bool \<Rightarrow> conf_state \<Rightarrow> conf_state" where
  "Conf_set_wide_area_network b c = c\<lparr> WideAreaNetwork := b \<rparr>"

definition Conf_set_exclude_seg_addrs_from_hash :: "bool \<Rightarrow> conf_state \<Rightarrow> conf_state" where
  "Conf_set_exclude_seg_addrs_from_hash b c = c\<lparr> ExcludeSegAddrsFromHash := b \<rparr>"

definition Conf_set_ignore_multicast_join_errors :: "bool \<Rightarrow> conf_state \<Rightarrow> conf_state" where
  "Conf_set_ignore_multicast_join_errors b c = c\<lparr> IgnoreMulticastJoinErrors := b \<rparr>"

section \<open>Reloading\<close>

text \<open>
  The operations on addresses that the comparison of two configurations uses: \<open>ip_cmp\<close> is
  \<open>spu_addr_ip_cmp(_, _, TRUE)\<close> (true when the addresses differ), \<open>scope\<close> the scope id of
  an IPv6 address and \<open>None\<close> for another family.
\<close>

record addr_ops =
  ip_cmp :: "spu_addr \<Rightarrow> spu_addr \<Rightarrow> bool"
  scope :: "spu_addr \<Rightarrow> nat option"

definition addr_changed :: "addr_ops \<Rightarrow> bool \<Rightarrow> spu_addr \<Rightarrow> spu_addr \<Rightarrow> bool" where
  "addr_changed ao me na oa \<longleftrightarrow>
     ip_cmp ao na oa \<or> (me \<and> scope ao na \<noteq> None \<and> scope ao na \<noteq> scope ao oa)"

text \<open>
  \<open>Conf_daemon_changed\<close>: whether a daemon has other parameters in the new configuration.
  When the daemon is this one (\<open>me\<close>) a difference ends the process.
\<close>

definition Conf_daemon_changed ::
    "addr_ops \<Rightarrow> proc \<Rightarrow> segment \<Rightarrow> proc \<Rightarrow> segment \<Rightarrow> bool \<Rightarrow> bool result" where
  "Conf_daemon_changed ao np np_seg op op_seg me =
     (let differs =
        (take MAX_PROC_NAME (pr_name np) \<noteq> take MAX_PROC_NAME (pr_name op) \<or>
         ip_cmp ao (pr_addr np) (pr_addr op) \<or> pr_id np \<noteq> pr_id op \<or>
         length (pr_ifc np) \<noteq> length (pr_ifc op)) \<or>
        list_ex (\<lambda>(ni, oi). iftype ni \<noteq> iftype oi \<or> addr_changed ao me (ifaddr ni) (ifaddr oi))
          (zip (pr_ifc np) (pr_ifc op)) \<or>
        length (seg_addrs np_seg) \<noteq> length (seg_addrs op_seg) \<or>
        list_ex (\<lambda>(na, oa). addr_changed ao me na oa) (zip (seg_addrs np_seg) (seg_addrs op_seg))
      in if differs \<and> me then Inl (Alarm_exit ''Conf_daemon_changed'') else Inr differs)"

text \<open>
  \<open>Conf_reload_initiate\<close>: the argument \<open>loaded\<close> is what the parser made of the new file, the
  configuration and this daemon's entry. The loop over the new daemons stops at the first
  that is not the same daemon as before; the result says whether the ring has to fall apart
  into singletons.
\<close>

definition reload_check ::
    "addr_ops \<Rightarrow> configuration \<Rightarrow> configuration \<Rightarrow> proc \<Rightarrow> bool \<Rightarrow> bool ctl result" where
  "reload_check ao prev new np need =
     (let ix1 = Conf_proc_ref_by_name_in_conf prev (pr_name np);
          ix2 = Conf_proc_ref_by_id_in_conf prev (pr_id np)
      in if ix1 < 0 \<and> ix2 < 0 then Inr (Continue need)
         else if ix1 \<noteq> ix2 then Inr (Break True)
         else let op = allprocs prev ! nat ix1 in
           bind_res (seg_at new (pr_seg_index np)) (\<lambda>np_seg.
           bind_res (seg_at prev (pr_seg_index op)) (\<lambda>op_seg.
           bind_res (Conf_daemon_changed ao np np_seg op op_seg False) (\<lambda>b.
             Inr (if b then Break True else Continue False)))))"

definition Conf_reload_initiate ::
    "addr_ops \<Rightarrow> configuration \<times> proc \<Rightarrow> conf_state \<Rightarrow> (bool \<times> conf_state) result" where
  "Conf_reload_initiate ao loaded c =
     bind_res (Conf_config_copy (Config c)) (\<lambda>prev.
     case Conf_proc_by_id_in_conf prev (pr_id (My c)) of
       None \<Rightarrow> Inl (Alarm_exit ''Conf_reload_initiate'')
     | Some (_, op) \<Rightarrow>
       let c' = c\<lparr> Config := fst loaded, My := snd loaded \<rparr> in
       (case Conf_proc_by_id_in_conf (Config c') (pr_id (My c')) of
          None \<Rightarrow> Inl (Alarm_exit ''Conf_reload_initiate'')
        | Some (_, np) \<Rightarrow>
          bind_res (seg_at (Config c') (pr_seg_index np)) (\<lambda>np_seg.
          bind_res (seg_at prev (pr_seg_index op)) (\<lambda>op_seg.
          bind_res (Conf_daemon_changed ao np np_seg op op_seg True) (\<lambda>_.
          bind_res (fold_ctl (reload_check ao prev (Config c')) (allprocs (Config c')) False)
            (\<lambda>need. Inr (need, c')))))))"

text \<open>
  Matching this daemon to an entry of the file (\<open>Conf_load_conf_file\<close>): by the name given on
  the command line, cut to \<open>MAX_PROC_NAME - 1\<close> characters, or by the first entry one of the
  machine's addresses \<open>ips\<close> belongs to; \<open>ip_differs\<close> is \<open>spu_addr_ip_cmp(_, _, FALSE)\<close>. In
  both cases the chosen address must be one of the machine's.
\<close>

definition Conf_match_my ::
    "(spu_addr \<Rightarrow> spu_addr \<Rightarrow> bool) \<Rightarrow> spu_addr list \<Rightarrow> configuration \<Rightarrow> string option \<Rightarrow> proc result" where
  "Conf_match_my ip_differs ips config my_name =
     bind_res
       (case my_name of
          None \<Rightarrow>
            (case find (\<lambda>p. list_ex (\<lambda>ip. \<not> ip_differs (pr_addr p) ip) ips) (allprocs config) of
               Some p \<Rightarrow> Inr p
             | None \<Rightarrow> Inl (Alarm_exit ''Conf_load_conf_file''))
        | Some n \<Rightarrow>
            (case Conf_proc_by_name_in_conf config (take (MAX_PROC_NAME - 1) n) of
               Some (_, p) \<Rightarrow> Inr p
             | None \<Rightarrow> Inl (Alarm_exit ''Conf_load_conf_file'')))
       (\<lambda>p. if list_ex (\<lambda>ip. \<not> ip_differs (pr_addr p) ip) ips then Inr p
            else Inl (Alarm_exit ''Conf_load_conf_file''))"

end
