(* ===== verification/Conf_Ring.thy ===== *)
theory Conf_Ring
  imports Configuration
begin

text \<open>
  What the lookups of \<open>configuration.c\<close> promise, stated on the abstract view of a
  configuration: its members in ring order. The token visits the daemons in this order, the
  first is the leader and each receives the token from its cyclic predecessor.
\<close>

definition ring :: "configuration \<Rightarrow> proc list" where
  "ring config = concat (map procs (segments config))"

definition ring_ids :: "configuration \<Rightarrow> proc_id list" where
  "ring_ids config = map pr_id (ring config)"

text \<open>A configuration whose table, segments and index fields agree.\<close>

definition conf_wf :: "configuration \<Rightarrow> bool" where
  "conf_wf config \<longleftrightarrow>
     distinct (map pr_id (allprocs config)) \<and>
     list_all (\<lambda>seg. set (procs seg) \<subseteq> set (allprocs config)) (segments config) \<and>
     distinct (ring_ids config)"

section \<open>First and last\<close>

lemma first_nonempty_concat:
  "first_nonempty ss = [] \<longleftrightarrow> concat (map procs ss) = []"
  "concat (map procs ss) \<noteq> [] \<Longrightarrow> hd (first_nonempty ss) = hd (concat (map procs ss))"
  by (induction ss) auto

lemma first_nonempty_rev_last:
  "concat (map procs ss) \<noteq> [] \<Longrightarrow>
     last (first_nonempty (rev ss)) = last (concat (map procs ss))"
proof (induction ss rule: rev_induct)
  case (snoc s ss)
  then show ?case by (cases "procs s") auto
qed simp

lemma concat_rev_empty: "concat (map procs (rev ss)) = [] \<longleftrightarrow> concat (map procs ss) = []"
  by (auto simp: concat_eq_Nil_conv)

lemma Conf_leader_ring:
  "Conf_leader config =
     (if ring config = [] then Inl (Alarm_exit ''Conf_leader'') else Inr (hd (ring_ids config)))"
proof (cases "first_nonempty (segments config)")
  case Nil
  then show ?thesis
    using first_nonempty_concat(1) [of "segments config"] by (simp add: Conf_leader_def ring_def)
next
  case (Cons p ps)
  then have "concat (map procs (segments config)) \<noteq> []"
    using first_nonempty_concat(1) [of "segments config"] by simp
  then show ?thesis
    using first_nonempty_concat(2) [of "segments config"] Cons
    by (simp add: Conf_leader_def ring_def ring_ids_def hd_map)
qed

lemma Conf_last_ring:
  "Conf_last config =
     (if ring config = [] then Inl (Alarm_exit ''Conf_last'') else Inr (last (ring_ids config)))"
proof (cases "first_nonempty (rev (segments config))")
  case Nil
  then show ?thesis
    using first_nonempty_concat(1) [of "rev (segments config)"]
    by (simp add: Conf_last_def ring_def concat_rev_empty)
next
  case (Cons p ps)
  then have "concat (map procs (segments config)) \<noteq> []"
    using first_nonempty_concat(1) [of "rev (segments config)"] by (simp add: concat_rev_empty)
  then show ?thesis
    using first_nonempty_rev_last [of "segments config"] Cons
    by (simp add: Conf_last_def ring_def ring_ids_def last_map)
qed

section \<open>Positions\<close>

lemma Conf_id_in_seg_mem: "0 \<le> Conf_id_in_seg seg i \<longleftrightarrow> i \<in> pr_id ` set (procs seg)"
  by (auto simp: Conf_id_in_seg_def)

lemma Conf_id_in_conf_mem: "0 \<le> Conf_id_in_conf config i \<longleftrightarrow> i \<in> set (ring_ids config)"
  by (auto simp: Conf_id_in_conf_def Conf_id_in_seg_mem ring_ids_def ring_def)

lemma Conf_id_in_conf_neg: "Conf_id_in_conf config i = - 1 \<longleftrightarrow> i \<notin> set (ring_ids config)"
proof -
  have "Conf_id_in_conf config i = - 1 \<or> 0 \<le> Conf_id_in_conf config i"
    using find_index_range [of "\<lambda>seg. 0 \<le> Conf_id_in_seg seg i" "segments config"]
    unfolding Conf_id_in_conf_def by blast
  then show ?thesis using Conf_id_in_conf_mem [of config i] by auto
qed

lemma Conf_num_procs_ring: "Conf_num_procs config = int (length (ring config))"
proof -
  have "foldl (\<lambda>ret seg. ret + int (length (procs seg))) a ss =
      a + int (length (concat (map procs ss)))" for a and ss :: "segment list"
    by (induction ss arbitrary: a) auto
  then show ?thesis by (simp add: Conf_num_procs_def ring_def)
qed

lemma Conf_proc_by_id_Some:
  assumes "Conf_proc_by_id_in_conf config i = Some (k, p)"
  shows "p \<in> set (allprocs config) \<and> pr_id p = i \<and> 0 \<le> k \<and> k < int (length (allprocs config)) \<and>
    allprocs config ! nat k = p"
proof -
  let ?P = "\<lambda>p. pr_id p = i"
  have k: "k = find_index ?P (allprocs config)" and ge: "0 \<le> k"
    and p: "p = allprocs config ! nat k"
    using assms
    by (auto simp: Conf_proc_by_id_in_conf_def Conf_proc_ref_by_id_in_conf_def Let_def
        simp del: find_index_ge split: if_splits)
  then show ?thesis
    using find_index_sound [of ?P "allprocs config"] by auto
qed

lemma Conf_proc_by_id_None:
  "Conf_proc_by_id_in_conf config i = None \<longleftrightarrow> i \<notin> pr_id ` set (allprocs config)"
  by (auto simp: Conf_proc_by_id_in_conf_def Conf_proc_ref_by_id_in_conf_def Let_def)

lemma Conf_proc_by_id_unique:
  assumes "distinct (map pr_id (allprocs config))" and "p \<in> set (allprocs config)"
  shows "\<exists>k. Conf_proc_by_id_in_conf config (pr_id p) = Some (k, p)"
proof -
  obtain k q where kq: "Conf_proc_by_id_in_conf config (pr_id p) = Some (k, q)"
    using Conf_proc_by_id_None [of config "pr_id p"] assms(2)
    by (metis imageI option.exhaust surj_pair)
  have "q = p"
    using Conf_proc_by_id_Some [OF kq] assms by (auto simp: distinct_map inj_on_def)
  with kq show ?thesis by blast
qed

section \<open>The daemon the token comes from\<close>

text \<open>
  \<open>My\<close> is the daemon at position \<open>length xs\<close> of the ring: the members of the segments before
  its own, then those before it in its segment.
\<close>

lemma find_index_first:
  assumes "\<forall>x \<in> set xs. \<not> P x" and "P y"
  shows "find_index_from i P (xs @ y # ys) = i + int (length xs)"
  using assms by (induction xs arbitrary: i) auto

lemma Conf_id_in_seg_at:
  assumes "procs seg = as @ m # bs" and "pr_id m \<notin> pr_id ` set as"
  shows "Conf_id_in_seg seg (pr_id m) = int (length as)"
proof -
  have "\<forall>x \<in> set as. \<not> pr_id x = pr_id m" using assms(2) by (metis imageI)
  then show ?thesis
    using find_index_first [of as "\<lambda>p. pr_id p = pr_id m" m 0 bs] assms(1)
    by (simp add: Conf_id_in_seg_def)
qed

lemma Conf_previous_pos:
  assumes segs: "segments config = sa @ seg # sb"
    and idx: "pr_seg_index m = int (length sa)"
    and seg: "procs seg = as @ m # bs"
    and fresh: "pr_id m \<notin> pr_id ` set as"
  shows "Conf_previous m config =
    Inr (let pre = concat (map procs sa) @ as
         in if pre \<noteq> [] then pr_id (last pre) else pr_id (last (ring config)))"
proof (cases "as = []")
  case False
  then have "Conf_id_in_seg seg (pr_id m) = int (length as)" and "0 < length as"
    using Conf_id_in_seg_at [OF seg fresh] by auto
  then have "Conf_previous m config = Inr (pr_id ((as @ m # bs) ! (length as - 1)))"
    by (simp add: Conf_previous_def seg_at_def segs idx seg Let_def nat_diff_distrib')
  moreover have "(as @ m # bs) ! (length as - 1) = last as"
    using False by (simp add: nth_append last_conv_nth)
  ultimately have "Conf_previous m config = Inr (pr_id (last as))" by simp
  then show ?thesis using False by (simp add: Let_def)
next
  case True
  then have i0: "Conf_id_in_seg seg (pr_id m) = 0"
    using Conf_id_in_seg_at [OF seg fresh] by simp
  have ne: "concat (map procs (seg # sb)) \<noteq> []" using seg by auto
  have tail: "last (concat (map procs (seg # sb))) = last (ring config)"
    using ne by (simp add: ring_def segs)
  show ?thesis
  proof (cases "first_nonempty (rev sa)")
    case Nil
    then have e: "concat (map procs sa) = []"
      using first_nonempty_concat(1) [of "rev sa"] by (simp add: concat_rev_empty)
    have ne2: "first_nonempty (rev (seg # sb)) \<noteq> []"
      using first_nonempty_concat(1) [of "rev (seg # sb)"] ne concat_rev_empty [of "seg # sb"]
      by simp
    then obtain q qs where q: "first_nonempty (rev (seg # sb)) = q # qs"
      by (cases "first_nonempty (rev (seg # sb))") auto
    have "last (q # qs) = last (ring config)"
      using first_nonempty_rev_last [OF ne] q tail by simp
    then show ?thesis
      using Nil e q i0 True by (simp add: Conf_previous_def seg_at_def segs idx)
  next
    case (Cons q qs)
    then have "concat (map procs sa) \<noteq> []"
      using first_nonempty_concat(1) [of "rev sa"] concat_rev_empty [of sa] by simp
    moreover from this have "last (q # qs) = last (concat (map procs sa))"
      using first_nonempty_rev_last [of sa] Cons by simp
    ultimately show ?thesis
      using Cons i0 True by (simp add: Conf_previous_def seg_at_def segs idx)
  qed
qed

text \<open>The same on positions of the ring, counted modulo its length.\<close>

lemma Conf_previous_ring:
  assumes "segments config = sa @ seg # sb"
    and "pr_seg_index m = int (length sa)"
    and "procs seg = as @ m # bs"
    and "distinct (ring_ids config)"
  defines "k \<equiv> length (concat (map procs sa) @ as)"
  shows "k < length (ring config)" and "ring config ! k = m"
    and "Conf_previous m config =
      Inr (ring_ids config ! ((k + length (ring config) - 1) mod length (ring config)))"
proof -
  let ?pre = "concat (map procs sa) @ as"
  have r: "ring config = ?pre @ m # (bs @ concat (map procs sb))"
    by (simp add: ring_def assms(1,3))
  then show k: "k < length (ring config)" and "ring config ! k = m"
    by (simp_all add: k_def)
  have fresh: "pr_id m \<notin> pr_id ` set as"
    using assms(4) r by (auto simp: ring_ids_def)
  have p: "Conf_previous m config =
      Inr (if ?pre \<noteq> [] then pr_id (last ?pre) else pr_id (last (ring config)))"
    using Conf_previous_pos [OF assms(1-3) fresh] by (simp add: Let_def)
  show "Conf_previous m config =
      Inr (ring_ids config ! ((k + length (ring config) - 1) mod length (ring config)))"
  proof (cases "?pre = []")
    case True
    then have "k = 0" by (simp add: k_def)
    moreover have ne: "ring config \<noteq> []" using k by auto
    moreover from ne have "pr_id (last (ring config)) = ring_ids config ! (length (ring config) - 1)"
      by (simp add: ring_ids_def last_conv_nth)
    ultimately show ?thesis
      using p True by simp
  next
    case False
    then have kpos: "0 < k" by (simp add: k_def)
    then have "(k + length (ring config) - 1) mod length (ring config) = k - 1"
      using k by (metis add.commute add_diff_assoc less_eq_Suc_le less_imp_diff_less mod_add_self1 mod_less One_nat_def)
    moreover have "pr_id (last ?pre) = ring_ids config ! (k - 1)"
    proof -
      have "last ?pre = ?pre ! (k - 1)"
        using False unfolding k_def by (rule last_conv_nth)
      moreover have "ring config ! (k - 1) = ?pre ! (k - 1)"
        using kpos k by (simp add: r nth_append k_def del: append_assoc)
      ultimately show ?thesis
        using k kpos by (simp add: ring_ids_def)
    qed
    ultimately show ?thesis using p False by simp
  qed
qed

section \<open>Copying\<close>

lemma copy_segment:
  assumes "distinct (map pr_id (allprocs config))" and "set ps \<subseteq> set (allprocs config)"
  shows "fold_res (\<lambda>q acc. case Conf_proc_by_id_in_conf config (pr_id q) of
      None \<Rightarrow> Inl e | Some (_, p) \<Rightarrow> Inr (acc @ [p])) ps acc = Inr (acc @ ps)"
  using assms(2)
proof (induction ps arbitrary: acc)
  case (Cons q ps)
  then obtain k where "Conf_proc_by_id_in_conf config (pr_id q) = Some (k, q)"
    using Conf_proc_by_id_unique [OF assms(1), of q] by auto
  with Cons show ?case by simp
qed simp

lemma Conf_config_copy_wf:
  assumes "conf_wf config"
  shows "Conf_config_copy config = Inr config"
proof -
  have d: "distinct (map pr_id (allprocs config))"
    and segs: "\<And>s. s \<in> set (segments config) \<Longrightarrow> set (procs s) \<subseteq> set (allprocs config)"
    using assms by (auto simp: conf_wf_def list_all_iff)
  have "fold_res (\<lambda>seg acc.
          bind_res
            (fold_res (\<lambda>q ps. case Conf_proc_by_id_in_conf config (pr_id q) of
               None \<Rightarrow> Inl (Alarm_exit ''Conf_config_copy'') | Some (_, p) \<Rightarrow> Inr (ps @ [p]))
              (procs seg) [])
            (\<lambda>ps. Inr (acc @ [seg\<lparr> procs := ps \<rparr>]))) ss acc = Inr (acc @ ss)"
    if "set ss \<subseteq> set (segments config)" for ss acc
    using that
  proof (induction ss arbitrary: acc)
    case (Cons s ss)
    then show ?case using copy_segment [OF d segs [of s], of _ "[]"] by simp
  qed simp
  from this [of "segments config" "[]"] show ?thesis
    by (simp add: Conf_config_copy_def)
qed

end
