(* ===== verification/Daemon_State.thy ===== *)
theory Daemon_State
  imports Conf_Ring
begin

text \<open>
  The state of one daemon: the global variables of \<open>prot_body.h\<close> and the static variables of
  \<open>protocol.c\<close>, \<open>membership.c\<close>, \<open>flow_control.c\<close>, \<open>network.c\<close> and \<open>status.c\<close>, one record per
  file, and the calls that leave the modelled code. Those calls go to the event loop
  (\<open>E_queue\<close>, \<open>E_dequeue\<close>, \<open>E_attach_fd\<close>, \<open>E_detach_fd_priority\<close>), to the sockets
  (\<open>DL_sendto_gen\<close>) and up to the session layer (\<open>Sess_*\<close>); each is recorded, in order, in
  the field \<open>out\<close>. Memory management (\<open>new\<close>, \<open>dispose\<close>) and log output are not part of the
  state.
\<close>

section \<open>Messages, packets and queues\<close>

text \<open>An element of a scatter: a buffer and the number of its bytes in use.\<close>

record scat_element =
  se_buf :: "byte list"
  se_len :: int

type_synonym scatter = "scat_element list"

record down_link =
  dl_type :: "32 word"
  dl_mess :: scatter

text \<open>\<open>num_mess\<close> counts the links of the chain that starts at \<open>first\<close>, here \<open>dq_links\<close>.\<close>

record down_queue =
  num_mess :: int
  cur_element :: int
  dq_links :: "down_link list"

datatype queue_type = NORMAL_DOWNQUEUE | GROUPS_DOWNQUEUE

record packet_info =
  pi_head :: packet_header
  pi_body :: "byte list"
  pi_exist :: int
  pi_proc_index :: int

record up_queue =
  uq_exist :: bool
  uq_mess :: scatter

text \<open>A packet handed to the network: header and body.\<close>

type_synonym packet = "packet_header \<times> byte list"

section \<open>Membership data\<close>

datatype memb_state_name = OP | SEG | REPRESENTED | GATHER | FORM | EVS

text \<open>Arrays that are used beyond their first count are total functions on indices.\<close>

record members_info =
  num_members :: int
  num_pending :: int
  members :: "nat \<Rightarrow> proc_id"

datatype rep_type = POTENTIAL_REP | SEG_REP | RING_REP | OTHER_REP int

record rep_info =
  rp_proc_id :: proc_id
  rp_type :: rep_type
  rp_seg_index :: int

record reps_info =
  num_reps :: int
  rep_index :: int
  reps :: "nat \<Rightarrow> rep_info"

text \<open>
  What a form token says of one old ring. The counts \<open>num_holes\<close> and \<open>num_commit\<close> of the code
  are the lengths of the two arrays that follow the structure.
\<close>

record ring_info =
  rg_memb_id :: membership_id
  rg_trans_time :: int
  rg_aru :: int
  rg_highest_seq :: int
  rg_num_trans :: int
  rg_holes :: "int list"
  rg_procs :: "proc_id list"

type_synonym sp_time = "int \<times> int"

section \<open>Calls that leave the modelled code\<close>

datatype event =
    Memb_token_loss_event | Prot_token_hurry_event | Send_join_event | Form_or_fail_event
  | Memb_lookup_new_members_event | Scast_alive_event | Gather_or_represented_event
  | Shift_to_seg_event | Prot_initiate_conf_reload_event
  | Deliver_all_reliable_packets_event | Deliver_agreed_packets_event | Clear_partition_cb

datatype fd_handler = H_Prot_handle_bcast | H_Prot_handle_token

datatype priority = MEDIUM_PRIORITY | HIGH_PRIORITY

text \<open>A token goes to the port after the data port of its destination.\<close>

datatype dest = Data_port spu_addr | Token_port spu_addr

text \<open>
  The body of a packet as the handler of its type reads it: bytes for a regular packet,
  member and representative lists for alive and join packets, arrays of 16-bit numbers for
  the monitor's partition and flow control requests.
\<close>

datatype payload =
    Bytes "byte list"
  | Alive_body members_info
  | Join_body members_info reps_info
  | Partition_body "nat \<Rightarrow> int"
  | FC_body "nat \<Rightarrow> int \<times> int"
  | No_body

text \<open>
  The body of a token: requests for retransmission, or the lists of a form token, whose two
  kinds differ in their second part.
\<close>

datatype token_payload =
    Requests "ring_rtr list"
  | Form1_body members_info reps_info "ring_info list"
  | Form2_body members_info membership_id "ring_info list"

text \<open>A datagram as \<open>DL_recvfrom_gen\<close> returns it: its size, source, header and body.\<close>

record in_packet =
  in_bytes :: int
  in_src :: spu_addr
  in_head :: packet_header
  in_body :: payload

record in_token =
  it_bytes :: int
  it_src :: spu_addr
  it_head :: token_header
  it_body :: token_payload

datatype effect =
    DL_sendto_packet dest packet_header payload
  | DL_sendto_token dest token_header token_payload
  | E_queue event sp_time
  | E_dequeue event
  | E_attach_fd int fd_handler priority
  | E_detach_fd int priority
  | Sess_deliver_message scatter
  | Sess_deliver_trans_memb configuration membership_id
  | Sess_deliver_reg_memb configuration membership_id
  | Sess_block_users_level
  | Sess_unblock_users_level
  | Sess_signal_conf_reload
  | Log_membership
  | Stat_report spu_addr int

section \<open>The records\<close>

record status =
  g_state :: memb_state_name
  g_gstate :: int
  g_packet_sent :: int
  g_packet_recv :: int
  g_packet_delivered :: int
  g_retrans :: int
  g_u_retrans :: int
  g_s_retrans :: int
  g_b_retrans :: int
  g_aru :: int
  g_my_aru :: int
  g_highest_seq :: int
  g_token_hurry :: int
  g_token_rounds :: int
  g_my_id :: proc_id
  g_leader_id :: proc_id
  g_membership_changes :: int
  g_num_procs :: int
  g_num_segments :: int
  g_window :: int
  g_personal_window :: int
  g_accelerated_ring :: bool
  g_accelerated_window :: int

record prot_state =
  Protocol_down_queue :: "queue_type \<Rightarrow> down_queue"
  Down_queue_ptr :: queue_type
  Up_queue :: "nat \<Rightarrow> up_queue"
  Packets :: "nat \<Rightarrow> packet_info"
  Aru :: int
  My_aru :: int
  Highest_seq :: int
  Highest_fifo_seq :: int
  Last_discarded :: int
  Last_delivered :: int
  Last_seq :: int
  Token_rounds :: int
  Received_token_rounds :: int
  Last_token :: token_header
  Transitional :: bool
  Trans_membership :: configuration
  Commit_membership :: configuration
  Reg_membership :: configuration
  Last_num_retrans :: int
  Last_num_sent :: int
  Token_timeout :: sp_time
  Hurry_timeout :: sp_time
  Alive_timeout :: sp_time
  Join_timeout :: sp_time
  Rep_timeout :: sp_time
  Seg_timeout :: sp_time
  Gather_timeout :: sp_time
  Form_timeout :: sp_time
  Lookup_timeout :: sp_time
  Wide_network :: bool
  My_index :: int
  Prev_proc_id :: proc_id
  Token_has_priority :: bool
  Token_counter :: int
  Send_pack_queue :: "packet list"
  Prot_Need_Conf_Reload :: bool
  Prot_delivery_threshold :: "32 word"

record memb_state =
  Memb_Just_Installed :: bool
  Membership :: configuration
  Membership_id :: membership_id
  Future_membership :: configuration
  Future_membership_id :: membership_id
  Form1_memb_id :: membership_id
  Trans_memb_id :: membership_id
  F_trans_memb_time :: int
  Last_time_used :: int
  State :: memb_state_name
  Token_alive :: bool
  My_seg_rep :: proc_id
  Foreign_found :: bool
  F_members :: members_info
  F_reps :: reps_info
  Potential_reps :: reps_info
  Commit_set :: members_info
  Future_commit_set :: members_info

record fc_state =
  Window :: int
  Personal_window :: int
  Accelerated_window :: int
  Accelerated_ring :: bool

record net_state =
  Bcast_needed :: int
  Bcast_addrs :: "spu_addr list"
  Send_addrs :: "spu_addr list"
  Token_addr :: spu_addr
  Net_membership :: configuration
  Segment_leader :: bool
  Partition :: "nat \<Rightarrow> int"
  Partition_my_index :: int
  Bcast_channels :: "int list"
  Token_channels :: "int list"

text \<open>
  \<open>Bcast_needed\<close> is \<open>-1\<close> until the configuration is first read. The token goes to the port
  after the data port of \<open>Token_addr\<close>. \<open>Bcast_addrs\<close> and \<open>Send_addrs\<close> hold the used part of
  their arrays.

  What other libraries decide: the link layer's \<open>MAX_PACKET_SIZE\<close> and the return codes of the
  event loop's \<open>E_detach_fd_priority\<close> and \<open>E_attach_fd\<close>.
\<close>

record env_state =
  MAX_PACKET_SIZE :: int
  detach_ret :: "int \<Rightarrow> priority \<Rightarrow> int"
  attach_ret :: "int \<Rightarrow> priority \<Rightarrow> int"

record daemon =
  conf :: conf_state
  prot :: prot_state
  memb :: memb_state
  fc :: fc_state
  net :: net_state
  stat :: status
  env :: env_state
  out :: "effect list"

abbreviation sizeof_packet_body :: "daemon \<Rightarrow> int" where
  "sizeof_packet_body d \<equiv> MAX_PACKET_SIZE (env d) - sizeof_packet_header"

definition emit :: "effect \<Rightarrow> daemon \<Rightarrow> daemon" where
  "emit e d = d\<lparr> out := out d @ [e] \<rparr>"

definition upd_prot :: "(prot_state \<Rightarrow> prot_state) \<Rightarrow> daemon \<Rightarrow> daemon" where
  "upd_prot f d = d\<lparr> prot := f (prot d) \<rparr>"

definition upd_memb :: "(memb_state \<Rightarrow> memb_state) \<Rightarrow> daemon \<Rightarrow> daemon" where
  "upd_memb f d = d\<lparr> memb := f (memb d) \<rparr>"

definition upd_net :: "(net_state \<Rightarrow> net_state) \<Rightarrow> daemon \<Rightarrow> daemon" where
  "upd_net f d = d\<lparr> net := f (net d) \<rparr>"

definition upd_stat :: "(status \<Rightarrow> status) \<Rightarrow> daemon \<Rightarrow> daemon" where
  "upd_stat f d = d\<lparr> stat := f (stat d) \<rparr>"

lemma emit_simps [simp]:
  "conf (emit e d) = conf d" "prot (emit e d) = prot d" "memb (emit e d) = memb d"
  "fc (emit e d) = fc d" "net (emit e d) = net d" "stat (emit e d) = stat d"
  "env (emit e d) = env d" "out (emit e d) = out d @ [e]"
  by (simp_all add: emit_def)

lemma upd_prot_simps [simp]:
  "conf (upd_prot f d) = conf d" "prot (upd_prot f d) = f (prot d)" "memb (upd_prot f d) = memb d"
  "fc (upd_prot f d) = fc d" "net (upd_prot f d) = net d" "stat (upd_prot f d) = stat d"
  "env (upd_prot f d) = env d" "out (upd_prot f d) = out d"
  by (simp_all add: upd_prot_def)

lemma upd_memb_simps [simp]:
  "conf (upd_memb f d) = conf d" "prot (upd_memb f d) = prot d" "memb (upd_memb f d) = f (memb d)"
  "fc (upd_memb f d) = fc d" "net (upd_memb f d) = net d" "stat (upd_memb f d) = stat d"
  "env (upd_memb f d) = env d" "out (upd_memb f d) = out d"
  by (simp_all add: upd_memb_def)

lemma upd_net_simps [simp]:
  "conf (upd_net f d) = conf d" "prot (upd_net f d) = prot d" "memb (upd_net f d) = memb d"
  "fc (upd_net f d) = fc d" "net (upd_net f d) = f (net d)" "stat (upd_net f d) = stat d"
  "env (upd_net f d) = env d" "out (upd_net f d) = out d"
  by (simp_all add: upd_net_def)

lemma upd_stat_simps [simp]:
  "conf (upd_stat f d) = conf d" "prot (upd_stat f d) = prot d" "memb (upd_stat f d) = memb d"
  "fc (upd_stat f d) = fc d" "net (upd_stat f d) = net d" "stat (upd_stat f d) = f (stat d)"
  "env (upd_stat f d) = env d" "out (upd_stat f d) = out d"
  by (simp_all add: upd_stat_def)

section \<open>The packet array\<close>

text \<open>\<open>i & PACKET_MASK\<close>, the entry of \<open>Packets\<close> that holds sequence number \<open>i\<close>.\<close>

definition slot :: "int \<Rightarrow> nat" where
  "slot i = nat (i AND PACKET_MASK)"

definition pkt :: "prot_state \<Rightarrow> int \<Rightarrow> packet_info" where
  "pkt p i = Packets p (slot i)"

definition set_pkt :: "int \<Rightarrow> packet_info \<Rightarrow> prot_state \<Rightarrow> prot_state" where
  "set_pkt i x p = p\<lparr> Packets := (Packets p)(slot i := x) \<rparr>"

definition set_exist :: "int \<Rightarrow> int \<Rightarrow> prot_state \<Rightarrow> prot_state" where
  "set_exist i e p = set_pkt i ((pkt p i)\<lparr> pi_exist := e \<rparr>) p"

abbreviation exist :: "prot_state \<Rightarrow> int \<Rightarrow> int" where
  "exist p i \<equiv> pi_exist (pkt p i)"

lemma slot_mod: "slot i = nat (i mod 8192)"
proof -
  have "i AND PACKET_MASK = take_bit 13 i"
    by (simp add: take_bit_eq_mask mask_eq_exp_minus_1)
  then show ?thesis by (simp add: slot_def take_bit_eq_mod)
qed

lemma slot_less: "slot i < 8192"
  by (simp add: slot_mod nat_less_iff)

text \<open>Sequence numbers less than a window apart have different entries.\<close>

lemma slot_inj:
  assumes "a < i" "i \<le> a + 8192" "a < j" "j \<le> a + 8192" "slot i = slot j"
  shows "i = j"
proof -
  have "i mod 8192 = j mod 8192"
    using assms(5) by (simp add: slot_mod)
  then have "8192 dvd i - j"
    by (simp add: mod_eq_dvd_iff)
  moreover have "\<bar>i - j\<bar> < 8192"
    using assms(1-4) by linarith
  ultimately show ?thesis
    by (metis abs_of_nonneg dvd_imp_le_int eq_iff_diff_eq_0 linorder_not_less zero_le_numeral)
qed

lemma pkt_set_pkt: "pkt (set_pkt i x p) j = (if slot j = slot i then x else pkt p j)"
  by (simp add: pkt_def set_pkt_def)

lemma pkt_set_pkt_same [simp]: "pkt (set_pkt i x p) i = x"
  by (simp add: pkt_set_pkt)

end
