(* ===== verification/Selection.thy ===== *)
theory Selection
  imports Prelude
begin

text \<open>
  The selection sort of \<open>membership.c\<close> on lists: take the element a search picks, move the
  last element into its place and go on with one element less. Any search that finds a
  least element makes it a sorting function; \<open>Sort_members\<close> and \<open>Sort_reps\<close> are its two
  instances.
\<close>

definition swap_remove :: "nat \<Rightarrow> 'a list \<Rightarrow> 'a list" where
  "swap_remove k xs = butlast (xs[k := last xs])"

primrec sel_sort :: "('a list \<Rightarrow> nat result) \<Rightarrow> nat \<Rightarrow> 'a list \<Rightarrow> 'a list result" where
  "sel_sort pick 0 xs = Inr []"
| "sel_sort pick (Suc n) xs =
     bind_res (pick xs) (\<lambda>k. bind_res (sel_sort pick n (swap_remove k xs)) (\<lambda>ys. Inr (xs ! k # ys)))"

lemma length_swap_remove [simp]: "length (swap_remove k xs) = length xs - 1"
  by (simp add: swap_remove_def)

lemma mset_butlast: "xs \<noteq> [] \<Longrightarrow> mset xs = add_mset (last xs) (mset (butlast xs))"
  by (induction xs) auto

lemma mset_swap_remove:
  assumes "k < length xs"
  shows "add_mset (xs ! k) (mset (swap_remove k xs)) = mset xs"
proof (cases "k = length xs - 1")
  case True
  have ne: "xs \<noteq> []" using assms by auto
  then have "xs ! k = last xs" using True by (simp add: last_conv_nth)
  moreover from this have "xs[k := last xs] = xs" by (metis list_update_id)
  ultimately show ?thesis
    by (simp add: swap_remove_def mset_butlast [OF ne])
next
  case False
  then have k: "k < length (butlast xs)" using assms by simp
  have ne: "xs \<noteq> []" using assms by auto
  have sw: "swap_remove k xs = (butlast xs)[k := last xs]"
    using k by (simp add: swap_remove_def butlast_list_update)
  have "mset ((butlast xs)[k := last xs]) = add_mset (last xs) (mset (butlast xs) - {#butlast xs ! k#})"
    using k by (rule mset_update)
  moreover have "butlast xs ! k = xs ! k" using k by (simp add: nth_butlast)
  moreover have "xs ! k \<in># mset (butlast xs)" using k by (metis nth_butlast nth_mem set_mset_mset)
  moreover have "mset xs = add_mset (last xs) (mset (butlast xs))"
    using ne by (rule mset_butlast)
  ultimately show ?thesis by (simp add: sw insert_DiffM add_mset_commute)
qed

text \<open>
  The contract between a search and the sort built on it: on non-empty lists of valid
  elements it returns the position of an element no other element is less than.
\<close>

locale least_search =
  fixes pick :: "'a list \<Rightarrow> nat result"
    and le :: "'a \<Rightarrow> 'a \<Rightarrow> bool"
    and ok :: "'a \<Rightarrow> bool"
  assumes pick_least: "xs \<noteq> [] \<Longrightarrow> \<forall>x \<in> set xs. ok x \<Longrightarrow>
    \<exists>k. pick xs = Inr k \<and> k < length xs \<and> (\<forall>x \<in> set xs. le (xs ! k) x)"
begin

lemma sel_sort_correct:
  assumes "\<forall>x \<in> set xs. ok x" and "length xs = n"
  shows "\<exists>ys. sel_sort pick n xs = Inr ys \<and> mset ys = mset xs \<and> sorted_wrt le ys"
  using assms
proof (induction n arbitrary: xs)
  case (Suc n)
  then have "xs \<noteq> []" by auto
  then obtain k where k: "pick xs = Inr k" "k < length xs" "\<forall>x \<in> set xs. le (xs ! k) x"
    using pick_least [of xs] Suc.prems(1) by auto
  have ms: "add_mset (xs ! k) (mset (swap_remove k xs)) = mset xs"
    using k(2) by (rule mset_swap_remove)
  then have sub: "set (swap_remove k xs) \<subseteq> set xs"
    by (metis set_mset_add_mset_insert set_mset_mset subset_insertI)
  then obtain ys where ys: "sel_sort pick n (swap_remove k xs) = Inr ys"
      "mset ys = mset (swap_remove k xs)" "sorted_wrt le ys"
    using Suc.IH [of "swap_remove k xs"] Suc.prems by fastforce
  have "set ys \<subseteq> set xs" using sub ys(2) by (metis set_mset_mset)
  then have "sorted_wrt le (xs ! k # ys)" using ys(3) k(3) by auto
  moreover have "mset (xs ! k # ys) = mset xs" using ms ys(2) by simp
  ultimately show ?case using k(1) ys(1) by auto
qed simp

end

end
