(* ===== verification/Members.thy ===== *)
theory Members
  imports Daemon_State Selection
begin

text \<open>
  The member and representative lists of \<open>membership.c\<close>: insertion, the search for the
  smallest entry in ring order, the selection sort built on it, and the change of byte
  order. \<open>Config\<close> is the loaded configuration the lookups go to.
\<close>

section \<open>Operations on member lists\<close>

definition Insert_member :: "members_info \<Rightarrow> proc_id \<Rightarrow> members_info \<times> int" where
  "Insert_member m i =
     (if \<exists>k \<in> set [0..<nat (num_members m)]. members m k = i then (m, 0)
      else if num_members m = MAX_PROCS_RING then (m, 0)
      else (m\<lparr> members := (members m)(nat (num_members m) := i),
               num_members := num_members m + 1 \<rparr>, 1))"

definition proc_before :: "proc \<Rightarrow> proc \<Rightarrow> bool" where
  "proc_before a b \<longleftrightarrow> pr_seg_index a < pr_seg_index b \<or>
     (pr_seg_index a = pr_seg_index b \<and> pr_index_in_seg a < pr_index_in_seg b)"

definition smallest_member_step ::
    "configuration \<Rightarrow> (nat \<Rightarrow> proc_id) \<Rightarrow> nat \<Rightarrow> nat \<times> proc \<Rightarrow> (nat \<times> proc) result" where
  "smallest_member_step config ms i = (\<lambda>(current, curr_proc).
     case Conf_proc_by_id_in_conf config (ms i) of
       None \<Rightarrow> Inl (Alarm_exit ''Smallest_member'')
     | Some (_, i_proc) \<Rightarrow>
         Inr (if proc_before i_proc curr_proc then (i, i_proc) else (current, curr_proc)))"

text \<open>The member returned and, for the caller's \<open>*index\<close>, its position.\<close>

definition Smallest_member :: "configuration \<Rightarrow> members_info \<Rightarrow> (proc_id \<times> nat) result" where
  "Smallest_member config m =
     (case Conf_proc_by_id_in_conf config (members m 0) of
        None \<Rightarrow> Inl (Alarm_exit ''Smallest_member'')
      | Some (_, p0) \<Rightarrow>
          bind_res (fold_res (smallest_member_step config (members m)) [1..<nat (num_members m)] (0, p0))
            (\<lambda>(current, _). Inr (members m current, current)))"

definition sort_members_step ::
    "configuration \<Rightarrow> nat \<Rightarrow> members_info \<times> members_info \<Rightarrow> (members_info \<times> members_info) result" where
  "sort_members_step config i = (\<lambda>(m, temp).
     bind_res (Smallest_member config temp) (\<lambda>(_, index).
       let m = m\<lparr> members := (members m)(i := members temp index) \<rparr>;
           temp = temp\<lparr> num_members := num_members temp - 1 \<rparr>;
           temp = temp\<lparr> members := (members temp)(index := members temp (nat (num_members temp))) \<rparr>
       in Inr (m, temp)))"

definition Sort_members :: "configuration \<Rightarrow> members_info \<Rightarrow> members_info result" where
  "Sort_members config m =
     bind_res (fold_res (sort_members_step config) [0..<nat (num_members m)] (m, m))
       (\<lambda>(m', _). Inr m')"

definition Flip_members :: "members_info \<Rightarrow> members_info" where
  "Flip_members m =
     (let nm = flip16 (num_members m); np = flip16 (num_pending m)
      in m\<lparr> num_members := nm, num_pending := np,
            members := (\<lambda>i. if int i < nm + np then Flip_int32 (members m i) else members m i) \<rparr>)"

section \<open>Operations on representative lists\<close>

primrec first_some :: "('a \<Rightarrow> 'b option) \<Rightarrow> 'a list \<Rightarrow> 'b option" where
  "first_some f [] = None"
| "first_some f (x # xs) = (case f x of Some r \<Rightarrow> Some r | None \<Rightarrow> first_some f xs)"

definition set_rep :: "nat \<Rightarrow> rep_info \<Rightarrow> reps_info \<Rightarrow> reps_info" where
  "set_rep i e r = r\<lparr> reps := (reps r)(i := e) \<rparr>"

text \<open>
  What the loop of \<open>Insert_rep\<close> does at entry \<open>i\<close>: nothing, or the list and the value it
  returns. \<open>p\<close> is the configured daemon that is inserted.
\<close>

fun insert_rep_at :: "rep_type \<Rightarrow> proc \<Rightarrow> reps_info \<Rightarrow> nat \<Rightarrow> (reps_info \<times> int) option" where
  "insert_rep_at POTENTIAL_REP p r i =
     (if rp_seg_index (reps r i) = pr_seg_index p then Some (r, 0) else None)"
| "insert_rep_at SEG_REP p r i =
     (if rp_seg_index (reps r i) = pr_seg_index p then
        (case rp_type (reps r i) of
           POTENTIAL_REP \<Rightarrow>
             Some (set_rep i ((reps r i)\<lparr> rp_type := SEG_REP, rp_proc_id := pr_id p \<rparr>) r, 1)
         | SEG_REP \<Rightarrow> if rp_proc_id (reps r i) = pr_id p then Some (r, 0) else None
         | RING_REP \<Rightarrow>
             if rp_proc_id (reps r i) = pr_id p
             then Some (set_rep i ((reps r i)\<lparr> rp_type := SEG_REP \<rparr>) r, 1) else None
         | OTHER_REP _ \<Rightarrow> None)
      else None)"
| "insert_rep_at RING_REP p r i =
     (if rp_seg_index (reps r i) = pr_seg_index p then
        (case rp_type (reps r i) of
           POTENTIAL_REP \<Rightarrow>
             Some (set_rep i ((reps r i)\<lparr> rp_type := RING_REP, rp_proc_id := pr_id p \<rparr>) r, 1)
         | SEG_REP \<Rightarrow>
             if rp_proc_id (reps r i) = pr_id p
             then Some (set_rep i ((reps r i)\<lparr> rp_type := RING_REP \<rparr>) r, 1) else None
         | RING_REP \<Rightarrow> if rp_proc_id (reps r i) = pr_id p then Some (r, 0) else None
         | OTHER_REP _ \<Rightarrow> None)
      else None)"
| "insert_rep_at (OTHER_REP _) p r i = None"

definition Insert_rep :: "configuration \<Rightarrow> reps_info \<Rightarrow> rep_info \<Rightarrow> (reps_info \<times> int) result" where
  "Insert_rep config r rep =
     (case Conf_proc_by_id_in_conf config (rp_proc_id rep) of
        None \<Rightarrow> Inl (Alarm_exit ''Insert_rep'')
      | Some (_, p) \<Rightarrow>
          guard_res (case rp_type rep of OTHER_REP _ \<Rightarrow> True | _ \<Rightarrow> False) (Alarm_exit ''Insert_rep'')
            (case first_some (insert_rep_at (rp_type rep) p r) [0..<nat (num_reps r)] of
               Some res \<Rightarrow> Inr res
             | None \<Rightarrow>
                 if num_reps r = MAX_REPS then Inr (r, 0)
                 else Inr ((set_rep (nat (num_reps r)) rep r)\<lparr> num_reps := num_reps r + 1 \<rparr>, 1)))"

text \<open>
  One comparison of \<open>Smallest_rep\<close>: whether entry \<open>i\<close> replaces the current one. The table
  lookups of the last case ignore a failure and would compare uninitialised variables.
\<close>

definition rep_replaces :: "configuration \<Rightarrow> rep_info \<Rightarrow> rep_info \<Rightarrow> bool result" where
  "rep_replaces config cur e =
     (case rp_type cur of
        SEG_REP \<Rightarrow> Inr (rp_type e = SEG_REP \<and> rp_seg_index e < rp_seg_index cur)
      | RING_REP \<Rightarrow>
          if rp_type e = RING_REP then
            if rp_seg_index e < rp_seg_index cur then Inr True
            else if rp_seg_index e = rp_seg_index cur then
              (case (Conf_proc_by_id_in_conf config (rp_proc_id cur),
                     Conf_proc_by_id_in_conf config (rp_proc_id e)) of
                 (Some (_, curr_p), Some (_, i_p)) \<Rightarrow> Inr (pr_index_in_seg i_p < pr_index_in_seg curr_p)
               | _ \<Rightarrow> Inl (Undefined ''Smallest_rep''))
            else Inr False
          else Inr (rp_type e = SEG_REP)
      | _ \<Rightarrow> Inl (Alarm_exit ''Smallest_rep''))"

definition Smallest_rep :: "configuration \<Rightarrow> reps_info \<Rightarrow> (proc_id \<times> nat) result" where
  "Smallest_rep config r =
     bind_res (fold_res (\<lambda>i current.
         bind_res (rep_replaces config (reps r current) (reps r i)) (\<lambda>b.
           Inr (if b then i else current))) [1..<nat (num_reps r)] 0)
       (\<lambda>current. Inr (rp_proc_id (reps r current), current))"

definition sort_reps_step ::
    "configuration \<Rightarrow> nat \<Rightarrow> reps_info \<times> reps_info \<Rightarrow> (reps_info \<times> reps_info) result" where
  "sort_reps_step config i = (\<lambda>(r, temp).
     bind_res (Smallest_rep config temp) (\<lambda>(_, index).
       let r = set_rep i (reps temp index) r;
           temp = temp\<lparr> num_reps := num_reps temp - 1 \<rparr>
       in Inr (r, set_rep index (reps temp (nat (num_reps temp))) temp)))"

definition Sort_reps :: "configuration \<Rightarrow> reps_info \<Rightarrow> reps_info result" where
  "Sort_reps config r =
     bind_res (fold_res (sort_reps_step config) [0..<nat (num_reps r)] (r, r)) (\<lambda>(r', _). Inr r')"

fun rep_type_code :: "rep_type \<Rightarrow> int" where
  "rep_type_code POTENTIAL_REP = 0"
| "rep_type_code SEG_REP = 1"
| "rep_type_code RING_REP = 2"
| "rep_type_code (OTHER_REP t) = t"

definition rep_type_of :: "int \<Rightarrow> rep_type" where
  "rep_type_of t = (if t = 0 then POTENTIAL_REP else if t = 1 then SEG_REP
                    else if t = 2 then RING_REP else OTHER_REP t)"

definition Flip_rep :: "rep_info \<Rightarrow> rep_info" where
  "Flip_rep e =
     e\<lparr> rp_proc_id := Flip_int32 (rp_proc_id e),
        rp_type := rep_type_of (flip16 (rep_type_code (rp_type e))),
        rp_seg_index := flip16 (rp_seg_index e) \<rparr>"

definition Flip_reps :: "reps_info \<Rightarrow> reps_info" where
  "Flip_reps r =
     (let n = flip16 (num_reps r)
      in r\<lparr> num_reps := n, rep_index := flip16 (rep_index r),
            reps := (\<lambda>i. if int i < n then Flip_rep (reps r i) else reps r i) \<rparr>)"

section \<open>Member lists as lists\<close>

definition member_list :: "members_info \<Rightarrow> proc_id list" where
  "member_list m = map (members m) [0..<nat (num_members m)]"

definition known :: "configuration \<Rightarrow> proc_id \<Rightarrow> bool" where
  "known config i \<longleftrightarrow> Conf_proc_by_id_in_conf config i \<noteq> None"

text \<open>\<open>a\<close> is not after \<open>b\<close> in ring order.\<close>

definition member_le :: "configuration \<Rightarrow> proc_id \<Rightarrow> proc_id \<Rightarrow> bool" where
  "member_le config a b \<longleftrightarrow>
     (\<forall>i p j q. Conf_proc_by_id_in_conf config a = Some (i, p) \<longrightarrow>
        Conf_proc_by_id_in_conf config b = Some (j, q) \<longrightarrow> \<not> proc_before q p)"

lemma proc_before_trans: "\<not> proc_before b a \<Longrightarrow> \<not> proc_before c b \<Longrightarrow> \<not> proc_before c a"
  by (auto simp: proc_before_def)

lemma proc_before_asym: "proc_before a b \<Longrightarrow> \<not> proc_before b a"
  by (auto simp: proc_before_def)

lemma length_member_list [simp]: "length (member_list m) = nat (num_members m)"
  by (simp add: member_list_def)

lemma Insert_member_list:
  assumes "0 \<le> num_members m"
  shows "member_list (fst (Insert_member m i)) =
    (if i \<in> set (member_list m) \<or> num_members m = MAX_PROCS_RING then member_list m
     else member_list m @ [i])"
proof -
  have mem: "(\<exists>k \<in> set [0..<nat (num_members m)]. members m k = i) \<longleftrightarrow> i \<in> set (member_list m)"
    by (auto simp: member_list_def)
  have "nat (num_members m + 1) = Suc (nat (num_members m))" using assms by simp
  then show ?thesis
    unfolding Insert_member_def mem by (auto simp: member_list_def)
qed

section \<open>The smallest member and the sort\<close>

definition pick_member :: "configuration \<Rightarrow> proc_id list \<Rightarrow> nat result" where
  "pick_member config xs =
     (case Conf_proc_by_id_in_conf config (xs ! 0) of
        None \<Rightarrow> Inl (Alarm_exit ''Smallest_member'')
      | Some (_, p0) \<Rightarrow>
          bind_res (fold_res (smallest_member_step config ((!) xs)) [1..<length xs] (0, p0))
            (\<lambda>(current, _). Inr current))"

lemma Smallest_member_pick:
  assumes "0 < num_members m"
  shows "Smallest_member config m =
    bind_res (pick_member config (member_list m)) (\<lambda>k. Inr (members m k, k))"
proof -
  have "fold_res (smallest_member_step config (members m)) [1..<nat (num_members m)] s =
      fold_res (smallest_member_step config ((!) (member_list m))) [1..<nat (num_members m)] s" for s
    by (rule fold_res_cong) (auto simp: smallest_member_step_def member_list_def)
  moreover have "members m 0 = member_list m ! 0"
    using assms by (simp add: member_list_def)
  ultimately show ?thesis
    by (auto simp: Smallest_member_def pick_member_def bind_res_assoc bind_res_def
        split: option.splits sum.splits)
qed

lemma smallest_member_fold:
  assumes "\<forall>j < Suc n. known config (ms j)"
    and "Conf_proc_by_id_in_conf config (ms 0) = Some (i0, p0)"
  shows "\<exists>k i p. fold_res (smallest_member_step config ms) [1..<Suc n] (0, p0) = Inr (k, p) \<and>
    k < Suc n \<and> Conf_proc_by_id_in_conf config (ms k) = Some (i, p) \<and>
    (\<forall>j < Suc n. member_le config (ms k) (ms j))"
  using assms(1)
proof (induction n)
  case 0
  then show ?case using assms(2) by (auto simp: member_le_def proc_before_def)
next
  case (Suc n)
  then obtain k i p where ih: "fold_res (smallest_member_step config ms) [1..<Suc n] (0, p0) = Inr (k, p)"
      "k < Suc n" "Conf_proc_by_id_in_conf config (ms k) = Some (i, p)"
      "\<forall>j < Suc n. member_le config (ms k) (ms j)"
    by auto
  obtain j q where q: "Conf_proc_by_id_in_conf config (ms (Suc n)) = Some (j, q)"
    using Suc.prems by (auto simp: known_def)
  have step: "fold_res (smallest_member_step config ms) [1..<Suc (Suc n)] (0, p0) =
      Inr (if proc_before q p then (Suc n, q) else (k, p))"
    using ih(1) q by (simp add: fold_res_snoc smallest_member_step_def)
  show ?case
  proof (cases "proc_before q p")
    case True
    have "member_le config (ms (Suc n)) (ms l)" if "l < Suc (Suc n)" for l
    proof (cases "l = Suc n")
      case False
      then have "member_le config (ms k) (ms l)" using that ih(4) by auto
      then show ?thesis
        using True q ih(3) proc_before_asym [OF True]
        by (auto simp: member_le_def dest: proc_before_trans)
    qed (use q in \<open>auto simp: member_le_def proc_before_def\<close>)
    then show ?thesis using step True q by auto
  next
    case False
    then have "member_le config (ms k) (ms (Suc n))" using q ih(3) by (simp add: member_le_def)
    then show ?thesis using step False ih(2-4) by (auto simp: less_Suc_eq)
  qed
qed

lemma pick_member_least:
  assumes "xs \<noteq> []" and "\<forall>x \<in> set xs. known config x"
  shows "\<exists>k. pick_member config xs = Inr k \<and> k < length xs \<and>
    (\<forall>x \<in> set xs. member_le config (xs ! k) x)"
proof -
  obtain n where n: "length xs = Suc n" using assms(1) by (cases xs) auto
  obtain i0 p0 where p0: "Conf_proc_by_id_in_conf config (xs ! 0) = Some (i0, p0)"
    using bspec [OF assms(2) nth_mem [of 0 xs]] n by (auto simp: known_def)
  have kn: "\<forall>j < Suc n. known config (xs ! j)" using assms(2) n by auto
  from smallest_member_fold [OF kn p0] obtain k i p where
    "fold_res (smallest_member_step config ((!) xs)) [1..<Suc n] (0, p0) = Inr (k, p)"
    "k < Suc n" "\<forall>j < Suc n. member_le config (xs ! k) (xs ! j)"
    by blast
  then show ?thesis using p0 n by (auto simp: pick_member_def in_set_conv_nth)
qed

interpretation member_search: least_search "pick_member config" "member_le config" "known config"
  for config
  by unfold_locales (rule pick_member_least)

text \<open>The array loop of \<open>Sort_members\<close> computes the list sort.\<close>

lemma member_list_remove:
  assumes "num_members t = int (Suc n)" and "k < Suc n"
  shows "member_list (t\<lparr> num_members := int n, members := (members t)(k := members t n) \<rparr>) =
    swap_remove k (member_list t)"
proof (rule nth_equalityI)
  show "length (member_list (t\<lparr>num_members := int n, members := (members t)(k := members t n)\<rparr>)) =
      length (swap_remove k (member_list t))"
    using assms by simp
next
  fix i
  assume "i < length (member_list (t\<lparr>num_members := int n, members := (members t)(k := members t n)\<rparr>))"
  then have i: "i < n" by simp
  have last: "last (member_list t) = members t n"
    using assms(1) by (simp add: member_list_def last_map nat_add_distrib)
  have "swap_remove k (member_list t) ! i = (member_list t)[k := members t n] ! i"
    using assms i last by (simp add: swap_remove_def nth_butlast)
  also have "\<dots> = (if i = k then members t n else members t i)"
    using assms i by (simp add: member_list_def nth_list_update)
  finally show "member_list (t\<lparr>num_members := int n, members := (members t)(k := members t n)\<rparr>) ! i =
      swap_remove k (member_list t) ! i"
    using i by (simp add: member_list_def)
qed

lemma sort_members_loop:
  assumes "num_members t = int n" and "sel_sort (pick_member config) n (member_list t) = Inr ys"
    and "\<forall>x \<in> set (member_list t). known config x"
  shows "\<exists>t'. fold_res (sort_members_step config) [a..<a + n] (m, t) =
    Inr (m\<lparr> members := (\<lambda>j. if a \<le> j \<and> j < a + n then ys ! (j - a) else members m j) \<rparr>, t')"
  using assms
proof (induction n arbitrary: a m t ys)
  case 0
  have "(\<lambda>j. if a \<le> j \<and> j < a + 0 then ys ! (j - a) else members m j) = members m"
    by (rule ext) (metis add_0_right linorder_not_less)
  then show ?case by simp
next
  case (Suc n)
  from Suc.prems(2) obtain k zs where k: "pick_member config (member_list t) = Inr k"
      and zs: "sel_sort (pick_member config) n (swap_remove k (member_list t)) = Inr zs"
      and ys: "ys = member_list t ! k # zs"
    by auto
  have ne: "member_list t \<noteq> []"
    using Suc.prems(1) by (metis length_member_list list.size(3) nat_int nat.simps(3))
  have kl: "k < Suc n"
    using pick_member_least [OF ne Suc.prems(3)] k Suc.prems(1) by auto
  let ?t = "t\<lparr> num_members := int n, members := (members t)(k := members t n) \<rparr>"
  let ?m = "m\<lparr> members := (members m)(a := members t k) \<rparr>"
  have rm: "member_list ?t = swap_remove k (member_list t)"
    using Suc.prems(1) kl by (rule member_list_remove)
  have "set (swap_remove k (member_list t)) \<subseteq> set (member_list t)"
    using mset_swap_remove [of k "member_list t"] kl Suc.prems(1)
    by (metis length_member_list nat_int set_mset_add_mset_insert set_mset_mset subset_insertI)
  then have kn: "\<forall>x \<in> set (member_list ?t). known config x" using Suc.prems(3) rm by auto
  have step: "sort_members_step config a (m, t) = Inr (?m, ?t)"
    using Suc.prems(1) k by (simp add: sort_members_step_def Smallest_member_pick Let_def)
  obtain t' where t': "fold_res (sort_members_step config) [Suc a..<Suc a + n] (?m, ?t) =
      Inr (?m\<lparr> members := (\<lambda>j. if Suc a \<le> j \<and> j < Suc a + n then zs ! (j - Suc a) else members ?m j) \<rparr>, t')"
    using Suc.IH [of ?t zs "Suc a" ?m] zs rm kn by auto
  have "members t k = member_list t ! k" using kl Suc.prems(1) by (simp add: member_list_def)
  then have "(\<lambda>j. if Suc a \<le> j \<and> j < Suc a + n then zs ! (j - Suc a) else members ?m j) =
      (\<lambda>j. if a \<le> j \<and> j < a + Suc n then ys ! (j - a) else members m j)"
    by (auto simp: ys fun_eq_iff nth_Cons' intro!: arg_cong [where f = "(!) zs"])
  moreover have "[a..<a + Suc n] = a # [Suc a..<Suc a + n]" by (simp add: upt_conv_Cons)
  ultimately show ?case using step t' by auto
qed

lemma Sort_members_sorts:
  assumes "0 \<le> num_members m" and "\<forall>x \<in> set (member_list m). known config x"
  shows "\<exists>m'. Sort_members config m = Inr m' \<and> num_members m' = num_members m \<and>
    num_pending m' = num_pending m \<and> mset (member_list m') = mset (member_list m) \<and>
    sorted_wrt (member_le config) (member_list m')"
proof -
  let ?n = "nat (num_members m)"
  obtain ys where ys: "sel_sort (pick_member config) ?n (member_list m) = Inr ys"
      "mset ys = mset (member_list m)" "sorted_wrt (member_le config) ys"
    using member_search.sel_sort_correct [OF assms(2), of ?n] by auto
  then have len: "length ys = ?n" by (metis length_member_list size_mset)
  obtain t' where loop: "fold_res (sort_members_step config) [0..<?n] (m, m) =
      Inr (m\<lparr> members := (\<lambda>j. if j < ?n then ys ! j else members m j) \<rparr>, t')"
    using sort_members_loop [of m ?n config ys 0 m] ys(1) assms by (auto simp only: nat_0_le diff_zero add_0 le0 simp_thms)
  let ?m = "m\<lparr> members := (\<lambda>j. if j < ?n then ys ! j else members m j) \<rparr>"
  have "Sort_members config m = Inr ?m" using loop by (simp add: Sort_members_def)
  moreover have "member_list ?m = ys"
    using len by (intro nth_equalityI) (auto simp: member_list_def)
  ultimately show ?thesis using ys by auto
qed

section \<open>Representative lists\<close>

text \<open>
  The invariant of a representative list: it fits its array, every entry is a daemon of the
  configuration with its own segment index, no daemon has two entries, and a potential
  representative is the only entry of its segment.
\<close>

definition rep_ok :: "configuration \<Rightarrow> rep_info \<Rightarrow> bool" where
  "rep_ok config e \<longleftrightarrow>
     (case Conf_proc_by_id_in_conf config (rp_proc_id e) of
        None \<Rightarrow> False
      | Some (_, p) \<Rightarrow> pr_seg_index p = rp_seg_index e) \<and>
     rp_type e \<in> {POTENTIAL_REP, SEG_REP, RING_REP}"

definition rep_apart :: "rep_info \<Rightarrow> rep_info \<Rightarrow> bool" where
  "rep_apart a b \<longleftrightarrow> rp_proc_id a \<noteq> rp_proc_id b \<and>
     (rp_seg_index a = rp_seg_index b \<longrightarrow> rp_type a \<noteq> POTENTIAL_REP \<and> rp_type b \<noteq> POTENTIAL_REP)"

definition reps_ok :: "configuration \<Rightarrow> reps_info \<Rightarrow> bool" where
  "reps_ok config r \<longleftrightarrow> 0 \<le> num_reps r \<and> num_reps r \<le> MAX_REPS \<and>
     (\<forall>i \<in> {0..<nat (num_reps r)}. rep_ok config (reps r i) \<and>
        (\<forall>j \<in> {0..<nat (num_reps r)}. i \<noteq> j \<longrightarrow> rep_apart (reps r i) (reps r j)))"

lemma first_some_Some:
  "first_some f xs = Some y \<Longrightarrow> \<exists>x \<in> set xs. f x = Some y"
  by (induction xs) (auto split: option.splits)

lemma first_some_None: "first_some f xs = None \<longleftrightarrow> (\<forall>x \<in> set xs. f x = None)"
  by (induction xs) (auto split: option.splits)

lemma rep_apart_sym: "rep_apart a b \<Longrightarrow> rep_apart b a"
  by (auto simp: rep_apart_def)

lemma reps_ok_set_rep:
  assumes "reps_ok config r" and "i < nat (num_reps r)" and "rep_ok config e"
    and "\<forall>j < nat (num_reps r). j \<noteq> i \<longrightarrow> rep_apart e (reps r j)"
  shows "reps_ok config (set_rep i e r)"
  using assms by (auto simp: reps_ok_def set_rep_def rep_apart_sym)

lemma insert_rep_at_cases:
  assumes "insert_rep_at t p r i = Some (r', v)" and "t \<in> {POTENTIAL_REP, SEG_REP, RING_REP}"
  shows "rp_seg_index (reps r i) = pr_seg_index p \<and>
    (r' = r \<and> v = 0 \<or>
     (\<exists>e. r' = set_rep i e r \<and> v = 1 \<and> rp_proc_id e = pr_id p \<and> rp_type e = t \<and>
        rp_seg_index e = pr_seg_index p \<and> t \<noteq> POTENTIAL_REP \<and>
        (rp_type (reps r i) = POTENTIAL_REP \<or> rp_proc_id (reps r i) = pr_id p)))"
  using assms by (cases t) (auto split: if_splits rep_type.splits)

lemma insert_rep_at_ok:
  assumes "reps_ok config r" and "i < nat (num_reps r)"
    and "Conf_proc_by_id_in_conf config (rp_proc_id rep) = Some (k, p)"
    and "rp_type rep \<in> {POTENTIAL_REP, SEG_REP, RING_REP}"
    and "insert_rep_at (rp_type rep) p r i = Some (r', v)"
  shows "reps_ok config r'"
proof -
  have id: "pr_id p = rp_proc_id rep" using Conf_proc_by_id_Some [OF assms(3)] by simp
  have ok: "rep_ok config (reps r j)" if "j < nat (num_reps r)" for j
    using assms(1) that by (auto simp: reps_ok_def)
  have apart: "rep_apart (reps r i) (reps r j)" if "j < nat (num_reps r)" "j \<noteq> i" for j
    using assms(1,2) that by (auto simp: reps_ok_def)
  consider "r' = r"
    | e where "r' = set_rep i e r" "rp_proc_id e = pr_id p" "rp_type e = rp_type rep"
        "rp_seg_index e = pr_seg_index p" "rp_type rep \<noteq> POTENTIAL_REP"
        "rp_seg_index (reps r i) = pr_seg_index p"
        "rp_type (reps r i) = POTENTIAL_REP \<or> rp_proc_id (reps r i) = pr_id p"
    using insert_rep_at_cases [OF assms(5,4)] by blast
  then show ?thesis
  proof cases
    case 2
    have "rep_ok config e" using 2 id assms(3,4) by (simp add: rep_ok_def)
    moreover have "rep_apart e (reps r j)" if j: "j < nat (num_reps r)" "j \<noteq> i" for j
      using apart [OF j] ok [OF j(1)] ok [OF assms(2)] 2 id assms(3)
      by (auto simp: rep_apart_def rep_ok_def split: option.splits)
    ultimately show ?thesis using 2(1) assms(1,2) by (auto intro: reps_ok_set_rep)
  qed (use assms in simp)
qed

lemma insert_rep_at_none:
  assumes "insert_rep_at (rp_type rep) p r i = None" and "rep_ok config (reps r i)"
    and "Conf_proc_by_id_in_conf config (rp_proc_id rep) = Some (k, p)" and "rep_ok config rep"
  shows "rep_apart rep (reps r i)"
proof -
  have "pr_id p = rp_proc_id rep" "pr_seg_index p = rp_seg_index rep"
    using Conf_proc_by_id_Some [OF assms(3)] assms(3,4) by (auto simp: rep_ok_def)
  then show ?thesis
    using assms by (cases "rp_type rep")
      (auto simp: rep_apart_def rep_ok_def split: if_splits rep_type.splits option.splits)
qed

lemma Insert_rep_keeps_ok:
  assumes "reps_ok config r" and "rep_ok config rep" and "Insert_rep config r rep = Inr (r', v)"
  shows "reps_ok config r'"
proof -
  obtain k p where p: "Conf_proc_by_id_in_conf config (rp_proc_id rep) = Some (k, p)"
    using assms(2) by (auto simp: rep_ok_def split: option.splits)
  have ty: "rp_type rep \<in> {POTENTIAL_REP, SEG_REP, RING_REP}" using assms(2) by (simp add: rep_ok_def)
  show ?thesis
  proof (cases "first_some (insert_rep_at (rp_type rep) p r) [0..<nat (num_reps r)]")
    case (Some res)
    then have "res = (r', v)" using assms(3) p by (auto simp: Insert_rep_def split: rep_type.splits)
    then obtain i where "i < nat (num_reps r)" "insert_rep_at (rp_type rep) p r i = Some (r', v)"
      using first_some_Some [OF Some] by auto
    then show ?thesis using insert_rep_at_ok [OF assms(1) _ p ty] by blast
  next
    case None
    let ?n = "nat (num_reps r)"
    have apart: "rep_apart rep (reps r i)" if "i < ?n" for i
      using None that assms(1,2) p insert_rep_at_none [of rep p r i config k]
      by (auto simp: first_some_None reps_ok_def)
    have "0 \<le> num_reps r" using assms(1) by (simp add: reps_ok_def)
    then have sz: "nat (num_reps r + 1) = Suc ?n" by simp
    have "r' = r \<or> num_reps r \<noteq> MAX_REPS \<and> r' = (set_rep ?n rep r)\<lparr> num_reps := num_reps r + 1 \<rparr>"
      using assms(3) p None by (auto simp: Insert_rep_def split: if_splits)
    then show ?thesis
    proof
      assume r': "num_reps r \<noteq> MAX_REPS \<and> r' = (set_rep ?n rep r)\<lparr> num_reps := num_reps r + 1 \<rparr>"
      then have "reps r' i = (if i = ?n then rep else reps r i)" for i by (simp add: set_rep_def)
      moreover have "nat (num_reps r') = Suc ?n" "num_reps r' \<le> MAX_REPS" "0 \<le> num_reps r'"
        using r' sz assms(1) by (auto simp: reps_ok_def set_rep_def)
      ultimately show ?thesis
        using assms(1,2) apart unfolding reps_ok_def
        by (simp add: atLeast0_lessThan_Suc) (metis atLeast0LessThan lessThan_iff nat_neq_iff rep_apart_sym)
    qed (use assms in simp)
  qed
qed

lemma Insert_rep_total:
  assumes "rep_ok config rep"
  shows "\<exists>r' v. Insert_rep config r rep = Inr (r', v)"
  using assms by (auto simp: Insert_rep_def rep_ok_def split: option.splits)

end
