(* ===== verification/Flow_Control.thy ===== *)
theory Flow_Control
  imports Daemon_State
begin

text \<open>
  \<open>flow_control.c\<close>: the windows that limit how many packets a daemon may add to the ring in
  one visit of the token. The windows are \<open>int16\<close> variables set from \<open>int\<close> settings.
\<close>

section \<open>Operations\<close>

definition FC_init :: "daemon \<Rightarrow> daemon" where
  "FC_init d =
     (let w = to_int16 (C_Window (conf d));
          pw = to_int16 (C_PersonalWindow (conf d));
          aw = to_int16 (C_AcceleratedWindow (conf d));
          ar = C_AcceleratedRing (conf d)
      in d\<lparr> fc := \<lparr> Window = w, Personal_window = pw, Accelerated_window = aw, Accelerated_ring = ar \<rparr>,
            stat := (stat d)\<lparr> g_window := w, g_personal_window := pw, g_accelerated_ring := ar,
                             g_accelerated_window := aw \<rparr> \<rparr>)"

definition FC_new_configuration :: "daemon \<Rightarrow> daemon" where
  "FC_new_configuration = upd_prot (\<lambda>p. p\<lparr> Last_num_retrans := 0, Last_num_sent := 0 \<rparr>)"

text \<open>The second argument of the C function, \<open>num_retrans\<close>, is not used by its body.\<close>

definition FC_allowed :: "int \<Rightarrow> int \<Rightarrow> daemon \<Rightarrow> int" where
  "FC_allowed flow_control num_retrans d =
     (if State (memb d) = EVS then 0
      else if Highest_seq (prot d) > Aru (prot d) + MAX_SEQ_GAP then 0
      else let allowed = Window (fc d) + Personal_window (fc d) - flow_control;
               allowed = (if allowed < 0 then 0 else allowed);
               allowed = (if allowed > Window (fc d) then Window (fc d) else allowed);
               allowed = (if allowed > Personal_window (fc d) then Personal_window (fc d) else allowed)
           in allowed)"

definition FC_accelerated_ring :: "daemon \<Rightarrow> bool" where
  "FC_accelerated_ring d = Accelerated_ring (fc d)"

definition FC_accelerated_window :: "daemon \<Rightarrow> int" where
  "FC_accelerated_window d = Accelerated_window (fc d)"

text \<open>
  The monitor's request holds one pair of 16-bit numbers per daemon of the configuration and
  one more for the ring's window; \<open>-1\<close> leaves a window as it is.
\<close>

definition FC_handle_message :: "packet_header \<Rightarrow> (nat \<Rightarrow> int \<times> int) \<Rightarrow> daemon \<Rightarrow> daemon result" where
  "FC_handle_message pack cur_fc_buf d =
     (if \<not> EnableDangerousMonitor (conf d) then Inr d
      else if Conf_id_in_conf (Config (conf d)) (p_proc_id pack) < 0 then Inr d
      else case Conf_proc_by_id_in_conf (Config (conf d)) (pr_id (My (conf d))) of
             None \<Rightarrow> Inl (Undefined ''FC_handle_message'')
           | Some (my_index, _) \<Rightarrow>
             let n = nat (Conf_num_procs (Config (conf d)));
                 order = (if Same_endian (p_type pack) then id else flip16);
                 temp_window = order (fst (cur_fc_buf n));
                 temp_personal_window = order (fst (cur_fc_buf (nat my_index)));
                 temp_accelerated_window = order (snd (cur_fc_buf (nat my_index)));
                 f = fc d;
                 f = (if temp_window \<noteq> - 1 then f\<lparr> Window := temp_window \<rparr> else f);
                 f = (if temp_personal_window \<noteq> - 1 then f\<lparr> Personal_window := temp_personal_window \<rparr> else f);
                 f = (if temp_accelerated_window \<noteq> - 1
                      then f\<lparr> Accelerated_window := temp_accelerated_window \<rparr> else f)
             in Inr (d\<lparr> fc := f,
                        stat := (stat d)\<lparr> g_window := Window f, g_personal_window := Personal_window f,
                                         g_accelerated_window := Accelerated_window f \<rparr> \<rparr>))"

definition FC_signal_conf_reload :: "daemon \<Rightarrow> daemon" where
  "FC_signal_conf_reload = FC_init"

section \<open>Bounds\<close>

lemma FC_allowed_min:
  "FC_allowed flow_control num_retrans d =
     (if State (memb d) = EVS \<or> Highest_seq (prot d) > Aru (prot d) + MAX_SEQ_GAP then 0
      else min (min (max 0 (Window (fc d) + Personal_window (fc d) - flow_control)) (Window (fc d)))
             (Personal_window (fc d)))"
  by (auto simp: FC_allowed_def Let_def)

lemma FC_allowed_nonneg:
  "0 \<le> Window (fc d) \<Longrightarrow> 0 \<le> Personal_window (fc d) \<Longrightarrow> 0 \<le> FC_allowed f n d"
  by (auto simp: FC_allowed_min)

lemma FC_allowed_le_personal:
  "0 \<le> Personal_window (fc d) \<Longrightarrow> FC_allowed f n d \<le> Personal_window (fc d)"
  by (auto simp: FC_allowed_min)

lemma FC_init_windows:
  "0 < C_Window (conf d) \<Longrightarrow> C_Window (conf d) < 2 ^ 15 \<Longrightarrow> Window (fc (FC_init d)) = C_Window (conf d)"
  by (simp add: FC_init_def Let_def)

end
