(* ===== verification/Network.thy ===== *)
theory Network
  imports Flow_Control
begin

text \<open>
  \<open>network.c\<close>: where packets and the token go, given the configuration and the installed
  membership; the checks on received datagrams; the monitor's partitions. A send is an entry
  of \<open>out\<close>. The send functions stamp the header they are given in place, so each returns the
  header as it is afterwards; their return codes, which no caller reads, are left out.
\<close>

section \<open>Sending\<close>

definition stamp_packet :: "daemon \<Rightarrow> packet_header \<Rightarrow> packet_header" where
  "stamp_packet d h = h\<lparr> p_type := Set_endian (p_type h),
     p_conf_hash := hash_code (Config (conf d)), p_transmiter_id := pr_id (My (conf d)) \<rparr>"

definition stamp_token :: "daemon \<Rightarrow> token_header \<Rightarrow> token_header" where
  "stamp_token d h = h\<lparr> t_type := Set_endian (t_type h),
     t_conf_hash := hash_code (Config (conf d)), t_transmiter_id := pr_id (My (conf d)) \<rparr>"

abbreviation (input) MAX_ADDRS_SEGMENT :: nat where "MAX_ADDRS_SEGMENT \<equiv> 5"
abbreviation (input) MAX_INTERFACES_PROC :: nat where "MAX_INTERFACES_PROC \<equiv> 10"

text \<open>One datagram to each address, in order.\<close>

definition send_all :: "spu_addr list \<Rightarrow> packet_header \<Rightarrow> payload \<Rightarrow> daemon \<Rightarrow> daemon" where
  "send_all as h b d = d\<lparr> out := out d @ map (\<lambda>a. DL_sendto_packet (Data_port a) h b) as \<rparr>"

definition send_bcast :: "packet_header \<Rightarrow> payload \<Rightarrow> daemon \<Rightarrow> daemon result" where
  "send_bcast h b d =
     (let n = length (Bcast_addrs (net d))
      in guard_res (n < 1 \<or> n > MAX_ADDRS_SEGMENT) (Alarm_exit ''send_bcast'')
           (Inr (send_all (Bcast_addrs (net d)) h b d)))"

definition Net_bcast :: "packet_header \<Rightarrow> payload \<Rightarrow> daemon \<Rightarrow> (packet_header \<times> daemon) result" where
  "Net_bcast h b d =
     (let h = stamp_packet d (h\<lparr> p_type := Set_routed (p_type h) \<rparr>);
          d = send_all (Send_addrs (net d)) h b d;
          h = h\<lparr> p_type := Clear_routed (p_type h) \<rparr>
      in if Bcast_needed (net d) \<noteq> 0 then bind_res (send_bcast h b d) (\<lambda>d. Inr (h, d))
         else Inr (h, d))"

definition Net_scast ::
    "int \<Rightarrow> packet_header \<Rightarrow> payload \<Rightarrow> daemon \<Rightarrow> (packet_header \<times> daemon) result" where
  "Net_scast seg_index h b d =
     (let h = stamp_packet d h
      in if seg_index = pr_seg_index (My (conf d)) then
           (if Bcast_needed (net d) \<noteq> 0 then bind_res (send_bcast h b d) (\<lambda>d. Inr (h, d))
            else Inr (h, d))
         else bind_res (seg_at (Net_membership (net d)) seg_index) (\<lambda>seg.
           case procs seg of
             p # _ \<Rightarrow>
               let h = h\<lparr> p_type := Set_routed (p_type h) \<rparr>;
                   d = send_all [pr_addr p] h b d
               in Inr (h\<lparr> p_type := Clear_routed (p_type h) \<rparr>, d)
           | [] \<Rightarrow> Inr (h, d)))"

definition Net_ucast :: "proc_id \<Rightarrow> packet_header \<Rightarrow> payload \<Rightarrow> daemon \<Rightarrow> packet_header \<times> daemon" where
  "Net_ucast i h b d =
     (let h = stamp_packet d h
      in case Conf_proc_by_id_in_conf (Config (conf d)) i of
           None \<Rightarrow> (h, d)
         | Some (_, p) \<Rightarrow> (h, send_all [pr_addr p] h b d))"

text \<open>The number of bytes the requests take in the token's body.\<close>

definition rtr_bytes :: "ring_rtr list \<Rightarrow> int" where
  "rtr_bytes rs = sum_list (map (\<lambda>r. sizeof_ring_rtr + sizeof_int32 * int (length (r_seqs r))) rs)"

abbreviation (input) sizeof_members_info :: int where "sizeof_members_info \<equiv> 2 * 2 + 128 * sizeof_int32"
abbreviation (input) sizeof_reps_info :: int where "sizeof_reps_info \<equiv> 2 * 2 + 25 * 8"
abbreviation (input) sizeof_ring_info :: int where "sizeof_ring_info \<equiv> 28"
abbreviation (input) sizeof_membership_id :: int where "sizeof_membership_id \<equiv> 8"

definition ring_bytes :: "ring_info \<Rightarrow> int" where
  "ring_bytes g = sizeof_ring_info + (int (length (rg_holes g)) + int (length (rg_procs g))) * sizeof_int32"

definition rings_bytes :: "ring_info list \<Rightarrow> int" where
  "rings_bytes gs = sizeof_int32 + sum_list (map ring_bytes gs)"

fun token_bytes :: "token_payload \<Rightarrow> int" where
  "token_bytes (Requests rs) = rtr_bytes rs"
| "token_bytes (Form1_body m r gs) = sizeof_members_info + sizeof_reps_info + rings_bytes gs"
| "token_bytes (Form2_body m i gs) = sizeof_members_info + sizeof_membership_id + rings_bytes gs"

text \<open>The check of a token's length, which both functions that send one make.\<close>

definition token_size_wrong :: "token_header \<Rightarrow> token_payload \<Rightarrow> bool" where
  "token_size_wrong t rs \<longleftrightarrow>
     (let send_len = sizeof_token_header + token_bytes rs
      in send_len \<noteq> sizeof_token_header + t_rtr_len t \<or>
         send_len > sizeof_token_header + sizeof_token_body)"

definition Net_send_token ::
    "token_header \<Rightarrow> token_payload \<Rightarrow> daemon \<Rightarrow> (token_header \<times> daemon) result" where
  "Net_send_token t rs d =
     guard_res (token_size_wrong t rs) (Alarm_exit ''Net_send_token'')
       (let t = stamp_token d t
        in Inr (t, emit (DL_sendto_token (Token_port (Token_addr (net d))) t rs) d))"

definition Net_ucast_token ::
    "proc_id \<Rightarrow> token_header \<Rightarrow> token_payload \<Rightarrow> daemon \<Rightarrow> (token_header \<times> daemon) result" where
  "Net_ucast_token i t rs d =
     guard_res (token_size_wrong t rs) (Alarm_exit ''Net_ucast_token'')
       (let t = stamp_token d t
        in case Conf_proc_by_id_in_conf (Config (conf d)) i of
             None \<Rightarrow> Inr (t, d)
           | Some (_, p) \<Rightarrow> Inr (t, emit (DL_sendto_token (Token_port (pr_addr p)) t rs) d))"

section \<open>Partitions made by the monitor\<close>

definition Net_set_partition :: "(nat \<Rightarrow> int) \<Rightarrow> daemon \<Rightarrow> daemon" where
  "Net_set_partition new_partition d =
     (if Conf_in_reload_singleton_state (conf d) then d
      else upd_net (\<lambda>n. n\<lparr> Partition := (\<lambda>i. if int i < Conf_num_procs (Config (conf d))
             then new_partition i else Partition n i) \<rparr>) d)"

definition Net_clear_partition :: "daemon \<Rightarrow> daemon" where
  "Net_clear_partition d =
     upd_net (\<lambda>n. n\<lparr> Partition := (\<lambda>i. if int i < Conf_num_procs (Config (conf d))
       then 0 else Partition n i) \<rparr>) d"

text \<open>\<open>Partition_my_index\<close> is \<open>-1\<close> when this daemon is not in the configuration.\<close>

definition In_my_component :: "proc_id \<Rightarrow> daemon \<Rightarrow> bool result" where
  "In_my_component i d =
     (case Conf_proc_by_id_in_conf (Config (conf d)) i of
        None \<Rightarrow> Inr False
      | Some (proc_index, _) \<Rightarrow>
          guard_res (Partition_my_index (net d) < 0) (Undefined ''In_my_component'')
            (Inr (Partition (net d) (nat (Partition_my_index (net d))) =
                  Partition (net d) (nat proc_index))))"

section \<open>Configuration and membership\<close>

definition Net_signal_conf_reload :: "daemon \<Rightarrow> daemon result" where
  "Net_signal_conf_reload d =
     (let old_bcast_needed = Bcast_needed (net d);
          my = My (conf d);
          d = upd_net (\<lambda>n. n\<lparr> Partition_my_index :=
                Conf_proc_ref_by_id_in_conf (Config (conf d)) (pr_id my) \<rparr>) d;
          d = Net_clear_partition d
      in guard_res (length (pr_ifc my) > MAX_INTERFACES_PROC) (Alarm_exit ''Net_signal_conf_reload'')
           (bind_res (seg_at (Config (conf d)) (pr_seg_index my)) (\<lambda>seg.
              guard_res (length (seg_addrs seg) > MAX_ADDRS_SEGMENT) (Alarm_exit ''Net_signal_conf_reload'')
                (let needed = (if length (procs seg) > 1 then 1 else 0);
                     d = upd_net (\<lambda>n. n\<lparr> Bcast_addrs := seg_addrs seg, Bcast_needed := needed \<rparr>) d
                 in guard_res (old_bcast_needed \<noteq> - 1 \<and> needed \<noteq> 0 \<and> old_bcast_needed = 0)
                      (Alarm_exit ''Net_signal_conf_reload'') (Inr d)))))"

text \<open>
  The loop of \<open>Net_set_membership\<close> over the configured segments: the leaders of the other
  segments that have members, and how many of them come before this daemon's segment.
\<close>

definition send_addrs_step ::
    "configuration \<Rightarrow> int \<Rightarrow> nat \<Rightarrow> spu_addr list \<times> int \<Rightarrow> (spu_addr list \<times> int) result" where
  "send_addrs_step m my_seg_index i = (\<lambda>(send_addrs, my_next_index).
     if int i = my_seg_index then Inr (send_addrs, int (length send_addrs))
     else bind_res (seg_at m (int i)) (\<lambda>seg.
       case procs seg of
         p # _ \<Rightarrow> Inr (send_addrs @ [pr_addr p], my_next_index)
       | [] \<Rightarrow> Inr (send_addrs, my_next_index)))"

definition token_address :: "segment \<Rightarrow> int \<Rightarrow> spu_addr list \<Rightarrow> int \<Rightarrow> spu_addr" where
  "token_address my_seg my_index_in_seg send_addrs my_next_index =
     (if my_index_in_seg < int (length (procs my_seg)) - 1
      then pr_addr (procs my_seg ! nat (my_index_in_seg + 1))
      else if send_addrs = [] then pr_addr (procs my_seg ! 0)
      else if int (length send_addrs) = my_next_index then send_addrs ! 0
      else send_addrs ! nat my_next_index)"

definition Net_set_membership :: "configuration \<Rightarrow> daemon \<Rightarrow> daemon result" where
  "Net_set_membership m d =
     (let d = upd_net (\<lambda>n. n\<lparr> Net_membership := m \<rparr>) d;
          my = My (conf d)
      in bind_res (seg_at m (pr_seg_index my)) (\<lambda>my_seg.
         let my_index_in_seg = Conf_id_in_seg my_seg (pr_id my)
         in guard_res (my_index_in_seg < 0) (Alarm_exit ''Net_set_membership'')
            (bind_res (fold_res (send_addrs_step m (pr_seg_index my))
                [0..<nat (Conf_num_segments (Config (conf d)))] ([], - 1)) (\<lambda>(send_addrs, my_next_index).
             guard_res (my_next_index = - 1) (Alarm_exit ''Net_set_membership'')
               (Inr (upd_net (\<lambda>n. n\<lparr>
                    Segment_leader := (my_index_in_seg = 0),
                    Send_addrs := send_addrs,
                    Token_addr := token_address my_seg my_index_in_seg send_addrs my_next_index \<rparr>) d))))))"

section \<open>Receiving\<close>

text \<open>
  \<open>Net_handle_monitor\<close> returns the size to hand a request up and \<open>0\<close> when it is consumed. The
  partition numbers are turned round in place when the sender has the other byte order.
\<close>

definition Net_handle_monitor :: "in_packet \<Rightarrow> daemon \<Rightarrow> (int \<times> daemon) result" where
  "Net_handle_monitor inp d =
     (let h = in_head inp;
          recvd_bytes = sizeof_packet_header + p_data_len h;
          n = Conf_num_procs (Config (conf d))
      in if \<not> Is_partition (p_type h) then Inr (recvd_bytes, d)
         else if \<not> EnableDangerousMonitor (conf d) then Inr (0, d)
         else if recvd_bytes < sizeof_packet_header + 2 * n \<or> sizeof_packet_body d < 2 * n then Inr (0, d)
         else case in_body inp of
           Partition_body cur \<Rightarrow>
             let cur = (if Same_endian (p_type h) then cur
                        else (\<lambda>i. if int i < n then flip16 (cur i) else cur i));
                 d = Net_set_partition cur d;
                 d = emit (E_queue Clear_partition_cb (60, 0)) d
             in guard_res (Partition_my_index (net d) < 0) (Undefined ''Net_handle_monitor'')
                  (guard_res (Partition (net d) (nat (Partition_my_index (net d))) = - 1)
                    (Alarm_exit ''Net_handle_monitor'') (Inr (0, d)))
         | _ \<Rightarrow> Inl (Undefined ''Net_handle_monitor''))"

text \<open>
  \<open>inp\<close> is what \<open>DL_recvfrom_gen\<close> returned; \<open>ip_differs\<close> is \<open>spu_addr_ip_cmp(_, _, FALSE)\<close>. The
  result is the function's return value and the packet with its header as the function
  leaves it.
\<close>

definition Net_recv_checks :: "(spu_addr \<Rightarrow> spu_addr \<Rightarrow> bool) \<Rightarrow> in_packet \<Rightarrow> daemon \<Rightarrow> bool" where
  "Net_recv_checks ip_differs inp d \<longleftrightarrow>
     (let h = in_head inp in
      in_bytes inp = sizeof_packet_header + p_data_len h \<and>
      p_conf_hash h = hash_code (Config (conf d)) \<and>
      (case Conf_proc_by_id_in_conf (Config (conf d)) (p_transmiter_id h) of
         None \<Rightarrow> False
       | Some (_, pp) \<Rightarrow> \<not> ip_differs (in_src inp) (pr_addr pp)))"

definition Net_recv_route :: "in_packet \<Rightarrow> daemon \<Rightarrow> (in_packet \<times> daemon) result" where
  "Net_recv_route inp d =
     (let h = in_head inp in
      bind_res
        (if Is_routed (p_type h) \<and> Bcast_needed (net d) \<noteq> 0 then
           let h = h\<lparr> p_type := Clear_routed (p_type h), p_transmiter_id := pr_id (My (conf d)) \<rparr>;
               wire = (if Same_endian (p_type h) then h else Flip_pack h)
           in bind_res (send_bcast wire (in_body inp) d) (\<lambda>d.
                Inr (if Same_endian (p_type wire) then wire else Flip_pack wire, d))
         else Inr (h, d))
        (\<lambda>(h, d). Inr (inp\<lparr> in_head := h\<lparr> p_type := Clear_routed (p_type h) \<rparr> \<rparr>, d)))"

definition Net_recv ::
    "(spu_addr \<Rightarrow> spu_addr \<Rightarrow> bool) \<Rightarrow> int \<Rightarrow> in_packet \<Rightarrow> daemon \<Rightarrow> (int \<times> in_packet \<times> daemon) result" where
  "Net_recv ip_differs fd inp d =
     guard_res (fd \<notin> set (Bcast_channels (net d))) (Alarm_exit ''Net_recv'')
       (if in_bytes inp < 0 then Inr (in_bytes inp, inp, d)
        else if in_bytes inp < sizeof_packet_header then Inr (0, inp, d)
        else
          let h = in_head inp;
              h = (if Same_endian (p_type h) then h else Flip_pack h);
              inp = inp\<lparr> in_head := h \<rparr>
          in if \<not> Net_recv_checks ip_differs inp d then Inr (0, inp, d)
             else if Is_control (p_type h) then
               bind_res (Net_handle_monitor inp d) (\<lambda>(r, d). Inr (r, inp, d))
             else if p_transmiter_id h = pr_id (My (conf d)) then Inr (0, inp, d)
             else bind_res (In_my_component (p_transmiter_id h) d) (\<lambda>mine.
               if \<not> mine then Inr (0, inp, d)
               else bind_res (Net_recv_route inp d) (\<lambda>(inp, d). Inr (in_bytes inp, inp, d))))"

definition Net_recv_token ::
    "(spu_addr \<Rightarrow> spu_addr \<Rightarrow> bool) \<Rightarrow> int \<Rightarrow> in_token \<Rightarrow> daemon \<Rightarrow> (int \<times> in_token) result" where
  "Net_recv_token ip_differs fd inp d =
     guard_res (fd \<notin> set (Token_channels (net d))) (Alarm_exit ''Net_recv_token'')
       (if it_bytes inp < 0 then Inr (it_bytes inp, inp)
        else if it_bytes inp < sizeof_token_header then Inr (0, inp)
        else
          let t = it_head inp;
              t = (if Same_endian (t_type t) then t else Flip_token t);
              inp = inp\<lparr> it_head := t \<rparr>
          in if t_conf_hash t \<noteq> hash_code (Config (conf d)) then Inr (0, inp)
             else case Conf_proc_by_id_in_conf (Config (conf d)) (t_transmiter_id t) of
               None \<Rightarrow> Inr (0, inp)
             | Some (_, pp) \<Rightarrow>
                 if ip_differs (it_src inp) (pr_addr pp) then Inr (0, inp)
                 else bind_res (In_my_component (t_transmiter_id t) d) (\<lambda>mine.
                   Inr (if mine then it_bytes inp else 0, inp)))"

section \<open>Where packets and the token go\<close>

definition leader_addrs :: "segment list \<Rightarrow> spu_addr list" where
  "leader_addrs ss = map (\<lambda>s. pr_addr (hd (procs s))) (filter (\<lambda>s. procs s \<noteq> []) ss)"

lemma leader_addrs_simps [simp]:
  "leader_addrs [] = []"
  "leader_addrs (s # ss) = (if procs s \<noteq> [] then pr_addr (hd (procs s)) # leader_addrs ss else leader_addrs ss)"
  by (simp_all add: leader_addrs_def)

lemma leader_addrs_hd:
  "concat (map procs ss) \<noteq> [] \<Longrightarrow>
    leader_addrs ss \<noteq> [] \<and> leader_addrs ss ! 0 = pr_addr (concat (map procs ss) ! 0)"
  by (induction ss) (auto simp: nth_append hd_conv_nth)

lemma leader_addrs_empty: "leader_addrs ss = [] \<longleftrightarrow> concat (map procs ss) = []"
  by (induction ss) auto

lemma send_addrs_others:
  assumes "segments m = pre @ xs @ post" and "k < int (length pre) \<or> int (length (pre @ xs)) \<le> k"
  shows "fold_res (send_addrs_step m k) [length pre..<length (pre @ xs)] (acc, n) =
    Inr (acc @ leader_addrs xs, n)"
  using assms
proof (induction xs arbitrary: pre acc)
  case (Cons s xs)
  have "[length pre..<length (pre @ s # xs)] =
      length pre # [length (pre @ [s])..<length ((pre @ [s]) @ xs)]"
    by (simp add: upt_conv_Cons del: upt_Suc)
  moreover have "send_addrs_step m k (length pre) (acc, n) = Inr (acc @ leader_addrs [s], n)"
    using Cons.prems by (auto simp: send_addrs_step_def seg_at_def nth_append neq_Nil_conv split: list.splits)
  ultimately show ?case
    using Cons.IH [of "pre @ [s]" "acc @ leader_addrs [s]"] Cons.prems by (auto split: if_splits)
qed simp

lemma send_addrs_loop:
  assumes "segments m = sa @ seg # sb"
  shows "fold_res (send_addrs_step m (int (length sa))) [0..<length (segments m)] ([], - 1) =
    Inr (leader_addrs sa @ leader_addrs sb, int (length (leader_addrs sa)))"
proof -
  let ?k = "int (length sa)"
  have before: "fold_res (send_addrs_step m ?k) [0..<length sa] ([], - 1) = Inr (leader_addrs sa, - 1)"
    using send_addrs_others [of m "[]" sa "seg # sb" ?k "[]" "- 1"] assms by simp
  have mine: "send_addrs_step m ?k (length sa) (a, n) = Inr (a, int (length a))" for a n
    by (simp add: send_addrs_step_def)
  have after: "fold_res (send_addrs_step m ?k) [Suc (length sa)..<length (segments m)] (a, n) =
      Inr (a @ leader_addrs sb, n)" for a n
    using send_addrs_others [of m "sa @ [seg]" sb "[]" ?k a n] assms by simp
  have "[0..<length (segments m)] = [0..<length sa] @ length sa # [Suc (length sa)..<length (segments m)]"
    using assms upt_add_eq_append [of 0 "length sa" "Suc (length sb)"]
    by (simp add: upt_conv_Cons del: upt_Suc)
  then show ?thesis using before mine after by (simp add: fold_res_append)
qed

text \<open>Next in the ring: the member after this one, the next segment's first, the ring's first.\<close>

lemma token_address_next:
  assumes "segments m = sa @ seg # sb" and "procs seg = as @ p # bs"
  shows "token_address seg (int (length as)) (leader_addrs sa @ leader_addrs sb) (int (length (leader_addrs sa))) =
    pr_addr (ring m ! ((length (concat (map procs sa) @ as) + 1) mod length (ring m)))"
proof -
  let ?k = "length (concat (map procs sa) @ as)" and ?rest = "concat (map procs sb)"
  have r: "ring m = (concat (map procs sa) @ as) @ p # bs @ ?rest" by (simp add: ring_def assms)
  consider (seg) b bs' where "bs = b # bs'" | (other) "bs = []" "?rest \<noteq> []" | (wrap) "bs = []" "?rest = []"
    by (cases bs) auto
  then show ?thesis
  proof cases
    case seg
    then have "(?k + 1) mod length (ring m) = ?k + 1" using r by simp
    moreover have "ring m ! (?k + 1) = b" unfolding r seg by (simp add: nth_append)
    moreover have "procs seg ! nat (int (length as) + 1) = b"
      using assms(2) seg by (simp add: nth_append nat_add_distrib)
    ultimately show ?thesis using assms(2) seg by (simp add: token_address_def)
  next
    case other
    then have "(?k + 1) mod length (ring m) = ?k + 1" using r by simp
    moreover have "ring m ! (?k + 1) = ?rest ! 0"
      unfolding r using other by (simp add: nth_append)
    ultimately show ?thesis
      using assms(2) other leader_addrs_hd [OF other(2)] by (simp add: token_address_def nth_append)
  next
    case wrap
    have "length (ring m) = ?k + 1" using wrap(1) unfolding r wrap(2) by simp
    then have "(?k + 1) mod length (ring m) = 0" by simp
    moreover have "pr_addr (ring m ! 0) =
        (if leader_addrs sa = [] then pr_addr (procs seg ! 0) else leader_addrs sa ! 0)"
      using leader_addrs_hd [of sa] assms(2) unfolding r
      by (auto simp: leader_addrs_empty nth_append)
    ultimately show ?thesis
      using assms(2) wrap by (simp add: token_address_def leader_addrs_empty [of sb] nth_append)
  qed
qed

lemma Net_set_membership_ok:
  assumes "segments m = sa @ seg # sb" and "procs seg = as @ My (conf d) # bs"
    and "pr_seg_index (My (conf d)) = int (length sa)"
    and "length (segments (Config (conf d))) = length (segments m)"
    and "distinct (ring_ids m)"
  shows "Net_set_membership m d = Inr (upd_net (\<lambda>n. n\<lparr> Net_membership := m, Segment_leader := (as = []),
      Send_addrs := leader_addrs sa @ leader_addrs sb,
      Token_addr := pr_addr (ring m ! ((length (concat (map procs sa) @ as) + 1) mod length (ring m))) \<rparr>) d)"
proof -
  have "pr_id (My (conf d)) \<notin> pr_id ` set as"
    using assms(1,2,5) by (auto simp: ring_ids_def ring_def)
  then have "Conf_id_in_seg seg (pr_id (My (conf d))) = int (length as)"
    using Conf_id_in_seg_at [OF assms(2)] by simp
  moreover have "seg_at m (pr_seg_index (My (conf d))) = Inr seg"
    using assms(1,3) by (simp add: seg_at_def)
  ultimately show ?thesis
    using assms(3,4) send_addrs_loop [OF assms(1)] token_address_next [OF assms(1,2)]
    by (simp add: Net_set_membership_def Let_def Conf_num_segments_def upd_net_def)
qed

end
