(* ===== verification/Packing.thy ===== *)
theory Packing
  imports Network
begin

text \<open>
  Packets and fragments. A packet's body starts with its first fragment, whose header is in
  the packet's header; each further fragment is padded to a multiple of four bytes and
  carries its own header in the body. \<open>Send_new_packets\<close> fills a packet from the queue of
  messages, \<open>Deliver_packet\<close> takes it apart, and \<open>Prot_handle_bcast\<close> turns the fragment
  headers round when the sender has the other byte order.
\<close>

section \<open>Fragment headers in a body\<close>

text \<open>The switch that aligns an offset; its cases fall through.\<close>

definition padding_bytes :: "int \<Rightarrow> int" where
  "padding_bytes n =
     (let r = c_mod n 4 in if r = 1 then 3 else if r = 2 then 2 else if r = 3 then 1 else 0)"

lemma padding_range: "0 \<le> padding_bytes n \<and> padding_bytes n \<le> 3"
  by (simp add: padding_bytes_def Let_def)

text \<open>16-bit numbers in memory, low byte first.\<close>

definition put16 :: "int \<Rightarrow> byte list" where
  "put16 x = [word_of_int x, word_of_int (x div 256)]"

definition get16 :: "byte list \<Rightarrow> int" where
  "get16 bs = to_int16 (uint (bs ! 0) + 256 * uint (bs ! 1))"

definition put_frag :: "fragment_header \<Rightarrow> byte list" where
  "put_frag f = put16 (fragment_index f) @ put16 (fragment_len f)"

definition get_frag :: "int \<Rightarrow> byte list \<Rightarrow> fragment_header" where
  "get_frag off body =
     (let bs = drop (nat off) body
      in \<lparr> fragment_index = get16 (take 2 bs), fragment_len = get16 (take 2 (drop 2 bs)) \<rparr>)"

text \<open>\<open>frag_ptr\<close> points to the header's fragment header or to one in the body.\<close>

datatype frag_ptr = First_frag | Frag_at int

definition set_frag_index :: "frag_ptr \<Rightarrow> int \<Rightarrow> packet \<Rightarrow> packet" where
  "set_frag_index fp x = (\<lambda>(h, body).
     case fp of
       First_frag \<Rightarrow>
         (h\<lparr> p_first_frag_header := (p_first_frag_header h)\<lparr> fragment_index := to_int16 x \<rparr> \<rparr>, body)
     | Frag_at off \<Rightarrow> (h, write_at (nat off) (put16 (to_int16 x)) body))"

definition set_frag_len :: "int \<Rightarrow> int \<Rightarrow> byte list \<Rightarrow> byte list" where
  "set_frag_len off x body = write_at (nat off + 2) (put16 (to_int16 x)) body"

section \<open>Filling a packet\<close>

text \<open>
  The body of the loop that fills a packet. \<open>advance_queue\<close> is its first part: the fragment
  just added gets its index and the queue moves on; a message whose last fragment was taken
  leaves the queue. The last component lists the calls to \<open>Sess_unblock_users_level\<close>.
\<close>

definition advance_queue ::
    "frag_ptr \<Rightarrow> down_queue \<Rightarrow> packet \<Rightarrow> (down_queue \<times> packet \<times> effect list) result" where
  "advance_queue fp q pk =
     (case dq_links q of
        [] \<Rightarrow> Inl (Undefined ''Send_new_packets'')
      | l # ls \<Rightarrow>
          let cur = cur_element q + 1;
              n = int (length (dl_mess l))
          in if cur < n then Inr (q\<lparr> cur_element := cur \<rparr>, set_frag_index fp cur pk, [])
             else if cur = n then
               Inr (q\<lparr> dq_links := ls, cur_element := 0, num_mess := num_mess q - 1 \<rparr>,
                    set_frag_index fp (- to_int16 n) pk,
                    if num_mess q - 1 < WATER_MARK then [Sess_unblock_users_level] else [])
             else Inl (Alarm_exit ''Send_new_packets''))"

text \<open>The fragment at the head of the queue, \<open>first->mess->elements[cur_element]\<close>.\<close>

definition cur_frag :: "down_queue \<Rightarrow> (down_link \<times> scat_element) result" where
  "cur_frag q =
     (case dq_links q of
        [] \<Rightarrow> Inl (Undefined ''Send_new_packets'')
      | l # _ \<Rightarrow>
          guard_res (cur_element q < 0 \<or> int (length (dl_mess l)) \<le> cur_element q)
            (Undefined ''Send_new_packets'')
            (Inr (l, dl_mess l ! nat (cur_element q))))"

text \<open>Whether the types of the packet and of the next message allow one packet for both.\<close>

definition types_compatible :: "32 word \<Rightarrow> 32 word \<Rightarrow> bool" where
  "types_compatible a b \<longleftrightarrow>
     a = b \<or> ((Is_fifo a \<or> Is_agreed a) \<and> (Is_fifo b \<or> Is_agreed b))"

text \<open>Adding the next fragment behind what the body holds.\<close>

definition add_fragment :: "scat_element \<Rightarrow> packet \<Rightarrow> frag_ptr \<times> packet" where
  "add_fragment e = (\<lambda>(h, body).
     let off = p_data_len h + padding_bytes (p_data_len h);
         body = set_frag_len off (se_len e) body;
         len = to_int16 (se_len e);
         data_len = to_int16u (off + sizeof_fragment_header);
         body = write_at (nat data_len) (take (nat len) (se_buf e)) body;
         data_len = to_int16u (data_len + len)
     in (Frag_at off, (h\<lparr> p_data_len := data_len \<rparr>, body)))"

definition queue_left :: "down_queue \<Rightarrow> nat" where
  "queue_left q =
     nat (sum_list (map (\<lambda>l. 1 + int (length (dl_mess l))) (dq_links q)) - cur_element q)"

lemma advance_queue_left:
  assumes "advance_queue fp q pk = Inr (q', pk', es)"
  shows "queue_left q' < queue_left q"
proof -
  have "0 \<le> sum_list (map (\<lambda>l. 1 + int (length (dl_mess l))) ls)" for ls
    by (induction ls) auto
  note this [of "tl (dq_links q)"]
  then show ?thesis using assms
    by (auto simp: advance_queue_def queue_left_def Let_def split: list.splits if_splits)
qed

text \<open>
  \<open>fill_packet room\<close> is the loop, \<open>room\<close> being \<open>sizeof(packet_body)\<close>. It ends because every
  round takes a fragment off the queue.
\<close>

function fill_packet ::
    "int \<Rightarrow> frag_ptr \<Rightarrow> down_queue \<Rightarrow> packet \<Rightarrow> (down_queue \<times> packet \<times> effect list) result" where
  "fill_packet room fp q pk =
     (case advance_queue fp q pk of
        Inl e \<Rightarrow> Inl e
      | Inr (q', (h, body), es) \<Rightarrow>
          if num_mess q' = 0 then Inr (q', (h, body), es)
          else (case cur_frag q' of
            Inl e \<Rightarrow> Inl e
          | Inr (l, e) \<Rightarrow>
              let available = room - p_data_len h - padding_bytes (p_data_len h) - sizeof_fragment_header
              in if available < se_len e \<or> \<not> types_compatible (p_type h) (dl_type l)
                 then Inr (q', (h, body), es)
                 else let (fp', pk') = add_fragment e (h, body) in
                   bind_res (fill_packet room fp' q' pk') (\<lambda>(q2, pk2, es2). Inr (q2, pk2, es @ es2))))"
  by pat_completeness auto

termination
  by (relation "measure (\<lambda>(room, fp, q, pk). queue_left q)") (auto dest!: advance_queue_left)

declare fill_packet.simps [simp del]

section \<open>Taking a packet apart\<close>

text \<open>
  The loop of \<open>Deliver_packet\<close> over the fragments after the first: the messages it makes of
  them. A fragment header outside the buffer and a negative length, which \<open>memcpy\<close> would take
  for a huge one, are undefined.
\<close>

function parse_frags :: "int \<Rightarrow> byte list \<Rightarrow> int \<Rightarrow> scatter list result" where
  "parse_frags data_len body processed =
     (if data_len \<le> processed then Inr []
      else let off = processed + padding_bytes processed
           in if off < 0 \<or> int (length body) < off + sizeof_fragment_header
              then Inl (Undefined ''Deliver_packet'')
              else let len = fragment_len (get_frag off body);
                       start = off + sizeof_fragment_header
                   in if data_len < start + len then Inr []
                      else if len < 0 then Inl (Undefined ''Deliver_packet'')
                      else bind_res (parse_frags data_len body (start + len)) (\<lambda>ms.
                        Inr ([\<lparr> se_buf = take (nat len) (drop (nat start) body), se_len = len \<rparr>] # ms)))"
  by pat_completeness auto

termination
  by (relation "measure (\<lambda>(data_len, body, processed). nat (data_len - processed))")
    (use padding_range in \<open>auto simp: Let_def, smt (verit)\<close>)

declare parse_frags.simps [simp del]

text \<open>
  The loop of \<open>Prot_handle_bcast\<close> that turns the fragment headers of a body round, from the
  offset \<open>processed\<close> on; the result is the body and the offset it ends at. A negative length
  would lead it back over headers it has turned already; what C does then is not modelled.
\<close>

function flip_frags :: "int \<Rightarrow> byte list \<Rightarrow> int \<Rightarrow> (byte list \<times> int) result" where
  "flip_frags data_len body processed =
     (if data_len \<le> processed then Inr (body, processed)
      else let off = processed + padding_bytes processed
           in if data_len < off + sizeof_fragment_header then Inr (body, off)
              else if off < 0 \<or> int (length body) < off + sizeof_fragment_header
              then Inl (Undefined ''Prot_handle_bcast'')
              else let f = Flip_frag (get_frag off body);
                       body = write_at (nat off) (put_frag f) body
                   in if fragment_len f < 0 then Inl (Undefined ''Prot_handle_bcast'')
                      else flip_frags data_len body (off + sizeof_fragment_header + fragment_len f))"
  by pat_completeness auto

termination
  by (relation "measure (\<lambda>(data_len, body, processed). nat (data_len - processed))")
    (use padding_range in \<open>auto simp: Let_def, smt (verit)\<close>)

declare flip_frags.simps [simp del]

section \<open>Reading back what was written\<close>

lemma nth_write_at:
  assumes "off + length src \<le> length dst" and "i < length dst"
  shows "write_at off src dst ! i =
    (if off \<le> i \<and> i < off + length src then src ! (i - off) else dst ! i)"
  using assms by (auto simp: write_at_def nth_append min_def)

lemma length_put16 [simp]: "length (put16 x) = 2"
  by (simp add: put16_def)

lemma uint_byte: "uint (word_of_int x :: 8 word) = x mod 256"
  by (simp add: uint_word_of_int)

lemma get16_nth:
  "nat off + 2 \<le> length body \<Longrightarrow>
    get16 (take 2 (drop (nat off) body)) = to_int16 (uint (body ! nat off) + 256 * uint (body ! (nat off + 1)))"
  by (simp add: get16_def)

lemma int16_bytes:
  assumes "int16_range x"
  shows "to_int16 (uint (put16 x ! 0) + 256 * uint (put16 x ! 1)) = x"
proof -
  have "x mod 256 + 256 * ((x div 256) mod 256) = x mod 65536"
    by (simp add: mod_mult2_eq [of 256 256, simplified] zmod_zmult2_eq [of 256 x 256, simplified])
  then show ?thesis using assms
    by (simp add: put16_def uint_byte to_int16_def mod_simps)
qed

section \<open>Packets carry whole messages\<close>

text \<open>
  A message as the session layer queues it: every element but the last fills a packet's
  body. \<open>queue_wf\<close> is the invariant of a queue of such messages.
\<close>

definition elem_wf :: "int \<Rightarrow> scat_element \<Rightarrow> bool" where
  "elem_wf room e \<longleftrightarrow> 0 \<le> se_len e \<and> se_len e \<le> room \<and> int (length (se_buf e)) = room"

definition msg_wf :: "int \<Rightarrow> down_link \<Rightarrow> bool" where
  "msg_wf room l \<longleftrightarrow> dl_mess l \<noteq> [] \<and> length (dl_mess l) \<le> 100 \<and> list_all (elem_wf room) (dl_mess l) \<and>
     list_all (\<lambda>e. se_len e = room) (butlast (dl_mess l))"

definition queue_wf :: "int \<Rightarrow> down_queue \<Rightarrow> bool" where
  "queue_wf room q \<longleftrightarrow> num_mess q = int (length (dq_links q)) \<and> list_all (msg_wf room) (dq_links q) \<and>
     0 \<le> cur_element q \<and>
     (case dq_links q of [] \<Rightarrow> cur_element q = 0 | l # _ \<Rightarrow> cur_element q < int (length (dl_mess l)))"

text \<open>The bytes of a fragment in use, as \<open>Deliver_packet\<close> copies them.\<close>

definition frag_content :: "scat_element \<Rightarrow> scat_element" where
  "frag_content e = \<lparr> se_buf = take (nat (se_len e)) (se_buf e), se_len = se_len e \<rparr>"

fun index_bytes :: "frag_ptr \<Rightarrow> nat set" where
  "index_bytes First_frag = {}"
| "index_bytes (Frag_at off) = {nat off, nat off + 1}"

fun frag_ptr_ok :: "frag_ptr \<Rightarrow> int \<Rightarrow> bool" where
  "frag_ptr_ok First_frag n = True"
| "frag_ptr_ok (Frag_at off) n \<longleftrightarrow> 0 \<le> off \<and> off + 4 \<le> n"

lemma set_frag_index_frame:
  assumes "set_frag_index fp x (h, body) = (h', body')" and "frag_ptr_ok fp (int (length body))"
  shows "p_data_len h' = p_data_len h" and "p_type h' = p_type h" and "p_seq h' = p_seq h"
    and "p_proc_id h' = p_proc_id h" and "p_memb_id h' = p_memb_id h"
    and "fragment_len (p_first_frag_header h') = fragment_len (p_first_frag_header h)"
    and "length body' = length body"
    and "\<forall>i < length body. i \<notin> index_bytes fp \<longrightarrow> body' ! i = body ! i"
  using assms by (cases fp; auto simp: set_frag_index_def nth_write_at)+

lemma set_frag_index_head:
  "set_frag_index fp x (h, body) = (h', body') \<Longrightarrow> h' = h\<lparr> p_first_frag_header := p_first_frag_header h' \<rparr>"
  by (cases fp) (auto simp: set_frag_index_def)

text \<open>What adding a fragment writes, and that it can be read back.\<close>

lemma add_fragment_spec:
  assumes "add_fragment e (h, body) = (fp, (h1, body1))" and "elem_wf room e" and "room < 2 ^ 15"
    and "int (length body) = room" and "0 \<le> p_data_len h"
    and "se_len e \<le> room - p_data_len h - padding_bytes (p_data_len h) - 4"
  defines "off \<equiv> p_data_len h + padding_bytes (p_data_len h)"
  shows "fp = Frag_at off" and "h1 = h\<lparr> p_data_len := off + 4 + se_len e \<rparr>"
    and "length body1 = length body"
    and "\<forall>i < nat off. body1 ! i = body ! i"
    and "get16 (take 2 (drop (nat off + 2) body1)) = se_len e"
    and "take (nat (se_len e)) (drop (nat off + 4) body1) = take (nat (se_len e)) (se_buf e)"
proof -
  have off: "0 \<le> off" "off + 4 + se_len e \<le> room" and e: "0 \<le> se_len e" "int (length (se_buf e)) = room"
    using assms(2,5,6) padding_range [of "p_data_len h"] by (auto simp: off_def elem_wf_def)
  let ?c = "take (nat (se_len e)) (se_buf e)" and ?b = "set_frag_len off (se_len e) body"
  have lc: "length ?c = nat (se_len e)" using e off by simp
  have lb: "length ?b = length body" using off assms(4) e by (simp add: set_frag_len_def)
  have b1: "body1 = write_at (nat off + 4) ?c ?b" and h1: "h1 = h\<lparr> p_data_len := off + 4 + se_len e \<rparr>"
    using assms(1,3) off e by (auto simp: add_fragment_def Let_def off_def [symmetric] nat_add_distrib)
  show "fp = Frag_at off" "h1 = h\<lparr> p_data_len := off + 4 + se_len e \<rparr>"
    using assms(1) h1 by (simp_all add: add_fragment_def Let_def off_def)
  have fits: "nat off + 4 + length ?c \<le> length ?b" using off lc lb assms(4) e by linarith
  show len: "length body1 = length body" using b1 fits lb by simp
  have at: "body1 ! i = (if nat off + 4 \<le> i \<and> i < nat off + 4 + length ?c then ?c ! (i - (nat off + 4)) else ?b ! i)"
    if "i < length body" for i using b1 nth_write_at [OF fits] that lb by simp
  have bat: "?b ! i = (if nat off + 2 \<le> i \<and> i < nat off + 4 then put16 (se_len e) ! (i - (nat off + 2)) else body ! i)"
    if "i < length body" for i
    using nth_write_at [of "nat off + 2" "put16 (to_int16 (se_len e))" body i] that fits lb e assms(3) off
    by (simp add: set_frag_len_def)
  show "\<forall>i < nat off. body1 ! i = body ! i" using at bat fits lb by simp
  have "body1 ! (nat off + 2) = put16 (se_len e) ! 0" "body1 ! (nat off + 3) = put16 (se_len e) ! 1"
    using at [of "nat off + 2"] bat [of "nat off + 2"] at [of "nat off + 3"] bat [of "nat off + 3"] fits lb by simp_all
  then show "get16 (take 2 (drop (nat off + 2) body1)) = se_len e"
    using int16_bytes [of "se_len e"] e off assms(3) fits len lb
    by (simp add: get16_def numeral_3_eq_3)
  show "take (nat (se_len e)) (drop (nat off + 4) body1) = ?c"
    using b1 fits lc by simp
qed

text \<open>Reading one fragment off a body that agrees with the one it was written to.\<close>

lemma parse_frags_step:
  assumes "0 \<le> d" and "off = d + padding_bytes d" and "0 \<le> len" and "off + 4 + len \<le> data_len"
    and "data_len \<le> int (length body)"
    and "get16 (take 2 (drop (nat off + 2) body)) = len"
  shows "parse_frags data_len body d =
    bind_res (parse_frags data_len body (off + 4 + len)) (\<lambda>ms.
      Inr ([\<lparr> se_buf = take (nat len) (drop (nat off + 4) body), se_len = len \<rparr>] # ms))"
proof -
  have "0 \<le> off" "d < data_len" using assms(1-4) padding_range [of d] by linarith+
  then show ?thesis
    using assms by (subst parse_frags.simps)
      (simp add: get_frag_def Let_def nat_add_distrib add.commute)
qed

lemma get16_cong:
  assumes "k + 2 \<le> length a" and "length a = length b" and "a ! k = b ! k" and "a ! (k + 1) = b ! (k + 1)"
  shows "get16 (take 2 (drop k a)) = get16 (take 2 (drop k b))"
  using assms by (simp add: get16_def)

lemma take_drop_cong:
  assumes "k + n \<le> length a" and "length a = length b" and "\<forall>i. k \<le> i \<and> i < k + n \<longrightarrow> a ! i = b ! i"
  shows "take n (drop k a) = take n (drop k b)"
  using assms by (intro nth_equalityI) auto

text \<open>One round of the queue: either the message has more fragments or the next one is up.\<close>

lemma advance_queue_wf:
  assumes "queue_wf room q" and "dq_links q = l # ls"
  shows "\<exists>q' es. advance_queue fp q pk = Inr (q', set_frag_index fp
      (if cur_element q + 1 < int (length (dl_mess l)) then cur_element q + 1
       else - int (length (dl_mess l))) pk, es) \<and> queue_wf room q' \<and>
    (if cur_element q + 1 < int (length (dl_mess l))
     then q' = q\<lparr> cur_element := cur_element q + 1 \<rparr> \<and> es = []
     else dq_links q' = ls \<and> cur_element q' = 0)"
proof (cases "cur_element q + 1 < int (length (dl_mess l))")
  case True
  then show ?thesis using assms by (auto simp: advance_queue_def queue_wf_def Let_def)
next
  case False
  then have "cur_element q + 1 = int (length (dl_mess l))" using assms by (simp add: queue_wf_def)
  then show ?thesis using assms
    by (auto simp: advance_queue_def queue_wf_def msg_wf_def Let_def split: list.splits)
qed

text \<open>
  A fragment that is added behind another is a whole message: the queue has moved on to the
  next message, and that message has one element.
\<close>

lemma added_is_whole:
  assumes "queue_wf room q" and "dq_links q = l # ls" and "cur_frag q = Inr (l, e)"
    and "0 \<le> d" and "cur_element q = 0 \<or> room \<le> d"
    and "se_len e \<le> room - d - padding_bytes d - 4"
  shows "cur_element q = 0 \<and> dl_mess l = [e]"
proof -
  have m: "msg_wf room l" and c: "0 \<le> cur_element q" "cur_element q < int (length (dl_mess l))"
    using assms(1,2) by (simp_all add: queue_wf_def)
  have e: "e = dl_mess l ! nat (cur_element q)" "e \<in> set (dl_mess l)"
    using assms(2,3) c by (auto simp: cur_frag_def)
  then have "0 \<le> se_len e" using m by (auto simp: msg_wf_def list_all_iff elem_wf_def)
  then have lt: "d < room" "se_len e < room" using assms(4,6) padding_range [of d] by linarith+
  then have c0: "cur_element q = 0" using assms(5) by simp
  have "length (dl_mess l) = 1"
  proof (rule ccontr)
    assume "length (dl_mess l) \<noteq> 1"
    then have "e \<in> set (butlast (dl_mess l))"
      using e(1) c0 m by (cases "dl_mess l") (auto simp: msg_wf_def)
    then show False using m lt by (auto simp: msg_wf_def list_all_iff)
  qed
  then show ?thesis using c0 e(1) by (cases "dl_mess l") auto
qed

lemma cur_frag_wf:
  assumes "queue_wf room q" and "dq_links q = l # ls"
  shows "cur_frag q = Inr (l, dl_mess l ! nat (cur_element q))"
    and "elem_wf room (dl_mess l ! nat (cur_element q))"
  using assms by (auto simp: cur_frag_def queue_wf_def msg_wf_def list_all_iff)

text \<open>What a run of \<open>fill_packet\<close> makes of its packet, \<open>ls\<close> being the messages behind the first.\<close>

definition filled ::
    "int \<Rightarrow> frag_ptr \<Rightarrow> down_link list \<Rightarrow> packet \<Rightarrow> nat \<Rightarrow> packet \<Rightarrow> bool" where
  "filled room fp ls = (\<lambda>(h, body) k (h', body').
     k \<le> length ls \<and>
     (\<forall>l \<in> set (take k ls). length (dl_mess l) = 1 \<and> types_compatible (p_type h) (dl_type l)) \<and>
     p_data_len h \<le> p_data_len h' \<and> p_data_len h' \<le> room \<and> length body' = length body \<and>
     h' = h\<lparr> p_data_len := p_data_len h', p_first_frag_header := p_first_frag_header h' \<rparr> \<and>
     (\<forall>i < nat (p_data_len h). i \<notin> index_bytes fp \<longrightarrow> body' ! i = body ! i) \<and>
     parse_frags (p_data_len h') body' (p_data_len h) =
       Inr (map (\<lambda>l. map frag_content (dl_mess l)) (take k ls)))"

lemma filled_stop:
  assumes "set_frag_index fp x (h, body) = (h', body')" and "frag_ptr_ok fp (p_data_len h)"
    and "p_data_len h \<le> room" and "int (length body) = room"
  shows "filled room fp ls (h, body) 0 (h', body')"
proof -
  have ok: "frag_ptr_ok fp (int (length body))" using assms(2-4) by (cases fp) auto
  note frame = set_frag_index_frame [OF assms(1) ok]
  have "h' = h\<lparr> p_data_len := p_data_len h', p_first_frag_header := p_first_frag_header h' \<rparr>"
    using set_frag_index_head [OF assms(1)] frame(1) by (cases h; cases h'; simp)
  then show ?thesis
    using frame assms(3,4) by (auto simp: filled_def parse_frags.simps)
qed

text \<open>Adding one message and filling the packet from there.\<close>

lemma filled_add:
  assumes idx: "set_frag_index fp x (h, body) = (h0, body0)" and fp: "frag_ptr_ok fp (p_data_len h)"
    and room: "room < 2 ^ 15" "int (length body) = room" "0 \<le> p_data_len h" "p_data_len h \<le> room"
    and e: "elem_wf room e" "se_len e \<le> room - p_data_len h - padding_bytes (p_data_len h) - 4"
    and l: "dl_mess l = [e]" "types_compatible (p_type h) (dl_type l)"
    and add: "add_fragment e (h0, body0) = (fp1, (h1, body1))"
    and rest: "filled room fp1 ls (h1, body1) k (h', body')"
  shows "filled room fp (l # ls) (h, body) (Suc k) (h', body')"
proof -
  have ok: "frag_ptr_ok fp (int (length body))" using fp room by (cases fp) auto
  note frame = set_frag_index_frame [OF idx ok]
  let ?d = "p_data_len h" and ?off = "p_data_len h + padding_bytes (p_data_len h)"
  note spec = add_fragment_spec [OF add e(1) room(1), unfolded frame(1), OF _ room(3) e(2)]
  have len0: "int (length body0) = room" using frame(7) room(2) by simp
  have off: "0 \<le> ?off" "?d \<le> ?off" using padding_range [of ?d] room(3) by auto
  have e0: "0 \<le> se_len e" using e(1) by (simp add: elem_wf_def)
  have d1: "p_data_len h1 = ?off + 4 + se_len e" using spec(2) [OF len0] by simp
  have r: "p_data_len h1 \<le> p_data_len h'" "p_data_len h' \<le> room" "length body' = length body1"
    "\<forall>i < nat (p_data_len h1). i \<notin> {nat ?off, nat ?off + 1} \<longrightarrow> body' ! i = body1 ! i"
    "parse_frags (p_data_len h') body' (?off + 4 + se_len e) =
      Inr (map (\<lambda>l. map frag_content (dl_mess l)) (take k ls))"
    using rest spec(1) [OF len0] d1 by (auto simp: filled_def)
  have len: "length body' = length body" using r(3) spec(3) [OF len0] frame(7) by simp
  have fit: "nat ?off + 4 + nat (se_len e) \<le> length body" using d1 r(1,2) room(2) off e0 by linarith
  have keep: "body' ! i = body1 ! i" if "nat ?off + 2 \<le> i" "i < nat ?off + 4 + nat (se_len e)" for i
    using r(4) that d1 off e0 by (auto simp: nat_add_distrib)
  have "get16 (take 2 (drop (nat ?off + 2) body')) = se_len e"
    using get16_cong [of "nat ?off + 2" body' body1] keep fit len r(3) spec(5) [OF len0] by simp
  moreover have "take (nat (se_len e)) (drop (nat ?off + 4) body') = take (nat (se_len e)) (se_buf e)"
    using take_drop_cong [of "nat ?off + 4" "nat (se_len e)" body' body1] keep fit len r(3) spec(6) [OF len0]
    by simp
  ultimately have "parse_frags (p_data_len h') body' ?d =
      Inr (map (\<lambda>l. map frag_content (dl_mess l)) (take (Suc k) (l # ls)))"
    using parse_frags_step [of ?d ?off "se_len e" "p_data_len h'" body'] r d1 room e0 len l(1)
    by (simp add: frag_content_def)
  moreover have "body' ! i = body ! i" if "i < nat ?d" "i \<notin> index_bytes fp" for i
  proof -
    have "i < nat ?off" "i < nat (p_data_len h1)" "i < length body"
      using that(1) off d1 e0 fit by linarith+
    then show ?thesis using that(2) frame(8) spec(4) [OF len0] r(4) by simp
  qed
  moreover have "h' = h\<lparr> p_data_len := p_data_len h', p_first_frag_header := p_first_frag_header h' \<rparr>"
  proof -
    have "h0 = h\<lparr> p_first_frag_header := p_first_frag_header h0 \<rparr>" by (rule set_frag_index_head [OF idx])
    moreover have "h' = h1\<lparr> p_data_len := p_data_len h', p_first_frag_header := p_first_frag_header h' \<rparr>"
      using rest by (auto simp: filled_def)
    ultimately show ?thesis using spec(2) [OF len0] by (cases h0; cases h; cases h'; simp)
  qed
  ultimately show ?thesis
    using rest l len d1 r off e0 spec(2) [OF len0] frame(2) by (auto simp: filled_def)
qed

lemma fill_packet_stop:
  assumes "advance_queue fp q pk = Inr (q', (h', body'), es)"
    and "num_mess q' \<noteq> 0 \<Longrightarrow> cur_frag q' = Inr (l, e) \<and>
      (room - p_data_len h' - padding_bytes (p_data_len h') - 4 < se_len e \<or>
       \<not> types_compatible (p_type h') (dl_type l))"
  shows "fill_packet room fp q pk = Inr (q', (h', body'), es)"
  using assms by (subst fill_packet.simps) (auto simp: Let_def)

lemma fill_packet_add:
  assumes "advance_queue fp q pk = Inr (q', (h', body'), es)" and "num_mess q' \<noteq> 0"
    and "cur_frag q' = Inr (l, e)"
    and "se_len e \<le> room - p_data_len h' - padding_bytes (p_data_len h') - 4"
    and "types_compatible (p_type h') (dl_type l)"
    and "add_fragment e (h', body') = (fp1, pk1)"
    and "fill_packet room fp1 q' pk1 = Inr (q2, pk2, es2)"
  shows "fill_packet room fp q pk = Inr (q2, pk2, es @ es2)"
  using assms by (subst fill_packet.simps) (auto simp: Let_def)

lemma fill_packet_filled:
  assumes "queue_wf room q" and "dq_links q = l # ls" and "room < 2 ^ 15"
    and "int (length body) = room" and "0 \<le> p_data_len h" and "p_data_len h \<le> room"
    and "cur_element q + 1 < int (length (dl_mess l)) \<Longrightarrow> p_data_len h = room"
    and "frag_ptr_ok fp (p_data_len h)"
  shows "\<exists>q' pk' es k. fill_packet room fp q (h, body) = Inr (q', pk', es) \<and> queue_wf room q' \<and>
    filled room fp ls (h, body) k pk' \<and>
    (if cur_element q + 1 < int (length (dl_mess l))
     then k = 0 \<and> q' = q\<lparr> cur_element := cur_element q + 1 \<rparr>
     else dq_links q' = drop k ls \<and> cur_element q' = 0)"
  using assms
proof (induction "length ls" arbitrary: q l ls h body fp rule: less_induct)
  case less
  note prems = less.prems
  let ?more = "cur_element q + 1 < int (length (dl_mess l))"
  obtain q0 es x where adv: "advance_queue fp q (h, body) = Inr (q0, set_frag_index fp x (h, body), es)"
      and wf0: "queue_wf room q0"
      and q0: "if ?more then q0 = q\<lparr> cur_element := cur_element q + 1 \<rparr> \<and> es = []
               else dq_links q0 = ls \<and> cur_element q0 = 0"
    using advance_queue_wf [OF prems(1,2), of fp "(h, body)"] by blast
  obtain h0 body0 where idx: "set_frag_index fp x (h, body) = (h0, body0)" by force
  have ok: "frag_ptr_ok fp (int (length body))" using prems(4,6,8) by (cases fp) auto
  note frame = set_frag_index_frame [OF idx ok]
  note adv' = adv [unfolded idx]
  have stop: ?case if "fill_packet room fp q (h, body) = Inr (q0, (h0, body0), es)"
    using that wf0 q0 filled_stop [OF idx prems(8,6,4), of ls]
    by (intro exI [of _ q0] exI [of _ "(h0, body0)"] exI [of _ es] exI [of _ 0]) auto
  show ?case
  proof (cases "num_mess q0 = 0")
    case True
    then show ?thesis using stop fill_packet_stop [OF adv'] by blast
  next
    case False
    then obtain l1 ls1 where l1: "dq_links q0 = l1 # ls1"
      using wf0 by (cases "dq_links q0") (auto simp: queue_wf_def)
    let ?e = "dl_mess l1 ! nat (cur_element q0)"
    note cf = cur_frag_wf [OF wf0 l1]
    show ?thesis
    proof (cases "se_len ?e \<le> room - p_data_len h - padding_bytes (p_data_len h) - 4 \<and>
        types_compatible (p_type h) (dl_type l1)")
      case False
      then show ?thesis
        using fill_packet_stop [OF adv', where l = l1 and e = ?e] cf(1) frame(1,2) stop by fastforce
    next
      case True
      have "0 \<le> se_len ?e" using cf(2) by (simp add: elem_wf_def)
      then have notmore: "\<not> ?more" using True prems(5-7) padding_range [of "p_data_len h"] by fastforce
      then have ls: "ls = l1 # ls1" and c0: "cur_element q0 = 0" using q0 l1 by simp_all
      have e: "dl_mess l1 = [?e]"
        using added_is_whole [OF wf0 l1 cf(1) prems(5)] c0 True by simp
      then have one: "length (dl_mess l1) = 1" by (metis One_nat_def length_Cons list.size(3))
      obtain fp1 h1 body1 where add: "add_fragment ?e (h0, body0) = (fp1, (h1, body1))" by (metis surj_pair)
      note spec = add_fragment_spec [OF add cf(2) prems(3), unfolded frame(1,7), OF prems(4,5)]
      have d1: "0 \<le> p_data_len h1" "p_data_len h1 \<le> room" "frag_ptr_ok fp1 (p_data_len h1)"
          "int (length body1) = room"
        using True spec(1-3) \<open>0 \<le> se_len ?e\<close> prems(4,5) padding_range [of "p_data_len h"] frame(7)
        by auto
      obtain q2 pk2 es2 k where ih: "fill_packet room fp1 q0 (h1, body1) = Inr (q2, pk2, es2)"
          "queue_wf room q2" "filled room fp1 ls1 (h1, body1) k pk2"
          "dq_links q2 = drop k ls1 \<and> cur_element q2 = 0"
        using less.hyps [of ls1 q0 l1 body1 h1 fp1] ls wf0 l1 d1 prems(3) one c0
        by auto
      have "fill_packet room fp q (h, body) = Inr (q2, pk2, es @ es2)"
        using fill_packet_add [OF adv' False cf(1) _ _ add ih(1)] True frame(1,2) by simp
      moreover have "filled room fp ls (h, body) (Suc k) pk2"
        using filled_add [OF idx prems(8,3,4,5,6) cf(2) _ e _ add, of ls1 k "fst pk2" "snd pk2"] ih(3) True ls by simp
      ultimately show ?thesis using ih(2,4) notmore ls by auto
    qed
  qed
qed

text \<open>The first fragment's header is written once, when the fragment is taken off the queue.\<close>

lemma fill_packet_other_head:
  assumes "fill_packet room fp q pk = Inr (q', pk', es)" and "fp = Frag_at off"
  shows "p_first_frag_header (fst pk') = p_first_frag_header (fst pk)"
  using assms
proof (induction room fp q pk arbitrary: q' pk' es off rule: fill_packet.induct)
  case (1 room fp q pk)
  obtain h body where pk: "pk = (h, body)" by force
  from 1(2) obtain q0 h0 body0 es0 where adv: "advance_queue fp q pk = Inr (q0, (h0, body0), es0)"
    by (subst (asm) fill_packet.simps) (auto split: sum.splits)
  have h0: "h0 = h" using adv 1(3) pk
    by (auto simp: advance_queue_def set_frag_index_def Let_def split: list.splits if_splits)
  show ?case
  proof (cases "pk' = (h0, body0)")
    case False
    with 1(2) adv obtain l e fp1 h1 body1 es1 where
      c: "num_mess q0 \<noteq> 0" "cur_frag q0 = Inr (l, e)"
        "\<not> (room - p_data_len h0 - padding_bytes (p_data_len h0) - 4 < se_len e \<or>
          \<not> types_compatible (p_type h0) (dl_type l))"
        "add_fragment e (h0, body0) = (fp1, (h1, body1))" "fill_packet room fp1 q0 (h1, body1) = Inr (q', pk', es1)"
      by (subst (asm) fill_packet.simps)
        (auto simp: Let_def split: sum.splits if_splits prod.splits)
    then have "p_first_frag_header h1 = p_first_frag_header h0" "\<exists>off. fp1 = Frag_at off"
      by (auto simp: add_fragment_def Let_def)
    then show ?thesis
      using 1(1) [OF adv refl refl refl c(1,2) refl refl c(3) refl c(4) [symmetric] c(5)] h0 pk by auto
  qed (simp add: h0 pk)
qed

text \<open>
  A new packet of \<open>Send_new_packets\<close>: its header from the head of the queue, its body the
  buffer of the first fragment. The fields that \<open>Net_bcast\<close> fills in start as zero here; C
  leaves them uninitialised until then.
\<close>

definition new_packet_head ::
    "32 word \<Rightarrow> proc_id \<Rightarrow> membership_id \<Rightarrow> int \<Rightarrow> int \<Rightarrow> packet_header" where
  "new_packet_head ty my memb_id seq len = \<lparr>
     p_type = ty, p_transmiter_id = 0, p_proc_id = my, p_memb_id = memb_id, p_seq = seq,
     p_token_round = 0, p_conf_hash = 0, p_data_len = to_int16u len, p_padding = 0,
     p_first_frag_header = \<lparr> fragment_index = 0, fragment_len = to_int16 len \<rparr> \<rparr>"

definition build_packet ::
    "int \<Rightarrow> proc_id \<Rightarrow> membership_id \<Rightarrow> int \<Rightarrow> down_queue \<Rightarrow> (down_queue \<times> packet \<times> effect list) result" where
  "build_packet room my memb_id seq q =
     bind_res (cur_frag q) (\<lambda>(l, e).
       fill_packet room First_frag q
         (new_packet_head (dl_type l) my memb_id seq (se_len e), se_buf e))"

text \<open>The index \<open>Deliver_packet\<close> expects of the fragment at the head of the queue.\<close>

definition head_index :: "down_queue \<Rightarrow> down_link \<Rightarrow> int" where
  "head_index q l =
     (if cur_element q + 1 < int (length (dl_mess l)) then cur_element q + 1
      else - int (length (dl_mess l)))"

lemma fill_packet_first_index:
  assumes "fill_packet room First_frag q pk = Inr (q', pk', es)" and "queue_wf room q"
    and "dq_links q = l # ls"
  shows "p_first_frag_header (fst pk') = (p_first_frag_header (fst pk))\<lparr> fragment_index := head_index q l \<rparr>"
proof -
  obtain h body where pk: "pk = (h, body)" by force
  have small: "length (dl_mess l) \<le> 100" "0 \<le> cur_element q"
    using assms(2,3) by (simp_all add: queue_wf_def msg_wf_def)
  obtain q0 es0 where adv: "advance_queue First_frag q pk = Inr (q0, set_frag_index First_frag (head_index q l) pk, es0)"
    using advance_queue_wf [OF assms(2,3), of First_frag pk] by (auto simp: head_index_def)
  obtain h0 where h0: "set_frag_index First_frag (head_index q l) pk = (h0, body)"
      "p_first_frag_header h0 = (p_first_frag_header h)\<lparr> fragment_index := head_index q l \<rparr>"
    using small pk by (auto simp: set_frag_index_def head_index_def)
  show ?thesis
  proof (cases "pk' = (h0, body)")
    case False
    with assms(1) [unfolded fill_packet.simps [of room First_frag q pk]] adv h0(1) obtain l e fp1 h1 body1 es1 where
      "cur_frag q0 = Inr (l, e)" and
      c: "add_fragment e (h0, body) = (fp1, (h1, body1))" "fill_packet room fp1 q0 (h1, body1) = Inr (q', pk', es1)"
      by (auto simp: Let_def split: sum.splits if_splits prod.splits)
    then have "p_first_frag_header h1 = p_first_frag_header h0" "\<exists>off. fp1 = Frag_at off"
      by (auto simp: add_fragment_def Let_def)
    then show ?thesis using fill_packet_other_head [OF c(2)] h0(2) pk by auto
  qed (simp add: h0 pk)
qed

lemma build_packet_carries:
  assumes "queue_wf room q" and "dq_links q = l # ls" and "room < 2 ^ 15"
  defines "e \<equiv> dl_mess l ! nat (cur_element q)"
  shows "\<exists>q' h body es k. build_packet room my memb_id seq q = Inr (q', (h, body), es) \<and>
    queue_wf room q' \<and> k \<le> length ls \<and>
    (if cur_element q + 1 < int (length (dl_mess l))
     then k = 0 \<and> dq_links q' = dq_links q \<and> cur_element q' = cur_element q + 1
     else dq_links q' = drop k ls \<and> cur_element q' = 0) \<and>
    p_type h = dl_type l \<and> p_proc_id h = my \<and> p_memb_id h = memb_id \<and> p_seq h = seq \<and>
    0 \<le> p_data_len h \<and> p_data_len h \<le> room \<and> int (length body) = room \<and>
    p_first_frag_header h = \<lparr> fragment_index = head_index q l, fragment_len = se_len e \<rparr> \<and>
    take (nat (se_len e)) body = take (nat (se_len e)) (se_buf e) \<and>
    parse_frags (p_data_len h) body (se_len e) = Inr (map (\<lambda>l. map frag_content (dl_mess l)) (take k ls)) \<and>
    (\<forall>l' \<in> set (take k ls). length (dl_mess l') = 1 \<and> types_compatible (dl_type l) (dl_type l'))"
proof -
  note cf = cur_frag_wf [OF assms(1,2), folded e_def]
  have len: "0 \<le> se_len e" "se_len e \<le> room" "int (length (se_buf e)) = room"
    using cf(2) by (simp_all add: elem_wf_def)
  let ?h = "new_packet_head (dl_type l) my memb_id seq (se_len e)"
  have d: "p_data_len ?h = se_len e" "fragment_len (p_first_frag_header ?h) = se_len e"
    using len assms(3) by (simp_all add: new_packet_head_def)
  have full: "se_len e = room" if "cur_element q + 1 < int (length (dl_mess l))"
  proof -
    have "0 \<le> cur_element q" "nat (cur_element q) < length (butlast (dl_mess l))"
      using assms(1,2) that by (auto simp: queue_wf_def nat_less_iff)
    then have "e \<in> set (butlast (dl_mess l))" by (metis e_def nth_butlast nth_mem)
    then show ?thesis using assms(1,2) by (auto simp: queue_wf_def msg_wf_def list_all_iff)
  qed
  have pre: "0 \<le> p_data_len ?h" "p_data_len ?h \<le> room"
      "cur_element q + 1 < int (length (dl_mess l)) \<Longrightarrow> p_data_len ?h = room"
      "frag_ptr_ok First_frag (p_data_len ?h)"
    using d(1) len full by simp_all
  obtain q' h body es k where f: "fill_packet room First_frag q (?h, se_buf e) = Inr (q', (h, body), es)"
      "queue_wf room q'" "filled room First_frag ls (?h, se_buf e) k (h, body)"
      "if cur_element q + 1 < int (length (dl_mess l))
       then k = 0 \<and> q' = q\<lparr> cur_element := cur_element q + 1 \<rparr>
       else dq_links q' = drop k ls \<and> cur_element q' = 0"
    using fill_packet_filled [OF assms(1-3) len(3) pre] by (metis surj_pair)
  have b: "build_packet room my memb_id seq q = Inr (q', (h, body), es)"
    using f(1) cf(1) by (simp add: build_packet_def)
  have hd: "h = ?h\<lparr> p_data_len := p_data_len h, p_first_frag_header := p_first_frag_header h \<rparr>"
    using f(3) by (simp add: filled_def)
  have r: "se_len e \<le> p_data_len h" "p_data_len h \<le> room" "length body = length (se_buf e)"
      "\<forall>i < nat (se_len e). body ! i = se_buf e ! i"
    using f(3) d by (simp_all add: filled_def)
  have "take (nat (se_len e)) body = take (nat (se_len e)) (se_buf e)"
    using r len by (intro nth_equalityI) auto
  moreover have "p_first_frag_header h = \<lparr> fragment_index = head_index q l, fragment_len = se_len e \<rparr>"
    using fill_packet_first_index [OF f(1) assms(1,2)] len assms(3) by (simp add: new_packet_head_def)
  moreover have "p_type h = dl_type l \<and> p_proc_id h = my \<and> p_memb_id h = memb_id \<and> p_seq h = seq"
    using arg_cong [OF hd, of p_type] arg_cong [OF hd, of p_proc_id] arg_cong [OF hd, of p_memb_id]
      arg_cong [OF hd, of p_seq] by (simp add: new_packet_head_def)
  moreover have "k \<le> length ls"
    "parse_frags (p_data_len h) body (se_len e) = Inr (map (\<lambda>l. map frag_content (dl_mess l)) (take k ls))"
    "\<forall>l' \<in> set (take k ls). length (dl_mess l') = 1 \<and> types_compatible (dl_type l) (dl_type l')"
    using f(3) d(1) by (simp_all add: filled_def new_packet_head_def)
  moreover have "if cur_element q + 1 < int (length (dl_mess l))
     then k = 0 \<and> dq_links q' = dq_links q \<and> cur_element q' = cur_element q + 1
     else dq_links q' = drop k ls \<and> cur_element q' = 0"
    using f(4) by (cases "cur_element q + 1 < int (length (dl_mess l))") simp_all
  ultimately show ?thesis
    using b f(2) r(1-3) len
    by (intro exI [of _ q'] exI [of _ h] exI [of _ body] exI [of _ es] exI [of _ k] conjI) linarith+
qed

end
