(* ===== verification/Delivery.thy ===== *)
theory Delivery
  imports Packing
begin

text \<open>
  Delivery to the session layer (\<open>protocol.c\<close>): one packet, the reliable packets that need no
  order, the packets that are in order, and the level of service below which nothing is
  delivered. The argument \<open>i\<close> is the sequence number whose entry of \<open>Packets\<close> the code works on.
\<close>

section \<open>Operations\<close>

text \<open>
  \<open>Deliver_packet\<close>. With \<open>to_copy\<close> the code hands the body up and keeps a copy in \<open>Packets\<close>;
  bodies are values here, so both calls leave the same entry.
\<close>

definition up_index :: "packet_info \<Rightarrow> int" where
  "up_index x =
     (if Is_reliable (p_type (pi_head x)) \<and> fragment_index (p_first_frag_header (pi_head x)) = - 1
      then MAX_PROCS_RING else pi_proc_index x)"

abbreviation (input) MAX_SCATTER_ELEMENTS :: int where "MAX_SCATTER_ELEMENTS \<equiv> 100"

definition Deliver_packet :: "int \<Rightarrow> bool \<Rightarrow> daemon \<Rightarrow> daemon result" where
  "Deliver_packet i to_copy d =
     (let x = pkt (prot d) i;
          h = pi_head x;
          frag = p_first_frag_header h
      in bind_res (parse_frags (p_data_len h) (pi_body x) (fragment_len frag)) (\<lambda>mess_queue.
         guard_res (up_index x < 0 \<or> MAX_PROCS_RING < up_index x) (Undefined ''Deliver_packet'')
           (let proc_index = nat (up_index x);
                up = Up_queue (prot d) proc_index;
                mess = (if uq_exist up then uq_mess up else []);
                index = (if fragment_index frag < 0 then - fragment_index frag else fragment_index frag)
            in guard_res (int (length mess) + 1 \<noteq> index) (Alarm_exit ''Deliver_packet'')
              (guard_res (MAX_SCATTER_ELEMENTS < index) (Undefined ''Deliver_packet'')
                (let mess = mess @ [\<lparr> se_buf = pi_body x, se_len = fragment_len frag \<rparr>];
                     complete = fragment_index frag < 0;
                     d = upd_prot (\<lambda>p. set_exist i 2
                           (p\<lparr> Up_queue := (Up_queue p)(proc_index := \<lparr> uq_exist = \<not> complete, uq_mess = mess \<rparr>) \<rparr>)) d;
                     d = upd_stat (\<lambda>s. s\<lparr> g_packet_delivered := g_packet_delivered s + 1 \<rparr>) d
                 in Inr (d\<lparr> out := out d @ (if complete then [Sess_deliver_message mess] else []) @
                            map Sess_deliver_message mess_queue \<rparr>))))))"

definition reliable_step :: "int \<Rightarrow> daemon \<Rightarrow> daemon result" where
  "reliable_step i d =
     (let x = pkt (prot d) i
      in if pi_exist x = 1 \<and> Is_reliable (p_type (pi_head x)) \<and>
            fragment_index (p_first_frag_header (pi_head x)) = - 1
         then Deliver_packet i True d else Inr d)"

definition Deliver_reliable_packets :: "int \<Rightarrow> int \<Rightarrow> daemon \<Rightarrow> daemon result" where
  "Deliver_reliable_packets start_seq num_packets d =
     (if State (memb d) = EVS \<or> Prot_delivery_threshold (prot d) > RELIABLE_TYPE then Inr d
      else let end_seq = start_seq + num_packets - 1;
               start_seq = (if start_seq \<le> Last_delivered (prot d) then Last_delivered (prot d) + 1 else start_seq)
           in fold_res reliable_step [start_seq..end_seq] d)"

definition Deliver_all_reliable_packets_event_handler :: "daemon \<Rightarrow> daemon result" where
  "Deliver_all_reliable_packets_event_handler d = Deliver_reliable_packets 1 (Highest_seq (prot d)) d"

definition bump_delivered :: "daemon \<Rightarrow> daemon" where
  "bump_delivered = upd_prot (\<lambda>p. p\<lparr> Last_delivered := Last_delivered p + 1 \<rparr>)"

definition agreed_step :: "int \<Rightarrow> daemon \<Rightarrow> daemon ctl result" where
  "agreed_step i d =
     (let x = pkt (prot d) i
      in if pi_exist x = 1 then
           (if \<not> Is_safe (p_type (pi_head x))
            then bind_res (Deliver_packet i True d) (\<lambda>d. Inr (Continue (bump_delivered d)))
            else Inr (Break d))
         else if pi_exist x = 2 then
           guard_res (Is_regular (p_type (pi_head x)) \<ge> AGREED_TYPE) (Alarm_exit ''Deliver_agreed_packets'')
             (Inr (Continue (bump_delivered d)))
         else Inl (Alarm_exit ''Deliver_agreed_packets''))"

definition Deliver_agreed_packets :: "daemon \<Rightarrow> daemon result" where
  "Deliver_agreed_packets d =
     (if My_aru (prot d) \<le> Last_delivered (prot d) \<or> State (memb d) = EVS \<or>
         Prot_delivery_threshold (prot d) > AGREED_TYPE then Inr d
      else fold_ctl agreed_step [Last_delivered (prot d) + 1..My_aru (prot d)] d)"

definition Deliver_agreed_packets_event_handler :: "daemon \<Rightarrow> daemon result" where
  "Deliver_agreed_packets_event_handler d = Deliver_agreed_packets d"

definition Prot_get_delivery_threshold :: "daemon \<Rightarrow> 32 word" where
  "Prot_get_delivery_threshold d = Prot_delivery_threshold (prot d)"

text \<open>The cases of both \<open>switch\<close> statements fall through.\<close>

definition Prot_set_delivery_threshold :: "32 word \<Rightarrow> daemon \<Rightarrow> daemon result" where
  "Prot_set_delivery_threshold new_thresh d =
     guard_res (new_thresh \<notin> {UNRELIABLE_TYPE, RELIABLE_TYPE, FIFO_TYPE, AGREED_TYPE, SAFE_TYPE,
                              BLOCK_REGULAR_DELIVERY}) (Alarm_exit ''Prot_set_delivery_threshold'')
       (let old_thresh = Prot_delivery_threshold (prot d);
            d = upd_prot (\<lambda>p. p\<lparr> Prot_delivery_threshold := new_thresh \<rparr>) d
        in Inr (if new_thresh < old_thresh then
             d\<lparr> out := out d @
               (if new_thresh \<in> {UNRELIABLE_TYPE, RELIABLE_TYPE}
                then [E_queue Deliver_all_reliable_packets_event (0, 0)] else []) @
               (if new_thresh \<in> {UNRELIABLE_TYPE, RELIABLE_TYPE, FIFO_TYPE, AGREED_TYPE}
                then [E_queue Deliver_agreed_packets_event (0, 0)] else []) \<rparr>
           else if old_thresh < new_thresh then
             d\<lparr> out := out d @
               (if new_thresh \<in> {BLOCK_REGULAR_DELIVERY, SAFE_TYPE}
                then [E_dequeue Deliver_agreed_packets_event] else []) @
               (if new_thresh \<in> {BLOCK_REGULAR_DELIVERY, SAFE_TYPE, AGREED_TYPE, FIFO_TYPE}
                then [E_dequeue Deliver_all_reliable_packets_event] else []) \<rparr>
           else d))"

section \<open>What a delivery changes\<close>

lemma Deliver_packet_result:
  assumes "Deliver_packet i c d = Inr d'"
  shows "\<exists>uq ms. d' = d\<lparr> prot := (set_exist i 2 (prot d))\<lparr> Up_queue := uq \<rparr>,
    stat := (stat d)\<lparr> g_packet_delivered := g_packet_delivered (stat d) + 1 \<rparr>,
    out := out d @ map Sess_deliver_message ms \<rparr>"
proof -
  have set_up: "set_exist i 2 (p\<lparr> Up_queue := uq \<rparr>) = (set_exist i 2 p)\<lparr> Up_queue := uq \<rparr>" for p uq
    by (simp add: set_exist_def set_pkt_def pkt_def)
  obtain mq where "parse_frags (p_data_len (pi_head (pkt (prot d) i))) (pi_body (pkt (prot d) i))
      (fragment_len (p_first_frag_header (pi_head (pkt (prot d) i)))) = Inr mq"
    using assms by (auto simp: Deliver_packet_def Let_def)
  moreover have "(if b then [Sess_deliver_message m] else []) @ map Sess_deliver_message mq =
      map Sess_deliver_message ((if b then [m] else []) @ mq)" for b m by simp
  ultimately show ?thesis
    using assms unfolding Deliver_packet_def Let_def
    by (auto simp: upd_prot_def upd_stat_def set_up simp del: map_append append_assoc if_splits)
qed

lemma Deliver_packet_frame:
  assumes "Deliver_packet i c d = Inr d'"
  shows "conf d' = conf d" "memb d' = memb d" "fc d' = fc d" "net d' = net d" "env d' = env d"
    "Aru (prot d') = Aru (prot d)" "My_aru (prot d') = My_aru (prot d)"
    "Highest_seq (prot d') = Highest_seq (prot d)" "Last_discarded (prot d') = Last_discarded (prot d)"
    "Last_delivered (prot d') = Last_delivered (prot d)"
    "Prot_delivery_threshold (prot d') = Prot_delivery_threshold (prot d)"
  using Deliver_packet_result [OF assms] by (auto simp: set_exist_def set_pkt_def)

lemma Deliver_packet_pkt:
  assumes "Deliver_packet i c d = Inr d'"
  shows "pkt (prot d') j = (if slot j = slot i then (pkt (prot d) i)\<lparr> pi_exist := 2 \<rparr> else pkt (prot d) j)"
  using Deliver_packet_result [OF assms] by (auto simp: set_exist_def set_pkt_def pkt_def)

lemma Deliver_packet_bump:
  "Deliver_packet i c (bump_delivered d) = bind_res (Deliver_packet i c d) (\<lambda>d'. Inr (bump_delivered d'))"
  by (simp add: Deliver_packet_def bump_delivered_def Let_def pkt_def set_exist_def set_pkt_def
      upd_prot_def upd_stat_def guard_res_def bind_res_def split: sum.splits)

lemma fold_Deliver_bump:
  "fold_res (\<lambda>i. Deliver_packet i c) xs (bump_delivered d) =
    bind_res (fold_res (\<lambda>i. Deliver_packet i c) xs d) (\<lambda>d'. Inr (bump_delivered d'))"
  by (induction xs arbitrary: d) (auto simp: Deliver_packet_bump bind_res_def split: sum.splits)

section \<open>Delivery in order\<close>

text \<open>
  What \<open>Deliver_agreed_packets\<close> promises: it works through the sequence numbers after the
  last delivered one up to the first that waits for stability or the first gap, and delivers
  those of them, in order, that were not delivered before.
\<close>

definition held :: "prot_state \<Rightarrow> int \<Rightarrow> bool" where
  "held p i \<longleftrightarrow> exist p i = 1 \<and> Is_safe (p_type (pi_head (pkt p i)))"

definition agreed_prefix :: "prot_state \<Rightarrow> int list" where
  "agreed_prefix p = takeWhile (\<lambda>i. \<not> held p i) [Last_delivered p + 1..My_aru p]"

definition advance_delivered :: "nat \<Rightarrow> daemon \<Rightarrow> daemon" where
  "advance_delivered n = upd_prot (\<lambda>p. p\<lparr> Last_delivered := Last_delivered p + int n \<rparr>)"

lemma advance_delivered_0 [simp]: "advance_delivered 0 d = d"
  by (simp add: advance_delivered_def upd_prot_def)

lemma advance_delivered_bump: "advance_delivered n (bump_delivered d) = advance_delivered (Suc n) d"
  by (simp add: advance_delivered_def bump_delivered_def upd_prot_def algebra_simps)

lemma pkt_bump [simp]: "pkt (prot (bump_delivered d)) i = pkt (prot d) i"
  by (simp add: bump_delivered_def pkt_def)

lemma takeWhile_cong_set: "(\<And>x. x \<in> set xs \<Longrightarrow> P x = Q x) \<Longrightarrow> takeWhile P xs = takeWhile Q xs"
  by (induction xs) auto

lemma agreed_loop:
  assumes "inj_on slot (set xs)" and "distinct xs"
    and "\<forall>i \<in> set xs. exist (prot d) i = 1 \<or>
      exist (prot d) i = 2 \<and> Is_regular (p_type (pi_head (pkt (prot d) i))) < AGREED_TYPE"
  shows "fold_ctl agreed_step xs d =
    bind_res (fold_res (\<lambda>i. Deliver_packet i True)
        (filter (\<lambda>i. exist (prot d) i = 1) (takeWhile (\<lambda>i. \<not> held (prot d) i) xs)) d)
      (\<lambda>d'. Inr (advance_delivered (length (takeWhile (\<lambda>i. \<not> held (prot d) i) xs)) d'))"
  using assms
proof (induction xs arbitrary: d)
  case (Cons i xs)
  have inj: "inj_on slot (set xs)" "distinct xs" using Cons.prems(1,2) by auto
  have other: "slot j \<noteq> slot i" if "j \<in> set xs" for j
    using Cons.prems(1,2) that by (auto simp: inj_on_def)
  consider (held) "held (prot d) i"
    | (early) "exist (prot d) i = 2" "Is_regular (p_type (pi_head (pkt (prot d) i))) < AGREED_TYPE"
    | (new) "exist (prot d) i = 1" "\<not> Is_safe (p_type (pi_head (pkt (prot d) i)))"
    using Cons.prems(3) by (auto simp: held_def)
  then show ?case
  proof cases
    case held
    then show ?thesis by (simp add: held_def agreed_step_def)
  next
    case early
    then have "agreed_step i d = Inr (Continue (bump_delivered d))"
      by (simp add: agreed_step_def Let_def)
    moreover have "\<not> held (prot d) i" using early by (simp add: held_def)
    moreover have "held (prot (bump_delivered d)) = held (prot d)" by (simp add: held_def fun_eq_iff)
    moreover have "\<forall>i \<in> set xs. exist (prot (bump_delivered d)) i = 1 \<or> exist (prot (bump_delivered d)) i = 2 \<and>
        Is_regular (p_type (pi_head (pkt (prot (bump_delivered d)) i))) < AGREED_TYPE"
      using Cons.prems(3) by simp
    ultimately show ?thesis
      using Cons.IH [OF inj, of "bump_delivered d"] early
      by (simp add: fold_Deliver_bump bind_res_assoc advance_delivered_bump)
  next
    case new
    then have nh: "\<not> held (prot d) i" by (simp add: held_def)
    show ?thesis
    proof (cases "Deliver_packet i True d")
      case (Inl e)
      then show ?thesis using new nh by (simp add: agreed_step_def Let_def)
    next
      case (Inr d1)
      have same: "pkt (prot d1) j = pkt (prot d) j" if "j \<in> set xs" for j
        using Deliver_packet_pkt [OF Inr] other [OF that] by simp
      then have tw: "takeWhile (\<lambda>i. \<not> held (prot d1) i) xs = takeWhile (\<lambda>i. \<not> held (prot d) i) xs"
        by (intro takeWhile_cong_set) (simp add: held_def)
      have fl: "filter (\<lambda>i. exist (prot d1) i = 1) ys = filter (\<lambda>i. exist (prot d) i = 1) ys"
        if "set ys \<subseteq> set xs" for ys using that same by (intro filter_cong) auto
      have step: "agreed_step i d = Inr (Continue (bump_delivered d1))"
        using new Inr by (simp add: agreed_step_def Let_def)
      have h1: "held (prot (bump_delivered d1)) = held (prot d1)" by (simp add: held_def fun_eq_iff)
      have pre: "\<forall>i \<in> set xs. exist (prot (bump_delivered d1)) i = 1 \<or> exist (prot (bump_delivered d1)) i = 2 \<and>
          Is_regular (p_type (pi_head (pkt (prot (bump_delivered d1)) i))) < AGREED_TYPE"
        using Cons.prems(3) same by simp
      let ?T = "takeWhile (\<lambda>i. \<not> held (prot d) i) xs"
      have T: "filter (\<lambda>i. exist (prot d1) i = 1) ?T = filter (\<lambda>i. exist (prot d) i = 1) ?T"
        by (rule fl) (auto dest: set_takeWhileD)
      have "fold_ctl agreed_step xs (bump_delivered d1) =
          bind_res (fold_res (\<lambda>i. Deliver_packet i True) (filter (\<lambda>i. exist (prot d) i = 1) ?T) d1)
            (\<lambda>d'. Inr (advance_delivered (Suc (length ?T)) d'))"
        using Cons.IH [OF inj pre] by (simp only: h1 tw pkt_bump T fold_Deliver_bump bind_res_assoc
            advance_delivered_bump bind_res_Inr)
      then show ?thesis using step new nh Inr by simp
    qed
  qed
qed simp

section \<open>The invariant of the packet window\<close>

text \<open>
  The sequence numbers above \<open>Last_discarded\<close> occupy the packet array. A message type has one
  service: what is reliable only is below \<open>AGREED_TYPE\<close>.
\<close>

definition service_ok :: "32 word \<Rightarrow> bool" where
  "service_ok t \<longleftrightarrow> (Is_reliable t \<longrightarrow> Is_regular t < AGREED_TYPE)"

definition entry_ok :: "prot_state \<Rightarrow> int \<Rightarrow> bool" where
  "entry_ok p i \<longleftrightarrow>
     exist p i \<in> {0, 1, 2} \<and>
     (exist p i \<noteq> 0 \<longrightarrow> i \<le> Highest_seq p \<and> p_seq (pi_head (pkt p i)) = i \<and> service_ok (p_type (pi_head (pkt p i)))) \<and>
     (exist p i = 2 \<longrightarrow> \<not> Is_safe (p_type (pi_head (pkt p i)))) \<and>
     (exist p i = 2 \<and> Last_delivered p < i \<longrightarrow> Is_regular (p_type (pi_head (pkt p i))) < AGREED_TYPE) \<and>
     (i \<le> Last_delivered p \<longrightarrow> exist p i = 2) \<and>
     (i \<le> My_aru p \<longrightarrow> exist p i \<noteq> 0)"

definition window_ok :: "prot_state \<Rightarrow> bool" where
  "window_ok p \<longleftrightarrow> 0 \<le> Last_discarded p \<and> Last_discarded p \<le> Last_delivered p \<and>
     Last_delivered p \<le> My_aru p \<and> My_aru p \<le> Highest_seq p \<and>
     Highest_seq p \<le> Last_discarded p + MAX_PACKETS_IN_STRUCT \<and>
     Last_discarded p \<le> Aru p \<and> Aru p \<le> My_aru p \<and>
     (\<forall>i. Last_discarded p < i \<and> i \<le> Last_discarded p + MAX_PACKETS_IN_STRUCT \<longrightarrow> entry_ok p i)"

lemma window_ok_entry:
  "window_ok p \<Longrightarrow> Last_discarded p < i \<Longrightarrow> i \<le> Last_discarded p + 8192 \<Longrightarrow> entry_ok p i"
  by (simp add: window_ok_def)

lemma slot_inj_on: "inj_on slot {a + 1..a + 8192}"
  using slot_inj [of a] by (auto intro: inj_onI)

lemma slot_inj_window: "set xs \<subseteq> {a + 1..a + 8192} \<Longrightarrow> inj_on slot (set xs)"
  using slot_inj_on inj_on_subset by blast

lemma slot_image_iff:
  "S \<subseteq> {a + 1..a + 8192} \<Longrightarrow> a < j \<Longrightarrow> j \<le> a + 8192 \<Longrightarrow> slot j \<in> slot ` S \<longleftrightarrow> j \<in> S"
  by (rule inj_on_image_mem_iff [OF slot_inj_on]) auto

lemma Deliver_agreed_packets_eq:
  assumes "window_ok (prot d)" and "State (memb d) \<noteq> EVS" and "Prot_delivery_threshold (prot d) \<le> AGREED_TYPE"
  shows "Deliver_agreed_packets d =
    bind_res (fold_res (\<lambda>i. Deliver_packet i True)
        (filter (\<lambda>i. exist (prot d) i = 1) (agreed_prefix (prot d))) d)
      (\<lambda>d'. Inr (advance_delivered (length (agreed_prefix (prot d))) d'))"
proof (cases "My_aru (prot d) \<le> Last_delivered (prot d)")
  case True
  then show ?thesis by (simp add: Deliver_agreed_packets_def agreed_prefix_def)
next
  case False
  let ?xs = "[Last_delivered (prot d) + 1..My_aru (prot d)]"
  have sub: "set ?xs \<subseteq> {Last_discarded (prot d) + 1..Last_discarded (prot d) + 8192}"
    using assms(1) by (auto simp: window_ok_def)
  have "exist (prot d) i = 1 \<or> exist (prot d) i = 2 \<and> Is_regular (p_type (pi_head (pkt (prot d) i))) < AGREED_TYPE"
    if "i \<in> set ?xs" for i
    using window_ok_entry [OF assms(1), of i] that sub by (auto simp: entry_ok_def)
  then show ?thesis
    using False assms(2,3) agreed_loop [OF slot_inj_window [OF sub], of d]
    by (simp add: Deliver_agreed_packets_def agreed_prefix_def not_less)
qed

section \<open>The invariant is kept\<close>

text \<open>A change of state in which only packets are delivered.\<close>

definition deliver_frame :: "daemon \<Rightarrow> daemon \<Rightarrow> bool" where
  "deliver_frame d d' \<longleftrightarrow> (\<exists>pk uq n ms. d' = d\<lparr> prot := (prot d)\<lparr> Packets := pk, Up_queue := uq \<rparr>,
     stat := (stat d)\<lparr> g_packet_delivered := n \<rparr>, out := out d @ map Sess_deliver_message ms \<rparr>)"

lemma deliver_frame_refl [simp]: "deliver_frame d d"
proof -
  have "d = d\<lparr> prot := (prot d)\<lparr> Packets := Packets (prot d), Up_queue := Up_queue (prot d) \<rparr>,
     stat := (stat d)\<lparr> g_packet_delivered := g_packet_delivered (stat d) \<rparr>,
     out := out d @ map Sess_deliver_message [] \<rparr>" by simp
  then show ?thesis unfolding deliver_frame_def by blast
qed

lemma deliver_frame_trans:
  assumes "deliver_frame d1 d2" and "deliver_frame d2 d3"
  shows "deliver_frame d1 d3"
proof -
  obtain pk uq n ms where 2: "d2 = d1\<lparr> prot := (prot d1)\<lparr> Packets := pk, Up_queue := uq \<rparr>,
     stat := (stat d1)\<lparr> g_packet_delivered := n \<rparr>, out := out d1 @ map Sess_deliver_message ms \<rparr>"
    using assms(1) unfolding deliver_frame_def by blast
  obtain pk' uq' n' ms' where 3: "d3 = d2\<lparr> prot := (prot d2)\<lparr> Packets := pk', Up_queue := uq' \<rparr>,
     stat := (stat d2)\<lparr> g_packet_delivered := n' \<rparr>, out := out d2 @ map Sess_deliver_message ms' \<rparr>"
    using assms(2) unfolding deliver_frame_def by blast
  have "d3 = d1\<lparr> prot := (prot d1)\<lparr> Packets := pk', Up_queue := uq' \<rparr>,
     stat := (stat d1)\<lparr> g_packet_delivered := n' \<rparr>, out := out d1 @ map Sess_deliver_message (ms @ ms') \<rparr>"
    using 2 3 by simp
  then show ?thesis unfolding deliver_frame_def by blast
qed

lemma deliver_frameD:
  assumes "deliver_frame d d'"
  shows "conf d' = conf d" "memb d' = memb d" "fc d' = fc d" "net d' = net d" "env d' = env d"
    "prot d' = (prot d)\<lparr> Packets := Packets (prot d'), Up_queue := Up_queue (prot d') \<rparr>"
    "Aru (prot d') = Aru (prot d)" "My_aru (prot d') = My_aru (prot d)"
    "Highest_seq (prot d') = Highest_seq (prot d)" "Last_discarded (prot d') = Last_discarded (prot d)"
    "Last_delivered (prot d') = Last_delivered (prot d)"
    "Prot_delivery_threshold (prot d') = Prot_delivery_threshold (prot d)"
    "\<exists>ms. out d' = out d @ map Sess_deliver_message ms"
  using assms by (auto simp: deliver_frame_def)

lemma Deliver_packet_deliver_frame: "Deliver_packet i c d = Inr d' \<Longrightarrow> deliver_frame d d'"
  unfolding deliver_frame_def set_exist_def set_pkt_def
  by (drule Deliver_packet_result) (auto simp: set_exist_def set_pkt_def)

lemma fold_Deliver_result:
  assumes "fold_res (\<lambda>i. Deliver_packet i c) xs d = Inr d'"
  shows "deliver_frame d d' \<and>
    (\<forall>j. pkt (prot d') j = (if slot j \<in> slot ` set xs then (pkt (prot d) j)\<lparr> pi_exist := 2 \<rparr> else pkt (prot d) j))"
  using assms
proof (induction xs arbitrary: d)
  case (Cons i xs)
  then obtain d1 where d1: "Deliver_packet i c d = Inr d1" "fold_res (\<lambda>i. Deliver_packet i c) xs d1 = Inr d'"
    by auto
  have one: "pkt (prot d1) j = (if slot j = slot i then (pkt (prot d) j)\<lparr> pi_exist := 2 \<rparr> else pkt (prot d) j)" for j
    using Deliver_packet_pkt [OF d1(1), of j] by (simp add: pkt_def split: if_splits)
  have "deliver_frame d d'"
    using Cons.IH [OF d1(2)] Deliver_packet_deliver_frame [OF d1(1)] by (blast intro: deliver_frame_trans)
  moreover have "pkt (prot d') j = (if slot j \<in> slot ` set (i # xs) then (pkt (prot d) j)\<lparr> pi_exist := 2 \<rparr> else pkt (prot d) j)" for j
    using Cons.IH [OF d1(2)] one [of j] by simp
  ultimately show ?case by blast
qed simp

lemma take_upto: "int n \<le> b - a + 1 \<Longrightarrow> take n [a..b] = [a..a + int n - 1]"
  by (intro nth_equalityI) auto

lemma takeWhile_upto:
  "takeWhile P [a..b] = [a..a + int (length (takeWhile P [a..b])) - 1]"
proof -
  have le: "length (takeWhile P [a..b]) \<le> nat (b - a + 1)"
    using length_takeWhile_le [of P "[a..b]"] by simp
  show ?thesis
  proof (cases "a \<le> b")
    case True
    then have "take (length (takeWhile P [a..b])) [a..b] = [a..a + int (length (takeWhile P [a..b])) - 1]"
      using le by (intro take_upto) linarith
    then show ?thesis using takeWhile_eq_take [of P "[a..b]"] by simp
  qed simp
qed

lemma agreed_prefix_upto:
  "agreed_prefix p = [Last_delivered p + 1..Last_delivered p + int (length (agreed_prefix p))]"
  using takeWhile_upto [of _ "Last_delivered p + 1" "My_aru p"] by (simp add: agreed_prefix_def)

lemma agreed_prefix_length: "Last_delivered p \<le> My_aru p \<Longrightarrow>
    Last_delivered p + int (length (agreed_prefix p)) \<le> My_aru p"
  using length_takeWhile_le [of "\<lambda>i. \<not> held p i" "[Last_delivered p + 1..My_aru p]"]
  by (simp add: agreed_prefix_def)

text \<open>One entry, delivered (\<open>b\<close>) or not, while \<open>Last_delivered\<close> moves on.\<close>

lemma entry_ok_deliver:
  assumes "entry_ok p j"
    and "pkt p' j = (if b then (pkt p j)\<lparr> pi_exist := 2 \<rparr> else pkt p j)"
    and "b \<Longrightarrow> exist p j = 1 \<and> \<not> Is_safe (p_type (pi_head (pkt p j)))"
    and "b \<Longrightarrow> Last_delivered p' < j \<Longrightarrow> Is_regular (p_type (pi_head (pkt p j))) < AGREED_TYPE"
    and "Highest_seq p' = Highest_seq p" and "My_aru p' = My_aru p" and "Last_delivered p \<le> Last_delivered p'"
    and "j \<le> Last_delivered p' \<Longrightarrow> b \<or> exist p j = 2"
  shows "entry_ok p' j"
proof (cases b)
  case True
  then show ?thesis using assms by (auto simp: entry_ok_def)
next
  case False
  then have "pkt p' j = pkt p j" using assms(2) by simp
  then show ?thesis using False assms(1,5-8) by (auto simp: entry_ok_def)
qed

lemma Deliver_agreed_window_ok:
  assumes ok: "window_ok (prot d)" and d': "Deliver_agreed_packets d = Inr d'"
  shows "window_ok (prot d')" and "memb d' = memb d" and "conf d' = conf d"
    and "Last_discarded (prot d') = Last_discarded (prot d)" and "Aru (prot d') = Aru (prot d)"
    and "My_aru (prot d') = My_aru (prot d)" and "Highest_seq (prot d') = Highest_seq (prot d)"
proof -
  have "window_ok (prot d') \<and> memb d' = memb d \<and> conf d' = conf d \<and>
    Last_discarded (prot d') = Last_discarded (prot d) \<and> Aru (prot d') = Aru (prot d) \<and>
    My_aru (prot d') = My_aru (prot d) \<and> Highest_seq (prot d') = Highest_seq (prot d)"
  proof (cases "State (memb d) = EVS \<or> AGREED_TYPE < Prot_delivery_threshold (prot d)")
    case True
    then show ?thesis using d' ok by (auto simp: Deliver_agreed_packets_def)
  next
    case False
    let ?p = "prot d" and ?n = "length (agreed_prefix (prot d))"
    let ?xs = "filter (\<lambda>i. exist ?p i = 1) (agreed_prefix ?p)"
    from False d' obtain e where e: "fold_res (\<lambda>i. Deliver_packet i True) ?xs d = Inr e"
        and d'e: "d' = advance_delivered ?n e"
      using Deliver_agreed_packets_eq [OF ok] by (auto simp: not_less)
    note fr = deliver_frameD [OF conjunct1 [OF fold_Deliver_result [OF e]]]
    note pk = conjunct2 [OF fold_Deliver_result [OF e], rule_format]
    have ord: "Last_discarded ?p \<le> Last_delivered ?p" "Last_delivered ?p \<le> My_aru ?p"
        "My_aru ?p \<le> Last_discarded ?p + 8192"
      using ok by (auto simp: window_ok_def)
    have n: "Last_delivered ?p + int ?n \<le> My_aru ?p" using agreed_prefix_length ord by blast
    have mem: "i \<in> set (agreed_prefix ?p) \<longleftrightarrow> Last_delivered ?p < i \<and> i \<le> Last_delivered ?p + int ?n" for i
      by (subst agreed_prefix_upto) auto
    have free: "\<not> held ?p i" if "i \<in> set (agreed_prefix ?p)" for i
      using that by (auto simp: agreed_prefix_def dest: set_takeWhileD)
    have "set ?xs \<subseteq> {Last_discarded ?p + 1..Last_discarded ?p + 8192}"
      using ord n by (auto simp: mem)
    note inslot = slot_image_iff [OF this]
    have ld: "Last_delivered (prot d') = Last_delivered ?p + int ?n" using fr(11) by (simp add: d'e advance_delivered_def)
    have "entry_ok (prot d') j" if j: "Last_discarded ?p < j" "j \<le> Last_discarded ?p + 8192" for j
    proof (rule entry_ok_deliver [OF window_ok_entry [OF ok j], where b = "j \<in> set ?xs"])
      show "pkt (prot d') j = (if j \<in> set ?xs then (pkt ?p j)\<lparr>pi_exist := 2\<rparr> else pkt ?p j)"
        using pk [of j] inslot [OF j] by (simp add: d'e advance_delivered_def pkt_def)
      show "j \<in> set ?xs \<or> exist ?p j = 2" if "j \<le> Last_delivered (prot d')"
        using that window_ok_entry [OF ok j] mem [of j] ld n by (auto simp: entry_ok_def)
    qed (use free [of j] mem [of j] ld fr(8,9) in \<open>auto simp: held_def d'e advance_delivered_def\<close>)
    moreover have "Last_discarded (prot d') = Last_discarded ?p \<and> Aru (prot d') = Aru ?p \<and>
        My_aru (prot d') = My_aru ?p \<and> Highest_seq (prot d') = Highest_seq ?p \<and>
        Last_delivered (prot d') = Last_delivered ?p + int ?n"
      using fr(7-11) by (simp add: d'e advance_delivered_def)
    ultimately show ?thesis
      using ok n fr(1,2) by (simp add: window_ok_def d'e advance_delivered_def)
  qed
  then show "window_ok (prot d')" and "memb d' = memb d" and "conf d' = conf d"
    and "Last_discarded (prot d') = Last_discarded (prot d)" and "Aru (prot d') = Aru (prot d)"
    and "My_aru (prot d') = My_aru (prot d)" and "Highest_seq (prot d') = Highest_seq (prot d)"
    by auto
qed

lemma regular_not_safe:
  assumes "Is_regular t < AGREED_TYPE"
  shows "\<not> Is_safe t"
proof -
  have "unat (t AND 0x1f) < 8" using assms by (simp add: Is_regular_def word_less_nat_alt)
  then have "unat (take_bit 3 (t AND 0x1f)) = unat (t AND 0x1f)"
    by (simp add: take_bit_eq_mod unat_mod)
  then have "take_bit 3 (t AND 0x1f) = t AND 0x1f" by (simp only: word_unat_eq_iff)
  then have "(t AND 0x1f) AND 0x10 = take_bit 3 (t AND 0x1f) AND 0x10" by simp
  also have "\<dots> = 0" by (simp add: take_bit_eq_mask mask_eq_exp_minus_1 and.assoc)
  finally have "t AND 0x10 = 0" by (simp add: and.assoc)
  then show ?thesis by (simp add: Is_safe_def)
qed

lemma reliable_step_ok:
  assumes "window_ok (prot d)" and "reliable_step i d = Inr d'"
    and "Last_delivered (prot d) < i" and "i \<le> Last_discarded (prot d) + 8192"
  shows "window_ok (prot d') \<and> deliver_frame d d'"
proof (cases "exist (prot d) i = 1 \<and> Is_reliable (p_type (pi_head (pkt (prot d) i))) \<and>
    fragment_index (p_first_frag_header (pi_head (pkt (prot d) i))) = - 1")
  case True
  then have dp: "Deliver_packet i True d = Inr d'" using assms(2) by (simp add: reliable_step_def Let_def)
  have i: "Last_discarded (prot d) < i" using assms(1,3) by (simp add: window_ok_def)
  have reg: "Is_regular (p_type (pi_head (pkt (prot d) i))) < AGREED_TYPE"
    using window_ok_entry [OF assms(1) i assms(4)] True by (simp add: entry_ok_def service_ok_def)
  note fr = Deliver_packet_frame [OF dp]
  have "entry_ok (prot d') j" if j: "Last_discarded (prot d) < j" "j \<le> Last_discarded (prot d) + 8192" for j
  proof (rule entry_ok_deliver [OF window_ok_entry [OF assms(1) j], where b = "j = i"])
    have "slot j = slot i \<longleftrightarrow> j = i" using slot_inj [OF j i assms(4)] by blast
    then show "pkt (prot d') j = (if j = i then (pkt (prot d) j)\<lparr>pi_exist := 2\<rparr> else pkt (prot d) j)"
      using Deliver_packet_pkt [OF dp, of j] by simp
    show "j = i \<or> exist (prot d) j = 2" if "j \<le> Last_delivered (prot d')"
      using that fr(10) window_ok_entry [OF assms(1) j] by (simp add: entry_ok_def)
  qed (use True reg regular_not_safe [OF reg] fr in auto)
  then have "window_ok (prot d')" using assms(1) fr(6-10) by (simp add: window_ok_def)
  then show ?thesis using Deliver_packet_deliver_frame [OF dp] by blast
next
  case False
  then show ?thesis using assms by (auto simp: reliable_step_def Let_def)
qed

lemma Deliver_reliable_ok:
  assumes "window_ok (prot d)" and "Deliver_reliable_packets start_seq n d = Inr d'"
    and "start_seq + n - 1 \<le> Last_discarded (prot d) + 8192"
  shows "window_ok (prot d') \<and> deliver_frame d d'"
proof (cases "State (memb d) = EVS \<or> Prot_delivery_threshold (prot d) > RELIABLE_TYPE")
  case False
  let ?s = "if start_seq \<le> Last_delivered (prot d) then Last_delivered (prot d) + 1 else start_seq"
  have loop: "fold_res reliable_step [?s..start_seq + n - 1] d = Inr d'"
    using False assms(2) by (simp add: Deliver_reliable_packets_def Let_def)
  show ?thesis
  proof (rule fold_res_inv [OF loop, where P = "\<lambda>t. window_ok (prot t) \<and> deliver_frame d t"])
    fix i t t'
    assume i: "i \<in> set [?s..start_seq + n - 1]" and t: "window_ok (prot t) \<and> deliver_frame d t"
      and step: "reliable_step i t = Inr t'"
    have "Last_delivered (prot t) < i" "i \<le> Last_discarded (prot t) + 8192"
      using i assms(3) deliver_frameD(10,11) [of d t] t by (auto split: if_splits)
    then show "window_ok (prot t') \<and> deliver_frame d t'"
      using reliable_step_ok [OF conjunct1 [OF t] step] t by (blast intro: deliver_frame_trans)
  qed (use assms in simp)
qed (use assms in \<open>simp add: Deliver_reliable_packets_def\<close>)

end
