(* ===== verification/Views.thy ===== *)
theory Views
  imports Members Delivery
begin

text \<open>
  The memberships of \<open>membership.c\<close>: which one is active, the transitional and the committed
  membership that end a change, the installation of the new one, and the retreat when the
  token is lost during a change.
\<close>

section \<open>Operations\<close>

definition Memb_active_ptr :: "daemon \<Rightarrow> configuration" where
  "Memb_active_ptr d = (if State (memb d) \<noteq> EVS then Membership (memb d) else Future_membership (memb d))"

definition Memb_active_id :: "daemon \<Rightarrow> membership_id" where
  "Memb_active_id d =
     (if State (memb d) \<noteq> EVS then Membership_id (memb d) else Future_membership_id (memb d))"

definition Memb_id :: "daemon \<Rightarrow> membership_id" where
  "Memb_id d = Membership_id (memb d)"

definition Memb_trans_id :: "daemon \<Rightarrow> membership_id" where
  "Memb_trans_id d = Trans_memb_id (memb d)"

definition Memb_token_alive :: "daemon \<Rightarrow> bool" where
  "Memb_token_alive d = Token_alive (memb d)"

definition set_state :: "memb_state_name \<Rightarrow> daemon \<Rightarrow> daemon" where
  "set_state s d = upd_stat (\<lambda>g. g\<lparr> g_state := s \<rparr>) (upd_memb (\<lambda>m. m\<lparr> State := s \<rparr>) d)"

definition Shift_to_op :: "daemon \<Rightarrow> daemon" where
  "Shift_to_op d =
     (let d = set_state OP d
      in if Prot_Need_Conf_Reload (prot d) then emit (E_queue Prot_initiate_conf_reload_event (0, 0)) d else d)"

definition Memb_commit :: "daemon \<Rightarrow> daemon" where
  "Memb_commit = upd_memb (\<lambda>m. m\<lparr> Commit_set := Future_commit_set m \<rparr>)"

text \<open>
  The two loops of \<open>Memb_transitional\<close>: a membership with, in each segment and in the order of
  the configuration, the daemons among the first \<open>n\<close> entries of \<open>Commit_set\<close>.
\<close>

definition commit_proc ::
    "configuration \<Rightarrow> proc_id list \<Rightarrow> proc \<Rightarrow> segment \<Rightarrow> segment result" where
  "commit_proc cn ids q seg =
     (if pr_id q \<in> set ids then
        (let (seg', ret) = Conf_append_id_to_seg cn seg (pr_id q)
         in guard_res (ret = - 1) (Alarm_exit ''Memb_transitional'') (Inr seg'))
      else Inr seg)"

definition seg_or_empty :: "configuration \<Rightarrow> nat \<Rightarrow> segment" where
  "seg_or_empty m i = (if i < length (segments m) then segments m ! i else \<lparr> seg_addrs = [], procs = [] \<rparr>)"

definition commit_segments ::
    "configuration \<Rightarrow> proc_id list \<Rightarrow> configuration \<Rightarrow> configuration result" where
  "commit_segments cn ids old =
     bind_res
       (fold_res (\<lambda>i acc.
          bind_res (fold_res (commit_proc cn ids) (procs (segments cn ! i))
              ((seg_or_empty old i)\<lparr> procs := [] \<rparr>))
            (\<lambda>seg. Inr (acc @ [seg])))
          [0..<length (segments cn)] [])
       (\<lambda>segs. Inr (old\<lparr> segments := segs \<rparr>))"

definition first_ids :: "members_info \<Rightarrow> int \<Rightarrow> proc_id list" where
  "first_ids m n = map (members m) [0..<nat n]"

definition Memb_transitional :: "daemon \<Rightarrow> daemon result" where
  "Memb_transitional d =
     (let cn = Config (conf d); cs = Commit_set (memb d)
      in bind_res (commit_segments cn (first_ids cs (num_pending cs)) (Trans_membership (prot d))) (\<lambda>trans.
         bind_res (Conf_leader trans) (\<lambda>leader.
         bind_res (commit_segments cn (first_ids cs (num_members cs)) (Commit_membership (prot d))) (\<lambda>com.
           Inr (upd_memb (\<lambda>m. m\<lparr> Trans_memb_id := \<lparr> m_proc_id = leader, m_time = F_trans_memb_time m \<rparr> \<rparr>)
                 (upd_prot (\<lambda>p. p\<lparr> Transitional := True, Trans_membership := trans,
                                  Commit_membership := com \<rparr>) d))))))"

definition single_member :: "proc_id \<Rightarrow> members_info \<Rightarrow> members_info" where
  "single_member i m = m\<lparr> num_members := 1, members := (members m)(0 := i) \<rparr>"

definition Memb_regular :: "daemon \<Rightarrow> daemon result" where
  "Memb_regular d =
     (let my = pr_id (My (conf d));
          d = upd_prot (\<lambda>p. p\<lparr> Transitional := False, Reg_membership := Future_membership (memb d) \<rparr>) d;
          d = upd_memb (\<lambda>m. m\<lparr> Memb_Just_Installed := True, Membership := Future_membership m,
                Membership_id := Future_membership_id m,
                Commit_set := (single_member my (Commit_set m))\<lparr> num_pending := 1 \<rparr> \<rparr>) d;
          segs = segments (Membership (memb d));
          d = upd_stat (\<lambda>g. g\<lparr> g_membership_changes := g_membership_changes g + 1,
                g_num_procs := sum_list (map (\<lambda>s. int (length (procs s))) segs),
                g_num_segments := int (length (filter (\<lambda>s. procs s \<noteq> []) segs)),
                g_leader_id := m_proc_id (Membership_id (memb d)) \<rparr>) d;
          d = upd_memb (\<lambda>m. m\<lparr> Foreign_found := False \<rparr>) d
      in bind_res (Conf_leader (Membership (memb d))) (\<lambda>leader.
           let d = (if leader = my
                    then emit (E_queue Memb_lookup_new_members_event (Lookup_timeout (prot d))) d else d)
           in Inr (Shift_to_op d)))"

text \<open>
  \<open>count_from p i n\<close>: how many entries from \<open>i\<close> on are occupied, up to \<open>n\<close> of them; the loops
  that recompute \<open>My_aru\<close> stop at the first empty entry.
\<close>

fun count_from :: "prot_state \<Rightarrow> int \<Rightarrow> nat \<Rightarrow> nat" where
  "count_from p i 0 = 0"
| "count_from p i (Suc n) = (if exist p i = 0 then 0 else Suc (count_from p (i + 1) n))"

definition clear_dummy :: "int \<Rightarrow> prot_state \<Rightarrow> prot_state" where
  "clear_dummy i p = (if exist p i = 3 then set_exist i 0 p else p)"

definition Backoff_membership :: "daemon \<Rightarrow> daemon" where
  "Backoff_membership d =
     upd_prot (\<lambda>p.
       let p = fold clear_dummy [Last_discarded p + 1..Highest_seq p] p
       in p\<lparr> Aru := Last_discarded p,
             My_aru := Last_discarded p +
               int (count_from p (Last_discarded p + 1) (nat (Highest_seq p - Last_discarded p))) \<rparr>) d"

section \<open>Committed memberships follow the ring\<close>

lemma commit_proc_loop:
  assumes "distinct (map pr_id (allprocs cn))" and "set ps \<subseteq> set (allprocs cn)"
  shows "fold_res (commit_proc cn ids) ps seg =
    Inr (seg\<lparr> procs := procs seg @ filter (\<lambda>p. pr_id p \<in> set ids) ps \<rparr>)"
  using assms(2)
proof (induction ps arbitrary: seg)
  case (Cons q ps)
  then obtain k where "Conf_proc_by_id_in_conf cn (pr_id q) = Some (k, q)"
    using Conf_proc_by_id_unique [OF assms(1), of q] by auto
  then have "commit_proc cn ids q seg = Inr (if pr_id q \<in> set ids then seg\<lparr> procs := procs seg @ [q] \<rparr> else seg)"
    by (simp add: commit_proc_def Conf_append_id_to_seg_def)
  then show ?case using Cons by simp
qed simp

lemma commit_segments_wf:
  assumes "conf_wf cn"
  shows "\<exists>m. commit_segments cn ids old = Inr m \<and> length (segments m) = length (segments cn) \<and>
    allprocs m = allprocs old \<and> hash_code m = hash_code old \<and>
    (\<forall>i < length (segments cn). procs (segments m ! i) =
       filter (\<lambda>p. pr_id p \<in> set ids) (procs (segments cn ! i))) \<and>
    ring m = filter (\<lambda>p. pr_id p \<in> set ids) (ring cn)"
proof -
  have d: "distinct (map pr_id (allprocs cn))"
    and segs: "\<And>s. s \<in> set (segments cn) \<Longrightarrow> set (procs s) \<subseteq> set (allprocs cn)"
    using assms by (auto simp: conf_wf_def list_all_iff)
  let ?seg = "\<lambda>i. (seg_or_empty old i)\<lparr> procs := filter (\<lambda>p. pr_id p \<in> set ids) (procs (segments cn ! i)) \<rparr>"
  have loop: "fold_res (\<lambda>i acc. bind_res (fold_res (commit_proc cn ids) (procs (segments cn ! i))
        ((seg_or_empty old i)\<lparr> procs := [] \<rparr>)) (\<lambda>seg. Inr (acc @ [seg]))) is acc = Inr (acc @ map ?seg is)"
    if "set is \<subseteq> {..<length (segments cn)}" for "is" acc
    using that
  proof (induction "is" arbitrary: acc)
    case (Cons i "is")
    then show ?case using commit_proc_loop [OF d segs [of "segments cn ! i"]] by simp
  qed simp
  have "commit_segments cn ids old = Inr (old\<lparr> segments := map ?seg [0..<length (segments cn)] \<rparr>)"
    using loop [of "[0..<length (segments cn)]" "[]"] by (simp add: commit_segments_def atLeast0LessThan)
  moreover have "map (\<lambda>i. filter (\<lambda>p. pr_id p \<in> set ids) (procs (segments cn ! i))) [0..<length (segments cn)] =
      map (\<lambda>s. filter (\<lambda>p. pr_id p \<in> set ids) (procs s)) (segments cn)"
    by (rule nth_equalityI) simp_all
  then have "concat (map (\<lambda>i. filter (\<lambda>p. pr_id p \<in> set ids) (procs (segments cn ! i))) [0..<length (segments cn)]) =
      filter (\<lambda>p. pr_id p \<in> set ids) (ring cn)"
    by (simp add: ring_def filter_concat comp_def)
  ultimately show ?thesis by (simp add: ring_def comp_def)
qed

end
