(* ===== verification/Discard.thy ===== *)
theory Discard
  imports Views
begin

text \<open>
  \<open>Discard_packets\<close> of \<open>protocol.c\<close>: delivery and release of the packets every member has, and
  the end of a membership change: the remaining packets of the old ring, the transitional
  signal, and the installation of the new membership.
\<close>

section \<open>Operations\<close>

definition set_prot_exist :: "int \<Rightarrow> int \<Rightarrow> daemon \<Rightarrow> daemon" where
  "set_prot_exist i e = upd_prot (set_exist i e)"

text \<open>Delivery of an entry that was not delivered yet; the memory of the others is released.\<close>

definition deliver_or_dispose :: "int \<Rightarrow> daemon \<Rightarrow> daemon result" where
  "deliver_or_dispose i d = (if exist (prot d) i = 1 then Deliver_packet i False d else Inr d)"

definition discard_step :: "int \<Rightarrow> daemon \<Rightarrow> daemon result" where
  "discard_step i d =
     guard_res (exist (prot d) i = 0) (Alarm_exit ''Discard_packets'')
       (bind_res (deliver_or_dispose i d) (\<lambda>d. Inr (set_prot_exist i 0 d)))"

text \<open>The part outside the EVS state.\<close>

definition Discard_stable :: "daemon \<Rightarrow> daemon result" where
  "Discard_stable d =
     bind_res (fold_res discard_step [Last_discarded (prot d) + 1..Aru (prot d)] d) (\<lambda>d.
       Inr (upd_prot (\<lambda>p. p\<lparr> Last_discarded := Aru p,
              Last_delivered := (if Last_delivered p < Aru p then Aru p else Last_delivered p) \<rparr>) d))"

text \<open>Before the transitional signal: up to the first hole or the first SAFE packet.\<close>

definition evs_before_step :: "int \<Rightarrow> daemon \<Rightarrow> daemon ctl result" where
  "evs_before_step i d =
     (let x = pkt (prot d) i
      in guard_res (pi_exist x = 0) (Alarm_exit ''Discard_packets'')
           (if pi_exist x = 3 then Inr (Break d)
            else if Is_safe (p_type (pi_head x)) then Inr (Break d)
            else bind_res (deliver_or_dispose i d) (\<lambda>d.
              Inr (Continue (upd_prot (\<lambda>p. p\<lparr> Last_discarded := i \<rparr>) (set_prot_exist i 0 d))))))"

text \<open>After it: beyond a hole only packets of daemons in the committed membership.\<close>

definition evs_after_step :: "int \<Rightarrow> bool \<times> daemon \<Rightarrow> (bool \<times> daemon) result" where
  "evs_after_step i = (\<lambda>(found_hole, d).
     let x = pkt (prot d) i
     in guard_res (pi_exist x = 0) (Alarm_exit ''Discard_packets'')
          (if pi_exist x = 3 then Inr (True, set_prot_exist i 0 d)
           else if \<not> found_hole \<or> Conf_id_in_conf (Commit_membership (prot d)) (p_proc_id (pi_head x)) \<noteq> - 1
           then bind_res (deliver_or_dispose i d) (\<lambda>d. Inr (found_hole, set_prot_exist i 0 d))
           else Inr (found_hole, set_prot_exist i 0 d)))"

definition packets_left :: "prot_state \<Rightarrow> bool" where
  "packets_left p \<longleftrightarrow> (\<exists>k \<in> set [0..<nat MAX_PACKETS_IN_STRUCT]. pi_exist (Packets p k) \<noteq> 0)"

text \<open>The message that was being sent starts again; half received messages are dropped.\<close>

definition reset_queues :: "prot_state \<Rightarrow> prot_state" where
  "reset_queues p =
     (let q = Protocol_down_queue p (Down_queue_ptr p);
          p = (if num_mess q > 0
               then p\<lparr> Protocol_down_queue := (Protocol_down_queue p)(Down_queue_ptr p := q\<lparr> cur_element := 0 \<rparr>) \<rparr>
               else p)
      in p\<lparr> Up_queue := (\<lambda>k. if int k < MAX_PROCS_RING then (Up_queue p k)\<lparr> uq_exist := False \<rparr>
                           else Up_queue p k) \<rparr>)"

definition reload_singleton_end :: "daemon \<Rightarrow> daemon result" where
  "reload_singleton_end d =
     (if Conf_in_reload_singleton_state (conf d) then
        guard_res (g_gstate (stat d) \<noteq> 1 \<or> Conf_num_procs (Reg_membership (prot d)) \<noteq> 1)
          (Alarm_exit ''Discard_packets'')
          (let d = Net_clear_partition d;
               d = emit (E_queue Memb_lookup_new_members_event (0, 0)) d
           in Inr (d\<lparr> conf := Conf_reload_singleton_state_end (conf d) \<rparr>))
      else Inr d)"

definition reset_counters :: "daemon \<Rightarrow> daemon" where
  "reset_counters d =
     upd_stat (\<lambda>g. g\<lparr> g_my_aru := 0 \<rparr>)
       (upd_prot (\<lambda>p. p\<lparr> Highest_seq := 0, Highest_fifo_seq := 0, My_aru := 0, Aru := 0,
          Last_discarded := 0, Last_delivered := 0, Token_counter := 0 \<rparr>) d)"

definition Discard_evs :: "daemon \<Rightarrow> daemon result" where
  "Discard_evs d =
     bind_res (fold_ctl evs_before_step [Last_discarded (prot d) + 1..Highest_seq (prot d)] d) (\<lambda>d.
     bind_res (Memb_transitional d) (\<lambda>d.
     let d = emit (Sess_deliver_trans_memb (Trans_membership (prot d)) (Memb_trans_id d)) d in
     bind_res (fold_res evs_after_step [Last_discarded (prot d) + 1..Highest_seq (prot d)] (False, d)) (\<lambda>(_, d).
     guard_res (packets_left (prot d)) (Alarm_exit ''Discard_packets'')
       (bind_res (Memb_regular (upd_prot reset_queues d)) (\<lambda>d.
        let d = emit Log_membership d;
            d = emit (Sess_deliver_reg_memb (Reg_membership (prot d)) (Memb_id d)) d
        in bind_res (reload_singleton_end d) (\<lambda>d. Inr (reset_counters d)))))))"

definition Discard_packets :: "daemon \<Rightarrow> daemon result" where
  "Discard_packets d =
     (if Aru (prot d) \<le> Last_discarded (prot d) then Inr d
      else if State (memb d) = EVS then
        (if Aru (prot d) \<noteq> Last_seq (prot d) then Inr d else Discard_evs d)
      else Discard_stable d)"

section \<open>Stable packets\<close>

text \<open>
  What \<open>Discard_stable\<close> promises: the packets up to \<open>Aru\<close> that were not delivered yet are
  delivered, in order, and the entries are free afterwards.
\<close>

definition free_entries :: "int list \<Rightarrow> daemon \<Rightarrow> daemon" where
  "free_entries xs d = fold (\<lambda>i. set_prot_exist i 0) xs d"

lemma prot_set_prot_exist [simp]: "prot (set_prot_exist i e d) = set_exist i e (prot d)"
  by (simp add: set_prot_exist_def)

lemma pkt_set_exist: "pkt (set_exist i e p) j = (if slot j = slot i then (pkt p i)\<lparr> pi_exist := e \<rparr> else pkt p j)"
  by (simp add: set_exist_def pkt_set_pkt)

lemma set_exist_comm: "slot i \<noteq> slot j \<Longrightarrow> set_exist i a (set_exist j b p) = set_exist j b (set_exist i a p)"
  by (simp add: set_exist_def set_pkt_def pkt_def fun_upd_twist)

lemma set_prot_exist_comm:
  "slot i \<noteq> slot j \<Longrightarrow> set_prot_exist i a (set_prot_exist j b d) = set_prot_exist j b (set_prot_exist i a d)"
  by (simp add: set_prot_exist_def upd_prot_def set_exist_comm)

lemma Deliver_packet_free:
  assumes "slot i \<noteq> slot j"
  shows "Deliver_packet j c (set_prot_exist i 0 d) =
    bind_res (Deliver_packet j c d) (\<lambda>d'. Inr (set_prot_exist i 0 d'))"
proof -
  have p: "pkt (set_exist i 0 p) j = pkt p j" for p using assms by (simp add: pkt_set_exist)
  have u: "set_exist j 2 ((set_exist i 0 p)\<lparr> Up_queue := q \<rparr>) = set_exist i 0 (set_exist j 2 (p\<lparr> Up_queue := q \<rparr>))" for p q
    using assms set_exist_comm [of i j 0 2 "p\<lparr> Up_queue := q \<rparr>"]
    by (simp add: set_exist_def set_pkt_def pkt_def)
  have f: "Up_queue (set_exist i 0 p) = Up_queue p" for p by (simp add: set_exist_def set_pkt_def)
  show ?thesis
    by (simp add: Deliver_packet_def set_prot_exist_def Let_def p f u upd_prot_def upd_stat_def
        guard_res_def bind_res_def split: sum.splits)
qed

lemma fold_Deliver_free:
  assumes "slot i \<notin> slot ` set xs"
  shows "fold_res (\<lambda>i. Deliver_packet i c) xs (set_prot_exist i 0 d) =
    bind_res (fold_res (\<lambda>i. Deliver_packet i c) xs d) (\<lambda>d'. Inr (set_prot_exist i 0 d'))"
  using assms
proof (induction xs arbitrary: d)
  case (Cons j xs)
  then have "slot i \<noteq> slot j" by auto
  then show ?case using Cons by (auto simp: Deliver_packet_free bind_res_def split: sum.splits)
qed simp

lemma free_entries_Cons: "free_entries (i # xs) d = free_entries xs (set_prot_exist i 0 d)"
  by (simp add: free_entries_def)

lemma discard_loop:
  assumes "inj_on slot (set xs)" and "distinct xs" and "\<forall>i \<in> set xs. exist (prot d) i \<noteq> 0"
  shows "fold_res discard_step xs d =
    bind_res (fold_res (\<lambda>i. Deliver_packet i False) (filter (\<lambda>i. exist (prot d) i = 1) xs) d)
      (\<lambda>d'. Inr (free_entries xs d'))"
  using assms
proof (induction xs arbitrary: d)
  case (Cons i xs)
  have inj: "inj_on slot (set xs)" "distinct xs" using Cons.prems(1,2) by auto
  have other: "slot j \<noteq> slot i" if "j \<in> set xs" for j
    using Cons.prems(1,2) that by (auto simp: inj_on_def)
  have fresh: "slot i \<notin> slot ` set ys" if "set ys \<subseteq> set xs" for ys
    using other that by (metis imageE subsetD)
  have rest: "fold_res discard_step xs (set_prot_exist i 0 d1) =
      bind_res (fold_res (\<lambda>i. Deliver_packet i False) (filter (\<lambda>i. exist (prot d) i = 1) xs) d1)
        (\<lambda>d'. Inr (free_entries (i # xs) d'))"
    if same: "\<And>j. j \<in> set xs \<Longrightarrow> pkt (prot d1) j = pkt (prot d) j" for d1
  proof -
    let ?d = "set_prot_exist i 0 d1"
    have pk: "pkt (prot ?d) j = pkt (prot d) j" if "j \<in> set xs" for j
      using same [OF that] other [OF that] by (simp add: pkt_set_exist)
    then have "filter (\<lambda>i. exist (prot ?d) i = 1) xs = filter (\<lambda>i. exist (prot d) i = 1) xs"
      by (intro filter_cong) simp_all
    moreover have "\<forall>i \<in> set xs. exist (prot ?d) i \<noteq> 0" using pk Cons.prems(3) by simp
    ultimately show ?thesis
      using Cons.IH [OF inj, of ?d] fold_Deliver_free [OF fresh [of "filter (\<lambda>i. exist (prot d) i = 1) xs"]]
      by (simp add: bind_res_assoc free_entries_Cons)
  qed
  show ?case
  proof (cases "exist (prot d) i = 1")
    case True
    show ?thesis
    proof (cases "Deliver_packet i False d")
      case (Inl e)
      then show ?thesis using True by (simp add: discard_step_def deliver_or_dispose_def)
    next
      case (Inr d1)
      have "pkt (prot d1) j = pkt (prot d) j" if "j \<in> set xs" for j
        using Deliver_packet_pkt [OF Inr] other [OF that] by simp
      moreover have "discard_step i d = Inr (set_prot_exist i 0 d1)"
        using True Inr by (simp add: discard_step_def deliver_or_dispose_def)
      ultimately show ?thesis using rest [of d1] True Inr by simp
    qed
  next
    case False
    then have "discard_step i d = Inr (set_prot_exist i 0 d)"
      using Cons.prems(3) by (simp add: discard_step_def deliver_or_dispose_def)
    then show ?thesis using rest [of d] False by simp
  qed
qed (simp add: free_entries_def)

lemma free_entries_frame:
  "conf (free_entries xs d) = conf d" "memb (free_entries xs d) = memb d" "fc (free_entries xs d) = fc d"
  "net (free_entries xs d) = net d" "stat (free_entries xs d) = stat d" "env (free_entries xs d) = env d"
  "out (free_entries xs d) = out d" "Aru (prot (free_entries xs d)) = Aru (prot d)"
  "My_aru (prot (free_entries xs d)) = My_aru (prot d)"
  "Highest_seq (prot (free_entries xs d)) = Highest_seq (prot d)"
  "Last_discarded (prot (free_entries xs d)) = Last_discarded (prot d)"
  "Last_delivered (prot (free_entries xs d)) = Last_delivered (prot d)"
  by (induction xs arbitrary: d; simp add: free_entries_def set_prot_exist_def set_exist_def set_pkt_def)+

lemma pkt_free_entries:
  "pkt (prot (free_entries xs d)) j =
    (if slot j \<in> slot ` set xs then (pkt (prot d) j)\<lparr> pi_exist := 0 \<rparr> else pkt (prot d) j)"
proof (induction xs arbitrary: d)
  case (Cons i xs)
  have "slot j = slot i \<Longrightarrow> pkt (prot d) i = pkt (prot d) j" by (simp add: pkt_def)
  then show ?case using Cons by (simp add: free_entries_Cons pkt_set_exist)
qed (simp add: free_entries_def)

definition mark_discarded :: "daemon \<Rightarrow> daemon" where
  "mark_discarded = upd_prot (\<lambda>p. p\<lparr> Last_discarded := Aru p,
     Last_delivered := (if Last_delivered p < Aru p then Aru p else Last_delivered p) \<rparr>)"

lemma Discard_stable_eq:
  assumes "window_ok (prot d)"
  defines "xs \<equiv> [Last_discarded (prot d) + 1..Aru (prot d)]"
  shows "Discard_stable d =
    bind_res (fold_res (\<lambda>i. Deliver_packet i False) (filter (\<lambda>i. exist (prot d) i = 1) xs) d)
      (\<lambda>d'. Inr (mark_discarded (free_entries xs d')))"
proof -
  have sub: "set xs \<subseteq> {Last_discarded (prot d) + 1..Last_discarded (prot d) + 8192}"
    using assms(1) by (auto simp: window_ok_def xs_def)
  have "\<forall>i \<in> set xs. exist (prot d) i \<noteq> 0"
    using window_ok_entry [OF assms(1)] assms(1) by (auto simp: xs_def entry_ok_def window_ok_def)
  then show ?thesis
    using discard_loop [OF slot_inj_window [OF sub]]
    by (simp add: Discard_stable_def xs_def bind_res_assoc mark_discarded_def)
qed

lemma Discard_stable_ok:
  assumes ok: "window_ok (prot d)" and d': "Discard_stable d = Inr d'"
  shows "window_ok (prot d')" and "memb d' = memb d" and "conf d' = conf d"
    and "Last_discarded (prot d') = Aru (prot d)" and "Aru (prot d') = Aru (prot d)"
    and "My_aru (prot d') = My_aru (prot d)" and "Highest_seq (prot d') = Highest_seq (prot d)"
    and "Last_delivered (prot d') = max (Last_delivered (prot d)) (Aru (prot d))"
    and "\<forall>i. Aru (prot d) < i \<and> i \<le> Last_discarded (prot d) + 8192 \<longrightarrow> pkt (prot d') i = pkt (prot d) i"
proof -
  let ?p = "prot d" and ?xs = "[Last_discarded (prot d) + 1..Aru (prot d)]"
  obtain e where e: "fold_res (\<lambda>i. Deliver_packet i False) (filter (\<lambda>i. exist ?p i = 1) ?xs) d = Inr e"
      and d'e: "d' = mark_discarded (free_entries ?xs e)"
    using d' Discard_stable_eq [OF ok] by auto
  note fr = deliver_frameD [OF conjunct1 [OF fold_Deliver_result [OF e]]]
  note pk = conjunct2 [OF fold_Deliver_result [OF e], rule_format]
  show "memb d' = memb d" "conf d' = conf d"
    using fr(1,2) by (simp_all add: d'e mark_discarded_def free_entries_frame)
  show cnt: "Last_discarded (prot d') = Aru ?p" "Aru (prot d') = Aru ?p" "My_aru (prot d') = My_aru ?p"
      "Highest_seq (prot d') = Highest_seq ?p" "Last_delivered (prot d') = max (Last_delivered ?p) (Aru ?p)"
    using fr(7-11) by (simp_all add: d'e mark_discarded_def free_entries_frame)
  have ord: "Last_discarded ?p \<le> Aru ?p" "Aru ?p \<le> My_aru ?p" "My_aru ?p \<le> Highest_seq ?p"
      "Highest_seq ?p \<le> Last_discarded ?p + 8192" "Last_delivered ?p \<le> My_aru ?p" "0 \<le> Last_discarded ?p"
    using ok by (auto simp: window_ok_def)
  have sub: "set ?xs \<subseteq> {Last_discarded ?p + 1..Last_discarded ?p + 8192}" using ord by auto
  have pkt': "pkt (prot d') j = pkt (prot (free_entries ?xs e)) j" for j
    by (simp add: d'e mark_discarded_def pkt_def)
  have keep: "pkt (prot d') i = pkt ?p i" if "Aru ?p < i" "i \<le> Last_discarded ?p + 8192" for i
  proof -
    have "slot i \<notin> slot ` set ?xs" using slot_image_iff [OF sub, of i] that ord by simp
    moreover from this have "slot i \<notin> slot ` set (filter (\<lambda>i. exist ?p i = 1) ?xs)" by auto
    ultimately show ?thesis using pk [of i] by (simp add: pkt' pkt_free_entries)
  qed
  then show "\<forall>i. Aru ?p < i \<and> i \<le> Last_discarded ?p + 8192 \<longrightarrow> pkt (prot d') i = pkt ?p i" by blast
  have freed: "exist (prot d') i = 0" if "Last_discarded ?p + 8192 < i" "i \<le> Aru ?p + 8192" for i
  proof -
    have "slot i = slot (i - 8192)" by (simp add: slot_mod mod_diff_eq [symmetric])
    then have "slot i \<in> slot ` set ?xs" using that by auto
    then show ?thesis by (simp add: pkt' pkt_free_entries)
  qed
  have "entry_ok (prot d') i" if i: "Aru ?p < i" "i \<le> Aru ?p + 8192" for i
  proof (cases "i \<le> Last_discarded ?p + 8192")
    case True
    have i': "Last_discarded ?p < i" using i ord by simp
    show ?thesis
      using window_ok_entry [OF ok i' True] keep [OF i(1) True] cnt i(1) by (simp add: entry_ok_def)
  next
    case False
    then show ?thesis using freed [of i] i cnt ord by (simp add: entry_ok_def)
  qed
  then show "window_ok (prot d')" using cnt ord by (auto simp: window_ok_def)
qed

end
