(* ===== verification/Membership.thy ===== *)
theory Membership
  imports Discard
begin

text \<open>
  The state machine of \<open>membership.c\<close>: what a daemon does when its token is lost, the shifts
  between its states, the alive, join and refer packets, and the timers. The form tokens
  that create a new ring are in a theory of their own.
\<close>

section \<open>Shifts\<close>

definition Shift_to_seg :: "daemon \<Rightarrow> daemon" where
  "Shift_to_seg d =
     (let my = pr_id (My (conf d));
          d = set_state SEG d;
          d = upd_memb (\<lambda>m. m\<lparr> F_members := (single_member my (F_members m))\<lparr> num_pending := 0 \<rparr> \<rparr>) d;
          d = emit (E_queue Scast_alive_event (0, 0)) d
      in emit (E_queue Gather_or_represented_event (Seg_timeout (prot d))) d)"

definition first_rep :: "rep_info \<Rightarrow> reps_info \<Rightarrow> reps_info" where
  "first_rep e r = r\<lparr> num_reps := 1, reps := (reps r)(0 := e) \<rparr>"

definition Shift_to_gather :: "daemon \<Rightarrow> daemon" where
  "Shift_to_gather d =
     (let my = My (conf d);
          d = set_state GATHER d;
          d = upd_memb (\<lambda>m. m\<lparr> F_reps := first_rep \<lparr> rp_proc_id = pr_id my,
                rp_type = (if Token_alive m then RING_REP else SEG_REP),
                rp_seg_index = pr_seg_index my \<rparr> (F_reps m) \<rparr>) d;
          d = emit (E_dequeue Scast_alive_event) d;
          d = emit (E_dequeue Memb_lookup_new_members_event) d;
          d = emit (E_queue Send_join_event (0, 0)) d
      in emit (E_queue Form_or_fail_event (Gather_timeout (prot d))) d)"

definition Shift_to_represented :: "daemon \<Rightarrow> daemon" where
  "Shift_to_represented d =
     (let d = set_state REPRESENTED d;
          d = emit (E_dequeue Scast_alive_event) d;
          d = emit (E_dequeue Gather_or_represented_event) d
      in emit (E_queue Shift_to_seg_event (Rep_timeout (prot d))) d)"

definition Gather_or_represented :: "daemon \<Rightarrow> daemon result" where
  "Gather_or_represented d =
     (let d = upd_memb (\<lambda>m. m\<lparr> My_seg_rep := - 1 \<rparr>) d
      in bind_res (Smallest_member (Config (conf d)) (F_members (memb d))) (\<lambda>(i, _).
           Inr (if i = pr_id (My (conf d)) then Shift_to_gather d else Shift_to_represented d)))"

section \<open>Packets\<close>

text \<open>
  The header of a membership packet: type, sender and length. The other fields of the static
  \<open>Send_pack\<close> and of the local \<open>refer_pack\<close>, which no receiver reads, are zero here.
\<close>

definition memb_head :: "32 word \<Rightarrow> membership_id \<Rightarrow> int \<Rightarrow> daemon \<Rightarrow> packet_header" where
  "memb_head ty mid len d = \<lparr> p_type = ty, p_transmiter_id = 0, p_proc_id = pr_id (My (conf d)),
     p_memb_id = mid, p_seq = 0, p_token_round = 0, p_conf_hash = 0, p_data_len = to_int16u len, p_padding = 0,
     p_first_frag_header = \<lparr> fragment_index = 0, fragment_len = 0 \<rparr> \<rparr>"

abbreviation no_memb_id :: membership_id where
  "no_memb_id \<equiv> \<lparr> m_proc_id = 0, m_time = 0 \<rparr>"

definition members_bytes :: "members_info \<Rightarrow> int" where
  "members_bytes m = 2 * 2 + num_members m * sizeof_int32"

abbreviation (input) sizeof_rep_info :: int where "sizeof_rep_info \<equiv> 8"

definition reps_bytes :: "reps_info \<Rightarrow> int" where
  "reps_bytes r = 2 * 2 + num_reps r * sizeof_rep_info"

definition Scast_alive :: "int \<Rightarrow> daemon \<Rightarrow> daemon result" where
  "Scast_alive code d =
     (let fm = F_members (memb d)
      in bind_res (Net_scast (pr_seg_index (My (conf d)))
             (memb_head ALIVE_TYPE no_memb_id (members_bytes fm) d) (Alive_body fm) d) (\<lambda>(_, d).
           Inr (if code = 0 then emit (E_queue Scast_alive_event (Alive_timeout (prot d))) d else d)))"

definition join_head :: "daemon \<Rightarrow> packet_header" where
  "join_head d = memb_head JOIN_TYPE no_memb_id
     (members_bytes (F_members (memb d)) + reps_bytes (F_reps (memb d))) d"

definition join_body :: "daemon \<Rightarrow> payload" where
  "join_body d = Join_body (F_members (memb d)) (F_reps (memb d))"

definition Send_join :: "daemon \<Rightarrow> daemon result" where
  "Send_join d =
     (let h = join_head d; b = join_body d; pr = Potential_reps (memb d)
      in bind_res (if \<not> Token_alive (memb d) then Net_scast (pr_seg_index (My (conf d))) h b d else Inr (h, d))
           (\<lambda>(h, d).
              let (h, d) = fold (\<lambda>i (h, d). Net_ucast (rp_proc_id (reps pr i)) h b d)
                             [0..<nat (num_reps pr)] (h, d)
              in Inr (emit (E_queue Send_join_event (Join_timeout (prot d))) d)))"

text \<open>The daemons of the configuration, segment by segment, that are not in \<open>Reg_membership\<close>.\<close>

definition missing_ids :: "daemon \<Rightarrow> proc_id list" where
  "missing_ids d = filter (\<lambda>i. Conf_id_in_conf (Reg_membership (prot d)) i = - 1)
     (concat (map (\<lambda>s. map pr_id (procs s)) (segments (Config (conf d)))))"

definition Memb_lookup_new_members :: "daemon \<Rightarrow> daemon result" where
  "Memb_lookup_new_members d =
     (if State (memb d) \<noteq> OP then Inr d
      else
        let my = My (conf d);
            d = upd_memb (\<lambda>m. m\<lparr> Potential_reps := (Potential_reps m)\<lparr> num_reps := 0 \<rparr>,
                  F_reps := first_rep \<lparr> rp_proc_id = pr_id my, rp_type = RING_REP,
                                       rp_seg_index = pr_seg_index my \<rparr> (F_reps m),
                  F_members := (F_members m)\<lparr> num_members := 0, num_pending := 0 \<rparr> \<rparr>) d;
            h = join_head d; b = join_body d
        in if Conf_num_segments (Config (conf d)) = 1
           then bind_res (Net_scast (pr_seg_index my) h b d) (\<lambda>(_, d). Inr (Shift_to_gather d))
           else let (_, d') = fold (\<lambda>i (h, d). Net_ucast i h b d) (missing_ids d) (h, d)
                in Inr (if missing_ids d \<noteq> [] then Shift_to_gather d' else d'))"

section \<open>Loss of the token\<close>

text \<open>
  The loop that makes one representative per other segment: its first member in \<open>vw\<close>, or its
  configured leader. \<open>temp\<close> is the code's \<open>temp_rep\<close>, whose type the loop does not set.
\<close>

definition potential_step ::
    "daemon \<Rightarrow> configuration \<Rightarrow> nat \<Rightarrow> rep_info \<times> reps_info \<Rightarrow> (rep_info \<times> reps_info) result" where
  "potential_step d vw i = (\<lambda>(temp, r).
     if int i = pr_seg_index (My (conf d)) then Inr (temp, r)
     else bind_res (seg_at vw (int i)) (\<lambda>seg.
          bind_res (case procs seg of
                      p # _ \<Rightarrow> Inr (pr_id p)
                    | [] \<Rightarrow> Conf_seg_leader (Config (conf d)) (int i)) (\<lambda>leader.
          let temp = temp\<lparr> rp_seg_index := int i, rp_proc_id := leader \<rparr>
          in bind_res (Insert_rep (Config (conf d)) r temp) (\<lambda>(r, _). Inr (temp, r)))))"

definition potential_from ::
    "configuration \<Rightarrow> rep_info \<Rightarrow> reps_info \<Rightarrow> daemon \<Rightarrow> reps_info result" where
  "potential_from vw temp r d =
     bind_res (fold_res (potential_step d vw) [0..<nat (Conf_num_segments (Config (conf d)))] (temp, r))
       (\<lambda>(_, r). Inr r)"

text \<open>The gathered representatives after the first, which is this daemon.\<close>

definition gathered_step :: "daemon \<Rightarrow> nat \<Rightarrow> rep_info \<times> reps_info \<Rightarrow> (rep_info \<times> reps_info) result" where
  "gathered_step d i = (\<lambda>(temp, r).
     let temp = reps (F_reps (memb d)) i
     in bind_res (Insert_rep (Config (conf d)) r temp) (\<lambda>(r, _). Inr (temp, r)))"

definition gathered_reps :: "rep_info \<Rightarrow> reps_info \<Rightarrow> daemon \<Rightarrow> (rep_info \<times> reps_info) result" where
  "gathered_reps temp r d = fold_res (gathered_step d) [1..<nat (num_reps (F_reps (memb d)))] (temp, r)"

abbreviation potential_temp :: rep_info where
  "potential_temp \<equiv> \<lparr> rp_proc_id = 0, rp_type = POTENTIAL_REP, rp_seg_index = 0 \<rparr>"

definition token_loss_reps :: "daemon \<Rightarrow> daemon result" where
  "token_loss_reps d =
     (let none = (Potential_reps (memb d))\<lparr> num_reps := 0 \<rparr>;
          set_reps = (\<lambda>d r. upd_memb (\<lambda>m. m\<lparr> Potential_reps := r \<rparr>) d)
      in case State (memb d) of
           OP \<Rightarrow> bind_res (potential_from (Membership (memb d)) potential_temp none d) (\<lambda>r. Inr (set_reps d r))
         | SEG \<Rightarrow> Inl (Alarm_exit ''Memb_token_loss'')
         | REPRESENTED \<Rightarrow> Inl (Alarm_exit ''Memb_token_loss'')
         | GATHER \<Rightarrow>
             guard_res (\<not> Token_alive (memb d)) (Alarm_exit ''Memb_token_loss'')
               (bind_res (gathered_reps potential_temp none d) (\<lambda>(temp, r).
                bind_res (potential_from (Membership (memb d)) temp r d) (\<lambda>r. Inr (set_reps d r))))
         | FORM \<Rightarrow> Inr d
         | EVS \<Rightarrow>
             let d = Backoff_membership d
             in bind_res (potential_from (Future_membership (memb d)) potential_temp none d)
                  (\<lambda>r. Inr (set_reps d r)))"

definition clear_members :: "configuration \<Rightarrow> configuration \<Rightarrow> configuration" where
  "clear_members cn m =
     (let n = length (segments cn)
      in m\<lparr> segments := map (\<lambda>s. s\<lparr> procs := [] \<rparr>) (take n (segments m)) @ drop n (segments m) \<rparr>)"

text \<open>A membership of this daemon alone.\<close>

definition only_me :: "configuration \<Rightarrow> proc \<Rightarrow> configuration \<Rightarrow> configuration result" where
  "only_me cn my m =
     (let m = clear_members cn m; k = pr_seg_index my
      in bind_res (seg_at m k) (\<lambda>seg.
           Inr (m\<lparr> segments := (segments m)[nat k := fst (Conf_append_id_to_seg cn seg (pr_id my))] \<rparr>)))"

text \<open>No timer of the lost ring stays queued, and its last token is forgotten.\<close>

definition token_loss_reset :: "daemon \<Rightarrow> daemon" where
  "token_loss_reset d =
     (let d = upd_memb (\<lambda>m. m\<lparr> Memb_Just_Installed := False \<rparr>) d;
          d = emit (E_dequeue Memb_token_loss_event) d;
          d = emit (E_dequeue Send_join_event) d;
          d = emit (E_dequeue Form_or_fail_event) d;
          d = emit (E_dequeue Prot_token_hurry_event) d;
          d = emit (E_dequeue Memb_lookup_new_members_event) d
      in upd_prot (\<lambda>p. p\<lparr> Last_token := (Last_token p)\<lparr> t_type := 0, t_seq := 0, t_aru := 0 \<rparr> \<rparr>) d)"

definition Memb_token_loss :: "daemon \<Rightarrow> daemon result" where
  "Memb_token_loss d =
     bind_res (token_loss_reps d) (\<lambda>d.
     bind_res (Prot_set_delivery_threshold BLOCK_REGULAR_DELIVERY (upd_memb (\<lambda>m. m\<lparr> Token_alive := False \<rparr>) d)) (\<lambda>d.
     let d = token_loss_reset d
     in bind_res (only_me (Config (conf d)) (My (conf d)) (Membership (memb d))) (\<lambda>vw.
          Inr (Shift_to_seg (upd_memb (\<lambda>m. m\<lparr> Membership := vw \<rparr>) d)))))"

section \<open>Handlers\<close>

definition insert_f_member :: "proc_id \<Rightarrow> daemon \<Rightarrow> daemon" where
  "insert_f_member i = upd_memb (\<lambda>m. m\<lparr> F_members := fst (Insert_member (F_members m) i) \<rparr>)"

definition loss_and_insert :: "proc_id \<Rightarrow> daemon \<Rightarrow> daemon result" where
  "loss_and_insert i d = bind_res (Memb_token_loss d) (\<lambda>d. Inr (insert_f_member i d))"

definition Memb_handle_alive :: "packet_header \<Rightarrow> daemon \<Rightarrow> daemon result" where
  "Memb_handle_alive h d =
     (case State (memb d) of
        OP \<Rightarrow> if Conf_id_in_conf (Membership (memb d)) (p_proc_id h) \<noteq> - 1
               then loss_and_insert (p_proc_id h) d else Inr d
      | SEG \<Rightarrow> Inr (insert_f_member (p_proc_id h) d)
      | REPRESENTED \<Rightarrow> Inr (emit (E_queue Shift_to_seg_event (Rep_timeout (prot d))) d)
      | GATHER \<Rightarrow>
          if \<not> Token_alive (memb d) then Inr (insert_f_member (p_proc_id h) d)
          else if Conf_id_in_conf (Membership (memb d)) (p_proc_id h) \<noteq> - 1
               then loss_and_insert (p_proc_id h) d else Inr d
      | FORM \<Rightarrow> Inr d
      | EVS \<Rightarrow> if Conf_id_in_conf (Future_membership (memb d)) (p_proc_id h) \<noteq> - 1
                then loss_and_insert (p_proc_id h) d else Inr d)"

definition refer_to :: "proc_id \<Rightarrow> rep_type \<Rightarrow> proc_id \<Rightarrow> daemon \<Rightarrow> daemon" where
  "refer_to i t dst d =
     snd (Net_ucast dst (memb_head REFER_TYPE \<lparr> m_proc_id = i, m_time = rep_type_code t \<rparr> 0 d) No_body d)"

text \<open>The cases of \<open>Memb_handle_join\<close>, on the lists of the packet in this machine's byte order.\<close>

definition join_in_op :: "packet_header \<Rightarrow> reps_info \<Rightarrow> daemon \<Rightarrow> daemon result" where
  "join_in_op h r d =
     (let vw = Membership (memb d); my = My (conf d)
      in if Conf_id_in_conf vw (p_proc_id h) = - 1 then
           bind_res (Conf_leader vw) (\<lambda>leader.
             if leader = pr_id my then
               Inr (Shift_to_gather (upd_memb (\<lambda>m. m\<lparr>
                 Potential_reps := first_rep (reps r 0) (Potential_reps m),
                 F_members := (F_members m)\<lparr> num_members := 0, num_pending := 0 \<rparr> \<rparr>) d))
             else
               bind_res (if rp_seg_index (reps r 0) \<noteq> pr_seg_index my then Inr True
                         else bind_res (Conf_seg_leader vw (pr_seg_index my)) (\<lambda>l. Inr (l = pr_id my)))
                 (\<lambda>answer. Inr (if answer then refer_to leader RING_REP (p_proc_id h) d else d)))
         else if Conf_num_segments (Config (conf d)) > 1 then Memb_token_loss d else Inr d)"

definition from_my_rep :: "packet_header \<Rightarrow> reps_info \<Rightarrow> daemon \<Rightarrow> bool result" where
  "from_my_rep h r d =
     (case Conf_proc_by_id_in_conf (Config (conf d)) (p_proc_id h) of
        None \<Rightarrow> Inl (Undefined ''Memb_handle_join'')
      | Some (_, p) \<Rightarrow> Inr (pr_seg_index (My (conf d)) = pr_seg_index p \<and> rp_type (reps r 0) = SEG_REP))"

definition join_in_seg :: "packet_header \<Rightarrow> reps_info \<Rightarrow> daemon \<Rightarrow> daemon result" where
  "join_in_seg h r d =
     bind_res (from_my_rep h r d) (\<lambda>mine.
       if mine then
         Scast_alive 1 (Shift_to_represented (upd_memb (\<lambda>m. m\<lparr> My_seg_rep := p_proc_id h \<rparr>) d))
       else Inr d)"

definition join_in_represented :: "packet_header \<Rightarrow> reps_info \<Rightarrow> daemon \<Rightarrow> daemon result" where
  "join_in_represented h r d =
     bind_res (from_my_rep h r d) (\<lambda>mine.
       if mine then
         Scast_alive 1 (emit (E_queue Shift_to_seg_event (Rep_timeout (prot d)))
           (upd_memb (\<lambda>m. m\<lparr> My_seg_rep := p_proc_id h \<rparr>) d))
       else Inr (if My_seg_rep (memb d) \<noteq> - 1
                 then refer_to (My_seg_rep (memb d)) SEG_REP (p_proc_id h) d else d))"

definition join_in_gather :: "reps_info \<Rightarrow> daemon \<Rightarrow> daemon result" where
  "join_in_gather r d =
     bind_res (Insert_rep (Config (conf d)) (F_reps (memb d)) (reps r 0)) (\<lambda>(f_reps, _).
     bind_res (fold_res (\<lambda>i pr. bind_res (Insert_rep (Config (conf d)) pr (reps r i)) (\<lambda>(pr, _). Inr pr))
         [0..<nat (num_reps r)] (Potential_reps (memb d))) (\<lambda>p_reps.
     bind_res (Smallest_rep (Config (conf d)) f_reps) (\<lambda>(smallest, _).
       let d = upd_memb (\<lambda>m. m\<lparr> F_reps := f_reps, Potential_reps := p_reps \<rparr>) d
       in Inr (if smallest = rp_proc_id (reps r 0)
               then emit (E_queue Form_or_fail_event (Gather_timeout (prot d))) d else d))))"

definition Memb_handle_join :: "packet_header \<Rightarrow> members_info \<Rightarrow> reps_info \<Rightarrow> daemon \<Rightarrow> daemon result" where
  "Memb_handle_join h m r d =
     (let r = (if Same_endian (p_type h) then r else Flip_reps r)
      in case State (memb d) of
           OP \<Rightarrow> join_in_op h r d
         | SEG \<Rightarrow> join_in_seg h r d
         | REPRESENTED \<Rightarrow> join_in_represented h r d
         | GATHER \<Rightarrow> join_in_gather r d
         | FORM \<Rightarrow> Inr d
         | EVS \<Rightarrow> if Conf_id_in_conf (Future_membership (memb d)) (p_proc_id h) \<noteq> - 1
                   then loss_and_insert (p_proc_id h) d else Inr d)"

definition Memb_handle_refer :: "packet_header \<Rightarrow> daemon \<Rightarrow> daemon result" where
  "Memb_handle_refer h d =
     (case State (memb d) of
        GATHER \<Rightarrow>
          (case Conf_proc_by_id_in_conf (Config (conf d)) (m_proc_id (p_memb_id h)) of
             None \<Rightarrow> Inr d
           | Some (_, p) \<Rightarrow>
               bind_res (Insert_rep (Config (conf d)) (Potential_reps (memb d))
                   \<lparr> rp_proc_id = pr_id p, rp_type = rep_type_of (to_int16 (m_time (p_memb_id h))),
                     rp_seg_index = pr_seg_index p \<rparr>)
                 (\<lambda>(r, _). Inr (upd_memb (\<lambda>m. m\<lparr> Potential_reps := r \<rparr>) d)))
      | _ \<Rightarrow> Inr d)"

definition Memb_handle_foreign :: "packet_header \<Rightarrow> payload \<Rightarrow> daemon \<Rightarrow> daemon result" where
  "Memb_handle_foreign h b d =
     (case State (memb d) of
        OP \<Rightarrow>
          if Conf_proc_by_id_in_conf (Config (conf d)) (p_proc_id h) = None then Inr d
          else bind_res (Conf_leader (Membership (memb d))) (\<lambda>leader.
            if leader = pr_id (My (conf d)) then Memb_lookup_new_members d
            else bind_res (Conf_seg_leader (Membership (memb d)) (pr_seg_index (My (conf d)))) (\<lambda>l.
              if l = pr_id (My (conf d)) \<and> \<not> Foreign_found (memb d) then
                let d = upd_memb (\<lambda>m. m\<lparr> Foreign_found := True \<rparr>) d;
                    (h, d) = Net_ucast leader h b d;
                    (_, d) = Net_ucast leader h b d
                in Inr d
              else Inr d))
      | _ \<Rightarrow> Inr d)"

definition Memb_handle_message :: "in_packet \<Rightarrow> daemon \<Rightarrow> daemon result" where
  "Memb_handle_message inp d =
     (let h = in_head inp
      in if Is_alive (p_type h) then Memb_handle_alive h d
         else if Is_join (p_type h) then
           (case in_body inp of
              Join_body m r \<Rightarrow> Memb_handle_join h m r d
            | _ \<Rightarrow> Inl (Undefined ''Memb_handle_join''))
         else if Is_refer (p_type h) then Memb_handle_refer h d
         else if Is_regular (p_type h) \<noteq> 0 then Memb_handle_foreign h (in_body inp) d
         else Inr d)"

end
