(* ===== verification/Sending.thy ===== *)
theory Sending
  imports Membership
begin

text \<open>
  The sending side of \<open>protocol.c\<close>: the queues of messages, new packets, the queue of packets
  that the accelerated ring sends after the token, retransmissions, and the retransmission
  of the token.

  A packet's header is shared between \<open>Packets\<close> and the packet that is sent, so what a send
  function writes to the header is written to the entry too (\<open>set_head\<close>).
\<close>

section \<open>Queues of messages\<close>

definition empty_queue :: "down_queue \<Rightarrow> down_queue" where
  "empty_queue q = q\<lparr> num_mess := 0, cur_element := 0, dq_links := [] \<rparr>"

definition Prot_init_down_queues :: "daemon \<Rightarrow> daemon" where
  "Prot_init_down_queues =
     upd_prot (\<lambda>p. p\<lparr> Protocol_down_queue := (\<lambda>t. empty_queue (Protocol_down_queue p t)) \<rparr>)"

definition Prot_set_down_queue :: "queue_type \<Rightarrow> daemon \<Rightarrow> daemon" where
  "Prot_set_down_queue t = upd_prot (\<lambda>p. p\<lparr> Down_queue_ptr := t \<rparr>)"

text \<open>A link of type \<open>-1\<close> is refused; the message is put into the link by the caller.\<close>

definition Prot_Create_Down_Link :: "scatter \<Rightarrow> 32 word \<Rightarrow> down_link option" where
  "Prot_Create_Down_Link m ty = (if ty = - 1 then None else Some \<lparr> dl_type = ty, dl_mess = m \<rparr>)"

definition down_queue_of :: "prot_state \<Rightarrow> down_queue" where
  "down_queue_of p = Protocol_down_queue p (Down_queue_ptr p)"

definition set_down_queue :: "down_queue \<Rightarrow> prot_state \<Rightarrow> prot_state" where
  "set_down_queue q p = p\<lparr> Protocol_down_queue := (Protocol_down_queue p)(Down_queue_ptr p := q) \<rparr>"

section \<open>Sending the token again\<close>

definition Is_token_hold :: "daemon \<Rightarrow> bool" where
  "Is_token_hold d \<longleftrightarrow>
     (State (memb d) = OP \<or> (State (memb d) = GATHER \<and> Memb_token_alive d)) \<and>
     Get_retrans (t_type (Last_token (prot d))) \<le> 1 \<and>
     Aru (prot d) = Highest_seq (prot d) \<and> Token_counter (prot d) > 1"

definition To_hold_token :: "daemon \<Rightarrow> bool" where
  "To_hold_token d \<longleftrightarrow>
     (State (memb d) = OP \<or> (State (memb d) = GATHER \<and> Memb_token_alive d)) \<and>
     Get_retrans (t_type (Last_token (prot d))) \<le> 1 \<and>
     Aru (prot d) = Highest_seq (prot d) \<and> Token_counter (prot d) > 1"

definition send_last_token :: "daemon \<Rightarrow> daemon result" where
  "send_last_token d =
     bind_res (Net_send_token (Last_token (prot d)) (Requests []) d) (\<lambda>(t, d).
       Inr (upd_prot (\<lambda>p. p\<lparr> Last_token := t \<rparr>) d))"

definition Prot_token_hurry :: "daemon \<Rightarrow> daemon result" where
  "Prot_token_hurry d =
     (let my = My (conf d);
          d = upd_prot (\<lambda>p. p\<lparr> Last_token := (Last_token p)\<lparr> t_rtr_len := 0 \<rparr> \<rparr>) d
      in bind_res (Conf_leader (Memb_active_ptr d)) (\<lambda>leader.
         let d = (if leader = pr_id my then
                    let t = Last_token (prot d);
                        val = Get_retrans (t_type t) + 1;
                        d = upd_prot (\<lambda>p. p\<lparr> Last_token := t\<lparr> t_type := Set_retrans (t_type t) val \<rparr> \<rparr>) d;
                        d = emit (E_queue Prot_token_hurry_event (Hurry_timeout (prot d))) d
                    in upd_stat (\<lambda>g. g\<lparr> g_token_hurry := g_token_hurry g + 1 \<rparr>) d
                  else d)
         in bind_res (send_last_token d) (\<lambda>d.
            bind_res (if Wide_network (prot d) then
                        bind_res (Conf_seg_last (Memb_active_ptr d) (pr_seg_index my)) (\<lambda>l.
                          if l = pr_id my then send_last_token d else Inr d)
                      else Inr d) (\<lambda>d.
            if Get_retrans (t_type (Last_token (prot d))) > 1
            then bind_res (send_last_token d) send_last_token else Inr d))))"

text \<open>The argument is the sender of the hurry packet.\<close>

definition Handle_hurry :: "proc_id \<Rightarrow> daemon \<Rightarrow> daemon result" where
  "Handle_hurry i d =
     bind_res (Conf_leader (Memb_active_ptr d)) (\<lambda>leader.
       if leader = pr_id (My (conf d)) \<and> Is_token_hold d \<and> Conf_id_in_conf (Memb_active_ptr d) i \<noteq> - 1
       then Prot_token_hurry (upd_prot (\<lambda>p. p\<lparr> Token_counter := 0 \<rparr>) d)
       else Inr d)"

text \<open>The static hurry packet; its length is left as the allocator set it, here zero.\<close>

definition hurry_head :: "daemon \<Rightarrow> packet_header" where
  "hurry_head d = memb_head HURRY_TYPE no_memb_id 0 d"

definition Prot_new_message :: "down_link \<Rightarrow> daemon \<Rightarrow> daemon result" where
  "Prot_new_message l d =
     (let q = down_queue_of (prot d)
      in guard_res (num_mess q < 0) (Alarm_exit ''Prot_new_message'')
           (let q = q\<lparr> dq_links := (if num_mess q > 0 then dq_links q @ [l] else [l]),
                       num_mess := num_mess q + 1 \<rparr>;
                d = upd_prot (set_down_queue q) d;
                d = (if num_mess q \<ge> WATER_MARK then emit Sess_block_users_level d else d)
            in if num_mess q = 1 \<and> Is_token_hold d then
                 bind_res (Conf_leader (Memb_active_ptr d)) (\<lambda>leader.
                   if leader = pr_id (My (conf d)) then Handle_hurry (p_proc_id (hurry_head d)) d
                   else Inr (snd (Net_ucast leader (hurry_head d) No_body d)))
               else Inr d))"

section \<open>New packets\<close>

definition set_head :: "int \<Rightarrow> packet_header \<Rightarrow> daemon \<Rightarrow> daemon" where
  "set_head i h = upd_prot (\<lambda>p. set_pkt i ((pkt p i)\<lparr> pi_head := h \<rparr>) p)"

definition packet_payload :: "packet \<Rightarrow> payload" where
  "packet_payload = (\<lambda>(h, body). Bytes (take (nat (p_data_len h)) body))"

definition bcast_now :: "packet \<Rightarrow> daemon \<Rightarrow> (packet \<times> daemon) result" where
  "bcast_now = (\<lambda>(h, body) d.
     bind_res (Net_bcast (h\<lparr> p_token_round := Token_rounds (prot d) \<rparr>) (packet_payload (h, body)) d)
       (\<lambda>(h, d). Inr ((h, body), d)))"

text \<open>Broadcast of the first packet of \<open>Send_pack_queue\<close>, which is in \<open>Packets\<close> already.\<close>

definition bcast_first :: "daemon \<Rightarrow> daemon result" where
  "bcast_first d =
     (case Send_pack_queue (prot d) of
        [] \<Rightarrow> Inl (Undefined ''Prot_queue_bcast'')
      | pk # pks \<Rightarrow>
          bind_res (bcast_now pk (upd_prot (\<lambda>p. p\<lparr> Send_pack_queue := pks \<rparr>) d)) (\<lambda>((h, _), d).
            Inr (set_head (p_seq h) h d)))"

definition num_pack_to_send :: "daemon \<Rightarrow> int" where
  "num_pack_to_send d =
     (let n = int (length (Send_pack_queue (prot d)))
      in if \<not> FC_accelerated_ring d \<or> State (memb d) = EVS then n
         else let k = n - FC_accelerated_window d + 1;
                  k = (if k < 0 then 0 else k)
              in if k > n then n else k)"

definition Prot_queue_bcast :: "packet \<Rightarrow> daemon \<Rightarrow> (packet \<times> daemon) result" where
  "Prot_queue_bcast pk d =
     bind_res (fold_res (\<lambda>_. bcast_first) [0..<nat (num_pack_to_send d)] d) (\<lambda>d.
       if \<not> FC_accelerated_ring d \<or> FC_accelerated_window d = 0 \<or> State (memb d) = EVS
       then bcast_now pk d
       else Inr (pk, upd_prot (\<lambda>p. p\<lparr> Send_pack_queue := Send_pack_queue p @ [pk] \<rparr>) d))"

definition Prot_flush_bcast :: "daemon \<Rightarrow> daemon result" where
  "Prot_flush_bcast d = fold_res (\<lambda>_. bcast_first) [0..<length (Send_pack_queue (prot d))] d"

text \<open>One round of the loop of \<open>Send_new_packets\<close>.\<close>

definition send_one :: "daemon \<Rightarrow> daemon result" where
  "send_one d =
     (let seq = Highest_seq (prot d) + 1
      in bind_res (build_packet (sizeof_packet_body d) (pr_id (My (conf d))) (Memb_id d) seq
             (down_queue_of (prot d))) (\<lambda>(q, pk, es).
         let d = upd_prot (\<lambda>p. (set_down_queue q p)\<lparr> Highest_seq := seq,
                   Highest_fifo_seq := Highest_fifo_seq p + 1 \<rparr>) d;
             d = d\<lparr> out := out d @ es \<rparr>
         in bind_res (Prot_queue_bcast pk d) (\<lambda>((h, body), d).
            guard_res (exist (prot d) seq \<noteq> 0) (Alarm_exit ''Send_new_packets'')
              (Inr (upd_prot (\<lambda>p. set_pkt seq \<lparr> pi_head = h, pi_body = body, pi_exist = 1,
                     pi_proc_index = My_index p \<rparr> p) d)))))"

fun send_loop :: "nat \<Rightarrow> daemon \<Rightarrow> (int \<times> daemon) result" where
  "send_loop 0 d = Inr (0, d)"
| "send_loop (Suc n) d =
     (if num_mess (down_queue_of (prot d)) = 0 then Inr (0, d)
      else bind_res (send_one d) (\<lambda>d. bind_res (send_loop n d) (\<lambda>(k, d). Inr (k + 1, d))))"

definition Send_new_packets :: "int \<Rightarrow> daemon \<Rightarrow> (int \<times> daemon) result" where
  "Send_new_packets num_allowed d = send_loop (nat num_allowed) d"

section \<open>Retransmissions\<close>

text \<open>
  The state of the walk over the token's requests: the packets sent, the requests kept for
  other rings, and the answer to where this daemon's own requests should go.
\<close>

record answer =
  a_num_retrans :: int
  a_kept :: "ring_rtr list"
  a_proc_id :: proc_id
  a_seg_index :: int

definition retransmit :: "ring_rtr \<Rightarrow> int \<Rightarrow> daemon \<Rightarrow> daemon result" where
  "retransmit r seq d =
     (let x = pkt (prot d) seq;
          h = pi_head x;
          b = packet_payload (h, pi_body x)
      in if r_proc_id r \<noteq> - 1 then
           let (h, d) = Net_ucast (r_proc_id r) h b d
           in Inr (upd_stat (\<lambda>g. g\<lparr> g_u_retrans := g_u_retrans g + 1 \<rparr>) (set_head seq h d))
         else if r_seg_index r \<noteq> - 1 then
           bind_res (Net_scast (r_seg_index r) h b d) (\<lambda>(h, d).
             Inr (upd_stat (\<lambda>g. g\<lparr> g_s_retrans := g_s_retrans g + 1 \<rparr>) (set_head seq h d)))
         else
           bind_res (Net_bcast h b d) (\<lambda>(h, d).
             Inr (upd_stat (\<lambda>g. g\<lparr> g_b_retrans := g_b_retrans g + 1 \<rparr>) (set_head seq h d))))"

definition answer_seq :: "ring_rtr \<Rightarrow> int \<Rightarrow> answer \<times> daemon \<Rightarrow> (answer \<times> daemon) result" where
  "answer_seq r seq = (\<lambda>(a, d).
     guard_res (seq < Aru (prot d)) (Alarm_exit ''Answer_retrans'')
       (if exist (prot d) seq \<noteq> 0 then
          bind_res (retransmit r seq d) (\<lambda>d. Inr (a\<lparr> a_num_retrans := a_num_retrans a + 1 \<rparr>, d))
        else Inr (a\<lparr> a_proc_id := - 1,
                     a_seg_index := (if r_seg_index r \<noteq> pr_seg_index (My (conf d)) then - 1
                                     else a_seg_index a) \<rparr>, d)))"

definition answer_rtr :: "ring_rtr \<Rightarrow> answer \<times> daemon \<Rightarrow> (answer \<times> daemon) result" where
  "answer_rtr r = (\<lambda>(a, d).
     if Memb_is_equal (r_memb_id r) (Memb_id d) then fold_res (answer_seq r) (r_seqs r) (a, d)
     else Inr (a\<lparr> a_kept := a_kept a @ [r] \<rparr>, d))"

definition Answer_retrans :: "ring_rtr list \<Rightarrow> daemon \<Rightarrow> (answer \<times> daemon) result" where
  "Answer_retrans rtr d =
     fold_res answer_rtr rtr (\<lparr> a_num_retrans = 0, a_kept = [],
       a_proc_id = pr_id (My (conf d)), a_seg_index = pr_seg_index (My (conf d)) \<rparr>, d)"

end
