(* ===== verification/Send_Frames.thy ===== *)
theory Send_Frames
  imports Sending
begin

text \<open>
  What the sending side leaves alone: the send functions only add datagrams and stamp
  headers, and a stamped header keeps its sequence number and its service.
\<close>

section \<open>Service bits and stamps\<close>

lemma Is_regular_endian: "Is_regular (Set_endian t) = Is_regular t"
  by (simp add: Is_regular_def Set_endian_def ENDIAN_TYPE_def ARCH_ENDIAN_def
      bit.conj_disj_distrib2 and.assoc)

lemma Is_regular_routed:
  "Is_regular (Set_routed t) = Is_regular t" "Is_regular (Clear_routed t) = Is_regular t"
  by (simp_all add: Is_regular_def Set_routed_def Clear_routed_def bit.conj_disj_distrib2 and.assoc)

lemma Is_safe_regular: "Is_safe t \<longleftrightarrow> Is_regular t AND SAFE_TYPE \<noteq> 0"
  by (simp add: Is_safe_def Is_regular_def and.assoc)

lemma Is_reliable_regular: "Is_reliable t \<longleftrightarrow> Is_regular t AND RELIABLE_TYPE \<noteq> 0"
  by (simp add: Is_reliable_def Is_regular_def and.assoc)

lemma service_ok_regular: "service_ok t \<longleftrightarrow> (Is_regular t AND RELIABLE_TYPE \<noteq> 0 \<longrightarrow> Is_regular t < AGREED_TYPE)"
  by (simp add: service_ok_def Is_reliable_regular)

text \<open>Two headers of one packet: they differ in what sending writes.\<close>

definition restamped :: "packet_header \<Rightarrow> packet_header \<Rightarrow> bool" where
  "restamped h h' \<longleftrightarrow> Is_regular (p_type h') = Is_regular (p_type h) \<and>
     h' = h\<lparr> p_type := p_type h', p_conf_hash := p_conf_hash h', p_transmiter_id := p_transmiter_id h',
             p_token_round := p_token_round h' \<rparr>"

lemma restamped_refl [simp]: "restamped h h"
  by (simp add: restamped_def)

lemma restamped_trans: "restamped h1 h2 \<Longrightarrow> restamped h2 h3 \<Longrightarrow> restamped h1 h3"
  by (cases h1; cases h2; cases h3) (auto simp: restamped_def)

lemma restampedD:
  assumes "restamped h h'"
  shows "p_seq h' = p_seq h" "p_proc_id h' = p_proc_id h" "p_memb_id h' = p_memb_id h"
    "p_data_len h' = p_data_len h" "p_first_frag_header h' = p_first_frag_header h"
    "Is_regular (p_type h') = Is_regular (p_type h)"
  using assms by (cases h; cases h'; auto simp: restamped_def)+

definition only_out :: "daemon \<Rightarrow> daemon \<Rightarrow> bool" where
  "only_out d d' \<longleftrightarrow> (\<exists>es. d' = d\<lparr> out := out d @ es \<rparr>)"

lemma only_out_refl [simp]: "only_out d d"
  unfolding only_out_def by (rule exI [of _ "[]"]) simp

lemma only_out_trans: "only_out a b \<Longrightarrow> only_out b c \<Longrightarrow> only_out a c"
  unfolding only_out_def by auto

lemma only_out_emit [simp]: "only_out d (emit e d)"
  unfolding only_out_def emit_def by blast

lemma only_out_send_all [simp]: "only_out d (send_all as h b d)"
  unfolding only_out_def send_all_def by blast

lemma only_outD:
  assumes "only_out d d'"
  shows "conf d' = conf d" "prot d' = prot d" "memb d' = memb d" "fc d' = fc d" "net d' = net d"
    "stat d' = stat d" "env d' = env d"
  using assms by (auto simp: only_out_def)

lemma send_bcast_out: "send_bcast h b d = Inr d' \<Longrightarrow> only_out d d'"
  by (auto simp: send_bcast_def Let_def)

lemma restamped_stamp [simp]:
  "restamped h (stamp_packet d h)" "restamped h (h\<lparr> p_type := Set_routed (p_type h) \<rparr>)"
  "restamped h (h\<lparr> p_type := Clear_routed (p_type h) \<rparr>)" "restamped h (h\<lparr> p_token_round := r \<rparr>)"
  by (simp_all add: restamped_def stamp_packet_def Is_regular_endian Is_regular_routed)

lemma Net_bcast_out:
  assumes "Net_bcast h b d = Inr (h', d')"
  shows "only_out d d' \<and> restamped h h'"
proof -
  let ?h = "stamp_packet d (h\<lparr> p_type := Set_routed (p_type h) \<rparr>)"
  have h': "h' = ?h\<lparr> p_type := Clear_routed (p_type ?h) \<rparr>"
    using assms by (auto simp: Net_bcast_def Let_def split: if_splits)
  have "restamped h h'" unfolding h'
    by (rule restamped_trans, rule restamped_trans, rule restamped_stamp(2), rule restamped_stamp(1), rule restamped_stamp(3))
  moreover have "only_out d d'"
    using assms by (auto simp: Net_bcast_def Let_def split: if_splits dest!: send_bcast_out
        intro: only_out_trans [OF only_out_send_all])
  ultimately show ?thesis by blast
qed

lemma Net_scast_out:
  assumes "Net_scast k h b d = Inr (h', d')"
  shows "only_out d d' \<and> restamped h h'"
proof -
  let ?h = "stamp_packet d h"
  have "h' = ?h \<or> h' = ?h\<lparr> p_type := Clear_routed (Set_routed (p_type ?h)) \<rparr>"
    using assms by (auto simp: Net_scast_def Let_def split: if_splits list.splits)
  then have "restamped h h'"
    by (auto simp: restamped_def stamp_packet_def Is_regular_endian Is_regular_routed)
  moreover have "only_out d d'"
    using assms by (auto simp: Net_scast_def Let_def split: if_splits list.splits dest!: send_bcast_out)
  ultimately show ?thesis by blast
qed

lemma Net_ucast_out:
  assumes "Net_ucast i h b d = (h', d')"
  shows "only_out d d' \<and> restamped h h'"
  using assms by (auto simp: Net_ucast_def Let_def split: option.splits)

text \<open>The token: a stamp keeps the two counters and every other field.\<close>

lemma Get_endian: "Get_arq (Set_endian t) = Get_arq t" "Get_retrans (Set_endian t) = Get_retrans t"
  by (simp_all add: Get_arq_def Get_retrans_def Set_endian_def ENDIAN_TYPE_def ARCH_ENDIAN_def
      bit.conj_disj_distrib2 and.assoc)

lemma Net_send_token_out:
  assumes "Net_send_token t rs d = Inr (t', d')"
  shows "only_out d d'" and "t' = stamp_token d t"
  using assms by (auto simp: Net_send_token_def Let_def)

section \<open>Changes that only send\<close>

text \<open>
  \<open>quiet d d'\<close>: between the states datagrams were sent, statistics counted and headers in
  \<open>Packets\<close> stamped; the queue of packets to send may be different.
\<close>

definition packet_same :: "packet_info \<Rightarrow> packet_info \<Rightarrow> bool" where
  "packet_same x y \<longleftrightarrow> restamped (pi_head x) (pi_head y) \<and> y = x\<lparr> pi_head := pi_head y \<rparr>"

definition quiet :: "daemon \<Rightarrow> daemon \<Rightarrow> bool" where
  "quiet d d' \<longleftrightarrow> conf d' = conf d \<and> memb d' = memb d \<and> fc d' = fc d \<and> net d' = net d \<and> env d' = env d \<and>
     prot d' = (prot d)\<lparr> Packets := Packets (prot d'), Send_pack_queue := Send_pack_queue (prot d') \<rparr> \<and>
     (\<forall>k. packet_same (Packets (prot d) k) (Packets (prot d') k)) \<and> (\<exists>es. out d' = out d @ es)"

lemma packet_same_refl [simp]: "packet_same x x"
  by (simp add: packet_same_def)

lemma packet_same_trans: "packet_same x y \<Longrightarrow> packet_same y z \<Longrightarrow> packet_same x z"
  by (cases x; cases y; cases z) (auto simp: packet_same_def intro: restamped_trans)

lemma quiet_refl [simp]: "quiet d d"
  by (simp add: quiet_def)

lemma quiet_trans:
  assumes "quiet a b" and "quiet b c"
  shows "quiet a c"
proof -
  have "prot c = (prot b)\<lparr> Packets := Packets (prot c), Send_pack_queue := Send_pack_queue (prot c) \<rparr>"
    "prot b = (prot a)\<lparr> Packets := Packets (prot b), Send_pack_queue := Send_pack_queue (prot b) \<rparr>"
    using assms by (auto simp: quiet_def)
  then have "prot c = (prot a)\<lparr> Packets := Packets (prot c), Send_pack_queue := Send_pack_queue (prot c) \<rparr>"
    by (cases "prot a"; cases "prot b"; cases "prot c"; simp)
  moreover have "\<forall>k. packet_same (Packets (prot a) k) (Packets (prot c) k)"
    using assms unfolding quiet_def by (blast intro: packet_same_trans)
  moreover have "\<exists>es. out c = out a @ es" using assms unfolding quiet_def by auto
  ultimately show ?thesis using assms by (simp add: quiet_def)
qed

lemma only_out_quiet: "only_out d d' \<Longrightarrow> quiet d d'"
  by (auto simp: only_out_def quiet_def)

lemma quiet_upd_stat [simp]: "quiet d (upd_stat f d)"
  by (simp add: quiet_def)

lemma quiet_set_head:
  assumes "restamped (pi_head (pkt (prot d) i)) h"
  shows "quiet d (set_head i h d)"
  using assms by (auto simp: quiet_def set_head_def set_pkt_def packet_same_def pkt_def)

lemma quietD:
  assumes "quiet d d'"
  shows "conf d' = conf d" "memb d' = memb d" "fc d' = fc d" "net d' = net d" "env d' = env d"
    "Aru (prot d') = Aru (prot d)" "My_aru (prot d') = My_aru (prot d)"
    "Highest_seq (prot d') = Highest_seq (prot d)" "Last_discarded (prot d') = Last_discarded (prot d)"
    "Last_delivered (prot d') = Last_delivered (prot d)" "My_index (prot d') = My_index (prot d)"
    "Down_queue_ptr (prot d') = Down_queue_ptr (prot d)"
    "Protocol_down_queue (prot d') = Protocol_down_queue (prot d)"
    "Last_token (prot d') = Last_token (prot d)" "Token_rounds (prot d') = Token_rounds (prot d)"
    "Prot_delivery_threshold (prot d') = Prot_delivery_threshold (prot d)"
proof -
  have p: "prot d' = (prot d)\<lparr> Packets := Packets (prot d'), Send_pack_queue := Send_pack_queue (prot d') \<rparr>"
    using assms unfolding quiet_def by blast
  show "conf d' = conf d" "memb d' = memb d" "fc d' = fc d" "net d' = net d" "env d' = env d"
    using assms unfolding quiet_def by blast+
  show "Aru (prot d') = Aru (prot d)" "My_aru (prot d') = My_aru (prot d)"
    "Highest_seq (prot d') = Highest_seq (prot d)" "Last_discarded (prot d') = Last_discarded (prot d)"
    "Last_delivered (prot d') = Last_delivered (prot d)" "My_index (prot d') = My_index (prot d)"
    "Down_queue_ptr (prot d') = Down_queue_ptr (prot d)"
    "Protocol_down_queue (prot d') = Protocol_down_queue (prot d)"
    "Last_token (prot d') = Last_token (prot d)" "Token_rounds (prot d') = Token_rounds (prot d)"
    "Prot_delivery_threshold (prot d') = Prot_delivery_threshold (prot d)"
    by (subst p, simp)+
qed

lemma quiet_pkt:
  assumes "quiet d d'"
  shows "packet_same (pkt (prot d) i) (pkt (prot d') i)"
  using assms by (simp add: quiet_def pkt_def)

lemma packet_sameD:
  assumes "packet_same x y"
  shows "pi_exist y = pi_exist x" "pi_body y = pi_body x" "pi_proc_index y = pi_proc_index x"
    "restamped (pi_head x) (pi_head y)"
  using assms by (cases x; cases y; auto simp: packet_same_def)+

text \<open>The invariant does not see it.\<close>

lemma entry_ok_quiet:
  assumes "packet_same (pkt p i) (pkt p' i)" and "Highest_seq p' = Highest_seq p"
    and "Last_delivered p' = Last_delivered p" and "My_aru p' = My_aru p"
  shows "entry_ok p' i \<longleftrightarrow> entry_ok p i"
  using packet_sameD [OF assms(1)] assms(2-4) restampedD(1,6) [OF packet_sameD(4) [OF assms(1)]]
  by (simp add: entry_ok_def Is_safe_regular service_ok_regular)

lemma window_ok_quiet:
  assumes "quiet d d'"
  shows "window_ok (prot d') \<longleftrightarrow> window_ok (prot d)"
  using entry_ok_quiet [OF quiet_pkt [OF assms]] quietD [OF assms] by (simp add: window_ok_def)

section \<open>Retransmissions\<close>

lemma retransmit_quiet:
  assumes "retransmit r seq d = Inr d'"
  shows "quiet d d' \<and> Send_pack_queue (prot d') = Send_pack_queue (prot d)"
proof -
  have fin: "quiet d (upd_stat f (set_head seq h d1)) \<and>
      Send_pack_queue (prot (upd_stat f (set_head seq h d1))) = Send_pack_queue (prot d)"
    if "only_out d d1 \<and> restamped (pi_head (pkt (prot d) seq)) h" for f h d1
    using that only_outD(2) [of d d1] only_out_quiet [of d d1] quiet_set_head [of d1 seq h]
    by (auto intro!: quiet_trans [OF _ quiet_upd_stat] dest: quiet_trans simp: set_head_def set_pkt_def)
  show ?thesis
    using assms
    by (auto simp: retransmit_def Let_def split: if_splits prod.splits
        intro!: fin dest: Net_ucast_out Net_scast_out Net_bcast_out)
qed

lemma answer_seq_quiet:
  assumes "answer_seq r i (a, d) = Inr (a', d')"
  shows "quiet d d' \<and> Send_pack_queue (prot d') = Send_pack_queue (prot d) \<and> a_kept a' = a_kept a"
  using assms by (auto simp: answer_seq_def split: if_splits dest: retransmit_quiet)

definition answer_frame :: "daemon \<Rightarrow> answer \<times> daemon \<Rightarrow> bool" where
  "answer_frame d = (\<lambda>(a, d'). quiet d d' \<and> Send_pack_queue (prot d') = Send_pack_queue (prot d))"

lemma answer_rtr_frame:
  assumes "answer_rtr r s = Inr s'" and "answer_frame d s"
  shows "answer_frame d s'"
proof -
  obtain a e where s: "s = (a, e)" by force
  show ?thesis
  proof (cases "r_memb_id r = Memb_id e")
    case True
    then have "fold_res (answer_seq r) (r_seqs r) s = Inr s'"
      using assms(1) s by (simp add: answer_rtr_def)
    then show ?thesis
    proof (rule fold_res_inv [where P = "answer_frame d"])
      fix i t t'
      assume t: "answer_frame d t" "answer_seq r i t = Inr t'"
      then show "answer_frame d t'"
        using answer_seq_quiet [of r i "fst t" "snd t" "fst t'" "snd t'"]
        by (auto simp: answer_frame_def split: prod.splits intro: quiet_trans)
    qed (rule assms(2))
  qed (use assms s in \<open>auto simp: answer_rtr_def answer_frame_def\<close>)
qed

lemma Answer_retrans_quiet:
  assumes "Answer_retrans rtr d = Inr (a, d')"
  shows "quiet d d'" and "Send_pack_queue (prot d') = Send_pack_queue (prot d)"
proof -
  have "answer_frame d (a, d')"
    using assms unfolding Answer_retrans_def
  proof (rule fold_res_inv [where P = "answer_frame d"])
    show "answer_frame d t'" if "answer_frame d t" "answer_rtr r t = Inr t'" for r t t'
      using that by (blast intro: answer_rtr_frame)
  qed (simp add: answer_frame_def)
  then show "quiet d d'" and "Send_pack_queue (prot d') = Send_pack_queue (prot d)"
    by (simp_all add: answer_frame_def)
qed

text \<open>Requests of other rings pass through unchanged and in order; this ring's are taken off.\<close>

lemma answer_rtr_kept:
  assumes "answer_rtr r (a, d) = Inr (a', d')"
  shows "a_kept a' = (if r_memb_id r = Memb_id d then a_kept a else a_kept a @ [r])"
proof (cases "r_memb_id r = Memb_id d")
  case True
  then have "fold_res (answer_seq r) (r_seqs r) (a, d) = Inr (a', d')"
    using assms by (simp add: answer_rtr_def)
  then have "a_kept (fst (a', d')) = a_kept (fst (a, d))"
  proof (rule fold_res_frame [where g = "\<lambda>s. a_kept (fst s)"])
    show "a_kept (fst t') = a_kept (fst t)" if "answer_seq r i t = Inr t'" for i t t'
      using answer_seq_quiet [of r i "fst t" "snd t" "fst t'" "snd t'"] that by simp
  qed
  then show ?thesis using True by simp
qed (use assms in \<open>auto simp: answer_rtr_def\<close>)

lemma Answer_retrans_kept:
  assumes "Answer_retrans rtr d = Inr (a, d')"
  shows "a_kept a = filter (\<lambda>r. r_memb_id r \<noteq> Memb_id d) rtr"
proof -
  have loop: "a_kept a' = a_kept a0 @ filter (\<lambda>r. r_memb_id r \<noteq> Memb_id d) rs"
    if "fold_res answer_rtr rs (a0, d1) = Inr (a', d2)" "answer_frame d (a0, d1)" for rs a0 d1 a' d2
    using that
  proof (induction rs arbitrary: a0 d1)
    case (Cons r rs)
    from Cons.prems(1) obtain s1 where "answer_rtr r (a0, d1) = Inr s1" "fold_res answer_rtr rs s1 = Inr (a', d2)"
      by auto
    moreover obtain a1 d3 where "s1 = (a1, d3)" by force
    ultimately have s: "answer_rtr r (a0, d1) = Inr (a1, d3)" "fold_res answer_rtr rs (a1, d3) = Inr (a', d2)"
      by simp_all
    have "Memb_id d1 = Memb_id d"
      using Cons.prems(2) quietD(2) [of d d1] by (simp add: answer_frame_def Memb_id_def)
    then show ?case
      using Cons.IH [OF s(2) answer_rtr_frame [OF s(1) Cons.prems(2)]] answer_rtr_kept [OF s(1)] by simp
  qed simp
  show ?thesis
    using loop [of rtr _ d a d'] assms by (simp add: Answer_retrans_def answer_frame_def)
qed

section \<open>The queue of packets to send\<close>

text \<open>A queued packet is in \<open>Packets\<close>, below the highest sequence number.\<close>

definition queued_ok :: "prot_state \<Rightarrow> packet \<Rightarrow> bool" where
  "queued_ok p pk \<longleftrightarrow> Last_discarded p < p_seq (fst pk) \<and> p_seq (fst pk) \<le> Highest_seq p \<and>
     restamped (pi_head (pkt p (p_seq (fst pk)))) (fst pk)"

definition send_queue_ok :: "prot_state \<Rightarrow> bool" where
  "send_queue_ok p \<longleftrightarrow> (\<forall>pk \<in> set (Send_pack_queue p). queued_ok p pk)"

definition net_ok :: "daemon \<Rightarrow> bool" where
  "net_ok d \<longleftrightarrow> (Bcast_needed (net d) \<noteq> 0 \<longrightarrow> Bcast_addrs (net d) \<noteq> [] \<and> length (Bcast_addrs (net d)) \<le> MAX_ADDRS_SEGMENT)"

lemma Net_bcast_total: "net_ok d \<Longrightarrow> \<exists>h' d'. Net_bcast h b d = Inr (h', d')"
  by (auto simp: Net_bcast_def send_bcast_def net_ok_def send_all_def Let_def guard_res_def Suc_le_eq)

lemma bcast_now_frame:
  assumes "bcast_now pk d = Inr (pk', d')"
  shows "only_out d d'" and "restamped (fst pk) (fst pk')" and "snd pk' = snd pk"
proof -
  obtain h body h' where pk: "pk = (h, body)" and pk': "pk' = (h', body)"
      and "Net_bcast (h\<lparr> p_token_round := Token_rounds (prot d) \<rparr>) (packet_payload (h, body)) d = Inr (h', d')"
    using assms by (cases pk) (auto simp: bcast_now_def)
  note n = Net_bcast_out [OF this(3)]
  then show "only_out d d'" "restamped (fst pk) (fst pk')" "snd pk' = snd pk"
    by (auto simp: pk pk' intro: restamped_trans [OF restamped_stamp(4)])
qed

lemma bcast_now_total:
  assumes "net_ok d"
  shows "\<exists>pk' d'. bcast_now pk d = Inr (pk', d')"
proof -
  obtain h body where pk: "pk = (h, body)" by force
  obtain h' d' where
    "Net_bcast (h\<lparr> p_token_round := Token_rounds (prot d) \<rparr>) (packet_payload (h, body)) d = Inr (h', d')"
    using Net_bcast_total [OF assms] by blast
  then have "bcast_now pk d = Inr ((h', body), d')" by (simp add: bcast_now_def pk)
  then show ?thesis by blast
qed

lemma restamped_sym: "restamped h h' \<Longrightarrow> restamped h' h"
  by (cases h; cases h') (auto simp: restamped_def)

lemma queued_ok_quiet:
  assumes "quiet d d'"
  shows "queued_ok (prot d') pk \<longleftrightarrow> queued_ok (prot d) pk"
  using packet_sameD(4) [OF quiet_pkt [OF assms, of "p_seq (fst pk)"]] quietD(8,9) [OF assms]
  by (auto simp: queued_ok_def intro: restamped_trans restamped_sym)

lemma net_ok_quiet: "quiet d d' \<Longrightarrow> net_ok d' \<longleftrightarrow> net_ok d"
  by (simp add: net_ok_def quietD)

lemma bcast_first_ok:
  assumes "send_queue_ok (prot d)" and "Send_pack_queue (prot d) = pk # pks" and "net_ok d"
  shows "\<exists>d'. bcast_first d = Inr d' \<and> quiet d d' \<and> Send_pack_queue (prot d') = pks \<and> send_queue_ok (prot d')"
proof -
  let ?d = "upd_prot (\<lambda>p. p\<lparr> Send_pack_queue := pks \<rparr>) d"
  have q: "quiet d ?d" by (simp add: quiet_def)
  obtain h body d1 where now: "bcast_now pk ?d = Inr ((h, body), d1)"
    using bcast_now_total [of ?d pk] assms(3) net_ok_quiet [OF q] by (metis surj_pair)
  note fr = bcast_now_frame [OF now]
  have "queued_ok (prot d) pk" using assms(1,2) by (simp add: send_queue_ok_def)
  moreover have "p_seq h = p_seq (fst pk)" using restampedD(1) [OF fr(2)] by simp
  moreover have "pkt (prot d1) i = pkt (prot d) i" for i using only_outD(2) [OF fr(1)] by (simp add: pkt_def)
  ultimately have "restamped (pi_head (pkt (prot d1) (p_seq h))) h"
    using fr(2) by (auto simp: queued_ok_def intro: restamped_trans)
  then have "quiet d (set_head (p_seq h) h d1)"
    using q only_out_quiet [OF fr(1)] by (blast intro: quiet_trans quiet_set_head)
  moreover have "Send_pack_queue (prot (set_head (p_seq h) h d1)) = pks"
    using only_outD(2) [OF fr(1)] by (simp add: set_head_def set_pkt_def)
  moreover have "bcast_first d = Inr (set_head (p_seq h) h d1)"
    using now assms(2) by (simp add: bcast_first_def)
  ultimately show ?thesis
    using assms(1,2) queued_ok_quiet by (auto simp: send_queue_ok_def)
qed

lemma bcast_first_loop:
  assumes "send_queue_ok (prot d)" and "net_ok d" and "length xs \<le> length (Send_pack_queue (prot d))"
  shows "\<exists>d'. fold_res (\<lambda>_. bcast_first) xs d = Inr d' \<and> quiet d d' \<and> send_queue_ok (prot d') \<and>
    Send_pack_queue (prot d') = drop (length xs) (Send_pack_queue (prot d))"
  using assms
proof (induction xs arbitrary: d)
  case (Cons x xs)
  then obtain pk pks where q: "Send_pack_queue (prot d) = pk # pks" by (cases "Send_pack_queue (prot d)") auto
  obtain d1 where d1: "bcast_first d = Inr d1" "quiet d d1" "Send_pack_queue (prot d1) = pks" "send_queue_ok (prot d1)"
    using bcast_first_ok [OF Cons.prems(1) q Cons.prems(2)] by blast
  obtain d' where "fold_res (\<lambda>_. bcast_first) xs d1 = Inr d'" "quiet d1 d'" "send_queue_ok (prot d')"
      "Send_pack_queue (prot d') = drop (length xs) pks"
    using Cons.IH [OF d1(4)] d1(3) q Cons.prems(2,3) net_ok_quiet [OF d1(2)] by auto
  then show ?case using d1 q by (auto intro: quiet_trans)
qed simp

lemma Prot_flush_bcast_ok:
  assumes "send_queue_ok (prot d)" and "net_ok d"
  shows "\<exists>d'. Prot_flush_bcast d = Inr d' \<and> quiet d d' \<and> Send_pack_queue (prot d') = []"
  using bcast_first_loop [OF assms, of "[0..<length (Send_pack_queue (prot d))]"]
  by (auto simp: Prot_flush_bcast_def)

lemma num_pack_to_send_le: "num_pack_to_send d \<le> int (length (Send_pack_queue (prot d)))"
  by (simp add: num_pack_to_send_def Let_def)

text \<open>The new packet is sent at once or put at the end of the queue.\<close>

lemma Prot_queue_bcast_ok:
  assumes "send_queue_ok (prot d)" and "net_ok d"
  shows "\<exists>h d'. Prot_queue_bcast pk d = Inr ((h, snd pk), d') \<and> quiet d d' \<and> restamped (fst pk) h \<and>
    set (Send_pack_queue (prot d')) \<subseteq> insert (h, snd pk) (set (Send_pack_queue (prot d)))"
proof -
  let ?xs = "[0..<nat (num_pack_to_send d)]"
  have "length ?xs \<le> length (Send_pack_queue (prot d))" using num_pack_to_send_le [of d] by simp
  then obtain d1 where d1: "fold_res (\<lambda>_. bcast_first) ?xs d = Inr d1" "quiet d d1"
      "set (Send_pack_queue (prot d1)) \<subseteq> set (Send_pack_queue (prot d))"
    using bcast_first_loop [OF assms, of ?xs] by (metis set_drop_subset)
  have n1: "net_ok d1" using assms(2) net_ok_quiet [OF d1(2)] by simp
  show ?thesis
  proof (cases "\<not> FC_accelerated_ring d1 \<or> FC_accelerated_window d1 = 0 \<or> State (memb d1) = EVS")
    case True
    obtain h b d2 where now: "bcast_now pk d1 = Inr ((h, b), d2)" using bcast_now_total [OF n1] by (metis surj_pair)
    note fr = bcast_now_frame [OF now]
    have "Prot_queue_bcast pk d = Inr ((h, snd pk), d2)"
      using d1(1) True now fr(3) by (simp add: Prot_queue_bcast_def)
    moreover have "quiet d d2" using d1(2) only_out_quiet [OF fr(1)] by (rule quiet_trans)
    moreover have "set (Send_pack_queue (prot d2)) \<subseteq> insert (h, snd pk) (set (Send_pack_queue (prot d)))"
      using d1(3) only_outD(2) [OF fr(1)] by auto
    ultimately show ?thesis using fr(2) by auto
  next
    case False
    let ?d = "upd_prot (\<lambda>p. p\<lparr> Send_pack_queue := Send_pack_queue p @ [pk] \<rparr>) d1"
    have q: "quiet d1 ?d" by (simp add: quiet_def)
    have "Prot_queue_bcast pk d = Inr ((fst pk, snd pk), ?d)"
      using d1(1) False by (simp add: Prot_queue_bcast_def)
    moreover have "quiet d ?d" using d1(2) q by (rule quiet_trans)
    moreover have "set (Send_pack_queue (prot ?d)) \<subseteq> insert (fst pk, snd pk) (set (Send_pack_queue (prot d)))"
      using d1(3) by auto
    ultimately show ?thesis using restamped_refl by blast
  qed
qed

end
