(* ===== verification/Form.thy ===== *)
theory Form
  imports Sending
begin

text \<open>
  The form tokens of \<open>membership.c\<close>. The smallest representative creates a form token of the
  first kind (\<open>Create_form1\<close>), which visits all members and representatives; each adds its
  members and what it knows of its old ring (\<open>Fill_form1\<close>). The last of them sorts the members
  and sends a token of the second kind round the new ring, from which each daemon installs its
  future membership (\<open>Read_form2\<close>). \<open>now\<close> is the result of \<open>E_get_time().sec\<close>.
\<close>

section \<open>Old rings on a form token\<close>

text \<open>
  Which of the rings on the token is this daemon's: the code keeps the last one that matches.
\<close>

definition my_ring :: "membership_id \<Rightarrow> ring_info list \<Rightarrow> nat option" where
  "my_ring mid gs =
     (case filter (\<lambda>i. Memb_is_equal (rg_memb_id (gs ! i)) mid) [0..<length gs] of
        [] \<Rightarrow> None | is \<Rightarrow> Some (last is))"

definition Flip_ring :: "ring_info \<Rightarrow> ring_info" where
  "Flip_ring g = g\<lparr> rg_memb_id := Flip_memb_id (rg_memb_id g), rg_trans_time := flip32 (rg_trans_time g),
     rg_aru := flip32 (rg_aru g), rg_highest_seq := flip32 (rg_highest_seq g), rg_num_trans := flip16 (rg_num_trans g),
     rg_holes := map flip32 (rg_holes g), rg_procs := map Flip_int32 (rg_procs g) \<rparr>"

definition Flip_rings :: "ring_info list \<Rightarrow> ring_info list" where
  "Flip_rings gs = map Flip_ring gs"

definition holes_between :: "prot_state \<Rightarrow> int \<Rightarrow> int \<Rightarrow> int list" where
  "holes_between p a b = filter (\<lambda>i. exist p i = 0) [a..b]"

text \<open>This daemon first, then the other members of its committed set.\<close>

definition commit_procs :: "daemon \<Rightarrow> proc_id list" where
  "commit_procs d =
     (let my = pr_id (My (conf d)); cs = Commit_set (memb d)
      in my # filter (\<lambda>i. i \<noteq> my) (map (members cs) [0..<nat (num_members cs)]))"

definition new_ring_info :: "int list \<Rightarrow> daemon \<Rightarrow> ring_info" where
  "new_ring_info holes d = \<lparr> rg_memb_id = Membership_id (memb d), rg_trans_time = 0, rg_aru = Aru (prot d),
     rg_highest_seq = Highest_seq (prot d), rg_num_trans = 1, rg_holes = holes, rg_procs = commit_procs d \<rparr>"

section \<open>Lists on a form token\<close>

text \<open>The first entries of an array, the rest of it as it was.\<close>

definition write_members :: "nat \<Rightarrow> proc_id list \<Rightarrow> (nat \<Rightarrow> proc_id) \<Rightarrow> nat \<Rightarrow> proc_id" where
  "write_members k is ms = (\<lambda>i. if k \<le> i \<and> i < k + length is then is ! (i - k) else ms i)"

definition is_rep :: "reps_info \<Rightarrow> proc_id \<Rightarrow> bool" where
  "is_rep r i \<longleftrightarrow> (\<exists>j \<in> set [0..<nat (num_reps r)]. rp_proc_id (reps r j) = i)"

text \<open>The members that are no representatives themselves, but for this daemon.\<close>

definition keep_members :: "(proc_id \<Rightarrow> bool) \<Rightarrow> members_info \<Rightarrow> members_info" where
  "keep_members valid m =
     (let is = filter valid (map (members m) [0..<nat (num_members m)])
      in m\<lparr> members := write_members 0 is (members m), num_members := int (length is) \<rparr>)"

text \<open>Potential representatives for the case that forming the ring fails.\<close>

definition form_potential_step :: "daemon \<Rightarrow> reps_info \<Rightarrow> nat \<Rightarrow> reps_info \<Rightarrow> reps_info result" where
  "form_potential_step d src i r =
     (if rp_seg_index (reps src i) \<noteq> pr_seg_index (My (conf d))
      then bind_res (Insert_rep (Config (conf d)) r ((reps src i)\<lparr> rp_type := POTENTIAL_REP \<rparr>)) (\<lambda>(r, _). Inr r)
      else Inr r)"

definition form_potential :: "reps_info \<Rightarrow> daemon \<Rightarrow> daemon result" where
  "form_potential src d =
     bind_res (fold_res (form_potential_step d src) [0..<nat (num_reps src)]
         ((Potential_reps (memb d))\<lparr> num_reps := 0 \<rparr>))
       (\<lambda>r. Inr (upd_memb (\<lambda>m. m\<lparr> Potential_reps := r \<rparr>) d))"

text \<open>
  A form token of the second kind is sent from the same buffers, with the representatives cut
  to the size of a membership identifier; these bytes are set by the first daemon that reads
  the token.
\<close>

definition reps_as_memb_id :: "reps_info \<Rightarrow> membership_id" where
  "reps_as_memb_id r = \<lparr>
     m_proc_id = word_of_int (to_int16u (num_reps r)) OR push_bit 16 (word_of_int (to_int16u (rep_index r))),
     m_time = to_int32 (uint (rp_proc_id (reps r 0))) \<rparr>"

definition send_form_twice ::
    "proc_id \<Rightarrow> token_header \<Rightarrow> token_payload \<Rightarrow> daemon \<Rightarrow> (token_header \<times> daemon) result" where
  "send_form_twice i t b d =
     (let t = t\<lparr> t_rtr_len := to_int16u (token_bytes b) \<rparr>
      in bind_res (Net_ucast_token i t b d) (\<lambda>(t, d). Net_ucast_token i t b d))"

text \<open>
  Whom to send to: the next pending member, the next representative, or nobody is left
  (\<open>None\<close>). Reading outside one of the arrays is undefined.
\<close>

definition next_form1 :: "string \<Rightarrow> members_info \<Rightarrow> reps_info \<Rightarrow> proc_id option result" where
  "next_form1 f m r =
     (if num_pending m > 0 then
        guard_res (num_members m < 0 \<or> MAX_PROCS_RING \<le> num_members m) (Undefined f)
          (Inr (Some (members m (nat (num_members m)))))
      else if rep_index r < num_reps r then
        guard_res (rep_index r < 0 \<or> MAX_REPS \<le> rep_index r) (Undefined f)
          (Inr (Some (rp_proc_id (reps r (nat (rep_index r))))))
      else Inr None)"

definition shift_to_form :: "daemon \<Rightarrow> daemon result" where
  "shift_to_form d =
     (let d = emit (E_queue Memb_token_loss_event (Form_timeout (prot d))) d;
          d = emit (E_dequeue Prot_token_hurry_event) d;
          d = upd_memb (\<lambda>m. m\<lparr> Token_alive := False \<rparr>) d
      in bind_res (Prot_set_delivery_threshold BLOCK_REGULAR_DELIVERY d) (\<lambda>d. Inr (set_state FORM d)))"

text \<open>The seconds of the clock, or one more than what was used last.\<close>

definition fresh_time :: "int \<Rightarrow> int \<Rightarrow> int" where
  "fresh_time now last_used = (if now \<le> last_used then last_used + 1 else now)"

section \<open>Creating a form token\<close>

definition zero_token :: token_header where
  "zero_token = \<lparr> t_type = 0, t_transmiter_id = 0, t_proc_id = 0, t_memb_id = no_memb_id,
     t_seq = 0, t_aru = 0, t_aru_last_id = 0, t_flow_control = 0, t_rtr_len = 0, t_conf_hash = 0 \<rparr>"

text \<open>A ring leader's members are those of its ring.\<close>

definition form1_members :: "daemon \<Rightarrow> members_info result" where
  "form1_members d =
     (let m = F_members (memb d); fr = F_reps (memb d); my = pr_id (My (conf d)); is = ring_ids (Membership (memb d))
      in bind_res
           (if rp_type (reps fr 0) = RING_REP then
              guard_res (int (length is) > MAX_PROCS_RING) (Undefined ''Create_form1'')
                (Inr (m\<lparr> members := write_members 0 is (members m), num_members := int (length is) \<rparr>))
            else Inr m)
           (\<lambda>m.
              let m = keep_members (\<lambda>i. \<not> (is_rep fr i \<and> i \<noteq> my)) m
              in Inr (m\<lparr> num_pending := num_members m - 1, num_members := 1 \<rparr>)))"

definition form1_ring :: "daemon \<Rightarrow> ring_info result" where
  "form1_ring d =
     (let g = new_ring_info (holes_between (prot d) (My_aru (prot d) + 1) (Highest_seq (prot d))) d
      in guard_res (rings_bytes [g] > sizeof_token_body) (Alarm_exit ''Create_form1'') (Inr g))"

definition Create_form1 :: "int \<Rightarrow> daemon \<Rightarrow> daemon result" where
  "Create_form1 now d =
     (let my = pr_id (My (conf d));
          time = fresh_time now (Last_time_used (memb d));
          mid = \<lparr> m_proc_id = my, m_time = time \<rparr>;
          t = zero_token\<lparr> t_type := FORM1_TYPE, t_proc_id := my, t_memb_id := mid,
                t_seq := Highest_seq (prot d) + 3333 \<rparr>;
          d = upd_memb (\<lambda>m. m\<lparr> Last_time_used := time, Form1_memb_id := mid \<rparr>) d
      in bind_res (form1_members d) (\<lambda>m.
         let d = upd_memb (\<lambda>ms. ms\<lparr> F_members := m \<rparr>) d
         in bind_res (Sort_reps (Config (conf d)) (F_reps (memb d))) (\<lambda>r.
         let r = r\<lparr> rep_index := 1 \<rparr>;
             d = upd_memb (\<lambda>ms. ms\<lparr> F_reps := r \<rparr>) d
         in bind_res (form_potential r d) (\<lambda>d.
         bind_res (form1_ring d) (\<lambda>g.
         bind_res (next_form1 ''Create_form1'' m r) (\<lambda>dest.
         bind_res
           (case dest of
              Some i \<Rightarrow> send_form_twice i t (Form1_body m r [g]) d
            | None \<Rightarrow>
                let m = m\<lparr> num_pending := 1, num_members := 0 \<rparr>;
                    d = upd_memb (\<lambda>ms. ms\<lparr> F_members := m \<rparr>) d
                in send_form_twice my (t\<lparr> t_type := FORM2_TYPE \<rparr>) (Form2_body m (reps_as_memb_id r) [g]) d)
           (\<lambda>(_, d). shift_to_form (emit (E_dequeue Send_join_event) d))))))))"

section \<open>Filling a form token\<close>

text \<open>
  The next member on the token, or the representative it was sent to, adds itself and its
  members. \<open>None\<close>: the token is not for this daemon in its state, and is swallowed.
\<close>

definition fill_as_member :: "members_info \<Rightarrow> daemon \<Rightarrow> members_info option result" where
  "fill_as_member m d =
     guard_res (num_members m < 0 \<or> MAX_PROCS_RING \<le> num_members m) (Undefined ''Fill_form1'')
       (Inr (if members m (nat (num_members m)) \<noteq> pr_id (My (conf d)) \<or> num_pending m \<le> 0 then None
             else Some (m\<lparr> num_members := num_members m + 1, num_pending := num_pending m - 1 \<rparr>)))"

definition valid_member :: "members_info \<Rightarrow> reps_info \<Rightarrow> daemon \<Rightarrow> proc_id \<Rightarrow> bool" where
  "valid_member m r d i \<longleftrightarrow>
     \<not> (\<exists>j \<in> set [0..<nat (num_members m)]. members m j = i) \<and>
     \<not> (is_rep r i \<and> i \<noteq> pr_id (My (conf d))) \<and>
     \<not> (is_rep (F_reps (memb d)) i \<and> i \<noteq> pr_id (My (conf d)))"

definition append_members :: "proc_id list \<Rightarrow> members_info \<Rightarrow> members_info result" where
  "append_members is m =
     guard_res (num_members m < 0 \<or> MAX_PROCS_RING < num_members m + int (length is)) (Undefined ''Fill_form1'')
       (Inr (m\<lparr> members := write_members (nat (num_members m)) is (members m),
                num_pending := int (length is) - 1, num_members := num_members m + 1 \<rparr>))"

definition fill_as_rep ::
    "members_info \<Rightarrow> reps_info \<Rightarrow> daemon \<Rightarrow> (members_info \<times> reps_info \<times> daemon) option result" where
  "fill_as_rep m r d =
     guard_res (rep_index r < 0 \<or> MAX_REPS \<le> rep_index r) (Undefined ''Fill_form1'')
       (let me = reps r (nat (rep_index r))
        in if rp_proc_id me \<noteq> pr_id (My (conf d)) \<or> (Token_alive (memb d) \<and> rp_type me = SEG_REP) \<or>
              (\<not> Token_alive (memb d) \<and> rp_type me = RING_REP) \<or> num_pending m \<noteq> 0
           then Inr None
           else
             let d = upd_memb (\<lambda>ms. ms\<lparr> F_members := keep_members (valid_member m r d) (F_members ms) \<rparr>) d;
                 fm = F_members (memb d)
             in bind_res
                  (case rp_type me of
                     SEG_REP \<Rightarrow> append_members (map (members fm) [0..<nat (num_members fm)]) m
                   | RING_REP \<Rightarrow> append_members (ring_ids (Membership (memb d))) m
                   | _ \<Rightarrow> Inl (Alarm_exit ''Fill_form1''))
                  (\<lambda>m. Inr (Some (m, r\<lparr> rep_index := rep_index r + 1 \<rparr>, d))))"

definition fill_lists ::
    "members_info \<Rightarrow> reps_info \<Rightarrow> daemon \<Rightarrow> (members_info \<times> reps_info \<times> daemon) option result" where
  "fill_lists m r d =
     (case State (memb d) of
        OP \<Rightarrow> bind_res (fill_as_member m d) (\<lambda>x. Inr (map_option (\<lambda>m. (m, r, d)) x))
      | REPRESENTED \<Rightarrow> bind_res (fill_as_member m d) (\<lambda>x. Inr (map_option (\<lambda>m. (m, r, d)) x))
      | GATHER \<Rightarrow> fill_as_rep m r d
      | _ \<Rightarrow> Inl (Alarm_exit ''Fill_form1''))"

text \<open>
  What this daemon and the others of its old ring know together: the highest \<open>Aru\<close> and
  sequence number, the packets that nobody so far has, and the committed members, those that
  come along first.
\<close>

definition merged_holes :: "ring_info \<Rightarrow> prot_state \<Rightarrow> int list" where
  "merged_holes g p =
     filter (\<lambda>i. exist p i = 0) (rg_holes g) @
     (if rg_highest_seq g < Highest_seq p then holes_between p (rg_highest_seq g + 1) (Highest_seq p) else [])"

definition insert_all :: "proc_id list \<Rightarrow> members_info \<Rightarrow> members_info" where
  "insert_all is m = fold (\<lambda>i m. fst (Insert_member m i)) is m"

definition merged_procs :: "ring_info \<Rightarrow> daemon \<Rightarrow> (proc_id list \<times> int) result" where
  "merged_procs g d =
     guard_res (rg_num_trans g < 0 \<or> int (length (rg_procs g)) < rg_num_trans g) (Undefined ''Fill_form1'')
       (let k = nat (rg_num_trans g); cs = Commit_set (memb d);
            s = \<lparr> num_members = 0, num_pending = 0, members = (\<lambda>_. 0) \<rparr>;
            s = insert_all (take k (rg_procs g)) s;
            s = insert_all [pr_id (My (conf d))] s
        in guard_res (num_members s \<noteq> rg_num_trans g + 1) (Alarm_exit ''Fill_form1'')
             (let s = insert_all (drop k (rg_procs g)) s;
                  s = insert_all (map (members cs) [0..<nat (num_members cs)]) s
              in Inr (map (members s) [0..<nat (num_members s)], rg_num_trans g + 1)))"

definition merge_ring :: "ring_info \<Rightarrow> daemon \<Rightarrow> ring_info result" where
  "merge_ring g d =
     bind_res (merged_procs g d) (\<lambda>(ps, n).
       Inr \<lparr> rg_memb_id = Membership_id (memb d), rg_trans_time = 0,
             rg_aru = (if rg_aru g > Aru (prot d) then rg_aru g else Aru (prot d)),
             rg_highest_seq = (if rg_highest_seq g > Highest_seq (prot d) then rg_highest_seq g
                               else Highest_seq (prot d)),
             rg_num_trans = n, rg_holes = merged_holes g (prot d), rg_procs = ps \<rparr>)"

abbreviation (input) MAX_FORM_REPS :: int where "MAX_FORM_REPS \<equiv> 20"

text \<open>A daemon whose ring does not fit any more takes itself off the token's members.\<close>

definition remove_me :: "proc_id \<Rightarrow> members_info \<Rightarrow> members_info" where
  "remove_me my m =
     (let n = nat (num_members m + num_pending m);
          k = find_index_from 0 (\<lambda>i. members m i = my) [0..<nat (num_members m)]
      in (if k < 0 then m
          else m\<lparr> members := write_members (nat k) (map (members m) [nat k + 1..<n]) (members m) \<rparr>)
         \<lparr> num_members := num_members m - 1 \<rparr>)"

definition fill_rings ::
    "members_info \<Rightarrow> ring_info list \<Rightarrow> daemon \<Rightarrow> (members_info \<times> ring_info list) result" where
  "fill_rings m gs d =
     (let others = filter (\<lambda>g. \<not> Memb_is_equal (rg_memb_id g) (Membership_id (memb d))) gs
      in guard_res (rings_bytes others + sizeof_ring_info > sizeof_token_body) (Alarm_exit ''Fill_form1'')
           (case my_ring (Membership_id (memb d)) gs of
              None \<Rightarrow>
                if int (length others) + 1 > MAX_FORM_REPS then Inr (remove_me (pr_id (My (conf d))) m, others)
                else
                  let g = new_ring_info (holes_between (prot d) (Last_discarded (prot d) + 1) (Highest_seq (prot d))) d
                  in guard_res (rings_bytes (others @ [g]) > sizeof_token_body) (Alarm_exit ''Fill_form1'')
                       (Inr (m, others @ [g]))
            | Some k \<Rightarrow>
                bind_res (merge_ring (gs ! k) d) (\<lambda>g.
                  guard_res (rings_bytes (others @ [g]) > sizeof_token_body) (Alarm_exit ''Fill_form1'')
                    (Inr (m, others @ [g])))))"

text \<open>When everybody has filled the token it becomes one of the second kind.\<close>

definition pass_form1 ::
    "token_header \<Rightarrow> members_info \<Rightarrow> reps_info \<Rightarrow> ring_info list \<Rightarrow> daemon \<Rightarrow> daemon result" where
  "pass_form1 t m r gs d =
     bind_res (next_form1 ''Fill_form1'' m r) (\<lambda>dest.
     bind_res
       (case dest of
          Some i \<Rightarrow> send_form_twice i t (Form1_body m r gs) d
        | None \<Rightarrow>
            bind_res (Sort_members (Config (conf d)) m) (\<lambda>m.
              let m = m\<lparr> num_pending := num_members m, num_members := 0 \<rparr>
              in send_form_twice (members m 0) (t\<lparr> t_type := FORM2_TYPE \<rparr>) (Form2_body m (reps_as_memb_id r) gs) d))
       (\<lambda>(_, d).
          let d = emit (E_dequeue Send_join_event) d;
              d = emit (E_dequeue Form_or_fail_event) d;
              d = emit (E_dequeue Shift_to_seg_event) d
          in shift_to_form d))"

definition Fill_form1 ::
    "token_header \<Rightarrow> members_info \<Rightarrow> reps_info \<Rightarrow> ring_info list \<Rightarrow> daemon \<Rightarrow> daemon result" where
  "Fill_form1 t m r gs d =
     (let same = Same_endian (t_type t);
          m = (if same then m else Flip_members m);
          r = (if same then r else Flip_reps r);
          gs = (if same then gs else Flip_rings gs);
          t = t\<lparr> t_proc_id := pr_id (My (conf d)),
                 t_seq := (if t_seq t < Highest_seq (prot d) + 3333 then Highest_seq (prot d) + 3333 else t_seq t) \<rparr>
      in bind_res (fill_lists m r d) (\<lambda>x.
           case x of
             None \<Rightarrow> Inr d
           | Some (m, r, d) \<Rightarrow>
               let d = upd_memb (\<lambda>ms. ms\<lparr> Form1_memb_id := t_memb_id t \<rparr>) d
               in bind_res (form_potential r d) (\<lambda>d.
                  bind_res (fill_rings m gs d) (\<lambda>(m, gs). pass_form1 t m r gs d))))"

section \<open>Reading a form token of the second kind\<close>

definition Prot_set_prev_proc :: "configuration \<Rightarrow> daemon \<Rightarrow> daemon result" where
  "Prot_set_prev_proc m d =
     bind_res (Conf_previous (My (conf d)) m) (\<lambda>i. Inr (upd_prot (\<lambda>p. p\<lparr> Prev_proc_id := i \<rparr>) d))"

text \<open>The checks that make a daemon drop the token; \<open>tot_len\<close> is the size of the buffer.\<close>

definition ring_malformed :: "ring_info \<Rightarrow> bool" where
  "ring_malformed g \<longleftrightarrow> rg_num_trans g < 1 \<or> int (length (rg_procs g)) < rg_num_trans g \<or>
     int (length (rg_procs g)) > MAX_PROCS_RING \<or> int (length (rg_holes g)) > MAX_SEQ_GAP"

definition form2_dropped :: "token_header \<Rightarrow> members_info \<Rightarrow> ring_info list \<Rightarrow> daemon \<Rightarrow> bool" where
  "form2_dropped t m gs d \<longleftrightarrow>
     \<not> Memb_is_equal (t_memb_id t) (Form1_memb_id (memb d)) \<or>
     num_members m < 0 \<or> num_pending m \<le> 0 \<or> num_members m + num_pending m \<ge> MAX_PROCS_RING \<or>
     members m (nat (num_members m)) \<noteq> pr_id (My (conf d)) \<or>
     list_ex ring_malformed gs \<or>
     sizeof_members_info + sizeof_membership_id + rings_bytes gs > sizeof_token_body \<or>
     my_ring (Membership_id (memb d)) gs = None"

text \<open>The first daemon of the new ring chooses its identifier.\<close>

definition form2_leader :: "int \<Rightarrow> members_info \<Rightarrow> membership_id \<Rightarrow> daemon \<Rightarrow> int \<times> membership_id \<times> daemon" where
  "form2_leader now m mid d =
     (if num_members m = 1 then
        let time = fresh_time now (Last_time_used (memb d))
        in (time, \<lparr> m_proc_id = pr_id (My (conf d)), m_time = time + 1 \<rparr>,
            upd_memb (\<lambda>ms. ms\<lparr> Last_time_used := time + 1 \<rparr>) d)
      else (0, mid, d))"

definition future_step :: "configuration \<Rightarrow> proc_id \<Rightarrow> configuration \<Rightarrow> configuration result" where
  "future_step cn i vw =
     (case Conf_proc_by_id_in_conf cn i of
        None \<Rightarrow> Inl (Alarm_exit ''Read_form2'')
      | Some (_, p) \<Rightarrow>
          bind_res (seg_at vw (pr_seg_index p)) (\<lambda>seg.
            let (seg, ret) = Conf_append_id_to_seg cn seg (pr_id p)
            in guard_res (ret = - 1) (Alarm_exit ''Read_form2'')
                 (Inr (vw\<lparr> segments := (segments vw)[nat (pr_seg_index p) := seg] \<rparr>))))"

definition future_membership :: "configuration \<Rightarrow> proc_id list \<Rightarrow> configuration result" where
  "future_membership cn is = fold_res (future_step cn) is (clear_members cn cn)"

text \<open>
  A packet that this daemon received from a partitioned daemon after it had filled the token
  is forgotten, whether its number is beyond the ring's or a hole. The lookup is made in the
  table of the future membership, which is that of the configuration.
\<close>

definition check_forget :: "int \<Rightarrow> daemon \<Rightarrow> unit result" where
  "check_forget i d =
     (let x = pkt (prot d) i
      in guard_res (pi_exist x \<noteq> 1) (Alarm_exit ''Read_form2'')
        (guard_res (\<not> Memb_is_equal (p_memb_id (pi_head x)) (Membership_id (memb d))) (Alarm_exit ''Read_form2'')
        (guard_res (p_seq (pi_head x) \<noteq> i) (Alarm_exit ''Read_form2'')
        (guard_res (Conf_proc_ref_by_id_in_conf (Future_membership (memb d)) (p_proc_id (pi_head x)) \<noteq> - 1)
          (Alarm_exit ''Read_form2'') (Inr ())))))"

definition forget_step :: "int \<Rightarrow> daemon \<Rightarrow> daemon result" where
  "forget_step i d =
     (if exist (prot d) i = 0 then Inr d
      else bind_res (check_forget i d) (\<lambda>_. Inr (upd_prot (set_exist i 0) d)))"

definition forget_above :: "int \<Rightarrow> daemon \<Rightarrow> daemon result" where
  "forget_above high d = fold_res forget_step (rev [high + 1..Highest_seq (prot d)]) d"

definition hole_step :: "int \<Rightarrow> daemon \<Rightarrow> daemon result" where
  "hole_step i d =
     bind_res (if exist (prot d) i \<noteq> 0 then check_forget i d else Inr ()) (\<lambda>_.
       Inr (upd_prot (set_exist i 3) d))"

text \<open>\<open>My_aru\<close> computed twice: up from the discarded packets, and down from its old value.\<close>

definition aru_step :: "prot_state \<Rightarrow> int \<Rightarrow> int \<times> int \<Rightarrow> (int \<times> int) result" where
  "aru_step p i = (\<lambda>(my_aru, my_aru2).
     if exist p i \<in> {1, 2} then Inr (if i = my_aru + 1 then i else my_aru, my_aru2)
     else if exist p i \<in> {0, 3} then Inr (my_aru, if my_aru2 \<ge> i then i - 1 else my_aru2)
     else Inl (Alarm_exit ''Read_form2''))"

definition recompute_my_aru :: "daemon \<Rightarrow> daemon result" where
  "recompute_my_aru d =
     (let p = prot d
      in bind_res (fold_res (aru_step p) [Last_discarded p + 1..Highest_seq p] (Last_discarded p, My_aru p))
           (\<lambda>(my_aru, my_aru2).
              guard_res (my_aru \<noteq> my_aru2) (Alarm_exit ''Read_form2'')
                (Inr (upd_prot (\<lambda>p. p\<lparr> My_aru := my_aru \<rparr>) d))))"

definition form2_packets :: "ring_info \<Rightarrow> daemon \<Rightarrow> daemon result" where
  "form2_packets g d =
     bind_res (forget_above (rg_highest_seq g) d) (\<lambda>d.
     let d = upd_prot (\<lambda>p. p\<lparr> My_aru := (if My_aru p > rg_highest_seq g then rg_highest_seq g else My_aru p),
               Highest_seq := rg_highest_seq g, Aru := rg_aru g \<rparr>) d
     in bind_res (Discard_packets d) (\<lambda>d.
        bind_res (fold_res hole_step (rg_holes g) d) recompute_my_aru))"

text \<open>The first daemon of an old ring to read the token dates its transitional view.\<close>

definition form2_trans :: "int \<Rightarrow> int \<Rightarrow> ring_info \<Rightarrow> daemon \<Rightarrow> ring_info \<times> daemon" where
  "form2_trans now memb_time g d =
     (let (time, d) =
        (if rg_trans_time g \<noteq> 0 then (rg_trans_time g, d)
         else if memb_time \<noteq> 0 then (memb_time, d)
         else let time = fresh_time now (Last_time_used (memb d))
              in (time, upd_memb (\<lambda>ms. ms\<lparr> Last_time_used := time \<rparr>) d));
          cs = (\<lambda>m. m\<lparr> num_members := int (length (rg_procs g)), num_pending := rg_num_trans g,
                 members := write_members 0 (rg_procs g) (members m) \<rparr>)
      in (g\<lparr> rg_trans_time := time \<rparr>,
          upd_memb (\<lambda>ms. ms\<lparr> Future_commit_set := cs (Future_commit_set ms), F_trans_memb_time := time \<rparr>) d))"

text \<open>The last daemon of the new ring turns the token into the first regular one.\<close>

definition pass_form2 ::
    "token_header \<Rightarrow> members_info \<Rightarrow> membership_id \<Rightarrow> ring_info list \<Rightarrow> daemon \<Rightarrow> daemon result" where
  "pass_form2 t m mid gs d =
     bind_res (Conf_last (Future_membership (memb d))) (\<lambda>l.
       if l \<noteq> pr_id (My (conf d)) then
         bind_res (Net_send_token t (Form2_body m mid gs) d) (\<lambda>(t, d).
         bind_res (Net_send_token t (Form2_body m mid gs) d) (\<lambda>(_, d).
           Inr (upd_prot (\<lambda>p. p\<lparr> Token_rounds := 0 \<rparr>) d)))
       else
         let t = t\<lparr> t_type := 0, t_memb_id := Future_membership_id (memb d), t_seq := 0, t_aru := 2 ^ 31 - 1,
                    t_aru_last_id := - 1, t_flow_control := 0, t_rtr_len := 0 \<rparr>
         in bind_res (Net_send_token t (Requests []) d) (\<lambda>(t, d).
            bind_res (Net_send_token t (Requests []) d) (\<lambda>(_, d).
              Inr (upd_prot (\<lambda>p. p\<lparr> Token_rounds := 1 \<rparr>) d))))"

definition shift_to_evs :: "daemon \<Rightarrow> daemon" where
  "shift_to_evs d =
     (let d = upd_memb (\<lambda>m. m\<lparr> Token_alive := True \<rparr>) d;
          d = emit (E_queue Memb_token_loss_event (Token_timeout (prot d))) d;
          d = upd_prot (\<lambda>p. p\<lparr> Received_token_rounds := 0,
                Last_token := (Last_token p)\<lparr> t_type := 0, t_seq := 0, t_aru := 0 \<rparr>, Aru := 0 \<rparr>) d
      in set_state EVS d)"

text \<open>Building the future membership and telling the network, the protocol and flow control.\<close>

definition form2_install :: "members_info \<Rightarrow> membership_id \<Rightarrow> daemon \<Rightarrow> daemon result" where
  "form2_install m mid d =
     bind_res (future_membership (Config (conf d)) (map (members m) [0..<nat (num_members m + num_pending m)])) (\<lambda>vw.
     let d = upd_memb (\<lambda>ms. ms\<lparr> Future_membership_id := mid, Future_membership := vw \<rparr>) d
     in bind_res (Net_set_membership vw d) (\<lambda>d.
        bind_res (Prot_set_prev_proc vw d) (\<lambda>d. Inr (FC_new_configuration d))))"

definition Read_form2 ::
    "int \<Rightarrow> token_header \<Rightarrow> members_info \<Rightarrow> membership_id \<Rightarrow> ring_info list \<Rightarrow> daemon \<Rightarrow> daemon result" where
  "Read_form2 now t m mid gs d =
     (let same = Same_endian (t_type t);
          m = (if same then m else Flip_members m);
          mid = (if same then mid else Flip_memb_id mid);
          gs = (if same then gs else Flip_rings gs)
      in if form2_dropped t m gs d then Inr d
         else
           let k = the (my_ring (Membership_id (memb d)) gs);
               t = t\<lparr> t_proc_id := pr_id (My (conf d)) \<rparr>;
               m = m\<lparr> num_members := num_members m + 1, num_pending := num_pending m - 1 \<rparr>;
               d = upd_prot (\<lambda>p. p\<lparr> Last_seq := t_seq t \<rparr>) d;
               (memb_time, mid, d) = form2_leader now m mid d
           in bind_res (form2_install m mid d) (\<lambda>d.
              bind_res (form2_packets (gs ! k) d) (\<lambda>d.
              let (g, d) = form2_trans now memb_time (gs ! k) d
              in bind_res (pass_form2 t m mid (gs[k := g]) d) (\<lambda>d. Inr (shift_to_evs d)))))"

section \<open>The handlers\<close>

definition Memb_handle_form1 :: "token_header \<Rightarrow> token_payload \<Rightarrow> daemon \<Rightarrow> daemon result" where
  "Memb_handle_form1 t b d =
     (let fill = (case b of Form1_body m r gs \<Rightarrow> Fill_form1 t m r gs d | _ \<Rightarrow> Inl (Undefined ''Fill_form1''))
      in case State (memb d) of
           OP \<Rightarrow> bind_res (Conf_leader (Membership (memb d))) (\<lambda>l.
                    if l = pr_id (My (conf d)) then Inr d else fill)
         | REPRESENTED \<Rightarrow> fill
         | GATHER \<Rightarrow> fill
         | _ \<Rightarrow> Inr d)"

definition Memb_handle_form2 :: "int \<Rightarrow> token_header \<Rightarrow> token_payload \<Rightarrow> daemon \<Rightarrow> daemon result" where
  "Memb_handle_form2 now t b d =
     (if State (memb d) = FORM then
        (case b of Form2_body m mid gs \<Rightarrow> Read_form2 now t m mid gs d | _ \<Rightarrow> Inl (Undefined ''Read_form2''))
      else Inr d)"

definition Memb_handle_token :: "int \<Rightarrow> in_token \<Rightarrow> daemon \<Rightarrow> daemon result" where
  "Memb_handle_token now inp d =
     (let t = it_head inp
      in if Is_form1 (t_type t) then Memb_handle_form1 t (it_body inp) d
         else if Is_form2 (t_type t) then Memb_handle_form2 now t (it_body inp) d
         else Inr d)"

text \<open>
  The end of gathering: the smallest representative forms a ring, unless it has a ring and
  found nobody; the others return to their ring or gather again.
\<close>

definition back_to_op :: "daemon \<Rightarrow> daemon" where
  "back_to_op d =
     Shift_to_op (emit (E_queue Memb_lookup_new_members_event (Lookup_timeout (prot d)))
       (emit (E_dequeue Send_join_event) d))"

definition Form_or_fail :: "int \<Rightarrow> daemon \<Rightarrow> daemon result" where
  "Form_or_fail now d =
     bind_res (Smallest_rep (Config (conf d)) (F_reps (memb d))) (\<lambda>(i, _).
       if i = pr_id (My (conf d)) then
         (if Token_alive (memb d) \<and> num_reps (F_reps (memb d)) = 1 then Inr (back_to_op d) else Create_form1 now d)
       else if Token_alive (memb d) then Inr (back_to_op d)
       else
         let d = upd_memb (\<lambda>m. m\<lparr> F_members := (single_member (pr_id (My (conf d))) (F_members m))\<lparr> num_pending := 0 \<rparr> \<rparr>) d
         in bind_res (gathered_reps potential_temp ((Potential_reps (memb d))\<lparr> num_reps := 0 \<rparr>) d) (\<lambda>(_, r).
              Inr (Shift_to_gather (upd_memb (\<lambda>m. m\<lparr> Potential_reps := r \<rparr>) d))))"

end
