(* ===== verification/Protocol.thy ===== *)
theory Protocol
  imports Form
begin

text \<open>
  The handlers of \<open>protocol.c\<close>: received packets, the token, and the reload of the
  configuration, with the report of \<open>status.c\<close> that one of the packets asks for.
\<close>

section \<open>What comes from elsewhere\<close>

text \<open>
  \<open>ip_differs\<close> is \<open>spu_addr_ip_cmp(_, _, FALSE)\<close>, \<open>addrs\<close> the address operations of the reload,
  \<open>conf_file\<close> what the parser makes of the configuration file, \<open>clock\<close> the seconds of
  \<open>E_get_time()\<close>.
\<close>

record externals =
  ip_differs :: "spu_addr \<Rightarrow> spu_addr \<Rightarrow> bool"
  addrs :: addr_ops
  conf_file :: "configuration \<times> proc"
  clock :: int

section \<open>Status and configuration requests\<close>

text \<open>The report goes to the port that the monitor put into \<open>seq\<close>.\<close>

definition Stat_handle_message :: "packet_header \<Rightarrow> daemon \<Rightarrow> daemon" where
  "Stat_handle_message h d =
     (case Conf_proc_by_id_in_conf (Config (conf d)) (p_proc_id h) of
        None \<Rightarrow> d
      | Some (_, p) \<Rightarrow> emit (Stat_report (pr_addr p) (to_int16u (p_seq h))) d)"

definition Prot_need_conf_reload :: "daemon \<Rightarrow> bool" where
  "Prot_need_conf_reload d = Prot_Need_Conf_Reload (prot d)"

definition Prot_clear_need_conf_reload :: "daemon \<Rightarrow> daemon" where
  "Prot_clear_need_conf_reload = upd_prot (\<lambda>p. p\<lparr> Prot_Need_Conf_Reload := False \<rparr>)"

text \<open>The part of a reload that follows the network's.\<close>

definition install_reload :: "bool \<Rightarrow> daemon \<Rightarrow> daemon" where
  "install_reload need_memb_partition d =
     (let d = emit Sess_signal_conf_reload d;
          d = FC_signal_conf_reload d;
          my = My (conf d);
          d = upd_prot (\<lambda>p. p\<lparr> My_index := Conf_proc_ref_by_id_in_conf (Config (conf d)) (pr_id my) \<rparr>) d;
          d = (case Conf_proc_by_id_in_conf (Config (conf d)) (pr_id my) of
                 None \<Rightarrow> d | Some (_, p) \<Rightarrow> d\<lparr> conf := (conf d)\<lparr> My := p \<rparr> \<rparr>);
          d = (if need_memb_partition then
                 let d = Net_set_partition int d
                 in d\<lparr> conf := Conf_reload_singleton_state_begin (conf d) \<rparr>
               else d)
      in emit (E_queue Memb_token_loss_event (0, 0)) d)"

definition Prot_initiate_conf_reload :: "externals \<Rightarrow> daemon \<Rightarrow> daemon result" where
  "Prot_initiate_conf_reload ext d =
     (if State (memb d) \<noteq> OP then Inr d
      else
        let d = Prot_clear_need_conf_reload d
        in bind_res (Conf_reload_initiate (addrs ext) (conf_file ext) (conf d)) (\<lambda>(need_memb_partition, c).
           bind_res (Net_signal_conf_reload (d\<lparr> conf := c \<rparr>)) (\<lambda>d.
             Inr (install_reload need_memb_partition d))))"

definition Prot_handle_conf_reload :: "externals \<Rightarrow> daemon \<Rightarrow> daemon result" where
  "Prot_handle_conf_reload ext d =
     (if State (memb d) = OP then Prot_initiate_conf_reload ext d
      else Inr (upd_prot (\<lambda>p. p\<lparr> Prot_Need_Conf_Reload := True \<rparr>) d))"

section \<open>Priorities of the channels\<close>

text \<open>
  One channel moved to another priority. \<open>checked\<close>: the code looks at the result of
  \<open>E_attach_fd\<close>; in three of the four loops it looks at the result of the detach again.
\<close>

definition reattach ::
    "bool \<Rightarrow> string \<Rightarrow> fd_handler \<Rightarrow> priority \<Rightarrow> priority \<Rightarrow> int \<Rightarrow> daemon \<Rightarrow> daemon result" where
  "reattach checked f hnd old new c d =
     guard_res (detach_ret (env d) c old < 0) (Alarm_exit f)
       (guard_res (checked \<and> attach_ret (env d) c new < 0) (Alarm_exit f)
         (Inr (emit (E_attach_fd c hnd new) (emit (E_detach_fd c old) d))))"

definition raise_token_priority :: "daemon \<Rightarrow> daemon result" where
  "raise_token_priority d =
     bind_res (fold_res (reattach True ''Prot_handle_bcast'' H_Prot_handle_bcast HIGH_PRIORITY MEDIUM_PRIORITY)
         (Bcast_channels (net d)) d) (\<lambda>d.
     bind_res (fold_res (reattach False ''Prot_handle_bcast'' H_Prot_handle_token MEDIUM_PRIORITY HIGH_PRIORITY)
         (Token_channels (net d)) d) (\<lambda>d.
       Inr (upd_prot (\<lambda>p. p\<lparr> Token_has_priority := True \<rparr>) d)))"

definition lower_token_priority :: "daemon \<Rightarrow> daemon result" where
  "lower_token_priority d =
     bind_res (fold_res (reattach False ''Prot_handle_token'' H_Prot_handle_bcast MEDIUM_PRIORITY HIGH_PRIORITY)
         (Bcast_channels (net d)) d) (\<lambda>d.
     bind_res (fold_res (reattach False ''Prot_handle_token'' H_Prot_handle_token HIGH_PRIORITY MEDIUM_PRIORITY)
         (Token_channels (net d)) d) (\<lambda>d.
       Inr (upd_prot (\<lambda>p. p\<lparr> Token_has_priority := False \<rparr>) d)))"

section \<open>Received packets\<close>

definition handle_control :: "externals \<Rightarrow> in_packet \<Rightarrow> daemon \<Rightarrow> daemon result" where
  "handle_control ext inp d =
     (let h = in_head inp
      in if Is_status (p_type h) then Inr (Stat_handle_message h d)
         else if Is_fc (p_type h) then
           (case in_body inp of
              FC_body b \<Rightarrow> FC_handle_message h b d
            | _ \<Rightarrow> Inl (Undefined ''FC_handle_message''))
         else if Is_conf_reload (p_type h) then Prot_handle_conf_reload ext d
         else Inr d)"

text \<open>A packet of the ring shows that the token is alive.\<close>

definition bcast_timers :: "daemon \<Rightarrow> daemon result" where
  "bcast_timers d =
     (if Memb_token_alive d then
        let d = emit (E_queue Memb_token_loss_event (Token_timeout (prot d))) d
        in bind_res (Conf_leader (Memb_active_ptr d)) (\<lambda>leader.
             Inr (if leader = pr_id (My (conf d))
                  then emit (E_queue Prot_token_hurry_event (Hurry_timeout (prot d))) d else d))
      else Inr d)"

text \<open>The fragment headers of a packet from a machine of the other byte order.\<close>

definition bcast_flip :: "packet \<Rightarrow> packet result" where
  "bcast_flip = (\<lambda>(h, body).
     if Same_endian (p_type h) then Inr (h, body)
     else let f = Flip_frag (p_first_frag_header h)
          in bind_res (flip_frags (p_data_len h) body (fragment_len f)) (\<lambda>(body, _).
               Inr (h\<lparr> p_first_frag_header := f \<rparr>, body)))"

text \<open>\<open>My_aru\<close> moves up to the first gap.\<close>

definition advance_my_aru :: "int \<Rightarrow> prot_state \<Rightarrow> prot_state" where
  "advance_my_aru i p =
     p\<lparr> My_aru := My_aru p + int (count_from p i (nat (Highest_seq p - i + 1))) \<rparr>"

definition bcast_deliver :: "packet_header \<Rightarrow> daemon \<Rightarrow> daemon result" where
  "bcast_deliver h d =
     (let d = upd_prot (\<lambda>p. p\<lparr> Highest_seq := (if Highest_seq p < p_seq h then p_seq h else Highest_seq p) \<rparr>) d
      in bind_res
           (if p_seq h = My_aru (prot d) + 1
            then Deliver_agreed_packets (upd_prot (advance_my_aru (p_seq h)) d)
            else Deliver_reliable_packets (p_seq h) 1 d)
           (\<lambda>d. Inr (upd_stat (\<lambda>g. g\<lparr> g_packet_recv := g_packet_recv g + 1, g_my_aru := My_aru (prot d),
                  g_highest_seq := Highest_seq (prot d) \<rparr>) d)))"

definition bcast_insert :: "packet_header \<Rightarrow> byte list \<Rightarrow> daemon \<Rightarrow> daemon result" where
  "bcast_insert h body d =
     (if p_seq h \<le> Last_discarded (prot d) then Inr d
      else if exist (prot d) (p_seq h) \<noteq> 0 then Inr d
      else
        let i = Conf_proc_ref_by_id_in_conf (Config (conf d)) (p_proc_id h);
            d = upd_prot (\<lambda>p. set_pkt (p_seq h) ((pkt p (p_seq h))\<lparr> pi_proc_index := i \<rparr>) p) d
        in if i < 0 then Inr d
           else bind_res (bcast_flip (h, body)) (\<lambda>(h, body).
             let d = upd_prot (\<lambda>p. set_pkt (p_seq h)
                       ((pkt p (p_seq h))\<lparr> pi_head := h, pi_body := body, pi_exist := 1 \<rparr>) p) d
             in bind_res
                  (if FC_accelerated_ring d \<and> \<not> Token_has_priority (prot d) \<and>
                      p_token_round h > Received_token_rounds (prot d) \<and>
                      p_transmiter_id h = Prev_proc_id (prot d)
                   then raise_token_priority d else Inr d)
                  (bcast_deliver h)))"

definition handle_regular :: "in_packet \<Rightarrow> daemon \<Rightarrow> daemon result" where
  "handle_regular inp d =
     (let h = in_head inp
      in if \<not> Memb_is_equal (Memb_id d) (p_memb_id h) then Memb_handle_message inp d
         else bind_res (bcast_timers d) (\<lambda>d.
           case in_body inp of
             Bytes body \<Rightarrow> bcast_insert h body d
           | _ \<Rightarrow> Inl (Undefined ''Prot_handle_bcast'')))"

definition Prot_handle_bcast :: "externals \<Rightarrow> int \<Rightarrow> in_packet \<Rightarrow> daemon \<Rightarrow> daemon result" where
  "Prot_handle_bcast ext fd inp d =
     bind_res (Net_recv (ip_differs ext) fd inp d) (\<lambda>(received_bytes, inp, d).
       let h = in_head inp
       in if received_bytes \<le> 0 then Inr d
          else if Is_control (p_type h) then handle_control ext inp d
          else if Is_membership (p_type h) then Memb_handle_message inp d
          else if Is_hurry (p_type h) then Handle_hurry (p_proc_id h) d
          else if Is_regular (p_type h) = 0 then Inr d
          else handle_regular inp d)"

section \<open>The token\<close>

text \<open>What the first part of \<open>Prot_handle_token\<close> decides: swallow the token or work on it.\<close>

datatype screened = Swallow daemon | Process daemon

definition clear_just_installed :: "daemon \<Rightarrow> daemon" where
  "clear_just_installed d =
     (if Memb_Just_Installed (memb d) then
        upd_prot (\<lambda>p. p\<lparr> Last_token := (Last_token p)\<lparr> t_aru := 0 \<rparr> \<rparr>)
          (upd_memb (\<lambda>m. m\<lparr> Memb_Just_Installed := False \<rparr>) d)
      else d)"

text \<open>The leader's token has gone round; another daemon's must be the next in line.\<close>

definition token_arq :: "token_header \<Rightarrow> daemon \<Rightarrow> screened result" where
  "token_arq t d =
     (let last = t_type (Last_token (prot d))
      in bind_res (Conf_leader (Memb_active_ptr d)) (\<lambda>leader.
         if leader = pr_id (My (conf d)) then
           Inr (if Get_arq (t_type t) \<noteq> Get_arq last then Swallow d else Process (clear_just_installed d))
         else if Get_arq (t_type t) = Get_arq last then
           (if Get_retrans (t_type t) > Get_retrans last then
              bind_res (Prot_token_hurry (upd_prot (\<lambda>p. p\<lparr> Last_token := (Last_token p)\<lparr>
                  t_type := Set_retrans last (Get_retrans (t_type t)) \<rparr> \<rparr>) d)) (\<lambda>d. Inr (Swallow d))
            else Inr (Swallow d))
         else if Get_arq (t_type t) \<noteq> (Get_arq last + 1) mod 0x10 then Inr (Swallow d)
         else
           let d = clear_just_installed d
           in Inr (Process (if Get_retrans (t_type t) > 0
                            then upd_stat (\<lambda>g. g\<lparr> g_token_hurry := g_token_hurry g + 1 \<rparr>) d else d))))"

definition token_screen :: "int \<Rightarrow> token_header \<Rightarrow> daemon \<Rightarrow> screened result" where
  "token_screen received_bytes t d =
     (if \<not> Memb_token_alive d then Inr (Swallow d)
      else if \<not> Memb_is_equal (t_memb_id t) (Memb_active_id d) then Inr (Swallow d)
      else bind_res (Conf_previous (My (conf d)) (Memb_active_ptr d)) (\<lambda>prev.
        if t_transmiter_id t \<noteq> prev then Inr (Swallow d)
        else if received_bytes \<noteq> sizeof_token_header + t_rtr_len t then Inr (Swallow d)
        else if State (memb d) \<noteq> EVS \<and> t_seq t > MAX_WRAP_SEQUENCE_VALUE then Inr (Swallow d)
        else token_arq t d))"

definition token_accept :: "token_header \<Rightarrow> daemon \<Rightarrow> daemon result" where
  "token_accept t d =
     (let d = upd_prot (\<lambda>p. p\<lparr> Highest_seq := (if Highest_seq p < t_seq t then t_seq t else Highest_seq p),
                Received_token_rounds := Received_token_rounds p + 1 \<rparr>) d
      in if Token_has_priority (prot d) then lower_token_priority d else Inr d)"

text \<open>
  Retransmissions, new packets and flow control. The result is the token, the requests it
  carries on with the answer's destination, the number of packets sent, and the state.
\<close>

definition token_work ::
    "token_header \<Rightarrow> ring_rtr list \<Rightarrow> daemon \<Rightarrow> (token_header \<times> answer \<times> int \<times> daemon) result" where
  "token_work t rtr d =
     bind_res (Answer_retrans rtr d) (\<lambda>(a, d).
     let num_retrans = a_num_retrans a;
         d = upd_stat (\<lambda>g. g\<lparr> g_retrans := g_retrans g + num_retrans \<rparr>) d;
         num_allowed = FC_allowed (t_flow_control t) num_retrans d
     in bind_res (Send_new_packets num_allowed d) (\<lambda>(num_sent, d).
        let d = upd_stat (\<lambda>g. g\<lparr> g_packet_sent := g_packet_sent g + num_sent \<rparr>) d;
            t = t\<lparr> t_flow_control := to_int16 (t_flow_control t - Last_num_retrans (prot d) -
                    Last_num_sent (prot d) + num_retrans + num_sent) \<rparr>;
            d = upd_prot (\<lambda>p. p\<lparr> Last_num_retrans := num_retrans, Last_num_sent := num_sent \<rparr>) d
        in Inr (t, a, num_sent, d)))"

text \<open>
  This daemon's requests: at most as many as fit behind the requests that are kept
  (\<open>new_ptr\<close> bytes), none for packets that the accelerated ring may still send.
\<close>

definition max_rtr_seq :: "daemon \<Rightarrow> int" where
  "max_rtr_seq d =
     (if FC_accelerated_ring d \<and> State (memb d) \<noteq> EVS then t_seq (Last_token (prot d))
      else Highest_seq (prot d))"

definition missing_seqs :: "prot_state \<Rightarrow> int \<Rightarrow> int list" where
  "missing_seqs p last_seq = filter (\<lambda>i. exist p i = 0) [My_aru p + 1..last_seq]"

definition token_requests :: "answer \<Rightarrow> daemon \<Rightarrow> ring_rtr list" where
  "token_requests a d =
     (let retrans_allowed = (sizeof_token_body - rtr_bytes (a_kept a) - sizeof_ring_rtr) div sizeof_int32
      in if My_aru (prot d) < max_rtr_seq d \<and> retrans_allowed > 1
         then a_kept a @ [\<lparr> r_memb_id = Memb_id d, r_proc_id = a_proc_id a, r_seg_index = a_seg_index a,
                r_seqs = take (nat retrans_allowed) (missing_seqs (prot d) (max_rtr_seq d)) \<rparr>]
         else a_kept a)"

definition token_my_aru :: "daemon \<Rightarrow> daemon" where
  "token_my_aru d =
     (let d = upd_prot (\<lambda>p. advance_my_aru (My_aru p + 1) p) d
      in upd_stat (\<lambda>g. g\<lparr> g_my_aru := My_aru (prot d) \<rparr>) d)"

definition token_commit :: "daemon \<Rightarrow> daemon" where
  "token_commit d =
     (if State (memb d) = EVS \<and> My_aru (prot d) = Highest_seq (prot d)
      then Memb_commit (upd_prot (\<lambda>p. p\<lparr> My_aru := Last_seq p \<rparr>) d) else d)"

text \<open>The token's new contents.\<close>

definition token_aru :: "token_header \<Rightarrow> daemon \<Rightarrow> token_header" where
  "token_aru t d =
     (let my = pr_id (My (conf d)); evs = (State (memb d) = EVS);
          t = (if t_aru t > My_aru (prot d) \<or> t_aru_last_id t = my \<or> (t_aru t = t_seq t \<and> \<not> evs)
               then t\<lparr> t_aru := My_aru (prot d), t_aru_last_id := my \<rparr> else t);
          t = t\<lparr> t_proc_id := my \<rparr>
      in if \<not> evs then t\<lparr> t_seq := Highest_seq (prot d) \<rparr> else t)"

definition token_next_arq :: "bool \<Rightarrow> token_header \<Rightarrow> token_header" where
  "token_next_arq leader t =
     (if leader then t\<lparr> t_type := Set_retrans (Set_arq (t_type t) ((Get_arq (t_type t) + 1) mod 0x10)) 0 \<rparr>
      else t)"

definition token_send ::
    "bool \<Rightarrow> token_header \<Rightarrow> ring_rtr list \<Rightarrow> daemon \<Rightarrow> (token_header \<times> daemon) result" where
  "token_send leader t rtr d =
     bind_res
       (if \<not> (leader \<and> To_hold_token d) then
          bind_res (Net_send_token t (Requests rtr) d) (\<lambda>(t, d).
            if Get_retrans (t_type t) > 1
            then bind_res (Net_send_token t (Requests rtr) d) (\<lambda>(t, d). Net_send_token t (Requests rtr) d)
            else Inr (t, d))
        else Inr (t, d))
       (\<lambda>(t, d).
          let d = upd_prot (\<lambda>p. p\<lparr> Token_rounds := Token_rounds p + 1 \<rparr>) d;
              d = (if leader then emit (E_queue Prot_token_hurry_event (Hurry_timeout (prot d))) d else d);
              d = emit (E_queue Memb_token_loss_event (Token_timeout (prot d))) d
          in bind_res (Prot_flush_bcast d) (\<lambda>d. Inr (t, d)))"

text \<open>\<open>Aru\<close> is what two successive tokens agree on; it may never fall.\<close>

definition token_update_aru :: "token_header \<Rightarrow> daemon \<Rightarrow> daemon result" where
  "token_update_aru t d =
     (let p = prot d;
          new_aru = (if t_aru t > t_aru (Last_token p) then t_aru (Last_token p) else t_aru t)
      in guard_res (new_aru < Aru p) (Alarm_exit ''Prot_handle_token'')
           (Inr (upd_prot (\<lambda>p. p\<lparr> Aru := new_aru,
              Token_counter := (if Highest_seq p = new_aru then Token_counter p + 1 else 0),
              Last_token := t \<rparr>) d)))"

definition token_deliver :: "int \<Rightarrow> daemon \<Rightarrow> daemon result" where
  "token_deliver num_sent d =
     bind_res (Discard_packets d) (\<lambda>d.
     bind_res (Deliver_agreed_packets d) (\<lambda>d.
     bind_res (Deliver_reliable_packets (Highest_seq (prot d) - num_sent + 1) num_sent d) (\<lambda>d.
     bind_res (if State (memb d) = EVS \<and> Token_rounds (prot d) > MAX_EVS_ROUNDS
               then Memb_token_loss d else Inr d) (\<lambda>d.
       Inr (upd_stat (\<lambda>g. g\<lparr> g_highest_seq := Highest_seq (prot d), g_aru := Aru (prot d),
              g_token_rounds := Token_rounds (prot d) \<rparr>) d)))))"

definition token_pass_on :: "token_header \<Rightarrow> answer \<Rightarrow> int \<Rightarrow> daemon \<Rightarrow> daemon result" where
  "token_pass_on t a num_sent d =
     (let d = token_my_aru d;
          rtr = token_requests a d;
          d = token_commit d;
          t = token_aru (t\<lparr> t_rtr_len := to_int16u (rtr_bytes rtr) \<rparr>) d
      in bind_res (Conf_leader (Memb_active_ptr d)) (\<lambda>l.
         let leader = (l = pr_id (My (conf d)));
             t = token_next_arq leader t
         in bind_res (token_send leader t rtr d) (\<lambda>(t, d).
            bind_res (token_update_aru t d) (token_deliver num_sent))))"

definition token_process :: "token_header \<Rightarrow> ring_rtr list \<Rightarrow> daemon \<Rightarrow> daemon result" where
  "token_process t rtr d =
     bind_res (token_accept t d) (\<lambda>d.
     bind_res (token_work t rtr d) (\<lambda>(t, a, num_sent, d). token_pass_on t a num_sent d))"

text \<open>
  The requests are a list here, so a token whose length field does not match its requests is
  undefined.
\<close>

definition Prot_handle_token :: "externals \<Rightarrow> int \<Rightarrow> in_token \<Rightarrow> daemon \<Rightarrow> daemon result" where
  "Prot_handle_token ext fd inp d =
     bind_res (Net_recv_token (ip_differs ext) fd inp d) (\<lambda>(received_bytes, inp).
       let t = it_head inp
       in if received_bytes \<le> 0 then Inr d
          else if Is_form (t_type t) then Memb_handle_token (clock ext) inp d
          else bind_res (token_screen received_bytes t d) (\<lambda>s.
            case s of
              Swallow d \<Rightarrow> Inr d
            | Process d \<Rightarrow>
                (case it_body inp of
                   Requests rtr \<Rightarrow>
                     let rtr = (if Same_endian (t_type t) then rtr else Flip_token_body rtr)
                     in guard_res (rtr_bytes rtr \<noteq> t_rtr_len t) (Undefined ''Prot_handle_token'')
                          (token_process t rtr d)
                 | _ \<Rightarrow> Inl (Undefined ''Prot_handle_token''))))"

end
