(* ===== verification/Send_Correct.thy ===== *)
theory Send_Correct
  imports Send_Frames Protocol
begin

text \<open>
  New packets: \<open>Send_new_packets\<close> never fails on a well-formed queue, numbers its packets
  consecutively, and keeps the invariant of the packet window.
\<close>

section \<open>One packet\<close>

definition sent_frame :: "daemon \<Rightarrow> daemon \<Rightarrow> bool" where
  "sent_frame d d' \<longleftrightarrow> conf d' = conf d \<and> memb d' = memb d \<and> fc d' = fc d \<and> net d' = net d \<and> env d' = env d \<and>
     prot d' = (prot d)\<lparr> Highest_seq := Highest_seq (prot d'), Highest_fifo_seq := Highest_fifo_seq (prot d'),
       Protocol_down_queue := Protocol_down_queue (prot d'), Packets := Packets (prot d'),
       Send_pack_queue := Send_pack_queue (prot d') \<rparr>"

lemma sent_frame_refl [simp]: "sent_frame d d"
  by (simp add: sent_frame_def)

lemma sent_frame_trans:
  assumes "sent_frame a b" and "sent_frame b c"
  shows "sent_frame a c"
proof -
  have "prot c = (prot a)\<lparr> Highest_seq := Highest_seq (prot c), Highest_fifo_seq := Highest_fifo_seq (prot c),
       Protocol_down_queue := Protocol_down_queue (prot c), Packets := Packets (prot c),
       Send_pack_queue := Send_pack_queue (prot c) \<rparr>"
    using assms by (cases "prot a"; cases "prot b"; cases "prot c"; simp add: sent_frame_def)
  then show ?thesis using assms by (simp add: sent_frame_def)
qed

lemma sent_frameD:
  assumes "sent_frame d d'"
  shows "conf d' = conf d" "memb d' = memb d" "fc d' = fc d" "net d' = net d" "env d' = env d"
    "Aru (prot d') = Aru (prot d)" "My_aru (prot d') = My_aru (prot d)"
    "Last_discarded (prot d') = Last_discarded (prot d)" "Last_delivered (prot d') = Last_delivered (prot d)"
    "My_index (prot d') = My_index (prot d)" "Down_queue_ptr (prot d') = Down_queue_ptr (prot d)"
    "Last_token (prot d') = Last_token (prot d)" "Token_rounds (prot d') = Token_rounds (prot d)"
    "Prot_delivery_threshold (prot d') = Prot_delivery_threshold (prot d)"
    "Last_num_sent (prot d') = Last_num_sent (prot d)" "Last_num_retrans (prot d') = Last_num_retrans (prot d)"
proof -
  have p: "prot d' = (prot d)\<lparr> Highest_seq := Highest_seq (prot d'), Highest_fifo_seq := Highest_fifo_seq (prot d'),
       Protocol_down_queue := Protocol_down_queue (prot d'), Packets := Packets (prot d'),
       Send_pack_queue := Send_pack_queue (prot d') \<rparr>"
    using assms unfolding sent_frame_def by blast
  show "conf d' = conf d" "memb d' = memb d" "fc d' = fc d" "net d' = net d" "env d' = env d"
    using assms unfolding sent_frame_def by blast+
  show "Aru (prot d') = Aru (prot d)" "My_aru (prot d') = My_aru (prot d)"
    "Last_discarded (prot d') = Last_discarded (prot d)" "Last_delivered (prot d') = Last_delivered (prot d)"
    "My_index (prot d') = My_index (prot d)" "Down_queue_ptr (prot d') = Down_queue_ptr (prot d)"
    "Last_token (prot d') = Last_token (prot d)" "Token_rounds (prot d') = Token_rounds (prot d)"
    "Prot_delivery_threshold (prot d') = Prot_delivery_threshold (prot d)"
    "Last_num_sent (prot d') = Last_num_sent (prot d)" "Last_num_retrans (prot d') = Last_num_retrans (prot d)"
    by (subst p, simp)+
qed

lemma quiet_sent_frame: "quiet d d' \<Longrightarrow> sent_frame d d'"
  unfolding quiet_def sent_frame_def by (cases "prot d"; cases "prot d'"; simp)

text \<open>What sending needs: room in the window, a well-formed queue, usable addresses.\<close>

definition sendable :: "daemon \<Rightarrow> bool" where
  "sendable d \<longleftrightarrow> window_ok (prot d) \<and> send_queue_ok (prot d) \<and> net_ok d \<and>
     sizeof_packet_body d < 2 ^ 15 \<and> queue_wf (sizeof_packet_body d) (down_queue_of (prot d)) \<and>
     (\<forall>l \<in> set (dq_links (down_queue_of (prot d))). service_ok (dl_type l))"

definition own_packet :: "daemon \<Rightarrow> int \<Rightarrow> packet_info \<Rightarrow> bool" where
  "own_packet d i x \<longleftrightarrow> pi_exist x = 1 \<and> p_seq (pi_head x) = i \<and> p_proc_id (pi_head x) = pr_id (My (conf d)) \<and>
     p_memb_id (pi_head x) = Memb_id d \<and> pi_proc_index x = My_index (prot d)"

text \<open>A new entry behind the highest one.\<close>

lemma window_ok_append:
  assumes "window_ok p" and "Highest_seq p' = Highest_seq p + 1" and "Highest_seq p < Last_discarded p + 8192"
    and "Aru p' = Aru p" "My_aru p' = My_aru p" "Last_discarded p' = Last_discarded p" "Last_delivered p' = Last_delivered p"
    and "\<forall>i. Last_discarded p < i \<and> i \<le> Last_discarded p + 8192 \<and> i \<noteq> Highest_seq p + 1 \<longrightarrow> packet_same (pkt p i) (pkt p' i)"
    and "exist p' (Highest_seq p + 1) = 1" and "p_seq (pi_head (pkt p' (Highest_seq p + 1))) = Highest_seq p + 1"
    and "service_ok (p_type (pi_head (pkt p' (Highest_seq p + 1))))"
  shows "window_ok p'"
proof -
  have "entry_ok p' i" if i: "Last_discarded p < i" "i \<le> Last_discarded p + 8192" for i
  proof (cases "i = Highest_seq p + 1")
    case True
    then show ?thesis using assms by (auto simp: entry_ok_def window_ok_def)
  next
    case False
    have same: "packet_same (pkt p i) (pkt p' i)" using assms(8) i False by blast
    have "entry_ok p i" using window_ok_entry [OF assms(1) i] .
    then show ?thesis
      using packet_sameD [OF same] restampedD(1,6) [OF packet_sameD(4) [OF same]] assms(2,5,7)
      by (auto simp: entry_ok_def Is_safe_regular service_ok_regular)
  qed
  then show ?thesis using assms by (auto simp: window_ok_def)
qed

lemma send_one_ok:
  assumes s: "sendable d" and full: "dq_links (down_queue_of (prot d)) = l # ls"
    and room: "Highest_seq (prot d) < Last_discarded (prot d) + 8192"
  shows "\<exists>d'. send_one d = Inr d' \<and> sent_frame d d' \<and> sendable d' \<and>
    Highest_seq (prot d') = Highest_seq (prot d) + 1 \<and>
    own_packet d (Highest_seq (prot d) + 1) (pkt (prot d') (Highest_seq (prot d) + 1)) \<and>
    (\<forall>i. Last_discarded (prot d) < i \<and> i \<le> Last_discarded (prot d) + 8192 \<and> i \<noteq> Highest_seq (prot d) + 1 \<longrightarrow>
      packet_same (pkt (prot d) i) (pkt (prot d') i))"
proof -
  let ?p = "prot d" and ?seq = "Highest_seq (prot d) + 1" and ?room = "sizeof_packet_body d"
  let ?my = "pr_id (My (conf d))"
  note w = s [unfolded sendable_def]
  obtain q h body es k where b: "build_packet ?room ?my (Memb_id d) ?seq (down_queue_of ?p) = Inr (q, (h, body), es)"
      "queue_wf ?room q" "set (dq_links q) \<subseteq> set (dq_links (down_queue_of ?p))"
      "p_type h = dl_type l" "p_proc_id h = ?my" "p_memb_id h = Memb_id d" "p_seq h = ?seq"
    using build_packet_carries [of ?room "down_queue_of ?p" l ls ?my "Memb_id d" ?seq] w full
    by (auto split: if_splits dest: in_set_dropD) (metis insert_iff list.simps(15) set_drop_subset subset_iff)+
  let ?d1 = "upd_prot (\<lambda>p. (set_down_queue q p)\<lparr> Highest_seq := ?seq, Highest_fifo_seq := Highest_fifo_seq p + 1 \<rparr>) d"
  let ?d = "?d1\<lparr> out := out ?d1 @ es \<rparr>"
  have pk0: "pkt (prot ?d) i = pkt ?p i" for i by (simp add: pkt_def set_down_queue_def)
  have q0: "send_queue_ok (prot ?d)"
    using w by (auto simp: send_queue_ok_def queued_ok_def set_down_queue_def pkt_def)
  have n0: "net_ok ?d" using w by (simp add: net_ok_def)
  obtain h' d2 where qb: "Prot_queue_bcast (h, body) ?d = Inr ((h', body), d2)" "quiet ?d d2" "restamped h h'"
      "set (Send_pack_queue (prot d2)) \<subseteq> insert (h', body) (set (Send_pack_queue ?p))"
    using Prot_queue_bcast_ok [OF q0 n0, of "(h, body)"] by (auto simp: set_down_queue_def)
  note fr = quietD [OF qb(2)] and hd = restampedD [OF qb(3)]
  let ?x = "\<lparr> pi_head = h', pi_body = body, pi_exist = 1, pi_proc_index = My_index (prot d2) \<rparr>"
  let ?d' = "upd_prot (\<lambda>p. set_pkt ?seq \<lparr> pi_head = h', pi_body = body, pi_exist = 1, pi_proc_index = My_index p \<rparr> p) d2"
  have in_win: "Last_discarded ?p < ?seq" "?seq \<le> Last_discarded ?p + 8192"
    using w room by (auto simp: window_ok_def)
  have "exist (prot d2) ?seq = 0"
    using packet_sameD(1) [OF quiet_pkt [OF qb(2), of ?seq]] pk0 window_ok_entry [of ?p ?seq] w in_win
    by (auto simp: entry_ok_def)
  then have send: "send_one d = Inr ?d'"
    using b(1) qb(1) by (simp add: send_one_def Let_def)
  have new: "pkt (prot ?d') ?seq = ?x" by (simp add: pkt_def set_pkt_def)
  have old: "packet_same (pkt ?p i) (pkt (prot ?d') i)"
    if "Last_discarded ?p < i" "i \<le> Last_discarded ?p + 8192" "i \<noteq> ?seq" for i
  proof -
    have "slot i \<noteq> slot ?seq" using slot_inj [OF that(1,2) in_win] that(3) by blast
    then have "pkt (prot ?d') i = pkt (prot d2) i" by (simp add: pkt_set_pkt)
    then show ?thesis using quiet_pkt [OF qb(2), of i] pk0 by simp
  qed
  have frame: "sent_frame d ?d'"
  proof (rule sent_frame_trans)
    show "sent_frame d ?d" by (cases "prot d") (simp add: sent_frame_def set_down_queue_def)
    show "sent_frame ?d ?d'"
      by (rule sent_frame_trans [OF quiet_sent_frame [OF qb(2)]]) (simp add: sent_frame_def set_pkt_def)
  qed
  have hs: "Highest_seq (prot ?d') = ?seq" using fr(8) by (simp add: set_pkt_def)
  have "service_ok (dl_type l)" using w full by simp
  then have sok: "service_ok (p_type h')" using hd(6) b(4) by (simp add: service_ok_regular)
  have "window_ok (prot ?d')"
    by (rule window_ok_append [of ?p])
      (use w room hs sent_frameD(6-9) [OF frame] old new hd(1) b(7) sok in auto)
  moreover have "queued_ok (prot ?d') pk'" if "pk' \<in> set (Send_pack_queue (prot ?d'))" for pk'
  proof -
    have "pk' = (h', body) \<or> pk' \<in> set (Send_pack_queue ?p)"
      using that qb(4) by (auto simp: set_pkt_def)
    then show ?thesis
    proof
      assume "pk' = (h', body)"
      then show ?thesis using new hs hd(1) b(7) in_win sent_frameD(8) [OF frame] by (simp add: queued_ok_def)
    next
      assume "pk' \<in> set (Send_pack_queue ?p)"
      then have ok: "queued_ok ?p pk'" using w by (simp add: send_queue_ok_def)
      then have "packet_same (pkt ?p (p_seq (fst pk'))) (pkt (prot ?d') (p_seq (fst pk')))"
        using in_win by (intro old) (auto simp: queued_ok_def)
      then have "restamped (pi_head (pkt (prot ?d') (p_seq (fst pk')))) (fst pk')"
        using ok packet_sameD(4) unfolding queued_ok_def by (blast intro: restamped_trans restamped_sym)
      then show ?thesis using ok hs sent_frameD(8) [OF frame] by (simp add: queued_ok_def)
    qed
  qed
  moreover have "down_queue_of (prot ?d') = q"
    using fr(12,13) by (simp add: down_queue_of_def set_pkt_def set_down_queue_def)
  ultimately have "sendable ?d'"
    using w b(2,3) sent_frameD(4,5) [OF frame] by (auto simp: sendable_def send_queue_ok_def net_ok_def)
  moreover have "own_packet d ?seq (pkt (prot ?d') ?seq)"
    using new hd(1-3) b(5-7) fr(11) by (simp add: own_packet_def set_down_queue_def)
  ultimately show ?thesis
    using send frame hs old by blast
qed

section \<open>The loop\<close>

lemma own_packet_frame: "sent_frame d d' \<Longrightarrow> own_packet d' i x \<longleftrightarrow> own_packet d i x"
  by (simp add: own_packet_def Memb_id_def sent_frameD)

lemma own_packet_same:
  assumes "own_packet d i x" and "packet_same x y"
  shows "own_packet d i y"
  using assms(1) packet_sameD [OF assms(2)] restampedD(1-3) [OF packet_sameD(4) [OF assms(2)]]
  by (simp add: own_packet_def)

lemma send_loop_ok:
  assumes "sendable d" and "Highest_seq (prot d) + int n \<le> Last_discarded (prot d) + 8192"
  shows "\<exists>k d'. send_loop n d = Inr (int k, d') \<and> k \<le> n \<and> sent_frame d d' \<and> sendable d' \<and>
    Highest_seq (prot d') = Highest_seq (prot d) + int k \<and>
    (k < n \<longrightarrow> dq_links (down_queue_of (prot d')) = []) \<and>
    (\<forall>i. Highest_seq (prot d) < i \<and> i \<le> Highest_seq (prot d) + int k \<longrightarrow> own_packet d i (pkt (prot d') i)) \<and>
    (\<forall>i. Last_discarded (prot d) < i \<and> i \<le> Highest_seq (prot d) \<longrightarrow> packet_same (pkt (prot d) i) (pkt (prot d') i))"
  using assms
proof (induction n arbitrary: d)
  case 0
  show ?case using 0(1) by (intro exI [of _ 0] exI [of _ d]) auto
next
  case (Suc n)
  let ?q = "down_queue_of (prot d)"
  have wf: "num_mess ?q = int (length (dq_links ?q))" using Suc.prems(1) by (simp add: sendable_def queue_wf_def)
  show ?case
  proof (cases "dq_links ?q")
    case Nil
    then show ?thesis using wf Suc.prems(1) by (intro exI [of _ 0] exI [of _ d]) auto
  next
    case (Cons l ls)
    let ?h = "Highest_seq (prot d)" and ?ld = "Last_discarded (prot d)"
    obtain d1 where d1: "send_one d = Inr d1" "sent_frame d d1" "sendable d1" "Highest_seq (prot d1) = ?h + 1"
        "own_packet d (?h + 1) (pkt (prot d1) (?h + 1))"
        "\<forall>i. ?ld < i \<and> i \<le> ?ld + 8192 \<and> i \<noteq> ?h + 1 \<longrightarrow> packet_same (pkt (prot d) i) (pkt (prot d1) i)"
      using send_one_ok [OF Suc.prems(1) Cons] Suc.prems(2) by auto
    have ld: "Last_discarded (prot d1) = ?ld" using sent_frameD(8) [OF d1(2)] .
    obtain k d' where k: "send_loop n d1 = Inr (int k, d')" "k \<le> n" "sent_frame d1 d'" "sendable d'"
        "Highest_seq (prot d') = ?h + 1 + int k" "k < n \<longrightarrow> dq_links (down_queue_of (prot d')) = []"
        "\<forall>i. ?h + 1 < i \<and> i \<le> ?h + 1 + int k \<longrightarrow> own_packet d1 i (pkt (prot d') i)"
        "\<forall>i. ?ld < i \<and> i \<le> ?h + 1 \<longrightarrow> packet_same (pkt (prot d1) i) (pkt (prot d') i)"
      using Suc.IH [OF d1(3)] Suc.prems(2) d1(4) ld by auto
    have hld: "?ld \<le> ?h" "?h < ?ld + 8192" using Suc.prems by (auto simp: sendable_def window_ok_def)
    have own: "own_packet d i (pkt (prot d') i)" if "?h < i" "i \<le> ?h + 1 + int k" for i
    proof (cases "i = ?h + 1")
      case True
      then show ?thesis using own_packet_same [OF d1(5)] k(8) hld by simp
    next
      case False
      then show ?thesis using k(7) that own_packet_frame [OF d1(2)] by simp
    qed
    have old: "packet_same (pkt (prot d) i) (pkt (prot d') i)" if "?ld < i" "i \<le> ?h" for i
    proof (rule packet_same_trans)
      show "packet_same (pkt (prot d) i) (pkt (prot d1) i)" using d1(6) that hld by simp
      show "packet_same (pkt (prot d1) i) (pkt (prot d') i)" using k(8) that by simp
    qed
    have "send_loop (Suc n) d = Inr (int (Suc k), d')"
      using d1(1) k(1) Cons wf by simp
    then show ?thesis
      using k(2,4-6) sent_frame_trans [OF d1(2) k(3)] own old
      by (intro exI [of _ "Suc k"] exI [of _ d']) auto
  qed
qed

end
