(* ===== verification/Ring_Invariant.thy ===== *)
theory Ring_Invariant
  imports Send_Correct
begin

text \<open>
  The invariant of the packet window over the handlers: a received packet, a pass of the
  token. It holds between handlers while the daemon is not in the EVS phase of a change.
\<close>

section \<open>The fields the invariant reads\<close>

definition win :: "prot_state \<Rightarrow> (nat \<Rightarrow> packet_info) \<times> int \<times> int \<times> int \<times> int \<times> int" where
  "win p = (Packets p, Aru p, My_aru p, Highest_seq p, Last_discarded p, Last_delivered p)"

lemma window_ok_win: "win p = win p' \<Longrightarrow> window_ok p \<longleftrightarrow> window_ok p'"
  by (simp add: win_def window_ok_def entry_ok_def pkt_def)

lemma window_ok_raise:
  assumes "window_ok p" and "Highest_seq p \<le> h" and "h \<le> Last_discarded p + 8192"
  shows "window_ok (p\<lparr> Highest_seq := h \<rparr>)"
proof -
  have "entry_ok (p\<lparr> Highest_seq := h \<rparr>) i" if "entry_ok p i" for i
    using that assms(2) by (auto simp: entry_ok_def pkt_def)
  then show ?thesis using assms by (auto simp: window_ok_def)
qed

lemma count_from_occupied:
  "j < int (count_from p i n) \<Longrightarrow> 0 \<le> j \<Longrightarrow> exist p (i + j) \<noteq> 0"
proof (induction p i n arbitrary: j rule: count_from.induct)
  case (2 p i n)
  show ?case
  proof (cases "j = 0")
    case False
    then have "j - 1 < int (count_from p (i + 1) n)" "0 \<le> j - 1" using 2(2,3) by (auto split: if_splits)
    then show ?thesis using 2(1) [of "j - 1"] 2(2) by (auto split: if_splits)
  qed (use 2(2) in \<open>auto split: if_splits\<close>)
qed simp

lemma count_from_le: "count_from p i n \<le> n"
  by (induction p i n rule: count_from.induct) auto

lemma count_from_gap: "count_from p i n < n \<Longrightarrow> exist p (i + int (count_from p i n)) = 0"
  by (induction p i n rule: count_from.induct) (auto split: if_splits simp: algebra_simps)

lemma window_ok_advance:
  assumes "window_ok p" and "i = My_aru p + 1"
  shows "window_ok (advance_my_aru i p)" and "My_aru p \<le> My_aru (advance_my_aru i p)"
    and "My_aru (advance_my_aru i p) < Highest_seq p \<Longrightarrow> exist p (My_aru (advance_my_aru i p) + 1) = 0"
proof -
  let ?n = "nat (Highest_seq p - i + 1)"
  let ?c = "count_from p i ?n"
  have le: "My_aru p \<le> Highest_seq p" using assms(1) by (simp add: window_ok_def)
  have my: "My_aru (advance_my_aru i p) = My_aru p + int ?c" by (simp add: advance_my_aru_def)
  have c: "int ?c \<le> Highest_seq p - My_aru p" using count_from_le [of p i ?n] assms(2) le by linarith
  show "My_aru p \<le> My_aru (advance_my_aru i p)" by (simp add: my)
  have "entry_ok (advance_my_aru i p) j" if "entry_ok p j" for j
  proof -
    have "exist p j \<noteq> 0" if "My_aru p < j" "j \<le> My_aru p + int ?c"
      using count_from_occupied [of "j - i" p i ?n] that assms(2) by simp
    then show ?thesis using \<open>entry_ok p j\<close> by (auto simp: entry_ok_def advance_my_aru_def pkt_def)
  qed
  then show "window_ok (advance_my_aru i p)"
    using assms(1) c by (auto simp: window_ok_def my) (auto simp: advance_my_aru_def)
  show "exist p (My_aru (advance_my_aru i p) + 1) = 0" if "My_aru (advance_my_aru i p) < Highest_seq p"
  proof -
    have "?c < ?n" using that my assms(2) le by linarith
    then have "exist p (i + int ?c) = 0" by (rule count_from_gap)
    moreover have "My_aru (advance_my_aru i p) + 1 = i + int ?c" using my assms(2) by linarith
    ultimately show ?thesis by metis
  qed
qed

section \<open>Frames of the handlers' parts\<close>

text \<open>Delivering and discarding change nothing beyond the packets and the two counters.\<close>

definition delivery_frame :: "daemon \<Rightarrow> daemon \<Rightarrow> bool" where
  "delivery_frame d d' \<longleftrightarrow> conf d' = conf d \<and> memb d' = memb d \<and> fc d' = fc d \<and> net d' = net d \<and> env d' = env d \<and>
     prot d' = (prot d)\<lparr> Packets := Packets (prot d'), Up_queue := Up_queue (prot d'),
       Last_delivered := Last_delivered (prot d'), Last_discarded := Last_discarded (prot d') \<rparr> \<and>
     (\<exists>ms. out d' = out d @ map Sess_deliver_message ms)"

lemma delivery_frame_refl [simp]: "delivery_frame d d"
  by (simp add: delivery_frame_def)

lemma delivery_frame_trans:
  assumes "delivery_frame a b" and "delivery_frame b c"
  shows "delivery_frame a c"
proof -
  have "prot c = (prot a)\<lparr> Packets := Packets (prot c), Up_queue := Up_queue (prot c),
       Last_delivered := Last_delivered (prot c), Last_discarded := Last_discarded (prot c) \<rparr>"
    using assms by (cases "prot a"; cases "prot b"; cases "prot c"; simp add: delivery_frame_def)
  moreover have "\<exists>ms. out c = out a @ map Sess_deliver_message ms"
    using assms unfolding delivery_frame_def by (metis append.assoc map_append)
  ultimately show ?thesis using assms by (simp add: delivery_frame_def)
qed

lemma delivery_frameD:
  assumes "delivery_frame d d'"
  shows "conf d' = conf d" "memb d' = memb d" "fc d' = fc d" "net d' = net d" "env d' = env d"
    "Aru (prot d') = Aru (prot d)" "My_aru (prot d') = My_aru (prot d)"
    "Highest_seq (prot d') = Highest_seq (prot d)" "Send_pack_queue (prot d') = Send_pack_queue (prot d)"
    "Last_token (prot d') = Last_token (prot d)" "Protocol_down_queue (prot d') = Protocol_down_queue (prot d)"
    "Down_queue_ptr (prot d') = Down_queue_ptr (prot d)"
proof -
  have p: "prot d' = (prot d)\<lparr> Packets := Packets (prot d'), Up_queue := Up_queue (prot d'),
       Last_delivered := Last_delivered (prot d'), Last_discarded := Last_discarded (prot d') \<rparr>"
    using assms unfolding delivery_frame_def by blast
  show "conf d' = conf d" "memb d' = memb d" "fc d' = fc d" "net d' = net d" "env d' = env d"
    using assms unfolding delivery_frame_def by blast+
  show "Aru (prot d') = Aru (prot d)" "My_aru (prot d') = My_aru (prot d)"
    "Highest_seq (prot d') = Highest_seq (prot d)" "Send_pack_queue (prot d') = Send_pack_queue (prot d)"
    "Last_token (prot d') = Last_token (prot d)" "Protocol_down_queue (prot d') = Protocol_down_queue (prot d)"
    "Down_queue_ptr (prot d') = Down_queue_ptr (prot d)"
    by (subst p, simp)+
qed

lemma deliver_frame_weaken: "deliver_frame d d' \<Longrightarrow> delivery_frame d d'"
  by (auto simp: deliver_frame_def delivery_frame_def)

lemma delivery_frame_bump [simp]: "delivery_frame d (bump_delivered d)"
  by (simp add: delivery_frame_def bump_delivered_def)

lemma Deliver_agreed_frame:
  assumes "Deliver_agreed_packets d = Inr d'"
  shows "delivery_frame d d'"
proof (cases "My_aru (prot d) \<le> Last_delivered (prot d) \<or> State (memb d) = EVS \<or>
    Prot_delivery_threshold (prot d) > AGREED_TYPE")
  case False
  then have loop: "fold_ctl agreed_step [Last_delivered (prot d) + 1..My_aru (prot d)] d = Inr d'"
    using assms by (simp add: Deliver_agreed_packets_def)
  show ?thesis
  proof (rule fold_ctl_inv [OF loop, where P = "delivery_frame d"])
    fix i t t'
    assume t: "delivery_frame d t" and "agreed_step i t = Inr (Continue t') \<or> agreed_step i t = Inr (Break t')"
    then have "delivery_frame t t'"
      by (auto simp: agreed_step_def Let_def split: if_splits
          dest!: Deliver_packet_deliver_frame deliver_frame_weaken intro: delivery_frame_trans)
    then show "delivery_frame d t'" using t by (rule delivery_frame_trans [rotated])
  qed simp
qed (use assms in \<open>simp add: Deliver_agreed_packets_def\<close>)

lemma Discard_stable_frame:
  assumes "Discard_stable d = Inr d'"
  shows "delivery_frame d d'"
proof -
  obtain e where loop: "fold_res discard_step [Last_discarded (prot d) + 1..Aru (prot d)] d = Inr e"
      and d': "d' = mark_discarded e"
    using assms by (auto simp: Discard_stable_def mark_discarded_def)
  have "delivery_frame d e"
  proof (rule fold_res_inv [OF loop, where P = "delivery_frame d"])
    fix i t t'
    assume t: "delivery_frame d t" and "discard_step i t = Inr t'"
    then obtain u where u: "deliver_or_dispose i t = Inr u" "t' = set_prot_exist i 0 u"
      by (auto simp: discard_step_def)
    have "delivery_frame t u"
      using u(1) by (auto simp: deliver_or_dispose_def split: if_splits
          dest: Deliver_packet_deliver_frame deliver_frame_weaken)
    moreover have "delivery_frame u t'"
      by (simp add: u(2) delivery_frame_def set_prot_exist_def set_exist_def set_pkt_def)
    ultimately show "delivery_frame d t'" using t by (blast intro: delivery_frame_trans)
  qed simp
  moreover have "delivery_frame e d'" by (simp add: d' delivery_frame_def mark_discarded_def)
  ultimately show ?thesis by (rule delivery_frame_trans)
qed

section \<open>Received packets\<close>

text \<open>Between handlers the queue of packets to send is empty and what is stable is discarded.\<close>

definition ring_ok :: "daemon \<Rightarrow> bool" where
  "ring_ok d \<longleftrightarrow> window_ok (prot d) \<and> State (memb d) \<noteq> EVS \<and> Last_discarded (prot d) = Aru (prot d) \<and>
     Send_pack_queue (prot d) = []"

text \<open>Changes that the invariant does not see.\<close>

definition calm :: "daemon \<Rightarrow> daemon \<Rightarrow> bool" where
  "calm d d' \<longleftrightarrow> win (prot d') = win (prot d) \<and> Send_pack_queue (prot d') = Send_pack_queue (prot d) \<and>
     (State (memb d) \<noteq> EVS \<longrightarrow> State (memb d') \<noteq> EVS)"

lemma calm_refl [simp]: "calm d d"
  by (simp add: calm_def)

lemma calm_trans: "calm a b \<Longrightarrow> calm b c \<Longrightarrow> calm a c"
  by (simp add: calm_def)

lemma calm_ring_ok: "calm d d' \<Longrightarrow> ring_ok d \<Longrightarrow> ring_ok d'"
  using window_ok_win [of "prot d'" "prot d"] by (auto simp: calm_def ring_ok_def win_def)

lemma only_out_calm: "only_out d d' \<Longrightarrow> calm d d'"
  by (auto simp: only_out_def calm_def)

lemma calm_emit [simp]: "calm d (emit e d') \<longleftrightarrow> calm d d'"
  by (simp add: calm_def)

lemma calm_upd_stat [simp]: "calm d (upd_stat f d') \<longleftrightarrow> calm d d'"
  by (simp add: calm_def)

lemma calm_fold:
  assumes "fold_res f xs d = Inr d'" and "\<And>x t t'. f x t = Inr t' \<Longrightarrow> calm t t'"
  shows "calm d d'"
  using assms(1) by (rule fold_res_inv) (auto intro: calm_trans assms(2))

lemma reattach_calm: "reattach c f h old new x d = Inr d' \<Longrightarrow> calm d d'"
  by (auto simp: reattach_def)

lemma raise_token_priority_calm:
  assumes "raise_token_priority d = Inr d'"
  shows "calm d d'"
proof -
  obtain d1 d2 where "fold_res (reattach True ''Prot_handle_bcast'' H_Prot_handle_bcast HIGH_PRIORITY MEDIUM_PRIORITY)
      (Bcast_channels (net d)) d = Inr d1"
    and "fold_res (reattach False ''Prot_handle_bcast'' H_Prot_handle_token MEDIUM_PRIORITY HIGH_PRIORITY)
      (Token_channels (net d1)) d1 = Inr d2"
    and d': "d' = upd_prot (\<lambda>p. p\<lparr> Token_has_priority := True \<rparr>) d2"
    using assms by (auto simp: raise_token_priority_def)
  then have "calm d d1" "calm d1 d2" by (blast intro: calm_fold reattach_calm)+
  moreover have "calm d2 d'" by (simp add: calm_def d' win_def)
  ultimately show ?thesis by (blast intro: calm_trans)
qed

lemma lower_token_priority_calm:
  assumes "lower_token_priority d = Inr d'"
  shows "calm d d'"
proof -
  obtain d1 d2 where "fold_res (reattach False ''Prot_handle_token'' H_Prot_handle_bcast MEDIUM_PRIORITY HIGH_PRIORITY)
      (Bcast_channels (net d)) d = Inr d1"
    and "fold_res (reattach False ''Prot_handle_token'' H_Prot_handle_token HIGH_PRIORITY MEDIUM_PRIORITY)
      (Token_channels (net d1)) d1 = Inr d2"
    and d': "d' = upd_prot (\<lambda>p. p\<lparr> Token_has_priority := False \<rparr>) d2"
    using assms by (auto simp: lower_token_priority_def)
  then have "calm d d1" "calm d1 d2" by (blast intro: calm_fold reattach_calm)+
  moreover have "calm d2 d'" by (simp add: calm_def d' win_def)
  ultimately show ?thesis by (blast intro: calm_trans)
qed

lemma bcast_timers_calm: "bcast_timers d = Inr d' \<Longrightarrow> calm d d'"
  by (auto simp: bcast_timers_def Let_def split: if_splits)

lemma bcast_flip_head:
  assumes "bcast_flip (h, body) = Inr (h', body')"
  shows "p_seq h' = p_seq h" "p_type h' = p_type h" "p_proc_id h' = p_proc_id h"
  using assms by (auto simp: bcast_flip_def Let_def split: if_splits)

text \<open>A packet is put into an empty entry of the window.\<close>

lemma window_ok_insert:
  assumes "window_ok p" and "Last_discarded p < i" "i \<le> Last_discarded p + 8192" "exist p i = 0"
    and "pi_exist x = 1" "p_seq (pi_head x) = i" "service_ok (p_type (pi_head x))"
  shows "window_ok ((set_pkt i x p)\<lparr> Highest_seq := max (Highest_seq p) i \<rparr>)"
proof -
  let ?p = "(set_pkt i x p)\<lparr> Highest_seq := max (Highest_seq p) i \<rparr>"
  have gap: "My_aru p < i" using window_ok_entry [OF assms(1-3)] assms(4) by (auto simp: entry_ok_def)
  have pk: "pkt ?p j = (if slot j = slot i then x else pkt p j)" for j
    by (simp add: pkt_def set_pkt_def)
  have cnt: "Highest_seq ?p = max (Highest_seq p) i" "My_aru ?p = My_aru p" "Last_delivered ?p = Last_delivered p"
    by (simp_all add: set_pkt_def)
  have "entry_ok ?p j" if j: "Last_discarded p < j" "j \<le> Last_discarded p + 8192" for j
  proof (cases "j = i")
    case True
    have "Last_delivered p \<le> My_aru p" using assms(1) by (simp add: window_ok_def)
    then show ?thesis using True gap assms(5-7) unfolding entry_ok_def cnt pk by simp
  next
    case False
    then have "slot j \<noteq> slot i" using slot_inj [OF j assms(2,3)] by blast
    then show ?thesis using window_ok_entry [OF assms(1) j] unfolding entry_ok_def cnt pk
      by (auto simp: le_max_iff_disj)
  qed
  then show ?thesis using assms(1-3) gap by (auto simp: window_ok_def set_pkt_def)
qed

lemma bcast_deliver_ok:
  assumes "window_ok ((prot d)\<lparr> Highest_seq := max (Highest_seq (prot d)) (p_seq h) \<rparr>)"
    and "p_seq h \<le> Last_discarded (prot d) + 8192" and "bcast_deliver h d = Inr d'"
    and "State (memb d) \<noteq> EVS" and "Last_discarded (prot d) = Aru (prot d)" and "Send_pack_queue (prot d) = []"
  shows "ring_ok d'"
proof -
  let ?d = "upd_prot (\<lambda>p. p\<lparr> Highest_seq := (if Highest_seq p < p_seq h then p_seq h else Highest_seq p) \<rparr>) d"
  have "prot ?d = (prot d)\<lparr> Highest_seq := max (Highest_seq (prot d)) (p_seq h) \<rparr>" by (auto simp: max_def)
  then have w: "window_ok (prot ?d)" using assms(1) by (simp only:)
  obtain e where e: "(if p_seq h = My_aru (prot ?d) + 1
      then Deliver_agreed_packets (upd_prot (advance_my_aru (p_seq h)) ?d)
      else Deliver_reliable_packets (p_seq h) 1 ?d) = Inr e"
      and d': "d' = upd_stat (\<lambda>g. g\<lparr> g_packet_recv := g_packet_recv g + 1, g_my_aru := My_aru (prot e),
        g_highest_seq := Highest_seq (prot e) \<rparr>) e"
    using assms(3) by (auto simp: bcast_deliver_def Let_def)
  have "window_ok (prot e) \<and> delivery_frame (upd_prot (advance_my_aru (p_seq h)) ?d) e \<and>
      Last_discarded (prot e) = Last_discarded (prot d)
    \<or> window_ok (prot e) \<and> delivery_frame ?d e \<and> Last_discarded (prot e) = Last_discarded (prot d)"
  proof (cases "p_seq h = My_aru (prot ?d) + 1")
    case True
    then have "window_ok (prot (upd_prot (advance_my_aru (p_seq h)) ?d))"
      using window_ok_advance(1) [OF w] by simp
    then show ?thesis
      using Deliver_agreed_window_ok(1,4) [of "upd_prot (advance_my_aru (p_seq h)) ?d" e] Deliver_agreed_frame e True
      by (simp add: advance_my_aru_def)
  next
    case False
    have "window_ok (prot e) \<and> deliver_frame ?d e"
      using Deliver_reliable_ok [OF w, of "p_seq h" 1 e] e False assms(2) by simp
    then show ?thesis using deliver_frame_weaken deliver_frameD(10) [of ?d e] by auto
  qed
  then show ?thesis
    using assms(4-6) delivery_frameD(2,6,9) [of "upd_prot (advance_my_aru (p_seq h)) ?d" e]
      delivery_frameD(2,6,9) [of ?d e]
    by (auto simp: ring_ok_def d' advance_my_aru_def)
qed

lemma bcast_insert_ok:
  assumes "ring_ok d" and "bcast_insert h body d = Inr d'"
    and "p_seq h \<le> Last_discarded (prot d) + 8192" and "service_ok (p_type h)"
  shows "ring_ok d'"
proof -
  let ?p = "prot d" and ?s = "p_seq h"
  let ?i = "Conf_proc_ref_by_id_in_conf (Config (conf d)) (p_proc_id h)"
  let ?d1 = "upd_prot (\<lambda>p. set_pkt ?s ((pkt p ?s)\<lparr> pi_proc_index := ?i \<rparr>) p) d"
  note w = assms(1) [unfolded ring_ok_def]
  consider "d' = d" | "Last_discarded ?p < ?s" "exist ?p ?s = 0" using assms(2) by (auto simp: bcast_insert_def split: if_splits)
  then show ?thesis
  proof cases
    case 2
    note in_win = 2(1) assms(3)
    have "window_ok (prot ?d1)"
    proof -
      have "entry_ok (prot ?d1) j = entry_ok ?p j" for j
        by (simp add: entry_ok_def pkt_def set_pkt_def)
      then show ?thesis using w by (simp add: window_ok_def set_pkt_def)
    qed
    then have r1: "ring_ok ?d1" using w by (simp add: ring_ok_def set_pkt_def)
    show ?thesis
    proof (cases "?i < 0")
      case True
      then show ?thesis using assms(2) 2 r1 by (simp add: bcast_insert_def Let_def)
    next
      case False
      then obtain h' body' where fl: "bcast_flip (h, body) = Inr (h', body')"
        using assms(2) 2 by (auto simp: bcast_insert_def Let_def)
      note hd = bcast_flip_head [OF fl]
      let ?x = "(pkt (prot ?d1) ?s)\<lparr> pi_head := h', pi_body := body', pi_exist := 1 \<rparr>"
      define d2 where "d2 = upd_prot (set_pkt ?s ?x) ?d1"
      have d2: "upd_prot (\<lambda>p. set_pkt (p_seq h') ((pkt p (p_seq h'))\<lparr> pi_head := h', pi_body := body', pi_exist := 1 \<rparr>) p) ?d1 = d2"
        by (simp add: hd(1) upd_prot_def d2_def)
      let ?m = "if FC_accelerated_ring d2 \<and> \<not> Token_has_priority (prot d2) \<and>
              p_token_round h' > Received_token_rounds (prot d2) \<and> p_transmiter_id h' = Prev_proc_id (prot d2)
           then raise_token_priority d2 else Inr d2"
      have "bcast_insert h body d = bind_res ?m (bcast_deliver h')"
        unfolding bcast_insert_def Let_def using 2 False fl by (simp only: d2 not_le if_False bind_res_Inr split_conv) simp
      then have "bind_res ?m (bcast_deliver h') = Inr d'" using assms(2) by (simp only:)
      then obtain d3 where m: "?m = Inr d3" and dl: "bcast_deliver h' d3 = Inr d'" by (rule bind_res_elim)
      have "calm d2 d3" using m by (auto split: if_splits intro: raise_token_priority_calm)
      note d3 = this dl
      have e0: "exist (prot ?d1) ?s = 0" using 2(2) by (simp add: pkt_set_pkt)
      have ld: "Last_discarded (prot ?d1) = Last_discarded ?p" by (simp add: set_pkt_def)
      have "window_ok ((set_pkt ?s ?x (prot ?d1))\<lparr> Highest_seq := max (Highest_seq (prot ?d1)) ?s \<rparr>)"
        using r1 in_win e0 hd assms(4) ld by (intro window_ok_insert) (auto simp: ring_ok_def)
      moreover have "win ((prot d3)\<lparr> Highest_seq := max (Highest_seq (prot d3)) (p_seq h') \<rparr>) =
          win ((set_pkt ?s ?x (prot ?d1))\<lparr> Highest_seq := max (Highest_seq (prot ?d1)) ?s \<rparr>)"
        using d3(1) hd(1) by (simp add: calm_def win_def set_pkt_def d2_def)
      ultimately have "window_ok ((prot d3)\<lparr> Highest_seq := max (Highest_seq (prot d3)) (p_seq h') \<rparr>)"
        using window_ok_win by blast
      then show ?thesis
        using d3 w in_win hd(1)
        by (intro bcast_deliver_ok [OF _ _ d3(2)]) (auto simp: calm_def win_def set_pkt_def d2_def)
    qed
  qed (use assms in simp)
qed

end
