(* ===== verification/Token_Invariant.thy ===== *)
theory Token_Invariant
  imports Ring_Invariant
begin

text \<open>
  A pass of the token outside the EVS phase: the invariant of the packet window is kept, no
  counter falls, and what the daemon takes as stable never exceeds what it has itself.
\<close>

section \<open>The parts of a pass\<close>

lemma sendable_quiet:
  assumes "quiet d d'" and "Send_pack_queue (prot d') = Send_pack_queue (prot d)" and "sendable d"
  shows "sendable d'"
  using assms window_ok_quiet [OF assms(1)] queued_ok_quiet [OF assms(1)] net_ok_quiet [OF assms(1)]
    quietD [OF assms(1)]
  by (simp add: sendable_def send_queue_ok_def down_queue_of_def)

lemma reattach_out: "reattach c f h old new x d = Inr d' \<Longrightarrow> only_out d d'"
  by (auto simp: reattach_def intro: only_out_trans [OF only_out_emit only_out_emit])

lemma reattach_all_out:
  assumes "fold_res (reattach c f h old new) xs d = Inr d'"
  shows "only_out d d'"
  using assms by (rule fold_res_inv) (auto intro: only_out_trans reattach_out)

lemma token_accept_ok:
  assumes "token_accept t d = Inr d'"
  shows "\<exists>e. calm (upd_prot (\<lambda>p. p\<lparr> Highest_seq := max (Highest_seq p) (t_seq t) \<rparr>) d) d' \<and>
    conf d' = conf d \<and> memb d' = memb d \<and> fc d' = fc d \<and> net d' = net d \<and> env d' = env d \<and>
    prot d' = (prot d)\<lparr> Highest_seq := max (Highest_seq (prot d)) (t_seq t),
      Received_token_rounds := Received_token_rounds (prot d) + 1, Token_has_priority := e \<rparr>"
proof -
  let ?d = "upd_prot (\<lambda>p. p\<lparr> Highest_seq := (if Highest_seq p < t_seq t then t_seq t else Highest_seq p),
                Received_token_rounds := Received_token_rounds p + 1 \<rparr>) d"
  have m: "(if Highest_seq (prot d) < t_seq t then t_seq t else Highest_seq (prot d)) = max (Highest_seq (prot d)) (t_seq t)"
    by auto
  have "\<exists>e. conf d' = conf d \<and> memb d' = memb d \<and> fc d' = fc d \<and> net d' = net d \<and> env d' = env d \<and>
      prot d' = (prot ?d)\<lparr> Token_has_priority := e \<rparr>"
  proof (cases "Token_has_priority (prot ?d)")
    case True
    then have "lower_token_priority ?d = Inr d'" using assms by (simp add: token_accept_def Let_def)
    then obtain d1 d2 where "only_out ?d d1" "only_out d1 d2"
        "d' = upd_prot (\<lambda>p. p\<lparr> Token_has_priority := False \<rparr>) d2"
      by (auto simp: lower_token_priority_def dest!: reattach_all_out)
    then show ?thesis using only_outD [of ?d d1] only_outD [of d1 d2] by (intro exI [of _ False]) simp
  next
    case False
    then have "d' = ?d" using assms by (simp add: token_accept_def Let_def)
    then show ?thesis using False by (intro exI [of _ False]) simp
  qed
  then show ?thesis by (auto simp: calm_def win_def m)
qed

lemma stamp_token_fields [simp]:
  "t_aru (stamp_token d t) = t_aru t" "t_seq (stamp_token d t) = t_seq t" "t_rtr_len (stamp_token d t) = t_rtr_len t"
  by (simp_all add: stamp_token_def)

lemma token_transmit_out:
  assumes "(if c then bind_res (Net_send_token t (Requests rtr) d) (\<lambda>(t, d).
            if Get_retrans (t_type t) > 1
            then bind_res (Net_send_token t (Requests rtr) d) (\<lambda>(t, d). Net_send_token t (Requests rtr) d)
            else Inr (t, d))
        else Inr (t, d)) = Inr (t', d')"
  shows "only_out d d' \<and> t_aru t' = t_aru t \<and> t_seq t' = t_seq t"
proof (cases c)
  case True
  then obtain t1 d1 where 1: "Net_send_token t (Requests rtr) d = Inr (t1, d1)"
      and r: "(if Get_retrans (t_type t1) > 1
            then bind_res (Net_send_token t1 (Requests rtr) d1) (\<lambda>(t, d). Net_send_token t (Requests rtr) d) else Inr (t1, d1)) = Inr (t', d')"
    using assms by (auto elim: bind_res_elim)
  note o1 = Net_send_token_out [OF 1]
  show ?thesis
  proof (cases "Get_retrans (t_type t1) > 1")
    case True
    then obtain t2 d2 where 2: "Net_send_token t1 (Requests rtr) d1 = Inr (t2, d2)" and 3: "Net_send_token t2 (Requests rtr) d2 = Inr (t', d')"
      using r by (auto elim: bind_res_elim)
    show ?thesis using o1 Net_send_token_out [OF 2] Net_send_token_out [OF 3] by (auto intro: only_out_trans)
  qed (use r o1 in auto)
qed (use assms in simp)

lemma token_send_ok:
  assumes "token_send leader t rtr d = Inr (t', d')" and "send_queue_ok (prot d)" and "net_ok d"
  shows "Send_pack_queue (prot d') = []" and "t_aru t' = t_aru t" and "t_seq t' = t_seq t"
    and "window_ok (prot d') \<longleftrightarrow> window_ok (prot d)" and "memb d' = memb d"
    and "Aru (prot d') = Aru (prot d)" and "My_aru (prot d') = My_aru (prot d)"
    and "Highest_seq (prot d') = Highest_seq (prot d)" and "Last_discarded (prot d') = Last_discarded (prot d)"
    and "Last_token (prot d') = Last_token (prot d)" and "conf d' = conf d"
proof -
  let ?rest = "\<lambda>(t, d).
          let d = upd_prot (\<lambda>p. p\<lparr> Token_rounds := Token_rounds p + 1 \<rparr>) d;
              d = (if leader then emit (E_queue Prot_token_hurry_event (Hurry_timeout (prot d))) d else d);
              d = emit (E_queue Memb_token_loss_event (Token_timeout (prot d))) d
          in bind_res (Prot_flush_bcast d) (\<lambda>d. Inr (t, d))"
  obtain t1 d1 where sent: "(if \<not> (leader \<and> To_hold_token d) then
          bind_res (Net_send_token t (Requests rtr) d) (\<lambda>(t, d).
            if Get_retrans (t_type t) > 1
            then bind_res (Net_send_token t (Requests rtr) d) (\<lambda>(t, d). Net_send_token t (Requests rtr) d)
            else Inr (t, d))
        else Inr (t, d)) = Inr (t1, d1)" and rest: "?rest (t1, d1) = Inr (t', d')"
    using assms(1) unfolding token_send_def by (elim bind_res_elim) auto
  have first: "only_out d d1" "t_aru t1 = t_aru t" "t_seq t1 = t_seq t" using token_transmit_out [OF sent] by auto
  have t': "t' = t1" using rest by (auto simp: Let_def)
  let ?d2 = "emit (E_queue Memb_token_loss_event (Token_timeout (prot d1)))
        (if leader then emit (E_queue Prot_token_hurry_event (Hurry_timeout (prot d1)))
           (upd_prot (\<lambda>p. p\<lparr> Token_rounds := Token_rounds p + 1 \<rparr>) d1)
         else upd_prot (\<lambda>p. p\<lparr> Token_rounds := Token_rounds p + 1 \<rparr>) d1)"
  have p2: "prot ?d2 = (prot d)\<lparr> Token_rounds := Token_rounds (prot d) + 1 \<rparr>" "memb ?d2 = memb d" "net ?d2 = net d" "conf ?d2 = conf d"
    using only_outD [OF first(1)] by auto
  have "send_queue_ok (prot ?d2)" using assms(2) unfolding p2
    by (simp add: send_queue_ok_def queued_ok_def pkt_def)
  moreover have "net_ok ?d2" using assms(3) unfolding net_ok_def p2 .
  ultimately obtain d3 where d3: "Prot_flush_bcast ?d2 = Inr d3" "quiet ?d2 d3" "Send_pack_queue (prot d3) = []"
    using Prot_flush_bcast_ok by blast
  have d': "d' = d3" using rest d3(1) by (auto simp: Let_def split: if_splits)
  have "win (prot ?d2) = win (prot d)" unfolding p2 by (simp add: win_def)
  then have "window_ok (prot ?d2) = window_ok (prot d)" by (rule window_ok_win)
  moreover note q = quietD [OF d3(2), unfolded p2] window_ok_quiet [OF d3(2)]
  ultimately show "Send_pack_queue (prot d') = []" "t_aru t' = t_aru t" "t_seq t' = t_seq t"
    "window_ok (prot d') \<longleftrightarrow> window_ok (prot d)" "memb d' = memb d"
    "Aru (prot d') = Aru (prot d)" "My_aru (prot d') = My_aru (prot d)"
    "Highest_seq (prot d') = Highest_seq (prot d)" "Last_discarded (prot d') = Last_discarded (prot d)"
    "Last_token (prot d') = Last_token (prot d)" "conf d' = conf d"
    using d3(3) first t' by (simp_all add: d')
qed

section \<open>The work on the token\<close>

lemma FC_allowed_room:
  assumes "window_ok (prot d)" and "Last_discarded (prot d) = Aru (prot d)" and "0 \<le> Personal_window (fc d)"
    and "Personal_window (fc d) \<le> 8192 - MAX_SEQ_GAP"
  shows "Highest_seq (prot d) + int (nat (FC_allowed f n d)) \<le> Last_discarded (prot d) + 8192"
  using assms by (auto simp: FC_allowed_min window_ok_def)

lemma token_work_run:
  assumes "Answer_retrans rtr d = Inr (a, d1)" and "sendable d"
    and "Last_discarded (prot d) = Aru (prot d)" and "0 \<le> Personal_window (fc d)"
    and "Personal_window (fc d) \<le> 8192 - MAX_SEQ_GAP"
  shows "\<exists>t' k d'. token_work t rtr d = Inr (t', a, int k, d') \<and> t_aru t' = t_aru t \<and> sendable d' \<and>
    memb d' = memb d \<and> conf d' = conf d \<and> Highest_seq (prot d') = Highest_seq (prot d) + int k \<and>
    Aru (prot d') = Aru (prot d) \<and> My_aru (prot d') = My_aru (prot d) \<and>
    Last_discarded (prot d') = Last_discarded (prot d) \<and> Last_token (prot d') = Last_token (prot d)"
proof -
  note ans = assms(1) and q = Answer_retrans_quiet [OF assms(1)]
  let ?d1 = "upd_stat (\<lambda>g. g\<lparr> g_retrans := g_retrans g + a_num_retrans a \<rparr>) d1"
  let ?n = "FC_allowed (t_flow_control t) (a_num_retrans a) ?d1"
  have s1: "sendable d1" using sendable_quiet [OF q(1,2) assms(2)] .
  then have s2: "sendable ?d1" by (simp add: sendable_def net_ok_def)
  have "Highest_seq (prot ?d1) + int (nat ?n) \<le> Last_discarded (prot ?d1) + 8192"
    using s1 quietD [OF q(1)] assms(3-5) by (intro FC_allowed_room) (auto simp: sendable_def)
  then obtain k d2 where snd: "send_loop (nat ?n) ?d1 = Inr (int k, d2)" "sent_frame ?d1 d2" "sendable d2"
      "Highest_seq (prot d2) = Highest_seq (prot ?d1) + int k"
    using send_loop_ok [OF s2] by meson
  note fr = sent_frameD [OF snd(2)] and qd = quietD [OF q(1)]
  define d' where "d' = upd_prot (\<lambda>p. p\<lparr> Last_num_retrans := a_num_retrans a, Last_num_sent := int k \<rparr>)
      (upd_stat (\<lambda>g. g\<lparr> g_packet_sent := g_packet_sent g + int k \<rparr>) d2)"
  have tw: "\<exists>t'. token_work t rtr d = Inr (t', a, int k, d') \<and> t_aru t' = t_aru t"
    unfolding token_work_def Send_new_packets_def Let_def ans bind_res_Inr split_conv snd(1) d'_def by simp
  have "win (prot d') = win (prot d2)" by (simp add: d'_def win_def)
  then have "window_ok (prot d')" using snd(3) unfolding sendable_def by (blast dest: window_ok_win)
  then have "sendable d'" using snd(3)
    by (simp add: sendable_def d'_def net_ok_def send_queue_ok_def queued_ok_def pkt_def down_queue_of_def)
  moreover have "memb d' = memb d" "conf d' = conf d" "Highest_seq (prot d') = Highest_seq (prot d) + int k"
    "Aru (prot d') = Aru (prot d)" "My_aru (prot d') = My_aru (prot d)"
    "Last_discarded (prot d') = Last_discarded (prot d)" "Last_token (prot d') = Last_token (prot d)"
    using fr qd snd(4) by (simp_all add: d'_def)
  ultimately show ?thesis using tw by blast
qed

lemma token_work_ok:
  assumes "token_work t rtr d = Inr (t', a, n, d')" and "sendable d"
    and "Last_discarded (prot d) = Aru (prot d)" and "0 \<le> Personal_window (fc d)"
    and "Personal_window (fc d) \<le> 8192 - MAX_SEQ_GAP"
  shows "sendable d'" and "memb d' = memb d" and "conf d' = conf d" and "0 \<le> n"
    and "Highest_seq (prot d') = Highest_seq (prot d) + n" and "Aru (prot d') = Aru (prot d)"
    and "My_aru (prot d') = My_aru (prot d)" and "Last_discarded (prot d') = Last_discarded (prot d)"
    and "Last_token (prot d') = Last_token (prot d)"
proof -
  obtain d1 where ans: "Answer_retrans rtr d = Inr (a, d1)"
    using assms(1) by (auto simp: token_work_def Let_def)
  show "sendable d'" "memb d' = memb d" "conf d' = conf d" "0 \<le> n"
    "Highest_seq (prot d') = Highest_seq (prot d) + n" "Aru (prot d') = Aru (prot d)"
    "My_aru (prot d') = My_aru (prot d)" "Last_discarded (prot d') = Last_discarded (prot d)"
    "Last_token (prot d') = Last_token (prot d)"
    using token_work_run [OF ans assms(2-5), of t] assms(1) by auto
qed

lemma token_aru_le:
  assumes "State (memb d) \<noteq> EVS"
  shows "t_aru (token_aru t d) \<le> My_aru (prot d)" and "t_seq (token_aru t d) = Highest_seq (prot d)"
  using assms by (auto simp: token_aru_def Let_def)

lemma token_next_arq_fields [simp]:
  "t_aru (token_next_arq l t) = t_aru t" "t_seq (token_next_arq l t) = t_seq t" "t_rtr_len (token_next_arq l t) = t_rtr_len t"
  by (simp_all add: token_next_arq_def)

lemma token_my_aru_ok:
  assumes "window_ok (prot d)"
  shows "window_ok (prot (token_my_aru d))" and "My_aru (prot d) \<le> My_aru (prot (token_my_aru d))"
  using window_ok_advance [OF assms refl] by (simp_all add: token_my_aru_def Let_def)

lemma token_my_aru_frame [simp]:
  "memb (token_my_aru d) = memb d" "conf (token_my_aru d) = conf d" "net (token_my_aru d) = net d"
  "Aru (prot (token_my_aru d)) = Aru (prot d)" "Highest_seq (prot (token_my_aru d)) = Highest_seq (prot d)"
  "Last_discarded (prot (token_my_aru d)) = Last_discarded (prot d)" "Last_token (prot (token_my_aru d)) = Last_token (prot d)"
  "Send_pack_queue (prot (token_my_aru d)) = Send_pack_queue (prot d)" "Packets (prot (token_my_aru d)) = Packets (prot d)"
  by (simp_all add: token_my_aru_def Let_def advance_my_aru_def)

section \<open>Delivery after the pass\<close>

lemma Discard_packets_ok:
  assumes "window_ok (prot d)" and "State (memb d) \<noteq> EVS" and "Discard_packets d = Inr d'"
  shows "window_ok (prot d')" and "delivery_frame d d'" and "Last_discarded (prot d') = Aru (prot d)"
proof -
  have "window_ok (prot d') \<and> delivery_frame d d' \<and> Last_discarded (prot d') = Aru (prot d)"
  proof (cases "Aru (prot d) \<le> Last_discarded (prot d)")
    case True
    then show ?thesis using assms by (auto simp: Discard_packets_def window_ok_def)
  next
    case False
    then have "Discard_stable d = Inr d'" using assms(2,3) by (simp add: Discard_packets_def)
    then show ?thesis using Discard_stable_ok(1,4) [OF assms(1)] Discard_stable_frame by blast
  qed
  then show "window_ok (prot d')" "delivery_frame d d'" "Last_discarded (prot d') = Aru (prot d)" by auto
qed

lemma token_deliver_ok:
  assumes "window_ok (prot d)" and "State (memb d) \<noteq> EVS" and "token_deliver n d = Inr d'"
  shows "window_ok (prot d')" and "delivery_frame d d'" and "Last_discarded (prot d') = Aru (prot d)"
proof -
  obtain d1 d2 d3 where 1: "Discard_packets d = Inr d1" and 2: "Deliver_agreed_packets d1 = Inr d2"
      and 3: "Deliver_reliable_packets (Highest_seq (prot d2) - n + 1) n d2 = Inr d3"
      and 4: "(if State (memb d3) = EVS \<and> Token_rounds (prot d3) > MAX_EVS_ROUNDS
               then Memb_token_loss d3 else Inr d3) =
        Inr d3 \<longrightarrow> d' = upd_stat (\<lambda>g. g\<lparr> g_highest_seq := Highest_seq (prot d3), g_aru := Aru (prot d3),
              g_token_rounds := Token_rounds (prot d3) \<rparr>) d3"
    using assms(3) unfolding token_deliver_def by (elim bind_res_elim) auto
  note a = Discard_packets_ok [OF assms(1,2) 1]
  note b = Deliver_agreed_window_ok [OF a(1) 2] Deliver_agreed_frame [OF 2]
  have le: "Highest_seq (prot d2) - n + 1 + n - 1 \<le> Last_discarded (prot d2) + 8192"
    using b(1) by (simp add: window_ok_def)
  note c = Deliver_reliable_ok [OF b(1) 3 le]
  have f: "delivery_frame d d3"
    using a(2) b(8) c deliver_frame_weaken by (blast intro: delivery_frame_trans)
  have "State (memb d3) \<noteq> EVS" using delivery_frameD(2) [OF f] assms(2) by simp
  then have d': "d' = upd_stat (\<lambda>g. g\<lparr> g_highest_seq := Highest_seq (prot d3), g_aru := Aru (prot d3),
              g_token_rounds := Token_rounds (prot d3) \<rparr>) d3" using 4 by simp
  show "window_ok (prot d')" using c by (simp add: d')
  show "delivery_frame d d'" using f by (simp add: d' delivery_frame_def)
  show "Last_discarded (prot d') = Aru (prot d)"
    using a(3) b(4) c deliver_frameD(10) [of d2 d3] by (simp add: d')
qed

section \<open>The whole pass\<close>

lemma token_accept_sendable:
  assumes "token_accept t d = Inr d'" and "ring_ok d" and "net_ok d" and "sizeof_packet_body d < 2 ^ 15"
    and "queue_wf (sizeof_packet_body d) (down_queue_of (prot d))"
    and "\<forall>l \<in> set (dq_links (down_queue_of (prot d))). service_ok (dl_type l)"
    and "t_seq t \<le> Last_discarded (prot d) + 8192"
  shows "sendable d'" and "Last_discarded (prot d') = Aru (prot d')"
proof -
  note r = assms(2) [unfolded ring_ok_def]
  obtain e where a: "conf d' = conf d" "memb d' = memb d" "fc d' = fc d" "net d' = net d" "env d' = env d"
    "prot d' = (prot d)\<lparr> Highest_seq := max (Highest_seq (prot d)) (t_seq t),
      Received_token_rounds := Received_token_rounds (prot d) + 1, Token_has_priority := e \<rparr>"
    using token_accept_ok [OF assms(1)] by blast
  have "win (prot d') = win ((prot d)\<lparr> Highest_seq := max (Highest_seq (prot d)) (t_seq t) \<rparr>)"
    unfolding a by (simp add: win_def)
  moreover have "window_ok ((prot d)\<lparr> Highest_seq := max (Highest_seq (prot d)) (t_seq t) \<rparr>)"
    using r assms(7) by (intro window_ok_raise) (auto simp: window_ok_def)
  ultimately have w1: "window_ok (prot d')" using window_ok_win by blast
  have "sizeof_packet_body d' = sizeof_packet_body d" by (simp add: a(5))
  then show "sendable d'"
    using w1 assms(3-6) r unfolding sendable_def by (simp add: send_queue_ok_def net_ok_def down_queue_of_def a)
  show "Last_discarded (prot d') = Aru (prot d')" using r by (simp add: a)
qed

text \<open>From the requests on: the parts of the second half and the states between them.\<close>

lemma token_pass_on_parts:
  assumes "State (memb d) \<noteq> EVS" and "Conf_leader (Membership (memb d)) = Inr l"
  shows "token_pass_on t a n d =
    bind_res (token_send (l = pr_id (My (conf d)))
        (token_next_arq (l = pr_id (My (conf d)))
          (token_aru (t\<lparr> t_rtr_len := to_int16u (rtr_bytes (token_requests a (token_my_aru d))) \<rparr>) (token_my_aru d)))
        (token_requests a (token_my_aru d)) (token_my_aru d)) (\<lambda>(t, d).
      bind_res (token_update_aru t d) (token_deliver n))"
proof -
  have "token_commit (token_my_aru d) = token_my_aru d" using assms(1) by (simp add: token_commit_def)
  moreover have "Memb_active_ptr (token_my_aru d) = Membership (memb d)" using assms(1) by (simp add: Memb_active_ptr_def)
  ultimately show ?thesis
    unfolding token_pass_on_def Let_def using assms(2) by simp
qed

lemma token_update_aru_ok:
  assumes "token_update_aru t d = Inr d'" and "window_ok (prot d)" and "t_aru t \<le> My_aru (prot d)"
  shows "window_ok (prot d')" and "Aru (prot d) \<le> Aru (prot d')" and "memb d' = memb d" and "conf d' = conf d"
    and "My_aru (prot d') = My_aru (prot d)" and "Highest_seq (prot d') = Highest_seq (prot d)"
    and "Last_token (prot d') = t" and "Send_pack_queue (prot d') = Send_pack_queue (prot d)"
proof -
  let ?new = "if t_aru t > t_aru (Last_token (prot d)) then t_aru (Last_token (prot d)) else t_aru t"
  have new: "Aru (prot d) \<le> ?new" "?new \<le> My_aru (prot d)" and d': "d' = upd_prot (\<lambda>p. p\<lparr> Aru := ?new,
              Token_counter := (if Highest_seq p = ?new then Token_counter p + 1 else 0), Last_token := t \<rparr>) d"
    using assms(1,3) by (auto simp: token_update_aru_def Let_def)
  show "window_ok (prot d')" using assms(2) new by (auto simp: d' window_ok_def entry_ok_def pkt_def)
  show "Aru (prot d) \<le> Aru (prot d')" using new(1) by (simp add: d')
qed (use assms(1) in \<open>auto simp: token_update_aru_def Let_def\<close>)

lemma token_pass_on_ok:
  assumes "sendable d" and "State (memb d) \<noteq> EVS" and "token_pass_on t a n d = Inr d'"
  shows "ring_ok d'" and "Aru (prot d) \<le> Aru (prot d')" and "My_aru (prot d) \<le> My_aru (prot d')"
    and "Highest_seq (prot d') = Highest_seq (prot d)"
    and "t_seq (Last_token (prot d')) = Highest_seq (prot d')" and "t_aru (Last_token (prot d')) \<le> My_aru (prot d')"
    and "memb d' = memb d" and "conf d' = conf d"
proof -
  define e where "e = token_my_aru d"
  have "Memb_active_ptr (token_commit e) = Membership (memb d)"
    using assms(2) by (simp add: token_commit_def Memb_active_ptr_def e_def)
  then obtain l where l: "Conf_leader (Membership (memb d)) = Inr l"
    using assms(3) unfolding token_pass_on_def Let_def e_def [symmetric] by (elim bind_res_elim) simp
  let ?t = "token_aru (t\<lparr> t_rtr_len := to_int16u (rtr_bytes (token_requests a e)) \<rparr>) e"
  obtain t1 d1 where sd: "token_send (l = pr_id (My (conf d))) (token_next_arq (l = pr_id (My (conf d))) ?t)
        (token_requests a e) e = Inr (t1, d1)"
      and rest: "bind_res (token_update_aru t1 d1) (token_deliver n) = Inr d'"
    using assms(3) unfolding token_pass_on_parts [OF assms(2) l] e_def [symmetric]
    by (elim bind_res_elim) auto
  have wd: "window_ok (prot d)" using assms(1) by (simp add: sendable_def)
  note we = token_my_aru_ok [OF wd, folded e_def]
  have st: "State (memb e) \<noteq> EVS" using assms(2) by (simp add: e_def)
  have q: "send_queue_ok (prot e)" "net_ok e"
    using assms(1) by (simp_all add: sendable_def send_queue_ok_def queued_ok_def pkt_def net_ok_def e_def)
  note w1 = token_send_ok [OF sd q]
  have t1: "t_aru t1 \<le> My_aru (prot d1)" "t_seq t1 = Highest_seq (prot d1)"
    using w1 token_aru_le [OF st] by simp_all
  obtain d2 where up: "token_update_aru t1 d1 = Inr d2" and dl: "token_deliver n d2 = Inr d'"
    using rest by (rule bind_res_elim)
  have wd1: "window_ok (prot d1)" using w1(4) we(1) by blast
  note w2 = token_update_aru_ok [OF up wd1 t1(1)]
  have st2: "State (memb d2) \<noteq> EVS" using st w1(5) w2(3) by simp
  note w3 = token_deliver_ok [OF w2(1) st2 dl]
  note f3 = delivery_frameD [OF w3(2)]
  show "ring_ok d'" using w3 f3 st2 w1(1) w2(8) by (simp add: ring_ok_def)
  show "Aru (prot d) \<le> Aru (prot d')" using f3(6) w2(2) w1(6) by (simp add: e_def)
  show "My_aru (prot d) \<le> My_aru (prot d')" using f3(7) w2(5) w1(7) we(2) by simp
  show "Highest_seq (prot d') = Highest_seq (prot d)" using f3(8) w2(6) w1(8) by (simp add: e_def)
  show "t_seq (Last_token (prot d')) = Highest_seq (prot d')" "t_aru (Last_token (prot d')) \<le> My_aru (prot d')"
    using f3(7,8,10) t1 w2(5-7) by simp_all
  show "memb d' = memb d" "conf d' = conf d" using f3(1,2) w1(5,11) w2(3,4) by (simp_all add: e_def)
qed

lemma token_process_ok:
  assumes "ring_ok d" and "net_ok d" and "sizeof_packet_body d < 2 ^ 15"
    and "queue_wf (sizeof_packet_body d) (down_queue_of (prot d))"
    and "\<forall>l \<in> set (dq_links (down_queue_of (prot d))). service_ok (dl_type l)"
    and "t_seq t \<le> Last_discarded (prot d) + 8192"
    and "0 \<le> Personal_window (fc d)" and "Personal_window (fc d) \<le> 8192 - MAX_SEQ_GAP"
    and "token_process t rtr d = Inr d'"
  shows "ring_ok d'" and "Aru (prot d) \<le> Aru (prot d')" and "My_aru (prot d) \<le> My_aru (prot d')"
    and "Highest_seq (prot d) \<le> Highest_seq (prot d')" and "t_seq t \<le> Highest_seq (prot d')"
    and "t_seq (Last_token (prot d')) = Highest_seq (prot d')" and "t_aru (Last_token (prot d')) \<le> My_aru (prot d')"
    and "memb d' = memb d" and "conf d' = conf d"
proof -
  obtain d1 t2 ans n d2 where acc: "token_accept t d = Inr d1" and wk: "token_work t rtr d1 = Inr (t2, ans, n, d2)"
      and po: "token_pass_on t2 ans n d2 = Inr d'"
    using assms(9) unfolding token_process_def by (elim bind_res_elim) auto
  obtain e where a: "conf d1 = conf d" "memb d1 = memb d" "fc d1 = fc d"
    "prot d1 = (prot d)\<lparr> Highest_seq := max (Highest_seq (prot d)) (t_seq t),
      Received_token_rounds := Received_token_rounds (prot d) + 1, Token_has_priority := e \<rparr>"
    using token_accept_ok [OF acc] by blast
  note s1 = token_accept_sendable [OF acc assms(1-6)]
  note w2 = token_work_ok [OF wk s1, unfolded a(3), OF assms(7,8)]
  have "State (memb d2) \<noteq> EVS" using assms(1) w2(2) a(2) by (simp add: ring_ok_def)
  note w3 = token_pass_on_ok [OF w2(1) this po]
  show "ring_ok d'" "t_seq (Last_token (prot d')) = Highest_seq (prot d')"
    "t_aru (Last_token (prot d')) \<le> My_aru (prot d')" by (rule w3)+
  show "Aru (prot d) \<le> Aru (prot d')" "My_aru (prot d) \<le> My_aru (prot d')" "memb d' = memb d" "conf d' = conf d"
    using w3(2,3,7,8) w2(2,3,6,7) a(1,2) by (simp_all add: a(4))
  show "Highest_seq (prot d) \<le> Highest_seq (prot d')" "t_seq t \<le> Highest_seq (prot d')"
    using w3(4) w2(4,5) by (simp_all add: a(4))
qed

end
