(* ===== verification/Token_Total.thy ===== *)
theory Token_Total
  imports Token_Invariant
begin

text \<open>
  A pass of the token does not end the process: on a token that a correct predecessor sends,
  none of the consistency checks on the way fires. What may still fail is the delivery of a
  packet whose fragments another daemon made up.
\<close>

section \<open>Failures\<close>

definition delivery_error :: "fatal \<Rightarrow> bool" where
  "delivery_error e \<longleftrightarrow> e = Alarm_exit ''Deliver_packet'' \<or> e = Undefined ''Deliver_packet''"

text \<open>A computation whose only failures are those of a delivery.\<close>

definition delivers :: "'a result \<Rightarrow> bool" where
  "delivers r \<longleftrightarrow> (\<forall>e. r = Inl e \<longrightarrow> delivery_error e)"

lemma delivers_Inr [simp]: "delivers (Inr x)"
  by (simp add: delivers_def)

lemma delivers_bind:
  "delivers r \<Longrightarrow> (\<And>x. r = Inr x \<Longrightarrow> delivers (f x)) \<Longrightarrow> delivers (bind_res r f)"
  by (cases r) (auto simp: delivers_def)

lemma delivers_guard [simp]:
  "delivers (guard_res b e r) \<longleftrightarrow> (if b then delivery_error e else delivers r)"
  by (simp add: delivers_def guard_res_def)

lemma delivers_fold:
  "(\<And>x s. x \<in> set xs \<Longrightarrow> delivers (f x s)) \<Longrightarrow> delivers (fold_res f xs s)"
  by (induction xs arbitrary: s) (auto intro: delivers_bind)

lemma delivers_parse_frags: "delivers (parse_frags n body k)"
proof (induction n body k rule: parse_frags.induct)
  case (1 n body k)
  then show ?case
    by (subst parse_frags.simps) (auto simp: Let_def delivers_def delivery_error_def bind_res_eq_Inl)
qed

lemma delivers_Deliver_packet: "delivers (Deliver_packet i c d)"
  unfolding Deliver_packet_def Let_def
  by (rule delivers_bind) (auto simp: delivers_parse_frags delivery_error_def)

lemma delivers_reliable: "delivers (Deliver_reliable_packets s n d)"
  by (auto simp: Deliver_reliable_packets_def reliable_step_def Let_def
      intro!: delivers_fold delivers_Deliver_packet)

lemma delivers_agreed:
  assumes "window_ok (prot d)"
  shows "delivers (Deliver_agreed_packets d)"
proof (cases "State (memb d) = EVS \<or> Prot_delivery_threshold (prot d) > AGREED_TYPE")
  case False
  then show ?thesis
    using Deliver_agreed_packets_eq [OF assms]
    by (auto intro!: delivers_bind delivers_fold delivers_Deliver_packet simp: not_less)
qed (auto simp: Deliver_agreed_packets_def)

lemma delivers_discard:
  assumes "window_ok (prot d)" and "State (memb d) \<noteq> EVS"
  shows "delivers (Discard_packets d)"
  using assms Discard_stable_eq [OF assms(1)]
  by (auto simp: Discard_packets_def intro!: delivers_bind delivers_fold delivers_Deliver_packet)

lemma delivers_token_deliver:
  assumes "window_ok (prot d)" and "State (memb d) \<noteq> EVS"
  shows "delivers (token_deliver n d)"
  unfolding token_deliver_def
proof (intro delivers_bind delivers_discard delivers_agreed delivers_reliable)
  fix d1 d2 d3
  assume 1: "Discard_packets d = Inr d1"
  note a = Discard_packets_ok [OF assms 1]
  show "window_ok (prot d1)" using a(1) .
  assume 2: "Deliver_agreed_packets d1 = Inr d2"
    and 3: "Deliver_reliable_packets (Highest_seq (prot d2) - n + 1) n d2 = Inr d3"
  note b = Deliver_agreed_window_ok [OF a(1) 2]
  have "memb d3 = memb d2"
    using Deliver_reliable_ok [OF b(1) 3] b(1) deliver_frame_weaken [of d2 d3] delivery_frameD(2) [of d2 d3]
    by (simp add: window_ok_def)
  then have "State (memb d3) \<noteq> EVS" using b(2) delivery_frameD(2) [OF a(2)] assms(2) by simp
  then show "delivers (if State (memb d3) = EVS \<and> Token_rounds (prot d3) > MAX_EVS_ROUNDS
      then Memb_token_loss d3 else Inr d3)" by simp
qed (use assms in simp_all)

section \<open>Retransmissions\<close>

text \<open>
  A request that a member of the ring puts on the token: packets not below \<open>Aru\<close>, and a
  destination that the membership has.
\<close>

definition request_ok :: "daemon \<Rightarrow> ring_rtr \<Rightarrow> bool" where
  "request_ok d r \<longleftrightarrow> r_memb_id r = Memb_id d \<longrightarrow>
     (\<forall>s \<in> set (r_seqs r). Aru (prot d) \<le> s) \<and>
     (r_proc_id r \<noteq> - 1 \<or> r_seg_index r = - 1 \<or> r_seg_index r = pr_seg_index (My (conf d)) \<or>
       0 \<le> r_seg_index r \<and> r_seg_index r < int (length (segments (Net_membership (net d)))))"

lemma request_ok_quiet: "quiet d d' \<Longrightarrow> request_ok d' r \<longleftrightarrow> request_ok d r"
  using quietD [of d d'] by (simp add: request_ok_def Memb_id_def)

lemma Net_scast_total:
  assumes "net_ok d" and "s = pr_seg_index (My (conf d)) \<or>
    0 \<le> s \<and> s < int (length (segments (Net_membership (net d))))"
  shows "\<exists>h' d'. Net_scast s h b d = Inr (h', d')"
  using assms by (auto simp: Net_scast_def send_bcast_def net_ok_def seg_at_def guard_res_def Let_def Suc_le_eq
      split: list.splits)

lemma retransmit_total:
  assumes "net_ok d" and "request_ok d r" and "r_memb_id r = Memb_id d"
  shows "\<exists>d'. retransmit r s d = Inr d'"
proof -
  obtain h1 d1 where "Net_bcast (pi_head (pkt (prot d) s))
      (packet_payload (pi_head (pkt (prot d) s), pi_body (pkt (prot d) s))) d = Inr (h1, d1)"
    using Net_bcast_total [OF assms(1)] by blast
  moreover have "\<exists>h' d'. Net_scast (r_seg_index r) (pi_head (pkt (prot d) s))
      (packet_payload (pi_head (pkt (prot d) s), pi_body (pkt (prot d) s))) d = Inr (h', d')"
    if "r_proc_id r = - 1" "r_seg_index r \<noteq> - 1"
    using Net_scast_total [OF assms(1)] assms(2,3) that by (auto simp: request_ok_def)
  ultimately show ?thesis
    by (auto simp: retransmit_def Let_def split: prod.splits)
qed

lemma answer_seqs_total:
  assumes "net_ok d" and "request_ok d r" and "r_memb_id r = Memb_id d" and "set ss \<subseteq> set (r_seqs r)"
  shows "\<exists>a' d'. fold_res (answer_seq r) ss (a, d) = Inr (a', d') \<and> quiet d d'"
  using assms
proof (induction ss arbitrary: a d)
  case (Cons s ss)
  have "\<exists>a1 d1. answer_seq r s (a, d) = Inr (a1, d1)"
    using retransmit_total [OF Cons.prems(1-3), of s] Cons.prems(2-4)
    by (auto simp: answer_seq_def request_ok_def)
  then obtain a1 d1 where 1: "answer_seq r s (a, d) = Inr (a1, d1)" by blast
  have q: "quiet d d1" using answer_seq_quiet [OF 1] by blast
  have "\<exists>a' d'. fold_res (answer_seq r) ss (a1, d1) = Inr (a', d') \<and> quiet d1 d'"
    using Cons.prems net_ok_quiet [OF q] request_ok_quiet [OF q] quietD(2) [OF q]
    by (intro Cons.IH) (auto simp: Memb_id_def)
  then show ?case using 1 quiet_trans [OF q] by auto
qed auto

lemma Answer_retrans_total:
  assumes "net_ok d" and "\<forall>r \<in> set rtr. request_ok d r"
  shows "\<exists>a d'. Answer_retrans rtr d = Inr (a, d')"
proof -
  have "\<exists>a' d'. fold_res answer_rtr rs (a, d) = Inr (a', d') \<and> quiet d d'"
    if "net_ok d" "\<forall>r \<in> set rs. request_ok d r" for rs a d
    using that
  proof (induction rs arbitrary: a d)
    case (Cons r rs)
    obtain a1 d1 where 1: "answer_rtr r (a, d) = Inr (a1, d1)" and q: "quiet d d1"
    proof (cases "r_memb_id r = Memb_id d")
      case True
      then show ?thesis using that answer_seqs_total [OF Cons.prems(1) _ True, of "r_seqs r" a] Cons.prems(2)
        by (auto simp: answer_rtr_def)
    next
      case False
      then show ?thesis using that by (simp add: answer_rtr_def)
    qed
    have "\<exists>a' d'. fold_res answer_rtr rs (a1, d1) = Inr (a', d') \<and> quiet d1 d'"
      using Cons.prems net_ok_quiet [OF q] request_ok_quiet [OF q] by (intro Cons.IH) auto
    then show ?case using 1 quiet_trans [OF q] by auto
  qed auto
  then show ?thesis using assms unfolding Answer_retrans_def by blast
qed

section \<open>The pass\<close>

lemma reattach_total:
  assumes "\<not> c" and "0 \<le> detach_ret (env d) x old"
  shows "\<exists>d'. reattach c f h old new x d = Inr d'"
  using assms by (simp add: reattach_def)

lemma reattach_all_total:
  assumes "\<forall>x \<in> set xs. 0 \<le> detach_ret (env d) x old"
  shows "\<exists>d'. fold_res (reattach False f h old new) xs d = Inr d'"
  using assms
proof (induction xs arbitrary: d)
  case (Cons x xs)
  then obtain d1 where d1: "reattach False f h old new x d = Inr d1" using reattach_total by fastforce
  have "env d1 = env d" using only_outD [OF reattach_out [OF d1]] by simp
  then show ?case using Cons d1 by simp
qed simp

text \<open>The event loop knows the channels under the priorities the daemon gave them.\<close>

definition channels_ok :: "daemon \<Rightarrow> bool" where
  "channels_ok d \<longleftrightarrow> (Token_has_priority (prot d) \<longrightarrow>
     (\<forall>x \<in> set (Bcast_channels (net d)). 0 \<le> detach_ret (env d) x MEDIUM_PRIORITY) \<and>
     (\<forall>x \<in> set (Token_channels (net d)). 0 \<le> detach_ret (env d) x HIGH_PRIORITY))"

lemma token_accept_total:
  assumes "channels_ok d"
  shows "\<exists>d'. token_accept t d = Inr d'"
proof (cases "Token_has_priority (prot d)")
  case True
  define e where "e = upd_prot (\<lambda>p. p\<lparr> Highest_seq := (if Highest_seq p < t_seq t then t_seq t else Highest_seq p),
                Received_token_rounds := Received_token_rounds p + 1 \<rparr>) d"
  have e: "net e = net d" "env e = env d" and pr: "Token_has_priority (prot e)" using True by (simp_all add: e_def)
  obtain d1 where d1: "fold_res (reattach False ''Prot_handle_token'' H_Prot_handle_bcast MEDIUM_PRIORITY HIGH_PRIORITY)
         (Bcast_channels (net e)) e = Inr d1"
    using reattach_all_total [of "Bcast_channels (net e)" e MEDIUM_PRIORITY] assms True e
    unfolding channels_ok_def by (metis (no_types))
  have "net d1 = net d" "env d1 = env d" using only_outD [OF reattach_all_out [OF d1]] e by simp_all
  then obtain d2 where d2: "fold_res (reattach False ''Prot_handle_token'' H_Prot_handle_token HIGH_PRIORITY MEDIUM_PRIORITY)
         (Token_channels (net d1)) d1 = Inr d2"
    using reattach_all_total [of "Token_channels (net d1)" d1 HIGH_PRIORITY] assms True
    unfolding channels_ok_def by (metis (no_types))
  have "token_accept t d = lower_token_priority e" using pr by (simp add: token_accept_def e_def [symmetric])
  then show ?thesis using d1 d2 by (simp add: lower_token_priority_def)
qed (simp add: token_accept_def Let_def)

text \<open>The requests that go on with the token fit its body.\<close>

lemma rtr_bytes_append [simp]: "rtr_bytes (rs @ rs') = rtr_bytes rs + rtr_bytes rs'"
  by (simp add: rtr_bytes_def)

lemma rtr_bytes_nonneg: "0 \<le> rtr_bytes rs"
  unfolding rtr_bytes_def by (intro sum_list_nonneg) auto

lemma rtr_bytes_filter: "rtr_bytes (filter P rs) \<le> rtr_bytes rs"
  by (induction rs) (auto simp: rtr_bytes_def)

lemma token_requests_fit:
  assumes "rtr_bytes (a_kept a) \<le> sizeof_token_body"
  shows "rtr_bytes (token_requests a d) \<le> sizeof_token_body"
proof -
  let ?n = "(sizeof_token_body - rtr_bytes (a_kept a) - sizeof_ring_rtr) div sizeof_int32"
  let ?seqs = "take (nat ?n) (missing_seqs (prot d) (max_rtr_seq d))"
  have "4 * int (length ?seqs) \<le> sizeof_token_body - rtr_bytes (a_kept a) - sizeof_ring_rtr" if "1 < ?n"
  proof -
    have "int (length ?seqs) \<le> ?n" using that by simp
    then show ?thesis by linarith
  qed
  then show ?thesis using assms
    by (auto simp: token_requests_def Let_def rtr_bytes_def [of "[_]"] simp del: length_take)
qed

lemma Net_send_token_total:
  assumes "t_rtr_len t = to_int16u (rtr_bytes rs)" and "rtr_bytes rs \<le> sizeof_token_body"
  shows "\<exists>d'. Net_send_token t (Requests rs) d = Inr (stamp_token d t, d')"
  using assms rtr_bytes_nonneg [of rs] by (auto simp: Net_send_token_def token_size_wrong_def Let_def)

lemma token_send_total:
  assumes "t_rtr_len t = to_int16u (rtr_bytes rs)" and "rtr_bytes rs \<le> sizeof_token_body"
    and "send_queue_ok (prot d)" and "net_ok d"
  shows "\<exists>t' d'. token_send leader t rs d = Inr (t', d')"
proof -
  note tot = Net_send_token_total [OF _ assms(2)]
  obtain t1 d1 where 1: "(if \<not> (leader \<and> To_hold_token d) then
          bind_res (Net_send_token t (Requests rs) d) (\<lambda>(t, d).
            if Get_retrans (t_type t) > 1
            then bind_res (Net_send_token t (Requests rs) d) (\<lambda>(t, d). Net_send_token t (Requests rs) d)
            else Inr (t, d))
        else Inr (t, d)) = Inr (t1, d1)" (is "?m = _")
  proof -
    obtain d2 where d2: "Net_send_token t (Requests rs) d = Inr (stamp_token d t, d2)" using tot [of t d] assms(1) by blast
    obtain d3 where d3: "Net_send_token (stamp_token d t) (Requests rs) d2 = Inr (stamp_token d2 (stamp_token d t), d3)"
      using tot [of "stamp_token d t" d2] assms(1) by auto
    obtain d4 where d4: "Net_send_token (stamp_token d2 (stamp_token d t)) (Requests rs) d3 =
        Inr (stamp_token d3 (stamp_token d2 (stamp_token d t)), d4)"
      using tot [of "stamp_token d2 (stamp_token d t)" d3] assms(1) by auto
    show ?thesis
    proof (cases "leader \<and> To_hold_token d")
      case True
      then show ?thesis using that by simp
    next
      case False
      then show ?thesis
        using that d2 d3 d4 by (cases "Get_retrans (t_type (stamp_token d t)) > 1") simp_all
    qed
  qed
  note o = only_outD [OF conjunct1 [OF token_transmit_out [OF 1]]]
  define e where "e = upd_prot (\<lambda>p. p\<lparr> Token_rounds := Token_rounds p + 1 \<rparr>) d1"
  let ?e = "emit (E_queue Memb_token_loss_event (Token_timeout (prot (if leader then emit (E_queue Prot_token_hurry_event (Hurry_timeout (prot e))) e else e))))
    (if leader then emit (E_queue Prot_token_hurry_event (Hurry_timeout (prot e))) e else e)"
  have "prot ?e = (prot d)\<lparr> Token_rounds := Token_rounds (prot d) + 1 \<rparr>" "net ?e = net d"
    using o by (simp_all add: e_def)
  then have "send_queue_ok (prot ?e)" "net_ok ?e"
    using assms(3,4) by (simp_all add: send_queue_ok_def queued_ok_def pkt_def net_ok_def)
  then obtain d5 where "Prot_flush_bcast ?e = Inr d5" using Prot_flush_bcast_ok by blast
  moreover have "Hurry_timeout (prot e) = Hurry_timeout (prot d1)" "Token_timeout (prot e) = Token_timeout (prot d1)"
    by (simp_all add: e_def)
  ultimately show ?thesis unfolding token_send_def 1 by (cases leader) (simp_all add: Let_def e_def [symmetric])
qed

text \<open>
  What a pass relies on: the daemon's side (\<open>node_ready\<close>) and the token that a correct
  predecessor sends (\<open>token_sane\<close>).
\<close>

definition node_ready :: "daemon \<Rightarrow> bool" where
  "node_ready d \<longleftrightarrow> ring_ok d \<and> net_ok d \<and> channels_ok d \<and> sizeof_packet_body d < 2 ^ 15 \<and>
     queue_wf (sizeof_packet_body d) (down_queue_of (prot d)) \<and>
     (\<forall>l \<in> set (dq_links (down_queue_of (prot d))). service_ok (dl_type l)) \<and>
     0 \<le> Personal_window (fc d) \<and> Personal_window (fc d) \<le> 8192 - MAX_SEQ_GAP \<and>
     ring (Membership (memb d)) \<noteq> [] \<and> Aru (prot d) \<le> t_aru (Last_token (prot d))"

definition token_sane :: "token_header \<Rightarrow> ring_rtr list \<Rightarrow> daemon \<Rightarrow> bool" where
  "token_sane t rtr d \<longleftrightarrow> Aru (prot d) \<le> t_aru t \<and> t_seq t \<le> Last_discarded (prot d) + 8192 \<and>
     rtr_bytes rtr \<le> sizeof_token_body \<and> (\<forall>r \<in> set rtr. request_ok d r)"

lemma token_pass_on_delivers:
  assumes "sendable d" and "State (memb d) \<noteq> EVS" and "ring (Membership (memb d)) \<noteq> []"
    and "Aru (prot d) \<le> t_aru t" and "Aru (prot d) \<le> t_aru (Last_token (prot d))"
    and "rtr_bytes (a_kept a) \<le> sizeof_token_body"
  shows "delivers (token_pass_on t a n d)"
proof -
  obtain l where l: "Conf_leader (Membership (memb d)) = Inr l" using assms(3) by (simp add: Conf_leader_ring)
  define e where "e = token_my_aru d"
  define t' where "t' = token_next_arq (l = pr_id (My (conf d)))
      (token_aru (t\<lparr> t_rtr_len := to_int16u (rtr_bytes (token_requests a e)) \<rparr>) e)"
  have wd: "window_ok (prot d)" using assms(1) by (simp add: sendable_def)
  note we = token_my_aru_ok [OF wd, folded e_def]
  have st: "State (memb e) \<noteq> EVS" using assms(2) by (simp add: e_def)
  have q: "send_queue_ok (prot e)" "net_ok e"
    using assms(1) by (simp_all add: sendable_def send_queue_ok_def queued_ok_def pkt_def net_ok_def e_def)
  have "t_rtr_len t' = to_int16u (rtr_bytes (token_requests a e))" by (simp add: t'_def token_aru_def Let_def)
  then obtain t1 d1 where sd: "token_send (l = pr_id (My (conf d))) t' (token_requests a e) e = Inr (t1, d1)"
    using token_send_total [OF _ token_requests_fit [OF assms(6)] q] by blast
  note w1 = token_send_ok [OF sd q]
  have le: "t_aru t1 \<le> My_aru (prot d1)" using w1 token_aru_le(1) [OF st] by (simp add: t'_def)
  have "Aru (prot e) \<le> My_aru (prot e)" using we(1) by (simp add: window_ok_def)
  then have "Aru (prot e) \<le> t_aru t'" using assms(4) by (simp add: t'_def token_aru_def Let_def e_def)
  then have ge: "Aru (prot d1) \<le> t_aru t1" "Aru (prot d1) \<le> t_aru (Last_token (prot d1))"
    using w1(2,6,10) assms(5) by (simp_all add: e_def)
  then obtain d2 where up: "token_update_aru t1 d1 = Inr d2" by (auto simp: token_update_aru_def Let_def)
  have "window_ok (prot d1)" using w1(4) we(1) by blast
  note w2 = token_update_aru_ok [OF up this le]
  have "State (memb d2) \<noteq> EVS" using st w1(5) w2(3) by simp
  then have "delivers (token_deliver n d2)" using delivers_token_deliver w2(1) by blast
  then show ?thesis
    unfolding token_pass_on_parts [OF assms(2) l] e_def [symmetric] t'_def [symmetric] sd
    by (simp add: up)
qed

lemma token_process_delivers:
  assumes "node_ready d" and "token_sane t rtr d"
  shows "delivers (token_process t rtr d)"
proof -
  note n = assms(1) [unfolded node_ready_def] and s = assms(2) [unfolded token_sane_def]
  obtain d1 where acc: "token_accept t d = Inr d1" using token_accept_total n by blast
  obtain e where a: "conf d1 = conf d" "memb d1 = memb d" "fc d1 = fc d" "net d1 = net d"
    "prot d1 = (prot d)\<lparr> Highest_seq := max (Highest_seq (prot d)) (t_seq t),
      Received_token_rounds := Received_token_rounds (prot d) + 1, Token_has_priority := e \<rparr>"
    using token_accept_ok [OF acc] by blast
  have s1: "sendable d1" "Last_discarded (prot d1) = Aru (prot d1)"
    using token_accept_sendable [OF acc] n s by blast+
  have "net_ok d1" "\<forall>r \<in> set rtr. request_ok d1 r"
    using n s by (simp_all add: net_ok_def request_ok_def Memb_id_def a)
  then obtain ans d1' where ans: "Answer_retrans rtr d1 = Inr (ans, d1')" using Answer_retrans_total by blast
  have pw: "0 \<le> Personal_window (fc d1)" "Personal_window (fc d1) \<le> 8192 - MAX_SEQ_GAP" using n a(3) by simp_all
  obtain t2 k d2 where wk: "token_work t rtr d1 = Inr (t2, ans, int k, d2)" "t_aru t2 = t_aru t" "sendable d2"
      "memb d2 = memb d1" "Aru (prot d2) = Aru (prot d1)" "Last_token (prot d2) = Last_token (prot d1)"
    using token_work_run [OF ans s1 pw, of t] by blast
  have "rtr_bytes (a_kept ans) \<le> sizeof_token_body"
    using Answer_retrans_kept [OF ans] rtr_bytes_filter s by (metis order_trans)
  then have "delivers (token_pass_on t2 ans (int k) d2)"
    using wk n s by (intro token_pass_on_delivers) (simp_all add: a ring_ok_def)
  then show ?thesis by (simp add: token_process_def acc wk(1))
qed

end
