(* ===== verification/Handlers.thy ===== *)
theory Handlers
  imports Token_Total
begin

text \<open>
  Every handler of a daemon outside the EVS phase keeps the invariant of the packet window:
  packets, tokens, new messages, the timers of the membership and of delivery. The steps
  together form a transition relation whose reachable states satisfy the invariant.
\<close>

section \<open>Membership handlers\<close>

text \<open>A computation that ends, if it does, in a state the invariant cannot tell from \<open>d\<close>.\<close>

definition calms :: "daemon \<Rightarrow> daemon result \<Rightarrow> bool" where
  "calms d r \<longleftrightarrow> (\<forall>d'. r = Inr d' \<longrightarrow> calm d d')"

lemma calms_Inr [simp]: "calms d (Inr d') \<longleftrightarrow> calm d d'"
  by (simp add: calms_def)

lemma calms_Inl [simp]: "calms d (Inl e)"
  by (simp add: calms_def)

lemma calms_guard: "(\<not> b \<Longrightarrow> calms d r) \<Longrightarrow> calms d (guard_res b e r)"
  by (auto simp: calms_def)

lemma calms_bind: "(\<And>x. r = Inr x \<Longrightarrow> calms d (f x)) \<Longrightarrow> calms d (bind_res r f)"
  by (cases r) auto

lemma calms_bind2: "(\<And>h e. r = Inr (h, e) \<Longrightarrow> calms d (f h e)) \<Longrightarrow> calms d (bind_res r (\<lambda>(h, e). f h e))"
  by (cases r) auto

lemma calms_seq: "calms d r \<Longrightarrow> (\<And>e. calm d e \<Longrightarrow> calms d (f e)) \<Longrightarrow> calms d (bind_res r f)"
  by (cases r) auto

lemma calms_trans: "calm d e \<Longrightarrow> calms e r \<Longrightarrow> calms d r"
  using calm_trans by (auto simp: calms_def)

lemmas calms_intros = calms_guard calms_bind calms_bind2

lemma calm_upd_memb:
  "calm d d1 \<Longrightarrow> (State (memb d1) \<noteq> EVS \<Longrightarrow> State (f (memb d1)) \<noteq> EVS) \<Longrightarrow> calm d (upd_memb f d1)"
  by (auto simp: calm_def)

lemma calm_set_state: "calm d d1 \<Longrightarrow> s \<noteq> EVS \<Longrightarrow> calm d (set_state s d1)"
  by (simp add: calm_def set_state_def)

lemma calm_Shift [simp]:
  "calm d (Shift_to_seg d)" "calm d (Shift_to_gather d)" "calm d (Shift_to_represented d)"
  by (simp_all add: Shift_to_seg_def Shift_to_gather_def Shift_to_represented_def Let_def
      calm_upd_memb calm_set_state)

lemma calm_insert_f_member [simp]: "calm d (insert_f_member i d)"
  by (simp add: insert_f_member_def calm_upd_memb)

lemma calm_upd_prot:
  "calm d d1 \<Longrightarrow> win (f (prot d1)) = win (prot d1) \<Longrightarrow> Send_pack_queue (f (prot d1)) = Send_pack_queue (prot d1) \<Longrightarrow>
    calm d (upd_prot f d1)"
  by (simp add: calm_def)

lemma calm_fields [simp]:
  "calm d (d'\<lparr> out := es \<rparr>) \<longleftrightarrow> calm d d'" "calm d (d'\<lparr> conf := c \<rparr>) \<longleftrightarrow> calm d d'"
  "calm d (upd_net g d') \<longleftrightarrow> calm d d'" "calm d (FC_init d') \<longleftrightarrow> calm d d'"
  by (simp_all add: calm_def FC_init_def Let_def)

lemma calms_threshold: "calms d (Prot_set_delivery_threshold t d)"
  unfolding Prot_set_delivery_threshold_def Let_def
  by (rule calms_guard) (simp add: calm_upd_prot win_def)

lemma calm_threshold: "Prot_set_delivery_threshold t d = Inr d' \<Longrightarrow> calm d d'"
  using calms_threshold by (simp add: calms_def)

lemma calm_token_loss_reps:
  assumes "token_loss_reps d = Inr d'" and "State (memb d) \<noteq> EVS"
  shows "calm d d'"
  using assms by (auto simp: token_loss_reps_def Let_def calm_def split: memb_state_name.splits)

lemma calm_token_loss_reset [simp]: "calm d (token_loss_reset d)"
  by (simp add: token_loss_reset_def Let_def calm_def win_def)

lemma calm_Memb_token_loss:
  assumes "Memb_token_loss d = Inr d'" and "State (memb d) \<noteq> EVS"
  shows "calm d d'"
proof -
  obtain d1 d2 vw where 1: "token_loss_reps d = Inr d1"
      and 2: "Prot_set_delivery_threshold BLOCK_REGULAR_DELIVERY (upd_memb (\<lambda>m. m\<lparr> Token_alive := False \<rparr>) d1) = Inr d2"
      and d': "d' = Shift_to_seg (upd_memb (\<lambda>m. m\<lparr> Membership := vw \<rparr>) (token_loss_reset d2))"
    using assms(1) unfolding Memb_token_loss_def Let_def by (elim bind_res_elim) auto
  have "calm d (upd_memb (\<lambda>m. m\<lparr> Token_alive := False \<rparr>) d1)"
    using calm_token_loss_reps [OF 1 assms(2)] by (simp add: calm_upd_memb)
  then have "calm d (upd_memb (\<lambda>m. m\<lparr> Membership := vw \<rparr>) (token_loss_reset d2))"
    using calm_trans [OF calm_trans [OF _ calm_threshold [OF 2]] calm_token_loss_reset]
    by (simp add: calm_upd_memb)
  then show ?thesis using calm_trans [OF _ calm_Shift(1)] by (simp add: d')
qed

lemma calm_loss_and_insert:
  assumes "loss_and_insert i d = Inr d'" and "State (memb d) \<noteq> EVS"
  shows "calm d d'"
  using assms calm_Memb_token_loss [OF _ assms(2)] calm_trans [OF _ calm_insert_f_member]
  by (auto simp: loss_and_insert_def)

lemma calm_scast: "Net_scast s h b d = Inr (h', d') \<Longrightarrow> calm d d'"
  using Net_scast_out only_out_calm by blast

lemma calm_ucast [simp]: "calm d (snd (Net_ucast i h b d))"
  using Net_ucast_out [of i h b d] only_out_calm by (cases "Net_ucast i h b d") auto

lemma calm_refer_to [simp]: "calm d (refer_to i t dst d)"
  by (simp add: refer_to_def)

lemma calm_ucast_all:
  "calm d (snd (fold (\<lambda>i (h, d). Net_ucast (f i) h b d) is (h, d)))"
proof -
  have "calm d (snd (fold (\<lambda>i (h, d). Net_ucast (f i) h b d) is (h, e)))" if "calm d e" for h e
    using that
  proof (induction "is" arbitrary: h e)
    case (Cons i "is")
    have "calm d (snd (Net_ucast (f i) h b e))" using Cons.prems calm_trans calm_ucast by blast
    then show ?case using Cons.IH by (cases "Net_ucast (f i) h b e") simp
  qed simp
  then show ?thesis by simp
qed

lemma calms_Scast_alive: "calms d (Scast_alive c d)"
  unfolding Scast_alive_def Let_def by (rule calms_bind2) (auto dest: calm_scast)

lemma calms_Send_join: "calms d (Send_join d)"
proof -
  have tail: "calms d (case fold (\<lambda>i (h, e). Net_ucast (f i) h b e) is (h, e) of
      (h, e) \<Rightarrow> Inr (emit (x e) e))" if "calm d e" for f b "is" h e x
    using calm_trans [OF that calm_ucast_all [of e f b "is" h]] by (simp add: case_prod_beta)
  show ?thesis
    unfolding Send_join_def Let_def
    by (rule calms_bind2, rule tail) (auto split: if_splits dest: calm_scast)
qed

lemma calms_lookup: "calms d (Memb_lookup_new_members d)"
proof -
  define e where "e = upd_memb (\<lambda>m. m\<lparr> Potential_reps := (Potential_reps m)\<lparr> num_reps := 0 \<rparr>,
                  F_reps := first_rep \<lparr> rp_proc_id = pr_id (My (conf d)), rp_type = RING_REP,
                                       rp_seg_index = pr_seg_index (My (conf d)) \<rparr> (F_reps m),
                  F_members := (F_members m)\<lparr> num_members := 0, num_pending := 0 \<rparr> \<rparr>) d"
  have e: "calm d e" by (simp add: e_def calm_upd_memb)
  have sc: "calms d (bind_res (Net_scast (pr_seg_index (My (conf d))) (join_head e) (join_body e) e)
      (\<lambda>(_, d). Inr (Shift_to_gather d)))"
    by (rule calms_bind2) (auto intro: calm_trans [OF calm_trans [OF e calm_scast] calm_Shift(2)])
  have f: "calm d (snd (fold (\<lambda>i (h, d). Net_ucast i h (join_body e) d) (missing_ids e) (join_head e, e)))"
    using calm_trans [OF e calm_ucast_all [of e "\<lambda>i. i"]] by simp
  show ?thesis
    using e sc f calm_trans [OF f calm_Shift(2)]
    unfolding Memb_lookup_new_members_def Let_def e_def [symmetric] by (simp add: case_prod_beta)
qed

lemma calms_Gather_or_represented: "calms d (Gather_or_represented d)"
proof -
  define e where "e = upd_memb (\<lambda>m. m\<lparr> My_seg_rep := - 1 \<rparr>) d"
  have "calm d e" by (simp add: e_def calm_upd_memb)
  note e = calm_trans [OF this]
  show ?thesis
    unfolding Gather_or_represented_def Let_def e_def [symmetric]
    by (rule calms_bind2) (simp add: e)
qed

lemma calms_token_loss: "State (memb d) \<noteq> EVS \<Longrightarrow> calms d (Memb_token_loss d)"
  using calm_Memb_token_loss by (simp add: calms_def)

lemma calms_loss_and_insert: "State (memb d) \<noteq> EVS \<Longrightarrow> calms d (loss_and_insert i d)"
  using calm_loss_and_insert by (simp add: calms_def)

lemma calms_alive: "State (memb d) \<noteq> EVS \<Longrightarrow> calms d (Memb_handle_alive h d)"
  by (cases "State (memb d)") (simp_all add: Memb_handle_alive_def calms_loss_and_insert)

lemma calms_join_in_op:
  assumes "State (memb d) \<noteq> EVS"
  shows "calms d (join_in_op h r d)"
  unfolding join_in_op_def Let_def
  using calms_token_loss [OF assms] calm_trans [OF calm_upd_memb calm_Shift(2)]
  by (auto intro!: calms_bind)

lemma calms_join_in_seg: "calms d (join_in_seg h r d)"
proof -
  define e where "e = upd_memb (\<lambda>m. m\<lparr> My_seg_rep := p_proc_id h \<rparr>) d"
  have "calm d e" by (simp add: e_def calm_upd_memb)
  note e = calms_trans [OF calm_trans [OF this calm_Shift(3)] calms_Scast_alive]
  show ?thesis unfolding join_in_seg_def e_def [symmetric] by (rule calms_bind) (simp add: e)
qed

lemma calms_join_in_represented: "calms d (join_in_represented h r d)"
proof -
  define e where "e = emit (E_queue Shift_to_seg_event (Rep_timeout (prot d)))
           (upd_memb (\<lambda>m. m\<lparr> My_seg_rep := p_proc_id h \<rparr>) d)"
  have "calm d e" by (simp add: e_def calm_upd_memb)
  note e = calms_trans [OF this calms_Scast_alive]
  show ?thesis unfolding join_in_represented_def e_def [symmetric] by (rule calms_bind) (simp add: e)
qed

lemma calms_join_in_gather: "calms d (join_in_gather r d)"
  unfolding join_in_gather_def Let_def by (auto intro!: calms_bind calms_bind2 simp: calm_upd_memb)

lemma calms_join:
  assumes "State (memb d) \<noteq> EVS"
  shows "calms d (Memb_handle_join h m r d)"
  using assms calms_join_in_op [OF assms]
  by (cases "State (memb d)") (simp_all add: Memb_handle_join_def Let_def calms_join_in_seg
      calms_join_in_represented calms_join_in_gather)

lemma calms_refer: "calms d (Memb_handle_refer h d)"
  by (cases "State (memb d)")
    (auto simp: Memb_handle_refer_def calm_upd_memb split: option.splits intro!: calms_bind2)

lemma calms_foreign: "calms d (Memb_handle_foreign h b d)"
proof (cases "State (memb d)")
  case OP
  define e where "e = upd_memb (\<lambda>m. m\<lparr> Foreign_found := True \<rparr>) d"
  have "calm d e" by (simp add: e_def calm_upd_memb)
  note e = calm_trans [OF calm_trans [OF this calm_ucast] calm_ucast]
  show ?thesis
    using OP calms_lookup [of d]
    unfolding Memb_handle_foreign_def Let_def e_def [symmetric]
    by (auto intro!: calms_bind simp: case_prod_beta e)
qed (simp_all add: Memb_handle_foreign_def)

lemma calms_Memb_handle_message:
  "State (memb d) \<noteq> EVS \<Longrightarrow> calms d (Memb_handle_message inp d)"
  by (simp add: Memb_handle_message_def Let_def calms_alive calms_join calms_refer calms_foreign
      split: payload.splits)

section \<open>Received datagrams\<close>

lemma calms_Stat: "calm d (Stat_handle_message h d)"
  by (simp add: Stat_handle_message_def split: option.splits)

lemma calms_FC: "calms d (FC_handle_message h b d)"
  by (auto simp: FC_handle_message_def Let_def calm_def split: option.splits)

lemma calm_Net_set_partition [simp]: "calm d (Net_set_partition f d)"
  by (simp add: Net_set_partition_def calm_def)

lemma calm_clear_partition [simp]: "calm d (Net_clear_partition d') \<longleftrightarrow> calm d d'"
  by (simp add: Net_clear_partition_def)

lemma calms_Net_signal: "calms d (Net_signal_conf_reload d)"
  unfolding Net_signal_conf_reload_def Let_def by (intro calms_guard calms_bind) simp

lemma calm_install_reload [simp]: "calm d (install_reload b d)"
proof -
  have part: "calm d (Net_set_partition f e)" if "calm d e" for f e using that calm_trans calm_Net_set_partition by blast
  show ?thesis
    by (simp add: install_reload_def FC_signal_conf_reload_def Let_def part calm_upd_prot win_def
        split: option.split)
qed

lemma calms_reload: "calms d (Prot_handle_conf_reload ext d)"
proof -
  define e where "e = Prot_clear_need_conf_reload d"
  have e: "calm d e" by (simp add: e_def Prot_clear_need_conf_reload_def calm_upd_prot win_def)
  have "calm d f" if "Net_signal_conf_reload (e\<lparr> conf := c \<rparr>) = Inr f" for c f
  proof (rule calm_trans)
    show "calm d (e\<lparr> conf := c \<rparr>)" using e by simp
    show "calm (e\<lparr> conf := c \<rparr>) f" using calms_Net_signal that by (simp add: calms_def)
  qed
  note sig = calm_trans [OF this calm_install_reload]
  have "calms d (Prot_initiate_conf_reload ext d)"
    unfolding Prot_initiate_conf_reload_def Let_def e_def [symmetric]
    by (auto intro!: calms_bind2 calms_bind sig)
  then show ?thesis by (simp add: Prot_handle_conf_reload_def calm_upd_prot win_def)
qed

lemma calms_control: "calms d (handle_control ext inp d)"
  by (simp add: handle_control_def Let_def calms_Stat calms_FC calms_reload split: payload.splits)

text \<open>The header of a datagram in this machine's byte order.\<close>

definition native :: "packet_header \<Rightarrow> packet_header" where
  "native h = (if Same_endian (p_type h) then h else Flip_pack h)"

lemma packet_typed_native: "packet_typed h \<Longrightarrow> packet_typed (native h)"
proof -
  have "int32_range (flip32 x)" for x using sint_range_size [of "Flip_int32 (word_of_int x)"]
    by (simp add: flip32_def word_size)
  moreover have "int16u_range (flip16u x)" for x
    using uint_lt2p [of "Flip_int16 (word_of_int x)"] by (simp add: flip16u_def)
  ultimately show "packet_typed h \<Longrightarrow> packet_typed (native h)"
    by (auto simp: native_def packet_typed_def Flip_pack_def Flip_memb_id_def)
qed

lemma Net_recv_route_ok:
  assumes "Net_recv_route inp d = Inr (inp', d')" and "packet_typed (in_head inp)"
  shows "only_out d d'" and "p_seq (in_head inp') = p_seq (in_head inp)"
    and "Is_regular (p_type (in_head inp')) = Is_regular (p_type (in_head inp))"
    and "in_bytes inp' = in_bytes inp" and "in_body inp' = in_body inp"
proof -
  let ?h = "(in_head inp)\<lparr> p_type := Clear_routed (p_type (in_head inp)), p_transmiter_id := pr_id (My (conf d)) \<rparr>"
  let ?wire = "if Same_endian (p_type ?h) then ?h else Flip_pack ?h"
  have "packet_typed ?h" using assms(2) by (simp add: packet_typed_def)
  then have twice: "(if Same_endian (p_type ?wire) then ?wire else Flip_pack ?wire) = ?h"
    using pack.flip_flip [of ?h] by (auto simp: Same_endian_Flip Flip_pack_def)
  have cr: "Is_regular (Clear_routed t) = Is_regular t" for t
    by (simp add: type_bits and.assoc)
  consider (fwd) "send_bcast ?wire (in_body inp) d = Inr d'" "inp' = inp\<lparr> in_head := ?h\<lparr> p_type := Clear_routed (p_type ?h) \<rparr> \<rparr>"
    | (keep) "d' = d" "inp' = inp\<lparr> in_head := (in_head inp)\<lparr> p_type := Clear_routed (p_type (in_head inp)) \<rparr> \<rparr>"
    using assms(1) unfolding Net_recv_route_def Let_def twice
    by (cases "Is_routed (p_type (in_head inp)) \<and> Bcast_needed (net d) \<noteq> 0") auto
  note c = this
  show "only_out d d'" using c by cases (auto dest: send_bcast_out)
  show "p_seq (in_head inp') = p_seq (in_head inp)"
    "Is_regular (p_type (in_head inp')) = Is_regular (p_type (in_head inp))"
    "in_bytes inp' = in_bytes inp" "in_body inp' = in_body inp" using c by (cases; simp add: cr)+
qed

lemma calm_handle_monitor: "Net_handle_monitor inp d = Inr (r, d') \<Longrightarrow> calm d d'"
  by (auto simp: Net_handle_monitor_def Let_def split: if_splits payload.splits)

lemma Net_recv_ok:
  assumes "Net_recv f fd inp d = Inr (r, inp', d')" and "packet_typed (in_head inp)"
  shows "calm d d'" and "0 < r \<Longrightarrow> p_seq (in_head inp') = p_seq (native (in_head inp)) \<and>
    Is_regular (p_type (in_head inp')) = Is_regular (p_type (native (in_head inp)))"
proof -
  define i where "i = inp\<lparr> in_head := native (in_head inp) \<rparr>"
  have t: "packet_typed (in_head i)" using packet_typed_native [OF assms(2)] by (simp add: i_def)
  have c: "r \<le> 0 \<and> d' = d \<or> Net_handle_monitor i d = Inr (r, d') \<and> inp' = i \<or> Net_recv_route i d = Inr (inp', d')"
    using assms(1) unfolding Net_recv_def Let_def native_def [symmetric] i_def [symmetric]
    by (auto split: if_splits)
  show "calm d d'"
    using c calm_handle_monitor Net_recv_route_ok(1) [OF _ t] only_out_calm calm_refl by blast
  show "p_seq (in_head inp') = p_seq (native (in_head inp)) \<and>
      Is_regular (p_type (in_head inp')) = Is_regular (p_type (native (in_head inp)))" if "0 < r"
    using c Net_recv_route_ok(2,3) [OF _ t] that by (auto simp: i_def)
qed

lemma calms_send_last_token: "calm d e \<Longrightarrow> calms d (send_last_token e)"
  unfolding send_last_token_def
  by (rule calms_bind2) (auto intro!: calm_upd_prot simp: win_def dest!: Net_send_token_out(1)
      intro: calm_trans only_out_calm)

lemma calms_Prot_token_hurry: "calms d (Prot_token_hurry d)"
proof -
  have wide: "calms d (if w then bind_res r (\<lambda>l. if l = i then send_last_token e else Inr e) else Inr e)"
    if "calm d e" for w r i e
    using calms_send_last_token [OF that] that by (auto intro!: calms_bind)
  have twice: "calms d (if b then bind_res (send_last_token e) send_last_token else Inr e)" if "calm d e" for b e
    using calms_seq [OF calms_send_last_token calms_send_last_token] that by simp
  show ?thesis
    unfolding Prot_token_hurry_def Let_def
    by (rule calms_bind, rule calms_seq, rule calms_send_last_token, simp add: calm_upd_prot win_def)
      (rule calms_seq [OF wide twice])
qed

lemma calms_Handle_hurry: "calms d (Handle_hurry i d)"
proof -
  have "calm d (upd_prot (\<lambda>p. p\<lparr> Token_counter := 0 \<rparr>) d)" by (simp add: calm_upd_prot win_def)
  then show ?thesis
    unfolding Handle_hurry_def by (auto intro!: calms_bind calms_trans [OF _ calms_Prot_token_hurry])
qed

lemma calms_Prot_new_message: "calms d (Prot_new_message l d)"
proof -
  have q: "calm d (upd_prot (set_down_queue q) d)" for q by (simp add: calm_upd_prot set_down_queue_def win_def)
  note h = calms_trans [OF _ calms_Handle_hurry] calm_trans [OF _ calm_ucast]
  show ?thesis
    unfolding Prot_new_message_def Let_def by (auto intro!: calms_guard calms_bind h simp: q)
qed

text \<open>A datagram that the ring's flow control allows: it fits the window and has one service.\<close>

definition packet_fits :: "in_packet \<Rightarrow> daemon \<Rightarrow> bool" where
  "packet_fits inp d \<longleftrightarrow> packet_typed (in_head inp) \<and>
     p_seq (native (in_head inp)) \<le> Last_discarded (prot d) + MAX_PACKETS_IN_STRUCT \<and>
     service_ok (p_type (native (in_head inp)))"

lemma Prot_handle_bcast_ok:
  assumes "ring_ok d" and "packet_fits inp d" and "Prot_handle_bcast ext fd inp d = Inr d'"
  shows "ring_ok d'"
proof -
  obtain r i e where rc: "Net_recv (ip_differs ext) fd inp d = Inr (r, i, e)"
    using assms(3) by (auto simp: Prot_handle_bcast_def)
  have ty: "packet_typed (in_head inp)" using assms(2) by (simp add: packet_fits_def)
  note rv = Net_recv_ok [OF rc ty]
  note e = calm_ring_ok [OF rv(1) assms(1)]
  have st: "State (memb e) \<noteq> EVS" using e by (simp add: ring_ok_def)
  let ?h = "in_head i"
  have "calms e (Memb_handle_message i e)" by (rule calms_Memb_handle_message [OF st])
  moreover have "ring_ok d'" if hr: "handle_regular i e = Inr d'" and "0 < r"
  proof (cases "Memb_is_equal (Memb_id e) (p_memb_id ?h)")
    case True
    obtain e1 body where 1: "bcast_timers e = Inr e1" and 2: "bcast_insert ?h body e1 = Inr d'"
      using hr True by (auto simp: handle_regular_def Let_def split: payload.splits)
    note c1 = bcast_timers_calm [OF 1]
    have "p_seq ?h \<le> Last_discarded (prot e1) + 8192"
      using rv \<open>0 < r\<close> assms(2) c1 by (simp add: packet_fits_def calm_def win_def)
    moreover have "service_ok (p_type ?h)"
      using rv(2) \<open>0 < r\<close> assms(2) by (simp add: packet_fits_def service_ok_regular)
    ultimately show ?thesis using bcast_insert_ok [OF calm_ring_ok [OF c1 e] 2] by blast
  next
    case False
    then show ?thesis
      using hr calms_Memb_handle_message [OF st, of i] calm_ring_ok e
      by (simp add: handle_regular_def Let_def calms_def)
  qed
  moreover have "r \<le> 0 \<and> d' = e \<or> handle_control ext i e = Inr d' \<or> Memb_handle_message i e = Inr d' \<or>
      Handle_hurry (p_proc_id ?h) e = Inr d' \<or> d' = e \<or> 0 < r \<and> handle_regular i e = Inr d'"
    using assms(3) rc by (auto simp: Prot_handle_bcast_def Let_def split: if_splits)
  ultimately show ?thesis
    using e calms_control [of e ext i] calms_Handle_hurry [of e "p_proc_id ?h"] calm_ring_ok
    unfolding calms_def by blast
qed

section \<open>Form tokens\<close>

lemma calm_ucast_token: "Net_ucast_token i t b d = Inr (t', d') \<Longrightarrow> calm d d'"
  by (auto simp: Net_ucast_token_def Let_def split: option.splits)

lemma calm_form_twice: "send_form_twice i t b d = Inr (t', d') \<Longrightarrow> calm d d'"
  unfolding send_form_twice_def Let_def
  by (elim bind_res_elim) (auto dest!: calm_ucast_token intro: calm_trans)

lemma calms_shift_to_form: "calms d (shift_to_form d)"
proof -
  have "calm d (upd_memb (\<lambda>m. m\<lparr> Token_alive := False \<rparr>) (emit e1 (emit e2 d)))" for e1 e2
    by (rule calm_upd_memb) simp_all
  then show ?thesis
    unfolding shift_to_form_def Let_def
    by (intro calms_seq [OF calms_trans [OF _ calms_threshold]]) (simp_all add: calm_set_state)
qed

lemma calm_form_potential: "form_potential r d = Inr d' \<Longrightarrow> calm d d'"
  unfolding form_potential_def by (elim bind_res_elim) (auto intro!: calm_upd_memb)

lemma calms_Create_form1: "calms d (Create_form1 now d)"
proof -
  have fin: "calms d (shift_to_form (emit e x))" if "calm d x" for e x
    by (rule calms_trans [OF _ calms_shift_to_form]) (simp add: that)
  show ?thesis
    unfolding Create_form1_def Let_def
    by (intro calms_bind calms_bind2 fin)
      (auto dest!: calm_form_twice calm_form_potential split: option.splits
        intro!: calm_upd_memb elim!: calm_trans [rotated])
qed

lemma fill_lists_calm: "fill_lists m r d = Inr (Some (m', r', d')) \<Longrightarrow> calm d d'"
  by (cases "State (memb d)")
    (auto simp: fill_lists_def fill_as_rep_def Let_def split: if_splits intro!: calm_upd_memb)

lemma calms_pass_form1: "calms d (pass_form1 t m r gs d)"
proof -
  have fin: "calms d (shift_to_form (emit e1 (emit e2 (emit e3 x))))" if "calm d x" for e1 e2 e3 x
    by (rule calms_trans [OF _ calms_shift_to_form]) (simp add: that)
  show ?thesis
    unfolding pass_form1_def Let_def
    by (intro calms_bind calms_bind2 fin) (auto dest!: calm_form_twice split: option.splits)
qed

lemma calms_Fill_form1: "calms d (Fill_form1 t m r gs d)"
proof -
  have tail: "calms d (bind_res (form_potential r' (upd_memb (\<lambda>ms. ms\<lparr> Form1_memb_id := i \<rparr>) e)) (\<lambda>d.
      bind_res (fill_rings m' gs' d) (\<lambda>(m, gs). pass_form1 t' m r' gs d)))" if "calm d e" for r' i e m' gs' t'
  proof (rule calms_bind, rule calms_bind2)
    fix x m2 gs2
    assume x: "form_potential r' (upd_memb (\<lambda>ms. ms\<lparr> Form1_memb_id := i \<rparr>) e) = Inr x"
    have e: "calm d (upd_memb (\<lambda>ms. ms\<lparr> Form1_memb_id := i \<rparr>) e)" by (rule calm_upd_memb [OF that]) simp
    have "calm d x" by (rule calm_trans [OF e calm_form_potential [OF x]])
    then show "calms d (pass_form1 t' m2 r' gs2 x)" by (rule calms_trans [OF _ calms_pass_form1])
  qed
  show ?thesis
    unfolding Fill_form1_def Let_def
    by (rule calms_bind) (auto split: option.splits dest!: fill_lists_calm intro!: tail)
qed

lemma calms_form1: "calms d (Memb_handle_form1 t b d)"
  by (cases b; cases "State (memb d)") (auto simp: Memb_handle_form1_def intro!: calms_bind calms_Fill_form1)

lemma calm_two_memb:
  "(\<And>m. State (f m) = State m) \<Longrightarrow> (\<And>m. State (g m) = State m) \<Longrightarrow> calm d (upd_memb f (upd_memb g d))"
  by (simp add: calm_def)

lemma calms_Form_or_fail: "calms d (Form_or_fail now d)"
proof -
  have op: "calm d (back_to_op d)"
    by (simp add: back_to_op_def Shift_to_op_def Let_def calm_set_state)
  show ?thesis
    unfolding Form_or_fail_def Let_def
    by (intro calms_bind2) (auto intro!: calms_Create_form1 calms_bind2 op calm_trans [OF calm_two_memb calm_Shift(2)])
qed

section \<open>The token and the timers\<close>

definition native_token :: "token_header \<Rightarrow> token_header" where
  "native_token t = (if Same_endian (t_type t) then t else Flip_token t)"

lemma Net_recv_token_head:
  assumes "Net_recv_token f fd inp d = Inr (r, inp')" and "0 < r"
  shows "it_head inp' = native_token (it_head inp)"
  using assms by (auto simp: Net_recv_token_def native_token_def Let_def split: if_splits option.splits)

text \<open>What the screening of a token hands on.\<close>

definition screen_ok :: "daemon \<Rightarrow> screened \<Rightarrow> bool" where
  "screen_ok d s \<longleftrightarrow> (case s of Swallow d' \<Rightarrow> calm d d' | Process d' \<Rightarrow> calm d d' \<and> conf d' = conf d \<and> fc d' = fc d \<and>
     net d' = net d \<and> env d' = env d \<and> down_queue_of (prot d') = down_queue_of (prot d))"

definition screens :: "daemon \<Rightarrow> screened result \<Rightarrow> bool" where
  "screens d r \<longleftrightarrow> (\<forall>s. r = Inr s \<longrightarrow> screen_ok d s)"

lemma screens_Inr [simp]:
  "screens d (Inr (Swallow d')) \<longleftrightarrow> calm d d'"
  "screens d (Inr (Process d')) \<longleftrightarrow> calm d d' \<and> conf d' = conf d \<and> fc d' = fc d \<and>
     net d' = net d \<and> env d' = env d \<and> down_queue_of (prot d') = down_queue_of (prot d)"
  by (simp_all add: screens_def screen_ok_def)

lemma screens_bind: "(\<And>x. r = Inr x \<Longrightarrow> screens d (f x)) \<Longrightarrow> screens d (bind_res r f)"
  by (cases r) (auto simp: screens_def)

lemma screens_if: "(b \<Longrightarrow> screens d r) \<Longrightarrow> (\<not> b \<Longrightarrow> screens d r') \<Longrightarrow> screens d (if b then r else r')"
  by simp

lemma screens_token_arq: "screens d (token_arq t d)"
proof -
  define e where "e = clear_just_installed d"
  have e: "calm d e" "conf e = conf d" "fc e = fc d" "net e = net d" "env e = env d"
    "down_queue_of (prot e) = down_queue_of (prot d)"
    by (simp_all add: e_def clear_just_installed_def calm_upd_prot calm_upd_memb win_def down_queue_of_def)
  have hurry: "screens d (bind_res (Prot_token_hurry (upd_prot (\<lambda>p. p\<lparr> Last_token := f p \<rparr>) d)) (\<lambda>d. Inr (Swallow d)))" for f
  proof (rule screens_bind)
    fix x
    assume "Prot_token_hurry (upd_prot (\<lambda>p. p\<lparr> Last_token := f p \<rparr>) d) = Inr x"
    then have "calm (upd_prot (\<lambda>p. p\<lparr> Last_token := f p \<rparr>) d) x" using calms_Prot_token_hurry by (simp add: calms_def)
    moreover have "calm d (upd_prot (\<lambda>p. p\<lparr> Last_token := f p \<rparr>) d)" by (simp add: calm_upd_prot win_def)
    ultimately show "screens d (Inr (Swallow x))" using calm_trans by simp
  qed
  show ?thesis
    unfolding token_arq_def Let_def e_def [symmetric]
    by (intro screens_bind screens_if hurry) (simp_all add: e)
qed

lemma token_screen_calm:
  assumes "token_screen r t d = Inr s"
  shows "screen_ok d s"
proof -
  have "screens d (token_screen r t d)"
    unfolding token_screen_def by (intro screens_if screens_bind screens_token_arq) simp_all
  then show ?thesis using assms by (simp add: screens_def)
qed

text \<open>A token that the ring's flow control allows, at a daemon that may send.\<close>

definition token_fits :: "in_token \<Rightarrow> daemon \<Rightarrow> bool" where
  "token_fits inp d \<longleftrightarrow> (Is_form (t_type (native_token (it_head inp))) \<longrightarrow> Is_form1 (t_type (native_token (it_head inp)))) \<and>
     t_seq (native_token (it_head inp)) \<le> Last_discarded (prot d) + MAX_PACKETS_IN_STRUCT \<and>
     net_ok d \<and> sizeof_packet_body d < 2 ^ 15 \<and>
     queue_wf (sizeof_packet_body d) (down_queue_of (prot d)) \<and>
     (\<forall>l \<in> set (dq_links (down_queue_of (prot d))). service_ok (dl_type l)) \<and>
     0 \<le> Personal_window (fc d) \<and> Personal_window (fc d) \<le> MAX_PACKETS_IN_STRUCT - MAX_SEQ_GAP"

lemma Prot_handle_token_regular:
  assumes "ring_ok d" and "token_fits inp d" and "Prot_handle_token ext fd inp d = Inr d'"
    and rc: "Net_recv_token (ip_differs ext) fd inp d = Inr (r, i)" and pos: "0 < r"
    and reg: "\<not> Is_form (t_type (native_token (it_head inp)))"
  shows "ring_ok d'"
proof -
  let ?t = "native_token (it_head inp)"
  have t: "it_head i = ?t" using Net_recv_token_head [OF rc pos] .
  then obtain s where sc: "token_screen r ?t d = Inr s"
    using assms(3) rc pos reg by (auto simp: Prot_handle_token_def Let_def)
  show ?thesis
  proof (cases s)
    case (Swallow e)
    then show ?thesis
      using assms(1,3) rc pos reg sc t token_screen_calm [OF sc] calm_ring_ok
      by (simp add: screen_ok_def Prot_handle_token_def Let_def)
  next
    case (Process e)
    then obtain rtr where tp: "token_process ?t rtr e = Inr d'"
      using assms(3) rc pos reg sc t
      by (auto simp: Prot_handle_token_def Let_def split: token_payload.splits)
    have c: "calm d e" and fr: "fc e = fc d" "net e = net d" "env e = env d"
        "down_queue_of (prot e) = down_queue_of (prot d)"
      using token_screen_calm [OF sc] Process by (simp_all add: screen_ok_def)
    have ld: "Last_discarded (prot e) = Last_discarded (prot d)" using c by (simp add: calm_def win_def)
    show ?thesis
      by (rule token_process_ok(1) [OF calm_ring_ok [OF c assms(1)] _ _ _ _ _ _ _ tp])
        (use assms(2) fr ld in \<open>auto simp: token_fits_def net_ok_def\<close>)
  qed
qed

lemma Prot_handle_token_ok:
  assumes "ring_ok d" and "token_fits inp d" and "Prot_handle_token ext fd inp d = Inr d'"
  shows "ring_ok d'"
proof -
  obtain r i where rc: "Net_recv_token (ip_differs ext) fd inp d = Inr (r, i)"
    using assms(3) by (auto simp: Prot_handle_token_def)
  show ?thesis
  proof (cases "0 < r")
    case True
    let ?t = "native_token (it_head inp)"
    have t: "it_head i = ?t" using Net_recv_token_head [OF rc True] .
    show ?thesis
    proof (cases "Is_form (t_type ?t)")
      case True
      then have "Memb_handle_form1 ?t (it_body i) d = Inr d'"
        using assms(2,3) rc \<open>0 < r\<close> t by (simp add: Prot_handle_token_def Memb_handle_token_def token_fits_def Let_def)
      then show ?thesis using calms_form1 [of d ?t "it_body i"] calm_ring_ok assms(1) unfolding calms_def by blast
    next
      case False
      then show ?thesis using Prot_handle_token_regular [OF assms rc \<open>0 < r\<close>] by blast
    qed
  next
    case False
    then show ?thesis using assms rc by (simp add: Prot_handle_token_def Let_def)
  qed
qed

lemma Deliver_agreed_ring_ok:
  assumes "ring_ok d" and "Deliver_agreed_packets d = Inr d'"
  shows "ring_ok d'"
  using assms Deliver_agreed_window_ok [OF _ assms(2)] delivery_frameD(9) [OF Deliver_agreed_frame [OF assms(2)]]
  by (simp add: ring_ok_def)

lemma Deliver_all_reliable_ring_ok:
  assumes "ring_ok d" and "Deliver_all_reliable_packets_event_handler d = Inr d'"
  shows "ring_ok d'"
proof -
  have "window_ok (prot d)" "1 + Highest_seq (prot d) - 1 \<le> Last_discarded (prot d) + 8192"
    using assms(1) by (auto simp: ring_ok_def window_ok_def)
  then have "window_ok (prot d')" and f: "deliver_frame d d'"
    using Deliver_reliable_ok [of d 1 "Highest_seq (prot d)" d'] assms(2)
    by (simp_all add: Deliver_all_reliable_packets_event_handler_def)
  then show ?thesis
    using assms(1) deliver_frameD(10) [OF f] delivery_frameD(2,6,9) [OF deliver_frame_weaken [OF f]]
    by (simp add: ring_ok_def)
qed

section \<open>Runs of a daemon\<close>

text \<open>
  One step is one call of the event loop or of the session layer, with any values of the
  external functions. A form token of the second kind, which starts the EVS phase, is not a
  step here.
\<close>

inductive daemon_step :: "daemon \<Rightarrow> daemon \<Rightarrow> bool" where
  packet: "packet_fits inp d \<Longrightarrow> Prot_handle_bcast ext fd inp d = Inr d' \<Longrightarrow> daemon_step d d'"
| token: "token_fits inp d \<Longrightarrow> Prot_handle_token ext fd inp d = Inr d' \<Longrightarrow> daemon_step d d'"
| new_message: "Prot_new_message l d = Inr d' \<Longrightarrow> daemon_step d d'"
| token_loss: "Memb_token_loss d = Inr d' \<Longrightarrow> daemon_step d d'"
| hurry: "Prot_token_hurry d = Inr d' \<Longrightarrow> daemon_step d d'"
| alive: "Scast_alive c d = Inr d' \<Longrightarrow> daemon_step d d'"
| join: "Send_join d = Inr d' \<Longrightarrow> daemon_step d d'"
| gather: "Gather_or_represented d = Inr d' \<Longrightarrow> daemon_step d d'"
| seg: "daemon_step d (Shift_to_seg d)"
| form_or_fail: "Form_or_fail now d = Inr d' \<Longrightarrow> daemon_step d d'"
| lookup: "Memb_lookup_new_members d = Inr d' \<Longrightarrow> daemon_step d d'"
| reload: "Prot_initiate_conf_reload ext d = Inr d' \<Longrightarrow> daemon_step d d'"
| threshold: "Prot_set_delivery_threshold t d = Inr d' \<Longrightarrow> daemon_step d d'"
| all_reliable: "Deliver_all_reliable_packets_event_handler d = Inr d' \<Longrightarrow> daemon_step d d'"
| all_agreed: "Deliver_agreed_packets_event_handler d = Inr d' \<Longrightarrow> daemon_step d d'"

lemma calms_ring_ok: "calms d r \<Longrightarrow> r = Inr d' \<Longrightarrow> ring_ok d \<Longrightarrow> ring_ok d'"
  using calm_ring_ok by (simp add: calms_def)

lemma calms_initiate: "calms d (Prot_initiate_conf_reload ext d)"
  using calms_reload [of d ext]
  by (cases "State (memb d) = OP") (simp_all add: Prot_handle_conf_reload_def Prot_initiate_conf_reload_def)

lemma daemon_step_ok:
  assumes "daemon_step d d'" and "ring_ok d"
  shows "ring_ok d'"
  using assms
proof (induction rule: daemon_step.cases)
  case (packet inp d fd d')
  then show ?case using Prot_handle_bcast_ok by blast
next
  case (token inp d fd d')
  then show ?case using Prot_handle_token_ok by blast
next
  case (token_loss d d')
  then show ?case using calms_ring_ok calms_token_loss unfolding ring_ok_def by blast
next
  case (seg d)
  then show ?case using calm_ring_ok [OF calm_Shift(1)] by blast
qed (auto simp: Deliver_agreed_packets_event_handler_def intro: Deliver_agreed_ring_ok Deliver_all_reliable_ring_ok
    calms_ring_ok [OF calms_Prot_new_message] calms_ring_ok [OF calms_Prot_token_hurry]
    calms_ring_ok [OF calms_Scast_alive] calms_ring_ok [OF calms_Send_join] calms_ring_ok [OF calms_lookup]
    calms_ring_ok [OF calms_Gather_or_represented] calms_ring_ok [OF calms_Form_or_fail] calms_ring_ok [OF calms_initiate] calms_ring_ok [OF calms_threshold])

end
