(* ===== verification/Startup.thy ===== *)
theory Startup
  imports Handlers
begin

text \<open>
  The start of a daemon: the variables of \<open>Prot_init\<close>, the timeouts and the first membership of
  \<open>Memb_init\<close>, and the invariant of the packet window in every state a run then reaches. The
  sockets that \<open>Net_init\<close> opens are given: the channels are already in the state.
\<close>

section \<open>Protocol variables\<close>

definition Prot_init_vars :: "daemon \<Rightarrow> daemon" where
  "Prot_init_vars d =
     (let my = My (conf d);
          d = upd_stat (\<lambda>g. g\<lparr> g_my_id := pr_id my, g_packet_delivered := 0 \<rparr>) d
      in upd_prot (\<lambda>p. p\<lparr>
           My_index := Conf_proc_ref_by_id_in_conf (Config (conf d)) (pr_id my),
           Prev_proc_id := 0,
           Up_queue := (\<lambda>k. if int k < MAX_PROCS_RING + 1 then (Up_queue p k)\<lparr> uq_exist := False \<rparr> else Up_queue p k),
           Packets := (\<lambda>k. if int k < MAX_PACKETS_IN_STRUCT then (Packets p k)\<lparr> pi_exist := 0 \<rparr> else Packets p k),
           Highest_seq := 0, Highest_fifo_seq := 0, My_aru := 0, Aru := 0,
           Last_discarded := 0, Last_delivered := 0, Send_pack_queue := [],
           Last_token := (Last_token p)\<lparr> t_type := 0, t_seq := 0, t_aru := 0, t_flow_control := 0,
             t_conf_hash := 0 \<rparr> \<rparr>) d)"

definition attach_channels :: "daemon \<Rightarrow> daemon" where
  "attach_channels d =
     upd_prot (\<lambda>p. p\<lparr> Token_has_priority := False \<rparr>)
       (d\<lparr> out := out d @
          map (\<lambda>c. E_attach_fd c H_Prot_handle_bcast HIGH_PRIORITY) (Bcast_channels (net d)) @
          map (\<lambda>c. E_attach_fd c H_Prot_handle_token MEDIUM_PRIORITY) (Token_channels (net d)) \<rparr>)"

section \<open>Membership variables\<close>

text \<open>The defaults of the timeouts, and the conversion of the configured milliseconds.\<close>

definition default_timeouts :: "bool \<Rightarrow> prot_state \<Rightarrow> prot_state" where
  "default_timeouts wide p =
     (if wide then
        p\<lparr> Token_timeout := (5, 0), Hurry_timeout := (1, 500000), Alive_timeout := (0, 250000),
           Join_timeout := (0, 250000), Rep_timeout := (1, 250000), Seg_timeout := (0, 500000),
           Gather_timeout := (2, 500000), Form_timeout := (2, 500000), Lookup_timeout := (45, 0) \<rparr>
      else
        p\<lparr> Token_timeout := (1, 250000), Hurry_timeout := (0, 500000), Alive_timeout := (0, 250000),
           Join_timeout := (0, 250000), Rep_timeout := (0, 625000), Seg_timeout := (0, 500000),
           Gather_timeout := (1, 250000), Form_timeout := (1, 250000), Lookup_timeout := (30, 0) \<rparr>)"

definition from_millis :: "int \<Rightarrow> sp_time" where
  "from_millis t = (c_div t 1000, c_mod t 1000 * 1000)"

definition configured_timeouts :: "conf_state \<Rightarrow> prot_state \<Rightarrow> prot_state" where
  "configured_timeouts c p =
     p\<lparr> Token_timeout := from_millis (TokenTimeout c), Hurry_timeout := from_millis (HurryTimeout c),
        Alive_timeout := from_millis (AliveTimeout c), Join_timeout := from_millis (JoinTimeout c),
        Rep_timeout := from_millis (RepTimeout c), Seg_timeout := from_millis (SegTimeout c),
        Gather_timeout := from_millis (GatherTimeout c), Form_timeout := from_millis (FormTimeout c),
        Lookup_timeout := from_millis (LookupTimeout c) \<rparr>"

definition memb_timeouts :: "daemon \<Rightarrow> daemon result" where
  "memb_timeouts d =
     (let c = conf d;
          wide = (if WideAreaNetworkFlag c then WideAreaNetwork c else Conf_num_segments (Config c) > 1);
          c = (if \<not> C_AcceleratedRingFlag c then Conf_set_accelerated_ring (\<not> wide) c else c);
          d = upd_prot (\<lambda>p. p\<lparr> Wide_network := wide \<rparr>) (d\<lparr> conf := c \<rparr>)
      in if \<not> Conf_memb_timeouts_set c then Inr (upd_prot (default_timeouts wide) d)
         else guard_res (\<not> Conf_all_memb_timeouts_set c) (Alarm_exit ''Memb_init'')
                (Inr (upd_prot (configured_timeouts c) d)))"

definition Memb_init :: "daemon \<Rightarrow> daemon result" where
  "Memb_init d =
     (let d = Shift_to_op d;
          d = upd_stat (\<lambda>g. g\<lparr> g_membership_changes := 0 \<rparr>) d
      in bind_res (memb_timeouts d) (\<lambda>d.
         let my = My (conf d)
         in bind_res (only_me (Config (conf d)) my (Config (conf d))) (\<lambda>vw.
            let d = upd_memb (\<lambda>m. m\<lparr> Membership := vw,
                      Membership_id := \<lparr> m_proc_id = pr_id my, m_time = - 1 \<rparr>, Last_time_used := - 1,
                      Commit_set := (single_member (pr_id my) (Commit_set m))\<lparr> num_pending := 1 \<rparr> \<rparr>) d;
                d = upd_prot (\<lambda>p. p\<lparr> Transitional := False, Reg_membership := vw \<rparr>) d
            in Memb_token_loss d)))"

text \<open>\<open>Prot_init\<close> after \<open>Net_init\<close>.\<close>

definition Prot_init_rest :: "daemon \<Rightarrow> daemon result" where
  "Prot_init_rest d =
     bind_res (Memb_init (FC_init (attach_channels d))) (\<lambda>d.
       Net_set_membership (Reg_membership (prot d)) d)"

section \<open>The invariant from the start\<close>

lemma Prot_init_vars_ok: "window_ok (prot (Prot_init_vars d))" "Send_pack_queue (prot (Prot_init_vars d)) = []"
  "Last_discarded (prot (Prot_init_vars d)) = Aru (prot (Prot_init_vars d))"
proof -
  have "exist (prot (Prot_init_vars d)) i = 0" for i
    using slot_less [of i] by (simp add: Prot_init_vars_def pkt_def Let_def)
  then show "window_ok (prot (Prot_init_vars d))"
    by (simp add: window_ok_def entry_ok_def) (simp add: Prot_init_vars_def Let_def)
qed (simp_all add: Prot_init_vars_def Let_def)

text \<open>\<open>Memb_init\<close> starts in the state OP, whatever the state was before.\<close>

lemma memb_timeouts_calm:
  assumes "memb_timeouts d = Inr d'"
  shows "calm d d'"
proof -
  have "calms d (memb_timeouts d)"
    unfolding memb_timeouts_def Let_def
    by (auto intro!: calms_guard calm_upd_prot simp: win_def default_timeouts_def configured_timeouts_def)
  then show ?thesis using assms by (simp add: calms_def)
qed

lemma Memb_init_win:
  assumes "Memb_init d = Inr d'"
  shows "win (prot d') = win (prot d)" and "Send_pack_queue (prot d') = Send_pack_queue (prot d)"
    and "State (memb d') \<noteq> EVS"
proof -
  define e where "e = upd_stat (\<lambda>g. g\<lparr> g_membership_changes := 0 \<rparr>) (Shift_to_op d)"
  have e: "win (prot e) = win (prot d)" "Send_pack_queue (prot e) = Send_pack_queue (prot d)" "State (memb e) = OP"
    by (simp_all add: e_def Shift_to_op_def set_state_def Let_def)
  obtain d1 vw d2 where 1: "memb_timeouts e = Inr d1" and 2: "calm d1 d2" and 3: "Memb_token_loss d2 = Inr d'"
  proof -
    obtain d1 vw where 1: "memb_timeouts e = Inr d1"
        and 2: "Memb_token_loss (upd_prot (\<lambda>p. p\<lparr> Transitional := False, Reg_membership := vw \<rparr>)
          (upd_memb (\<lambda>m. m\<lparr> Membership := vw,
                      Membership_id := \<lparr> m_proc_id = pr_id (My (conf d1)), m_time = - 1 \<rparr>, Last_time_used := - 1,
                      Commit_set := (single_member (pr_id (My (conf d1))) (Commit_set m))\<lparr> num_pending := 1 \<rparr> \<rparr>) d1)) = Inr d'"
      using assms unfolding Memb_init_def Let_def e_def [symmetric] by (elim bind_res_elim)
    show thesis by (rule that [OF 1 _ 2]) (simp add: calm_upd_prot calm_upd_memb win_def)
  qed
  have "calm e d2" using memb_timeouts_calm [OF 1] 2 by (rule calm_trans)
  moreover have "State (memb d2) \<noteq> EVS" using calculation e(3) by (simp add: calm_def)
  ultimately have "calm e d'" using calm_Memb_token_loss [OF 3] calm_trans by blast
  then show "win (prot d') = win (prot d)" "Send_pack_queue (prot d') = Send_pack_queue (prot d)" "State (memb d') \<noteq> EVS"
    using e by (simp_all add: calm_def)
qed

lemma Net_set_membership_calm: "Net_set_membership m d = Inr d' \<Longrightarrow> prot d' = prot d \<and> memb d' = memb d"
  by (auto simp: Net_set_membership_def Let_def)

lemma Prot_init_ok:
  assumes "Prot_init_rest e = Inr d'" and "prot e = prot (Prot_init_vars d)"
  shows "ring_ok d'"
proof -
  let ?e = "FC_init (attach_channels e)"
  obtain d1 where 1: "Memb_init ?e = Inr d1" and 2: "Net_set_membership (Reg_membership (prot d1)) d1 = Inr d'"
    using assms(1) unfolding Prot_init_rest_def by (elim bind_res_elim)
  have "win (prot ?e) = win (prot e)" "Send_pack_queue (prot ?e) = Send_pack_queue (prot e)"
    by (simp_all add: FC_init_def attach_channels_def Let_def win_def)
  then have w: "win (prot d') = win (prot (Prot_init_vars d))" "Send_pack_queue (prot d') = []" "State (memb d') \<noteq> EVS"
    using Memb_init_win [OF 1] Net_set_membership_calm [OF 2] Prot_init_vars_ok(2) [of d] assms(2) by simp_all
  then have "window_ok (prot d')" using window_ok_win Prot_init_vars_ok(1) by blast
  moreover have "Last_discarded (prot d') = Aru (prot d')"
    using w(1) Prot_init_vars_ok(3) [of d] by (simp add: win_def)
  ultimately show ?thesis using w by (simp add: ring_ok_def)
qed

text \<open>A daemon that has just started: some state whose protocol variables are initialised.\<close>

definition started :: "daemon \<Rightarrow> bool" where
  "started d' \<longleftrightarrow> (\<exists>d e. prot e = prot (Prot_init_vars d) \<and> Prot_init_rest e = Inr d')"

interpretation run: step_system started daemon_step ring_ok
  by unfold_locales (auto simp: started_def intro: Prot_init_ok daemon_step_ok)

end
