(* ===== verification/Loss.thy ===== *)
theory Loss
  imports Startup
begin

text \<open>
  The loss of the token in the operational state: it cannot fail in a well-formed
  configuration, and it leaves the daemon alone in its membership, in the state SEG, with
  one potential representative for every other segment. A daemon's start ends the same way.
\<close>

section \<open>Well-formed configurations and memberships\<close>

definition conf_indexed :: "configuration \<Rightarrow> bool" where
  "conf_indexed cn \<longleftrightarrow> conf_wf cn \<and> int (length (segments cn)) \<le> MAX_SEGMENTS \<and>
     (\<forall>i < length (segments cn). procs (segments cn ! i) \<noteq> [] \<and>
        (\<forall>p \<in> set (procs (segments cn ! i)). pr_seg_index p = int i))"

definition memb_in :: "configuration \<Rightarrow> configuration \<Rightarrow> bool" where
  "memb_in cn vw \<longleftrightarrow> length (segments vw) = length (segments cn) \<and>
     (\<forall>i < length (segments cn). set (procs (segments vw ! i)) \<subseteq> set (procs (segments cn ! i)))"

definition in_conf :: "proc \<Rightarrow> configuration \<Rightarrow> bool" where
  "in_conf my cn \<longleftrightarrow> 0 \<le> pr_seg_index my \<and> nat (pr_seg_index my) < length (segments cn) \<and>
     my \<in> set (procs (segments cn ! nat (pr_seg_index my)))"

text \<open>The daemon that stands for segment \<open>i\<close>: its first member, or its first configured daemon.\<close>

definition seg_rep :: "configuration \<Rightarrow> configuration \<Rightarrow> nat \<Rightarrow> proc" where
  "seg_rep cn vw i = (case procs (segments vw ! i) of p # _ \<Rightarrow> p | [] \<Rightarrow> hd (procs (segments cn ! i)))"

lemma conf_indexed_known:
  assumes "conf_indexed cn" and "i < length (segments cn)" and "p \<in> set (procs (segments cn ! i))"
  shows "\<exists>k. Conf_proc_by_id_in_conf cn (pr_id p) = Some (k, p)" and "pr_seg_index p = int i"
proof -
  have "p \<in> set (allprocs cn)" "distinct (map pr_id (allprocs cn))"
    using assms by (auto simp: conf_indexed_def conf_wf_def list_all_iff)
  then show "\<exists>k. Conf_proc_by_id_in_conf cn (pr_id p) = Some (k, p)" using Conf_proc_by_id_unique by blast
  show "pr_seg_index p = int i" using assms by (simp add: conf_indexed_def)
qed

lemma seg_rep_known:
  assumes "conf_indexed cn" and "memb_in cn vw" and "i < length (segments cn)"
  shows "\<exists>k. Conf_proc_by_id_in_conf cn (pr_id (seg_rep cn vw i)) = Some (k, seg_rep cn vw i)"
    and "pr_seg_index (seg_rep cn vw i) = int i"
proof -
  have "seg_rep cn vw i \<in> set (procs (segments cn ! i))"
    using assms by (auto simp: seg_rep_def conf_indexed_def memb_in_def split: list.splits)
  then show "\<exists>k. Conf_proc_by_id_in_conf cn (pr_id (seg_rep cn vw i)) = Some (k, seg_rep cn vw i)"
    "pr_seg_index (seg_rep cn vw i) = int i"
    using conf_indexed_known [OF assms(1,3)] by blast+
qed

section \<open>Potential representatives\<close>

definition rep_list :: "reps_info \<Rightarrow> rep_info list" where
  "rep_list r = map (reps r) [0..<nat (num_reps r)]"

lemma rep_list_append:
  "0 \<le> num_reps r \<Longrightarrow>
    rep_list ((set_rep (nat (num_reps r)) e r)\<lparr> num_reps := num_reps r + 1 \<rparr>) = rep_list r @ [e]"
  by (simp add: rep_list_def set_rep_def nat_add_distrib)

lemma Insert_rep_potential:
  assumes "Conf_proc_by_id_in_conf cn (rp_proc_id e) = Some (k, p)" and "rp_type e = POTENTIAL_REP"
    and "\<forall>x \<in> set (rep_list r). rp_seg_index x \<noteq> pr_seg_index p" and "0 \<le> num_reps r" "num_reps r < MAX_REPS"
  shows "Insert_rep cn r e = Inr ((set_rep (nat (num_reps r)) e r)\<lparr> num_reps := num_reps r + 1 \<rparr>, 1)"
proof -
  have "first_some (insert_rep_at POTENTIAL_REP p r) [0..<nat (num_reps r)] = None"
    using assms(3) by (auto simp: first_some_None rep_list_def)
  then show ?thesis using assms(1,2,5) by (simp add: Insert_rep_def)
qed

definition potential_rep :: "configuration \<Rightarrow> configuration \<Rightarrow> nat \<Rightarrow> rep_info" where
  "potential_rep cn vw i = \<lparr> rp_proc_id = pr_id (seg_rep cn vw i), rp_type = POTENTIAL_REP, rp_seg_index = int i \<rparr>"

lemma potential_step_eq:
  assumes "conf_indexed (Config (conf d))" and "memb_in (Config (conf d)) vw"
    and "i < length (segments (Config (conf d)))" and "int i \<noteq> pr_seg_index (My (conf d))"
    and "rp_type temp = POTENTIAL_REP" and "\<forall>x \<in> set (rep_list r). rp_seg_index x \<noteq> int i"
    and "0 \<le> num_reps r" "num_reps r < MAX_REPS"
  defines "e \<equiv> potential_rep (Config (conf d)) vw i"
  shows "potential_step d vw i (temp, r) =
    Inr (e, (set_rep (nat (num_reps r)) e r)\<lparr> num_reps := num_reps r + 1 \<rparr>)"
proof -
  let ?cn = "Config (conf d)"
  have "procs (segments ?cn ! i) \<noteq> []" using assms(1,3) by (simp add: conf_indexed_def)
  then have "(case procs (segments vw ! i) of p # _ \<Rightarrow> Inr (pr_id p) | [] \<Rightarrow> Conf_seg_leader ?cn (int i)) =
      Inr (pr_id (seg_rep ?cn vw i))"
    using assms(3) by (auto simp: seg_rep_def Conf_seg_leader_def seg_at_def split: list.splits)
  moreover have "temp\<lparr> rp_seg_index := int i, rp_proc_id := pr_id (seg_rep ?cn vw i) \<rparr> = e"
    using assms(5) by (simp add: e_def potential_rep_def)
  moreover have "seg_at vw (int i) = Inr (segments vw ! i)"
    using assms(2,3) by (simp add: seg_at_def memb_in_def)
  moreover obtain k where "Conf_proc_by_id_in_conf ?cn (rp_proc_id e) = Some (k, seg_rep ?cn vw i)"
    using seg_rep_known(1) [OF assms(1-3)] by (auto simp: e_def potential_rep_def)
  note Insert_rep_potential [OF this]
  ultimately show ?thesis
    using assms(4,6-8) seg_rep_known(2) [OF assms(1-3)]
    by (simp add: potential_step_def) (simp add: e_def potential_rep_def)
qed

lemma potential_loop:
  assumes "conf_indexed (Config (conf d))" and "memb_in (Config (conf d)) vw"
    and "n \<le> length (segments (Config (conf d)))" and "num_reps r = 0" and "rp_type temp = POTENTIAL_REP"
  shows "\<exists>temp' r'. fold_res (potential_step d vw) [0..<n] (temp, r) = Inr (temp', r') \<and>
    rp_type temp' = POTENTIAL_REP \<and> 0 \<le> num_reps r' \<and> num_reps r' \<le> int n \<and> rep_list r' =
      map (potential_rep (Config (conf d)) vw) (filter (\<lambda>i. int i \<noteq> pr_seg_index (My (conf d))) [0..<n])"
  using assms(3)
proof (induction n)
  case 0
  show ?case using assms(4,5) by (simp add: rep_list_def)
next
  case (Suc n)
  let ?cn = "Config (conf d)" and ?reps = "\<lambda>n. map (potential_rep (Config (conf d)) vw)
    (filter (\<lambda>i. int i \<noteq> pr_seg_index (My (conf d))) [0..<n])"
  obtain t1 r1 where 1: "fold_res (potential_step d vw) [0..<n] (temp, r) = Inr (t1, r1)" "rp_type t1 = POTENTIAL_REP"
      "0 \<le> num_reps r1" "num_reps r1 \<le> int n" "rep_list r1 = ?reps n"
    using Suc by auto
  have lt: "num_reps r1 < MAX_REPS" using 1(4) Suc.prems assms(1) by (simp add: conf_indexed_def)
  have fresh: "\<forall>x \<in> set (rep_list r1). rp_seg_index x \<noteq> int n" using 1(5) by (auto simp: potential_rep_def)
  show ?case
  proof (cases "int n = pr_seg_index (My (conf d))")
    case True
    then have "potential_step d vw n (t1, r1) = Inr (t1, r1)" by (simp add: potential_step_def)
    then show ?thesis using 1 True by (simp add: fold_res_append)
  next
    case False
    note st = potential_step_eq [OF assms(1,2) _ False 1(2) fresh 1(3) lt]
    show ?thesis
      using 1 st Suc.prems False rep_list_append [OF 1(3)]
      by (simp add: fold_res_append potential_rep_def)
  qed
qed

section \<open>The loss\<close>

lemma only_me_eq:
  assumes "conf_indexed cn" and "length (segments m) = length (segments cn)" and "in_conf my cn"
  shows "\<exists>vw. only_me cn my m = Inr vw \<and> ring vw = [my] \<and> memb_in cn vw"
proof -
  let ?k = "nat (pr_seg_index my)"
  define ss where "ss = map (\<lambda>s. s\<lparr> procs := [] \<rparr>) (segments m)"
  have k: "0 \<le> pr_seg_index my" "?k < length ss" using assms(2,3) by (simp_all add: in_conf_def ss_def)
  obtain j where "Conf_proc_by_id_in_conf cn (pr_id my) = Some (j, my)"
    using conf_indexed_known(1) [OF assms(1), of ?k my] assms(3) by (auto simp: in_conf_def)
  then have ap: "fst (Conf_append_id_to_seg cn (ss ! ?k) (pr_id my)) = (ss ! ?k)\<lparr> procs := [my] \<rparr>"
    using k by (simp add: Conf_append_id_to_seg_def ss_def)
  have cl: "clear_members cn m = m\<lparr> segments := ss \<rparr>"
    using assms(2) by (simp add: clear_members_def ss_def)
  have "only_me cn my m = Inr (m\<lparr> segments := ss[?k := (ss ! ?k)\<lparr> procs := [my] \<rparr>] \<rparr>)"
    using k ap by (simp add: only_me_def cl seg_at_def Let_def nat_less_iff)
  moreover have "concat (map procs (ss[?k := (ss ! ?k)\<lparr> procs := [my] \<rparr>])) = [my]"
  proof -
    have e: "concat (map procs (take n ss)) = []" "concat (map procs (drop n ss)) = []" for n
      by (auto simp: ss_def take_map drop_map)
    show ?thesis using k by (simp add: upd_conv_take_nth_drop e)
  qed
  moreover have "memb_in cn (m\<lparr> segments := ss[?k := (ss ! ?k)\<lparr> procs := [my] \<rparr>] \<rparr>)"
    using assms(2,3) by (auto simp: memb_in_def ss_def in_conf_def nth_list_update)
  ultimately show ?thesis by (auto simp: ring_def)
qed

lemma Prot_set_delivery_threshold_block:
  "Prot_set_delivery_threshold BLOCK_REGULAR_DELIVERY d =
     Inr ((upd_prot (\<lambda>p. p\<lparr> Prot_delivery_threshold := BLOCK_REGULAR_DELIVERY \<rparr>) d)\<lparr> out := out d @
       (if Prot_delivery_threshold (prot d) < BLOCK_REGULAR_DELIVERY
        then [E_dequeue Deliver_agreed_packets_event, E_dequeue Deliver_all_reliable_packets_event] else []) \<rparr>)"
proof -
  have same: "(upd_prot f d)\<lparr> out := out d \<rparr> = upd_prot f d" for f by (simp add: upd_prot_def)
  show ?thesis
    unfolding Prot_set_delivery_threshold_def Let_def guard_res_def
  proof (cases "Prot_delivery_threshold (prot d) < BLOCK_REGULAR_DELIVERY", goal_cases)
    case 2
    then show ?case by (cases "BLOCK_REGULAR_DELIVERY < Prot_delivery_threshold (prot d)") (simp_all add: same)
  qed simp
qed

text \<open>What the daemon is left with.\<close>

definition alone :: "daemon \<Rightarrow> bool" where
  "alone d \<longleftrightarrow> State (memb d) = SEG \<and> \<not> Token_alive (memb d) \<and> ring (Membership (memb d)) = [My (conf d)] \<and>
     member_list (F_members (memb d)) = [pr_id (My (conf d))]"

lemma Memb_token_loss_op:
  assumes "State (memb d) = OP" and "conf_indexed (Config (conf d))" and "memb_in (Config (conf d)) (Membership (memb d))"
    and "in_conf (My (conf d)) (Config (conf d))"
  shows "\<exists>d'. Memb_token_loss d = Inr d' \<and> alone d' \<and> conf d' = conf d \<and> net d' = net d \<and>
    Prot_delivery_threshold (prot d') = BLOCK_REGULAR_DELIVERY \<and> win (prot d') = win (prot d) \<and>
    rep_list (Potential_reps (memb d')) = map (potential_rep (Config (conf d)) (Membership (memb d)))
      (filter (\<lambda>i. int i \<noteq> pr_seg_index (My (conf d))) [0..<length (segments (Config (conf d)))]) \<and>
    Reg_membership (prot d') = Reg_membership (prot d) \<and> memb_in (Config (conf d)) (Membership (memb d'))"
proof -
  let ?cn = "Config (conf d)" and ?m = "Membership (memb d)" and ?my = "My (conf d)"
  let ?none = "(Potential_reps (memb d))\<lparr> num_reps := 0 \<rparr>"
  obtain temp r where r: "fold_res (potential_step d ?m) [0..<length (segments ?cn)] (potential_temp, ?none) = Inr (temp, r)"
      and rl: "rep_list r = map (potential_rep ?cn ?m) (filter (\<lambda>i. int i \<noteq> pr_seg_index ?my) [0..<length (segments ?cn)])"
    using potential_loop [OF assms(2,3) order_refl, of ?none potential_temp] by auto
  let ?d1 = "upd_memb (\<lambda>m. m\<lparr> Potential_reps := r \<rparr>) d"
  have 1: "token_loss_reps d = Inr ?d1"
    using r assms(1) by (simp add: token_loss_reps_def potential_from_def Conf_num_segments_def Let_def)
  define d2 where "d2 = (upd_prot (\<lambda>p. p\<lparr> Prot_delivery_threshold := BLOCK_REGULAR_DELIVERY \<rparr>)
     (upd_memb (\<lambda>m. m\<lparr> Token_alive := False \<rparr>) ?d1))\<lparr> out := out d @
       (if Prot_delivery_threshold (prot d) < BLOCK_REGULAR_DELIVERY
        then [E_dequeue Deliver_agreed_packets_event, E_dequeue Deliver_all_reliable_packets_event] else []) \<rparr>"
  have 2: "Prot_set_delivery_threshold BLOCK_REGULAR_DELIVERY (upd_memb (\<lambda>m. m\<lparr> Token_alive := False \<rparr>) ?d1) = Inr d2"
    unfolding Prot_set_delivery_threshold_block d2_def by simp
  define d3 where "d3 = token_loss_reset d2"
  have d3: "conf d3 = conf d" "Membership (memb d3) = ?m" "net d3 = net d" "win (prot d3) = win (prot d)"
    "Prot_delivery_threshold (prot d3) = BLOCK_REGULAR_DELIVERY" "Potential_reps (memb d3) = r"
    "Token_alive (memb d3) = False" "Reg_membership (prot d3) = Reg_membership (prot d)"
    by (simp_all add: d3_def d2_def token_loss_reset_def Let_def win_def)
  have "length (segments ?m) = length (segments ?cn)" using assms(3) by (simp add: memb_in_def)
  then obtain vw where vw: "only_me ?cn ?my ?m = Inr vw" "ring vw = [?my]" "memb_in ?cn vw"
    using only_me_eq [OF assms(2) _ assms(4)] by blast
  define d4 where "d4 = Shift_to_seg (upd_memb (\<lambda>m. m\<lparr> Membership := vw \<rparr>) d3)"
  have "Memb_token_loss d = Inr d4"
    unfolding Memb_token_loss_def 1 bind_res_Inr 2 Let_def d3_def [symmetric] using vw(1) by (simp add: d3 d4_def)
  moreover have "alone d4"
    using d3 vw(2) by (simp add: d4_def alone_def Shift_to_seg_def Let_def set_state_def single_member_def member_list_def)
  moreover have "conf d4 = conf d" "net d4 = net d" "Prot_delivery_threshold (prot d4) = BLOCK_REGULAR_DELIVERY"
    "win (prot d4) = win (prot d)" "Potential_reps (memb d4) = r" "Reg_membership (prot d4) = Reg_membership (prot d)"
    "Membership (memb d4) = vw"
    using d3 by (simp_all add: d4_def Shift_to_seg_def Let_def set_state_def)
  ultimately show ?thesis using rl vw(3) by auto
qed

section \<open>The start\<close>

lemma memb_timeouts_frame:
  assumes "memb_timeouts d = Inr d'"
  shows "memb d' = memb d" "net d' = net d" "Config (conf d') = Config (conf d)" "My (conf d') = My (conf d)"
  using assms by (auto simp: memb_timeouts_def Let_def Conf_set_accelerated_ring_def split: if_splits)

lemma Memb_init_total:
  assumes "memb_timeouts (upd_stat (\<lambda>g. g\<lparr> g_membership_changes := 0 \<rparr>) (Shift_to_op d)) = Inr d1"
    and "conf_indexed (Config (conf d))" and "in_conf (My (conf d)) (Config (conf d))"
  shows "\<exists>d'. Memb_init d = Inr d' \<and> alone d' \<and> Config (conf d') = Config (conf d) \<and> My (conf d') = My (conf d) \<and>
    ring (Reg_membership (prot d')) = [My (conf d)] \<and> memb_in (Config (conf d)) (Reg_membership (prot d'))"
proof -
  define e where "e = upd_stat (\<lambda>g. g\<lparr> g_membership_changes := 0 \<rparr>) (Shift_to_op d)"
  have e: "conf e = conf d" "State (memb e) = OP" by (simp_all add: e_def Shift_to_op_def set_state_def Let_def)
  note f = memb_timeouts_frame [OF assms(1) [folded e_def], unfolded e]
  obtain vw where vw: "only_me (Config (conf d)) (My (conf d)) (Config (conf d)) = Inr vw" "ring vw = [My (conf d)]"
      "memb_in (Config (conf d)) vw"
    using only_me_eq [OF assms(2) refl assms(3)] by blast
  define d2 where "d2 = upd_prot (\<lambda>p. p\<lparr> Transitional := False, Reg_membership := vw \<rparr>)
    (upd_memb (\<lambda>m. m\<lparr> Membership := vw, Membership_id := \<lparr> m_proc_id = pr_id (My (conf d1)), m_time = - 1 \<rparr>,
       Last_time_used := - 1,
       Commit_set := (single_member (pr_id (My (conf d1))) (Commit_set m))\<lparr> num_pending := 1 \<rparr> \<rparr>) d1)"
  have d2: "State (memb d2) = OP" "Config (conf d2) = Config (conf d)" "My (conf d2) = My (conf d)"
    "Membership (memb d2) = vw" "Reg_membership (prot d2) = vw"
    using f e by (simp_all add: d2_def)
  obtain d' where d': "Memb_token_loss d2 = Inr d'" "alone d'" "conf d' = conf d2"
      "Reg_membership (prot d') = Reg_membership (prot d2)"
    using Memb_token_loss_op [of d2] assms(2,3) vw(3) by (auto simp: d2)
  have "Memb_init d = Memb_token_loss d2"
    unfolding Memb_init_def Let_def e_def [symmetric] assms(1) [folded e_def] bind_res_Inr
    using vw(1) f by (simp add: d2_def)
  then show ?thesis using d' d2 vw by simp
qed

lemma ring_single_split:
  assumes "ring vw = [p]"
  shows "\<exists>sa seg sb. segments vw = sa @ seg # sb \<and> procs seg = [p]"
proof -
  have "concat (map procs ss) = [p] \<Longrightarrow> \<exists>sa seg sb. ss = sa @ seg # sb \<and> procs seg = [p]" for ss
  proof (induction ss)
    case (Cons s ss)
    show ?case
    proof (cases "procs s")
      case Nil
      then obtain sa seg sb where "ss = sa @ seg # sb" "procs seg = [p]" using Cons by auto
      then show ?thesis by (intro exI [of _ "s # sa"]) auto
    next
      case (Cons q qs)
      then have "procs s = [p]" using Cons.prems by auto
      then show ?thesis by (intro exI [of _ "[]"]) auto
    qed
  qed simp
  then show ?thesis using assms by (simp add: ring_def)
qed

lemma Prot_init_total:
  assumes "\<not> Conf_memb_timeouts_set (conf d) \<or> Conf_all_memb_timeouts_set (conf d)"
    and "conf_indexed (Config (conf d))" and "in_conf (My (conf d)) (Config (conf d))"
  shows "\<exists>d'. Prot_init_rest d = Inr d' \<and> alone d'"
proof -
  let ?e = "FC_init (attach_channels d)"
  have e: "conf ?e = conf d" by (simp add: FC_init_def attach_channels_def Let_def)
  have "\<exists>d1. memb_timeouts (upd_stat (\<lambda>g. g\<lparr> g_membership_changes := 0 \<rparr>) (Shift_to_op ?e)) = Inr d1"
  proof -
    have "conf (upd_stat (\<lambda>g. g\<lparr> g_membership_changes := 0 \<rparr>) (Shift_to_op ?e)) = conf d"
      using e by (simp add: Shift_to_op_def set_state_def Let_def)
    then show ?thesis
      using assms(1) by (auto simp: memb_timeouts_def Let_def Conf_memb_timeouts_set_def Conf_all_memb_timeouts_set_def
          Conf_set_accelerated_ring_def)
  qed
  then obtain d1 where d1: "Memb_init ?e = Inr d1" "alone d1" "Config (conf d1) = Config (conf d)" "My (conf d1) = My (conf d)"
      "ring (Reg_membership (prot d1)) = [My (conf d)]" "memb_in (Config (conf d)) (Reg_membership (prot d1))"
    using Memb_init_total [of ?e] assms(2,3) unfolding e by blast
  let ?m = "Reg_membership (prot d1)"
  obtain sa seg sb where s: "segments ?m = sa @ seg # sb" "procs seg = [My (conf d)]"
    using ring_single_split [OF d1(5)] by blast
  have len: "length (segments (Config (conf d))) = length (segments ?m)" using d1(6) by (simp add: memb_in_def)
  then have "My (conf d) \<in> set (procs (segments (Config (conf d)) ! length sa))" "length sa < length (segments (Config (conf d)))"
    using d1(6) s by (auto simp: memb_in_def dest!: spec [of _ "length sa"])
  then have "pr_seg_index (My (conf d)) = int (length sa)" using conf_indexed_known(2) [OF assms(2)] by blast
  then obtain d2 where "Net_set_membership ?m d1 = Inr d2" "memb d2 = memb d1" "conf d2 = conf d1"
    using Net_set_membership_ok [of ?m sa seg sb "[]" d1 "[]"] s len d1(3-5) by (simp add: ring_ids_def)
  then show ?thesis using d1(1,2) by (auto simp: Prot_init_rest_def alone_def)
qed

end
