(* ===== verification/Sample.thy ===== *)
theory Sample
  imports Conf_Ring Daemon_State
begin

text \<open>
  A small installation at which the properties are instantiated: three daemons in two
  segments, seen by the first of them, with no message sent yet.
\<close>

definition sample_proc :: "nat \<Rightarrow> int \<Rightarrow> int \<Rightarrow> proc" where
  "sample_proc n seg idx = \<lparr> pr_name = ''d'', pr_addr = Spu_addr n, pr_id = of_nat n,
     pr_ifc = [], pr_seg_index = seg, pr_index_in_seg = idx \<rparr>"

definition sample_conf :: configuration where
  "sample_conf = \<lparr> hash_code = 7,
     allprocs = [sample_proc 1 0 0, sample_proc 2 0 1, sample_proc 3 1 0],
     segments = [\<lparr> seg_addrs = [Spu_addr 10], procs = [sample_proc 1 0 0, sample_proc 2 0 1] \<rparr>,
                 \<lparr> seg_addrs = [Spu_addr 11], procs = [sample_proc 3 1 0] \<rparr>] \<rparr>"

definition sample_conf_state :: conf_state where
  "sample_conf_state = \<lparr> Config = sample_conf, My = sample_proc 1 0 0, EnableDangerousMonitor = False,
     SocketPortReuse = PORT_REUSE_AUTO, RuntimeDir = None, User = None, Group = None,
     MaxSessionMessages = 1000, C_Window = 60, C_PersonalWindow = 15, C_AcceleratedRingFlag = False,
     C_AcceleratedRing = False, C_AcceleratedWindow = 10, TimeoutMask = 0, TokenTimeout = 0, HurryTimeout = 0,
     AliveTimeout = 0, JoinTimeout = 0, RepTimeout = 0, SegTimeout = 0, GatherTimeout = 0, FormTimeout = 0,
     LookupTimeout = 0, WideAreaNetworkFlag = False, WideAreaNetwork = False, ExcludeSegAddrsFromHash = False,
     IgnoreMulticastJoinErrors = False, Conf_Reload_State = False, Conf_Reload_Singleton_State = False,
     Conf_Active_IP_Version = - 1 \<rparr>"

definition sample_head :: packet_header where
  "sample_head = \<lparr> p_type = 0x80000088, p_transmiter_id = 2, p_proc_id = 2, p_memb_id = \<lparr> m_proc_id = 1, m_time = 5 \<rparr>,
     p_seq = 1, p_token_round = 0, p_conf_hash = 7, p_data_len = 0, p_padding = 0,
     p_first_frag_header = \<lparr> fragment_index = - 1, fragment_len = 0 \<rparr> \<rparr>"

definition sample_token :: token_header where
  "sample_token = \<lparr> t_type = 0x80010080, t_transmiter_id = 3, t_proc_id = 3, t_memb_id = \<lparr> m_proc_id = 1, m_time = 5 \<rparr>,
     t_seq = 0, t_aru = 0, t_aru_last_id = 0, t_flow_control = 0, t_rtr_len = 0, t_conf_hash = 7 \<rparr>"

definition sample_members :: members_info where
  "sample_members = \<lparr> num_members = 3, num_pending = 0, members = (\<lambda>i. if i = 0 then 3 else if i = 1 then 1 else 2) \<rparr>"

definition sample_reps :: reps_info where
  "sample_reps = \<lparr> num_reps = 1, rep_index = 0,
     reps = (\<lambda>_. \<lparr> rp_proc_id = 1, rp_type = RING_REP, rp_seg_index = 0 \<rparr>) \<rparr>"

definition sample_prot :: prot_state where
  "sample_prot = \<lparr> Protocol_down_queue = (\<lambda>_. \<lparr> num_mess = 0, cur_element = 0, dq_links = [] \<rparr>),
     Down_queue_ptr = NORMAL_DOWNQUEUE, Up_queue = (\<lambda>_. \<lparr> uq_exist = False, uq_mess = [] \<rparr>),
     Packets = (\<lambda>_. \<lparr> pi_head = sample_head, pi_body = [], pi_exist = 0, pi_proc_index = 0 \<rparr>),
     Aru = 0, My_aru = 0, Highest_seq = 0, Highest_fifo_seq = 0, Last_discarded = 0, Last_delivered = 0,
     Last_seq = 0, Token_rounds = 0, Received_token_rounds = 0, Last_token = sample_token, Transitional = False,
     Trans_membership = sample_conf, Commit_membership = sample_conf, Reg_membership = sample_conf,
     Last_num_retrans = 0, Last_num_sent = 0, Token_timeout = (5, 0), Hurry_timeout = (1, 0), Alive_timeout = (1, 0),
     Join_timeout = (1, 0), Rep_timeout = (1, 0), Seg_timeout = (1, 0), Gather_timeout = (1, 0),
     Form_timeout = (1, 0), Lookup_timeout = (1, 0), Wide_network = False, My_index = 0, Prev_proc_id = 3,
     Token_has_priority = False, Token_counter = 0, Send_pack_queue = [], Prot_Need_Conf_Reload = False,
     Prot_delivery_threshold = 1 \<rparr>"

definition sample_memb :: memb_state where
  "sample_memb = \<lparr> Memb_Just_Installed = False, Membership = sample_conf, Membership_id = \<lparr> m_proc_id = 1, m_time = 5 \<rparr>,
     Future_membership = sample_conf, Future_membership_id = \<lparr> m_proc_id = 1, m_time = 5 \<rparr>,
     Form1_memb_id = \<lparr> m_proc_id = 1, m_time = 5 \<rparr>, Trans_memb_id = \<lparr> m_proc_id = 1, m_time = 5 \<rparr>,
     F_trans_memb_time = 0, Last_time_used = 5, State = OP, Token_alive = True, My_seg_rep = - 1,
     Foreign_found = False, F_members = sample_members, F_reps = sample_reps, Potential_reps = sample_reps,
     Commit_set = sample_members, Future_commit_set = sample_members \<rparr>"

definition sample_net :: net_state where
  "sample_net = \<lparr> Bcast_needed = 1, Bcast_addrs = [Spu_addr 10], Send_addrs = [Spu_addr 3], Token_addr = Spu_addr 2,
     Net_membership = sample_conf, Segment_leader = True, Partition = (\<lambda>_. 0), Partition_my_index = 0,
     Bcast_channels = [4], Token_channels = [5] \<rparr>"

definition sample_stat :: status where
  "sample_stat = \<lparr> g_state = OP, g_gstate = 1, g_packet_sent = 0, g_packet_recv = 0, g_packet_delivered = 0,
     g_retrans = 0, g_u_retrans = 0, g_s_retrans = 0, g_b_retrans = 0, g_aru = 0, g_my_aru = 0, g_highest_seq = 0,
     g_token_hurry = 0, g_token_rounds = 0, g_my_id = 1, g_leader_id = 1, g_membership_changes = 1, g_num_procs = 3,
     g_num_segments = 2, g_window = 60, g_personal_window = 15, g_accelerated_ring = False, g_accelerated_window = 10 \<rparr>"

definition sample_daemon :: daemon where
  "sample_daemon = \<lparr> conf = sample_conf_state, prot = sample_prot, memb = sample_memb,
     fc = \<lparr> Window = 60, Personal_window = 15, Accelerated_window = 10, Accelerated_ring = False \<rparr>,
     net = sample_net, stat = sample_stat,
     env = \<lparr> MAX_PACKET_SIZE = 1472, detach_ret = (\<lambda>_ _. 0), attach_ret = (\<lambda>_ _. 0) \<rparr>, out = [] \<rparr>"

lemmas sample_defs = sample_daemon_def sample_conf_state_def sample_conf_def sample_proc_def sample_prot_def
  sample_memb_def sample_net_def sample_stat_def sample_members_def sample_reps_def sample_token_def sample_head_def

lemma sample_fields [simp]:
  "conf sample_daemon = sample_conf_state" "prot sample_daemon = sample_prot" "memb sample_daemon = sample_memb"
  "fc sample_daemon = \<lparr> Window = 60, Personal_window = 15, Accelerated_window = 10, Accelerated_ring = False \<rparr>"
  "net sample_daemon = sample_net" "MAX_PACKET_SIZE (env sample_daemon) = 1472"
  by (simp_all add: sample_daemon_def)

lemma sample_conf_wf: "conf_wf sample_conf"
  by (simp add: conf_wf_def sample_conf_def sample_proc_def ring_ids_def ring_def)

end
