(* ===== verification/Order_Properties.thy ===== *)
theory Order_Properties
  imports Loss Sample
begin

text \<open>
  Properties of the ordered delivery of messages: packing, sending, receiving, the token,
  and the invariant over whole runs, each instantiated at the sample installation.
\<close>

section \<open>Facts about the sample\<close>

lemma sample_ring: "ring sample_conf = [sample_proc 1 0 0, sample_proc 2 0 1, sample_proc 3 1 0]"
  by (simp add: ring_def sample_conf_def)

lemma sample_window_ok: "window_ok sample_prot"
  by (simp add: window_ok_def entry_ok_def pkt_def sample_prot_def)

lemma sample_ring_ok: "ring_ok sample_daemon"
  using sample_window_ok by (simp add: ring_ok_def) (simp add: sample_prot_def sample_memb_def)

lemma sample_queue: "queue_wf 1432 (down_queue_of sample_prot)" "dq_links (down_queue_of sample_prot) = []"
  by (simp_all add: queue_wf_def down_queue_of_def sample_prot_def)

lemma sample_node_ready: "node_ready sample_daemon"
  using sample_ring_ok sample_queue sample_ring
  by (simp add: node_ready_def) (simp add: net_ok_def channels_ok_def sample_net_def sample_prot_def sample_memb_def
      sample_token_def)

lemma sample_token_sane: "token_sane sample_token [] sample_daemon"
  by (simp add: token_sane_def rtr_bytes_def sample_prot_def sample_token_def)

section \<open>The token\<close>

text \<open>
  C1. A pass of the token at a daemon that is ready for it, with a token a correct
  predecessor sends: the consistency checks of the pass never end the process; the only
  failure left is a packet whose fragments do not fit together. After the pass the packet
  window satisfies its invariant, no counter has fallen, the token carries on the highest
  sequence number the daemon knows, and it promises for this daemon no packet that the
  daemon does not have (\<open>aru\<close> at most \<open>My_aru\<close>).
\<close>

theorem token_pass_correct:
  assumes "node_ready d" and "token_sane t rtr d"
  shows "case token_process t rtr d of
      Inl e \<Rightarrow> e = Alarm_exit ''Deliver_packet'' \<or> e = Undefined ''Deliver_packet''
    | Inr d' \<Rightarrow> window_ok (prot d') \<and> State (memb d') = State (memb d) \<and> Send_pack_queue (prot d') = [] \<and>
        Last_discarded (prot d') = Aru (prot d') \<and> Aru (prot d) \<le> Aru (prot d') \<and>
        My_aru (prot d) \<le> My_aru (prot d') \<and> Highest_seq (prot d) \<le> Highest_seq (prot d') \<and>
        t_seq t \<le> Highest_seq (prot d') \<and> t_seq (Last_token (prot d')) = Highest_seq (prot d') \<and>
        t_aru (Last_token (prot d')) \<le> My_aru (prot d')"
proof (cases "token_process t rtr d")
  case (Inl e)
  then show ?thesis using token_process_delivers [OF assms] by (simp add: delivers_def delivery_error_def)
next
  case (Inr d')
  have n: "ring_ok d" "net_ok d" "sizeof_packet_body d < 2 ^ 15"
    "queue_wf (sizeof_packet_body d) (down_queue_of (prot d))"
    "\<forall>l \<in> set (dq_links (down_queue_of (prot d))). service_ok (dl_type l)"
    "t_seq t \<le> Last_discarded (prot d) + 8192" "0 \<le> Personal_window (fc d)" "Personal_window (fc d) \<le> 8192 - MAX_SEQ_GAP"
    using assms by (simp_all add: node_ready_def token_sane_def)
  note p = token_process_ok [OF n Inr]
  show ?thesis using Inr p by (simp add: ring_ok_def)
qed

theorem token_pass_correct_witness:
  "node_ready sample_daemon \<and> token_sane sample_token [] sample_daemon \<and>
    (case token_process sample_token [] sample_daemon of
       Inl e \<Rightarrow> e = Alarm_exit ''Deliver_packet'' \<or> e = Undefined ''Deliver_packet''
     | Inr d' \<Rightarrow> window_ok (prot d') \<and> 0 \<le> Aru (prot d'))"
proof -
  have "Aru (prot sample_daemon) = 0" by (simp add: sample_prot_def)
  then show ?thesis
    using token_pass_correct [OF sample_node_ready sample_token_sane] sample_node_ready sample_token_sane
    by (auto split: sum.splits)
qed


lemma sample_conf_indexed: "conf_indexed sample_conf" "in_conf (sample_proc 1 0 0) sample_conf"
  using sample_conf_wf
  by (auto simp: conf_indexed_def in_conf_def less_Suc_eq nth_Cons' sample_conf_def sample_proc_def split: if_splits)

lemma sample_started: "\<exists>d. started d"
proof -
  have c: "conf (Prot_init_vars sample_daemon) = sample_conf_state" by (simp add: Prot_init_vars_def Let_def)
  have "\<exists>d'. Prot_init_rest (Prot_init_vars sample_daemon) = Inr d' \<and> alone d'"
    using sample_conf_indexed
    by (intro Prot_init_total; simp add: c Conf_memb_timeouts_set_def sample_conf_state_def)
  then show ?thesis unfolding started_def by blast
qed


section \<open>Delivery\<close>

text \<open>The sample after packet 1, an AGREED message of daemon 2, was received and counted.\<close>

definition one_packet :: "int \<Rightarrow> daemon" where
  "one_packet aru = sample_daemon\<lparr> prot := sample_prot\<lparr> Packets := (Packets sample_prot)(1 :=
     \<lparr> pi_head = sample_head, pi_body = [], pi_exist = 1, pi_proc_index = 1 \<rparr>),
     Highest_seq := 1, My_aru := 1, Aru := aru \<rparr> \<rparr>"

lemma one_packet_window:
  assumes "aru \<in> {0, 1}"
  shows "window_ok (prot (one_packet aru))"
proof -
  have "slot i = 1 \<longleftrightarrow> i = 1" if "0 < i" "i \<le> 8192" for i
    using slot_inj [of 0 i 1] that by (auto simp: slot_mod)
  then have "entry_ok (prot (one_packet aru)) i" if "0 < i" "i \<le> 8192" for i
    using that by (auto simp: entry_ok_def pkt_def one_packet_def sample_prot_def sample_head_def service_ok_def
        type_bits)
  then show ?thesis using assms by (auto simp: window_ok_def) (auto simp: one_packet_def sample_prot_def)
qed

text \<open>
  C3. Delivery in order: \<open>Deliver_agreed_packets\<close> hands up, in the order of their sequence
  numbers, exactly the packets after the last delivered one that were not handed up before,
  up to \<open>My_aru\<close> and not beyond the first SAFE packet that is still waiting, and then counts
  all of these numbers as delivered. In particular its own consistency checks never fire.
\<close>

theorem Deliver_agreed_in_order:
  assumes "window_ok (prot d)" and "State (memb d) \<noteq> EVS" and "Prot_delivery_threshold (prot d) \<le> AGREED_TYPE"
  shows "Deliver_agreed_packets d =
    bind_res (fold_res (\<lambda>i. Deliver_packet i True)
        (filter (\<lambda>i. exist (prot d) i = 1) (agreed_prefix (prot d))) d)
      (\<lambda>d'. Inr (advance_delivered (length (agreed_prefix (prot d))) d'))"
  using assms by (rule Deliver_agreed_packets_eq)

theorem Deliver_agreed_in_order_witness:
  "window_ok (prot (one_packet 0)) \<and> State (memb (one_packet 0)) \<noteq> EVS \<and>
    Prot_delivery_threshold (prot (one_packet 0)) \<le> AGREED_TYPE \<and>
    Deliver_agreed_packets (one_packet 0) =
      bind_res (Deliver_packet 1 True (one_packet 0)) (\<lambda>d'. Inr (advance_delivered 1 d'))"
proof -
  have w: "window_ok (prot (one_packet 0))" by (rule one_packet_window) simp
  have s: "State (memb (one_packet 0)) \<noteq> EVS" "Prot_delivery_threshold (prot (one_packet 0)) \<le> AGREED_TYPE"
    by (simp_all add: one_packet_def sample_memb_def sample_prot_def sample_daemon_def)
  have "agreed_prefix (prot (one_packet 0)) = [1]"
    by (simp add: agreed_prefix_def one_packet_def sample_prot_def held_def pkt_def slot_mod sample_head_def type_bits)
  moreover have "exist (prot (one_packet 0)) 1 = 1" by (simp add: one_packet_def pkt_def slot_mod)
  moreover have "fold_res f [x] d = f x d" for f :: "int \<Rightarrow> daemon \<Rightarrow> daemon result" and x d
    by (cases "f x d") simp_all
  ultimately show ?thesis using Deliver_agreed_in_order [OF w s] w s by (simp del: fold_res.simps(2))
qed



section \<open>Sending\<close>


lemma sample_sendable: "sendable sample_daemon"
  using sample_window_ok sample_queue
  by (simp add: sendable_def) (simp add: send_queue_ok_def net_ok_def sample_prot_def sample_net_def)


end
