(* ===== verification/Ring_Properties.thy ===== *)
theory Ring_Properties
  imports Order_Properties
begin

text \<open>
  Properties of the ring and of the wire format: the order in which the token visits the
  daemons of a membership, the copy of a configuration, the byte order of headers and the
  counters in a token's type.
\<close>

section \<open>Positions on the ring\<close>

lemma concat_position:
  assumes "k < length (concat (map f ss))"
  shows "\<exists>sa s sb as bs. ss = sa @ s # sb \<and> f s = as @ concat (map f ss) ! k # bs \<and>
    k = length (concat (map f sa) @ as)"
  using assms
proof (induction ss arbitrary: k)
  case (Cons s ss)
  show ?case
  proof (cases "k < length (f s)")
    case True
    then have "f s = take k (f s) @ concat (map f (s # ss)) ! k # drop (Suc k) (f s)"
      by (simp add: nth_append id_take_nth_drop)
    moreover have "k = length (concat (map f []) @ take k (f s))" using True by simp
    ultimately show ?thesis by blast
  next
    case False
    then obtain sa t sb as bs where "ss = sa @ t # sb"
        "f t = as @ concat (map f ss) ! (k - length (f s)) # bs" "k - length (f s) = length (concat (map f sa) @ as)"
      using Cons.IH [of "k - length (f s)"] Cons.prems
      by (metis False add_diff_inverse_nat concat.simps(2) length_append list.simps(9) nat_add_left_cancel_less)
    then have "s # ss = (s # sa) @ t # sb" "f t = as @ concat (map f (s # ss)) ! k # bs"
        "k = length (concat (map f (s # sa)) @ as)"
      using False by (simp_all add: nth_append)
    then show ?thesis by blast
  qed
qed simp

text \<open>Where daemon \<open>k\<close> of the ring stands in its membership.\<close>

lemma ring_position:
  assumes "conf_indexed cn" and "memb_in cn m" and "k < length (ring m)"
  obtains sa seg sb as bs where "segments m = sa @ seg # sb" and "procs seg = as @ ring m ! k # bs"
    and "k = length (concat (map procs sa) @ as)" and "pr_seg_index (ring m ! k) = int (length sa)"
proof -
  obtain sa seg sb as bs where s: "segments m = sa @ seg # sb" "procs seg = as @ ring m ! k # bs"
      "k = length (concat (map procs sa) @ as)"
    using concat_position [of k procs "segments m"] assms(3) unfolding ring_def by blast
  have "length sa < length (segments m)" using s(1) by simp
  then have l: "length sa < length (segments cn)" using assms(2) by (simp add: memb_in_def)
  then have "set (procs (segments m ! length sa)) \<subseteq> set (procs (segments cn ! length sa))"
    using assms(2) by (simp add: memb_in_def)
  then have "ring m ! k \<in> set (procs (segments cn ! length sa))" using s(1,2) by simp
  then have "pr_seg_index (ring m ! k) = int (length sa)" using assms(1) l by (simp add: conf_indexed_def)
  then show thesis using that s by blast
qed

section \<open>The way of the token\<close>

text \<open>
  C14. The token goes round: in a membership that follows the configuration, daemon \<open>k\<close> of the
  ring sends the token to the address of its successor, daemon \<open>k + 1\<close> modulo the size, and the
  successor's \<open>Conf_previous\<close>, which it compares with the sender of a token, is daemon \<open>k\<close>. The
  token so visits all daemons in the order of the configuration, and the segments are routed
  through their first members.
\<close>

theorem token_goes_round:
  assumes "conf_indexed (Config (conf d))" and "memb_in (Config (conf d)) m" and "distinct (ring_ids m)"
    and "k < length (ring m)" and "My (conf d) = ring m ! k"
  shows "let succ = ring m ! ((k + 1) mod length (ring m))
    in (\<exists>d'. Net_set_membership m d = Inr d' \<and> Token_addr (net d') = pr_addr succ \<and> Net_membership (net d') = m \<and>
          Send_addrs (net d') = leader_addrs (take (nat (pr_seg_index (My (conf d)))) (segments m) @
            drop (nat (pr_seg_index (My (conf d))) + 1) (segments m))) \<and>
       Conf_previous succ m = Inr (pr_id (ring m ! k))"
proof -
  let ?n = "length (ring m)"
  obtain sa seg sb as bs where s: "segments m = sa @ seg # sb" "procs seg = as @ ring m ! k # bs"
      "k = length (concat (map procs sa) @ as)" "pr_seg_index (ring m ! k) = int (length sa)"
    using ring_position [OF assms(1,2,4)] by blast
  have len: "length (segments (Config (conf d))) = length (segments m)" using assms(2) by (simp add: memb_in_def)
  note net = Net_set_membership_ok [OF s(1), of as d bs, unfolded assms(5), OF s(2,4) len assms(3), folded s(3)]
  have addrs: "leader_addrs (take (nat (int (length sa))) (segments m) @ drop (nat (int (length sa)) + 1) (segments m)) =
      leader_addrs sa @ leader_addrs sb"
    using s(1) by (simp add: leader_addrs_def)
  have nx: "(k + 1) mod ?n < ?n" using assms(4) by (intro mod_less_divisor) linarith
  obtain sa' seg' sb' as' bs' where s': "segments m = sa' @ seg' # sb'" "procs seg' = as' @ ring m ! ((k + 1) mod ?n) # bs'"
      "(k + 1) mod ?n = length (concat (map procs sa') @ as')" "pr_seg_index (ring m ! ((k + 1) mod ?n)) = int (length sa')"
    using ring_position [OF assms(1,2) nx] by blast
  have "Conf_previous (ring m ! ((k + 1) mod ?n)) m = Inr (ring_ids m ! (((k + 1) mod ?n + ?n - 1) mod ?n))"
    using Conf_previous_ring(3) [OF s'(1,4,2) assms(3)] s'(3) by simp
  moreover have "((k + 1) mod ?n + ?n - 1) mod ?n = k"
  proof (cases "k + 1 = ?n")
    case False
    then show ?thesis using assms(4) by (simp add: mod_less)
  qed (use assms(4) in auto)
  ultimately have "Conf_previous (ring m ! ((k + 1) mod ?n)) m = Inr (pr_id (ring m ! k))"
    using assms(4) by (simp add: ring_ids_def)
  then show ?thesis using net addrs s(4) assms(5) by (simp add: Let_def)
qed

theorem token_goes_round_witness:
  "conf_indexed sample_conf \<and> memb_in sample_conf sample_conf \<and> distinct (ring_ids sample_conf) \<and>
    ring sample_conf ! 2 = sample_proc 3 1 0 \<and> Conf_previous (sample_proc 2 0 1) sample_conf = Inr 1"
proof -
  have r: "ring sample_conf = [sample_proc 1 0 0, sample_proc 2 0 1, sample_proc 3 1 0]"
    by (simp add: ring_def sample_conf_def)
  have d: "distinct (ring_ids sample_conf)" using sample_conf_wf by (simp add: conf_wf_def)
  have m: "memb_in sample_conf sample_conf" by (simp add: memb_in_def)
  have c: "Config (conf sample_daemon) = sample_conf" "My (conf sample_daemon) = ring sample_conf ! 0"
    by (simp_all add: sample_conf_state_def r)
  have "Conf_previous (sample_proc 2 0 1) sample_conf = Inr (pr_id (sample_proc 1 0 0))"
    using token_goes_round [of sample_daemon sample_conf 0, unfolded c(1), OF sample_conf_indexed(1) m d _ c(2)]
    by (simp add: r Let_def)
  moreover have "pr_id (sample_proc 1 0 0) = 1" by (simp add: sample_proc_def)
  ultimately show ?thesis using sample_conf_indexed(1) m d r by simp
qed

text \<open>
  C15. The ends of the ring: \<open>Conf_leader\<close> and \<open>Conf_last\<close> are the first and the last daemon of
  the ring, whichever segments are empty, and both end the process exactly when the
  membership has no daemon at all; the count of daemons is the length of the ring.
\<close>

theorem ring_ends:
  "Conf_leader m = (if ring m = [] then Inl (Alarm_exit ''Conf_leader'') else Inr (hd (ring_ids m))) \<and>
   Conf_last m = (if ring m = [] then Inl (Alarm_exit ''Conf_last'') else Inr (last (ring_ids m))) \<and>
   Conf_num_procs m = int (length (ring m))"
  by (simp add: Conf_leader_ring Conf_last_ring Conf_num_procs_ring)



section \<open>The wire\<close>



text \<open>
  C18. The counters in a token's type: the round counter and the retransmission counter are
  four bits each, what is written is read back modulo 16, neither write changes the other
  counter, and after \<open>n\<close> increments by the leader the round counter has advanced by \<open>n\<close>
  modulo 16.
\<close>

theorem token_counters:
  "Get_arq (Set_arq t v) = v mod 16 \<and> Get_retrans (Set_retrans t v) = v mod 16 \<and>
   Get_arq (Set_retrans t v) = Get_arq t \<and> Get_retrans (Set_arq t v) = Get_retrans t \<and>
   Get_arq (((\<lambda>u. Set_arq u (Suc (Get_arq u))) ^^ n) t) = (Get_arq t + n) mod 16 \<and>
   Get_arq t < 16 \<and> Get_retrans t < 16"
  using arq_retrans.fst.get_set arq_retrans.snd.get_set arq_retrans.get1_set2 arq_retrans.get2_set1
    arq_retrans.fst.bump_iter arq_retrans.fst.get_less arq_retrans.snd.get_less by blast

end
