(* ===== verification/Membership_Properties.thy ===== *)
theory Membership_Properties
  imports Ring_Properties
begin

text \<open>
  Properties of the membership algorithm: the lists it keeps, the views it installs, the
  loss of the token, the election of a segment's representative, and the start.
\<close>

section \<open>Lists\<close>

text \<open>
  C19. Sorting: \<open>Sort_members\<close> succeeds on a list of configured daemons and yields the same
  members, each as often as before, in the order of the configuration (segment, then position
  in the segment); the counts stay as they are.
\<close>

theorem Sort_members_correct:
  assumes "0 \<le> num_members m" and "\<forall>x \<in> set (member_list m). known config x"
  shows "\<exists>m'. Sort_members config m = Inr m' \<and> num_members m' = num_members m \<and>
    num_pending m' = num_pending m \<and> mset (member_list m') = mset (member_list m) \<and>
    sorted_wrt (member_le config) (member_list m')"
  using assms by (rule Sort_members_sorts)

lemma sample_known: "known sample_conf 1" "known sample_conf 2" "known sample_conf 3"
  by (simp_all add: known_def Conf_proc_by_id_in_conf_def Conf_proc_ref_by_id_in_conf_def Let_def
      sample_conf_def sample_proc_def)

lemma sample_member_list: "member_list sample_members = [3, 1, 2]"
  by (simp add: member_list_def sample_members_def upt_rec)

theorem Sort_members_correct_witness:
  "\<exists>m'. Sort_members sample_conf sample_members = Inr m' \<and> mset (member_list m') = {# 1, 2, 3 #}"
proof -
  have "0 \<le> num_members sample_members" "\<forall>x \<in> set (member_list sample_members). known sample_conf x"
    using sample_known unfolding sample_member_list by (simp_all add: sample_members_def)
  then show ?thesis
    using Sort_members_correct [of sample_members sample_conf] unfolding sample_member_list by (auto simp: add_mset_commute)
qed

text \<open>
  C20. Inserting a member: the member list gains the daemon at its end unless it is there
  already or the list is full; no member is lost or moved, the count stays within its bound
  and no daemon is listed twice.
\<close>

theorem Insert_member_correct:
  assumes "0 \<le> num_members m" and "num_members m \<le> MAX_PROCS_RING"
  shows "member_list (fst (Insert_member m i)) =
      (if i \<in> set (member_list m) \<or> num_members m = MAX_PROCS_RING then member_list m else member_list m @ [i]) \<and>
    num_members (fst (Insert_member m i)) \<le> MAX_PROCS_RING \<and>
    distinct (member_list (fst (Insert_member m i))) = distinct (member_list m)"
proof -
  have "num_members (fst (Insert_member m i)) \<le> MAX_PROCS_RING" using assms(2) by (auto simp: Insert_member_def)
  then show ?thesis using Insert_member_list [OF assms(1), of i] by simp
qed

theorem Insert_member_correct_witness:
  "member_list (fst (Insert_member sample_members 9)) = [3, 1, 2, 9] \<and>
    member_list (fst (Insert_member sample_members 1)) = [3, 1, 2]"
proof -
  have "0 \<le> num_members sample_members" "num_members sample_members \<le> MAX_PROCS_RING" "num_members sample_members = 3"
    by (simp_all add: sample_members_def)
  then show ?thesis
    using Insert_member_correct [of sample_members 9] Insert_member_correct [of sample_members 1]
    by (simp add: sample_member_list)
qed

text \<open>
  Inserting a representative: for a configured daemon with one of the three kinds the
  insertion never ends the process, and it keeps the invariant of representative lists: at
  most \<open>MAX_REPS\<close> entries, each a configured daemon filed under its own segment, no daemon
  twice, and no segment that has a POTENTIAL entry beside another one.
\<close>

theorem Insert_rep_correct:
  assumes "reps_ok config r" and "rep_ok config rep"
  shows "\<exists>r' v. Insert_rep config r rep = Inr (r', v) \<and> reps_ok config r' \<and>
    num_reps r \<le> num_reps r' \<and> num_reps r' \<le> MAX_REPS"
proof -
  obtain r' v where r: "Insert_rep config r rep = Inr (r', v)" using Insert_rep_total [OF assms(2)] by blast
  have ok: "reps_ok config r'" using Insert_rep_keeps_ok [OF assms r] .
  have "num_reps (fst res) = num_reps r" if "insert_rep_at t p r i = Some res" for t p i res
    using that by (cases t) (auto simp: set_rep_def split: if_splits rep_type.splits)
  then have "num_reps r \<le> num_reps r'"
    using r by (auto simp: Insert_rep_def set_rep_def split: option.splits if_splits dest!: first_some_Some)
  then show ?thesis using r ok by (auto simp: reps_ok_def)
qed

theorem Insert_rep_correct_witness:
  "reps_ok sample_conf sample_reps \<and>
    (\<exists>r' v. Insert_rep sample_conf sample_reps \<lparr> rp_proc_id = 3, rp_type = SEG_REP, rp_seg_index = 1 \<rparr> = Inr (r', v) \<and>
      reps_ok sample_conf r')"
proof -
  have l: "Conf_proc_by_id_in_conf sample_conf 1 = Some (0, sample_proc 1 0 0)"
      "Conf_proc_by_id_in_conf sample_conf 3 = Some (2, sample_proc 3 1 0)"
    by (simp_all add: Conf_proc_by_id_in_conf_def Conf_proc_ref_by_id_in_conf_def Let_def sample_conf_def sample_proc_def)
  have r: "reps_ok sample_conf sample_reps"
    by (simp add: reps_ok_def rep_ok_def sample_reps_def l) (simp add: sample_proc_def)
  have e: "rep_ok sample_conf \<lparr> rp_proc_id = 3, rp_type = SEG_REP, rp_seg_index = 1 \<rparr>"
    by (simp add: rep_ok_def l) (simp add: sample_proc_def)
  show ?thesis using Insert_rep_correct [OF r e] r by blast
qed

section \<open>Views\<close>

text \<open>
  C21. The transitional view: with a committed set of which some pending daemon is configured,
  \<open>Memb_transitional\<close> succeeds; the transitional membership lists exactly the configured
  daemons that are pending, the committed one those that are members, both in the order of
  the ring, and the view's identifier names the first daemon of the transitional ring.
\<close>

theorem Memb_transitional_correct:
  assumes "conf_wf (Config (conf d))"
    and "\<exists>p \<in> set (ring (Config (conf d))). pr_id p \<in> set (first_ids (Commit_set (memb d)) (num_pending (Commit_set (memb d))))"
  shows "\<exists>d'. Memb_transitional d = Inr d' \<and> Transitional (prot d') \<and>
    ring (Trans_membership (prot d')) = filter (\<lambda>p. pr_id p \<in> set (first_ids (Commit_set (memb d))
        (num_pending (Commit_set (memb d))))) (ring (Config (conf d))) \<and>
    ring (Commit_membership (prot d')) = filter (\<lambda>p. pr_id p \<in> set (first_ids (Commit_set (memb d))
        (num_members (Commit_set (memb d))))) (ring (Config (conf d))) \<and>
    m_proc_id (Trans_memb_id (memb d')) = pr_id (hd (ring (Trans_membership (prot d'))))"
proof -
  let ?cs = "Commit_set (memb d)" and ?cn = "Config (conf d)"
  obtain t where t: "commit_segments ?cn (first_ids ?cs (num_pending ?cs)) (Trans_membership (prot d)) = Inr t"
      "ring t = filter (\<lambda>p. pr_id p \<in> set (first_ids ?cs (num_pending ?cs))) (ring ?cn)"
    using commit_segments_wf [OF assms(1)] by blast
  obtain c where c: "commit_segments ?cn (first_ids ?cs (num_members ?cs)) (Commit_membership (prot d)) = Inr c"
      "ring c = filter (\<lambda>p. pr_id p \<in> set (first_ids ?cs (num_members ?cs))) (ring ?cn)"
    using commit_segments_wf [OF assms(1)] by blast
  have ne: "ring t \<noteq> []" using assms(2) unfolding t(2) by (auto simp: filter_empty_conv)
  then have "Conf_leader t = Inr (pr_id (hd (ring t)))" by (simp add: Conf_leader_ring ring_ids_def hd_map)
  then show ?thesis using t c by (simp add: Memb_transitional_def Let_def)
qed

theorem Memb_transitional_correct_witness:
  "\<exists>d. num_pending (Commit_set (memb d)) = 2 \<and>
    (\<exists>d'. Memb_transitional d = Inr d' \<and> ring (Trans_membership (prot d')) = [sample_proc 1 0 0, sample_proc 3 1 0])"
proof -
  let ?d = "sample_daemon\<lparr> memb := sample_memb\<lparr> Commit_set := sample_members\<lparr> num_pending := 2 \<rparr> \<rparr> \<rparr>"
  have f: "conf ?d = sample_conf_state" "Config sample_conf_state = sample_conf"
      "Commit_set (memb ?d) = sample_members\<lparr> num_pending := 2 \<rparr>"
    by (simp_all add: sample_conf_state_def)
  have ids: "first_ids (sample_members\<lparr> num_pending := 2 \<rparr>) 2 = [3, 1]"
    by (simp add: first_ids_def sample_members_def upt_rec)
  have pr: "pr_id (sample_proc 1 0 0) = 1" "pr_id (sample_proc 2 0 1) = 2" "pr_id (sample_proc 3 1 0) = 3"
    by (simp_all add: sample_proc_def)
  have r: "ring sample_conf = [sample_proc 1 0 0, sample_proc 2 0 1, sample_proc 3 1 0]"
    by (simp add: ring_def sample_conf_def)
  have p: "num_pending (sample_members\<lparr> num_pending := 2 \<rparr>) = 2" by simp
  have "\<exists>p \<in> set (ring sample_conf). pr_id p \<in> set [3, 1]" unfolding r by (simp add: pr del: One_nat_def)
  note Memb_transitional_correct [of ?d, unfolded f p ids, OF sample_conf_wf this]
  then have "\<exists>d'. Memb_transitional ?d = Inr d' \<and> ring (Trans_membership (prot d')) = [sample_proc 1 0 0, sample_proc 3 1 0]"
    unfolding r by (simp add: pr del: One_nat_def) blast
  moreover have "num_pending (Commit_set (memb ?d)) = 2" by simp
  ultimately show ?thesis by blast
qed

section \<open>Loss of the token\<close>

text \<open>
  C22. Loss of the token in the OP state: a daemon of a well-formed membership always
  recovers. It is left in the SEG state with a membership of itself alone, without a token,
  with regular delivery blocked and the packet window untouched, and it will try to reach
  exactly one representative of every other segment: its first member in the lost membership,
  or its first configured daemon.
\<close>

theorem token_loss_recovers:
  assumes "State (memb d) = OP" and "conf_indexed (Config (conf d))" and "memb_in (Config (conf d)) (Membership (memb d))"
    and "in_conf (My (conf d)) (Config (conf d))"
  shows "\<exists>d'. Memb_token_loss d = Inr d' \<and> alone d' \<and> win (prot d') = win (prot d) \<and>
    Prot_delivery_threshold (prot d') = BLOCK_REGULAR_DELIVERY \<and>
    rep_list (Potential_reps (memb d')) = map (potential_rep (Config (conf d)) (Membership (memb d)))
      (filter (\<lambda>i. int i \<noteq> pr_seg_index (My (conf d))) [0..<length (segments (Config (conf d)))])"
  using Memb_token_loss_op [OF assms] by blast

lemma sample_memb_in: "memb_in sample_conf sample_conf"
  by (simp add: memb_in_def)

theorem token_loss_recovers_witness:
  "\<exists>d'. Memb_token_loss sample_daemon = Inr d' \<and> alone d' \<and>
    map rp_proc_id (rep_list (Potential_reps (memb d'))) = [3]"
proof -
  have f: "State (memb sample_daemon) = OP" "Config (conf sample_daemon) = sample_conf"
      "My (conf sample_daemon) = sample_proc 1 0 0" "Membership (memb sample_daemon) = sample_conf"
    by (simp_all add: sample_memb_def sample_conf_state_def)
  have s: "filter (\<lambda>i. int i \<noteq> pr_seg_index (sample_proc 1 0 0)) [0..<length (segments sample_conf)] = [1]"
    by (simp add: sample_proc_def sample_conf_def)
  have "rp_proc_id (potential_rep sample_conf sample_conf 1) = 3"
    by (simp add: potential_rep_def seg_rep_def sample_conf_def sample_proc_def)
  then show ?thesis
    using token_loss_recovers [of sample_daemon, unfolded f, OF refl sample_conf_indexed(1) sample_memb_in sample_conf_indexed(2)]
    unfolding s by auto
qed

text \<open>
  C23. A token cannot be lost twice: \<open>Memb_token_loss\<close> ends the process in the states SEG and
  REPRESENTED, in which a daemon has no ring, and in GATHER unless it leads a ring whose token
  is alive; where it returns, the daemon is in the SEG state without a token.
\<close>

theorem token_loss_only_with_token:
  "(State (memb d) \<in> {SEG, REPRESENTED} \<or> State (memb d) = GATHER \<and> \<not> Token_alive (memb d) \<longrightarrow>
      Memb_token_loss d = Inl (Alarm_exit ''Memb_token_loss'')) \<and>
   (\<forall>d'. Memb_token_loss d = Inr d' \<longrightarrow> State (memb d') = SEG \<and> \<not> Token_alive (memb d') \<and>
      \<not> Memb_Just_Installed (memb d') \<and> member_list (F_members (memb d')) = [pr_id (My (conf d'))])"
proof -
  have 1: "Memb_token_loss d = Inl (Alarm_exit ''Memb_token_loss'')"
    if "State (memb d) \<in> {SEG, REPRESENTED} \<or> State (memb d) = GATHER \<and> \<not> Token_alive (memb d)"
    using that by (auto simp: Memb_token_loss_def token_loss_reps_def Let_def)
  have 2: "State (memb d') = SEG \<and> \<not> Token_alive (memb d') \<and> \<not> Memb_Just_Installed (memb d') \<and>
      member_list (F_members (memb d')) = [pr_id (My (conf d'))]" if r: "Memb_token_loss d = Inr d'" for d'
  proof -
    obtain d1 where "token_loss_reps d = Inr d1" using r unfolding Memb_token_loss_def by (elim bind_res_elim)
    with r obtain e vw where e: "d' = Shift_to_seg (upd_memb (\<lambda>m. m\<lparr> Membership := vw \<rparr>) (token_loss_reset e))"
        and "\<not> Token_alive (memb e)"
      unfolding Memb_token_loss_def by (auto simp: Prot_set_delivery_threshold_block Let_def)
    then show ?thesis
      by (simp add: Shift_to_seg_def token_loss_reset_def set_state_def Let_def member_list_def single_member_def)
  qed
  show ?thesis using 1 2 by blast
qed

theorem token_loss_only_with_token_witness:
  "Memb_token_loss (set_state SEG sample_daemon) = Inl (Alarm_exit ''Memb_token_loss'')"
proof -
  have "State (memb (set_state SEG sample_daemon)) = SEG" by (simp add: set_state_def)
  then show ?thesis using token_loss_only_with_token [of "set_state SEG sample_daemon"] by blast
qed

end
