(* ===== verification/Message_Properties.thy ===== *)
theory Message_Properties
  imports Order_Properties
begin

text \<open>
  Properties of messages on their way: from the queue of the sender into a packet and out of
  it at the receiver, repeated and foreign packets, the requests and the counters on the token.
\<close>

section \<open>From queue to session\<close>

lemma frag_content_idem [simp]: "frag_content (frag_content e) = frag_content e"
  by (simp add: frag_content_def)

lemma Deliver_packet_whole:
  assumes "pkt (prot d) i = x" and "p_first_frag_header (pi_head x) = \<lparr> fragment_index = - 1, fragment_len = n \<rparr>"
    and "parse_frags (p_data_len (pi_head x)) (pi_body x) n = Inr ms"
    and "0 \<le> pi_proc_index x" "pi_proc_index x < MAX_PROCS_RING" and "\<not> uq_exist (Up_queue (prot d) (nat (up_index x)))"
  shows "\<exists>d'. Deliver_packet i c d = Inr d' \<and> out d' = out d @
    map Sess_deliver_message ([\<lparr> se_buf = pi_body x, se_len = n \<rparr>] # ms)"
proof -
  have "\<not> (up_index x < 0 \<or> MAX_PROCS_RING < up_index x)" using assms(4,5) by (simp add: up_index_def)
  then show ?thesis
    using assms by (simp add: Deliver_packet_def Let_def)
qed

text \<open>
  C6. Round trip of messages through a packet: the packet that the sender builds from its
  queue holds the first \<open>k\<close> messages of the queue, at least one, and the receiver that
  delivers this packet hands up those \<open>k\<close> messages, in the queue's order and byte for byte.
  What is not in the packet stays in the queue. (The message at the head is one that fits
  a packet; a longer one is sent in several packets.)
\<close>

theorem packet_roundtrip:
  assumes "queue_wf room q" and "dq_links q = l # ls" and "room < 2 ^ 15" and "length (dl_mess l) = 1"
  shows "\<exists>q' h body es k. build_packet room my memb_id seq q = Inr (q', (h, body), es) \<and>
    0 < k \<and> queue_wf room q' \<and> dq_links q' = drop k (dq_links q) \<and>
    (\<forall>d i c n. pkt (prot d) i = \<lparr> pi_head = h, pi_body = body, pi_exist = 1, pi_proc_index = n \<rparr> \<and>
       0 \<le> n \<and> n < MAX_PROCS_RING \<and>
       \<not> uq_exist (Up_queue (prot d) (nat (up_index (pkt (prot d) i)))) \<longrightarrow>
       (\<exists>d' ms. Deliver_packet i c d = Inr d' \<and> out d' = out d @ map Sess_deliver_message ms \<and>
          map (map frag_content) ms = map (map frag_content \<circ> dl_mess) (take k (dq_links q))))"
proof -
  let ?e = "dl_mess l ! nat (cur_element q)"
  have cur: "cur_element q = 0" using assms(1,2,4) by (simp add: queue_wf_def)
  then obtain e where e: "dl_mess l = [e]" "?e = e" using assms(4) by (auto simp: length_Suc_conv)
  obtain q' h body es k where b: "build_packet room my memb_id seq q = Inr (q', (h, body), es)" "queue_wf room q'"
      "dq_links q' = drop k ls"
      "p_first_frag_header h = \<lparr> fragment_index = head_index q l, fragment_len = se_len e \<rparr>"
      "take (nat (se_len e)) body = take (nat (se_len e)) (se_buf e)"
      "parse_frags (p_data_len h) body (se_len e) = Inr (map (\<lambda>l. map frag_content (dl_mess l)) (take k ls))"
    using build_packet_carries [OF assms(1-3), of my memb_id seq] e cur assms(4) by auto
  have hi: "head_index q l = - 1" using cur assms(4) by (simp add: head_index_def)
  have "\<exists>d' ms. Deliver_packet i c d = Inr d' \<and> out d' = out d @ map Sess_deliver_message ms \<and>
          map (map frag_content) ms = map (map frag_content \<circ> dl_mess) (take (Suc k) (dq_links q))"
    if x: "pkt (prot d) i = \<lparr> pi_head = h, pi_body = body, pi_exist = 1, pi_proc_index = n \<rparr>" (is "_ = ?x")
      and n: "0 \<le> n" "n < MAX_PROCS_RING" and u: "\<not> uq_exist (Up_queue (prot d) (nat (up_index (pkt (prot d) i))))"
    for d i c n
  proof -
    let ?ms = "[\<lparr> se_buf = body, se_len = se_len e \<rparr>] # map (\<lambda>l. map frag_content (dl_mess l)) (take k ls)"
    have "\<exists>d'. Deliver_packet i c d = Inr d' \<and> out d' = out d @ map Sess_deliver_message ?ms"
      using Deliver_packet_whole [OF x, of "se_len e" "map (\<lambda>l. map frag_content (dl_mess l)) (take k ls)"] b(4,6) hi n u x
      by (simp del: map_map)
    moreover have "map (map frag_content) ?ms = map (map frag_content \<circ> dl_mess) (take (Suc k) (dq_links q))"
      using assms(2) e(1) b(5) by (simp add: frag_content_def)
    ultimately show ?thesis by blast
  qed
  then show ?thesis
    using b(1-3) assms(2)
    by (intro exI [of _ q'] exI [of _ h] exI [of _ body] exI [of _ es] exI [of _ "Suc k"]) auto
qed

definition sample_link :: down_link where
  "sample_link = \<lparr> dl_type = AGREED_TYPE, dl_mess = [\<lparr> se_buf = replicate 16 7, se_len = 5 \<rparr>] \<rparr>"

definition sample_queue_of :: "down_link list \<Rightarrow> down_queue" where
  "sample_queue_of ls = \<lparr> num_mess = int (length ls), cur_element = 0, dq_links = ls \<rparr>"

theorem packet_roundtrip_witness:
  "\<exists>q' h body es k. build_packet 16 1 \<lparr> m_proc_id = 1, m_time = 5 \<rparr> 1 (sample_queue_of [sample_link, sample_link]) =
     Inr (q', (h, body), es) \<and> 0 < k \<and> dq_links q' = drop k [sample_link, sample_link]"
proof -
  have q: "queue_wf 16 (sample_queue_of [sample_link, sample_link])"
    by (simp add: queue_wf_def msg_wf_def elem_wf_def sample_queue_of_def sample_link_def)
  have l: "dq_links (sample_queue_of [sample_link, sample_link]) = sample_link # [sample_link]"
    by (simp add: sample_queue_of_def)
  have m: "length (dl_mess sample_link) = 1" by (simp add: sample_link_def)
  show ?thesis using packet_roundtrip [OF q l _ m] l by fastforce
qed

text \<open>Sending the last token again touches that token, the hurry counter and the output only.\<close>

definition token_only :: "daemon \<Rightarrow> daemon \<Rightarrow> bool" where
  "token_only d d' \<longleftrightarrow> memb d' = memb d \<and> down_queue_of (prot d') = down_queue_of (prot d) \<and>
     win (prot d') = win (prot d) \<and> (\<exists>es. out d' = out d @ es)"

definition token_onlys :: "daemon \<Rightarrow> daemon result \<Rightarrow> bool" where
  "token_onlys d r \<longleftrightarrow> (\<forall>d'. r = Inr d' \<longrightarrow> token_only d d')"

lemma token_only_simps [simp]:
  "token_only d d" "token_onlys d (Inr d') \<longleftrightarrow> token_only d d'"
  "token_only d (upd_stat f d') \<longleftrightarrow> token_only d d'"
  by (simp_all add: token_only_def token_onlys_def)

lemma token_only_emit: "token_only d e \<Longrightarrow> token_only d (emit x e)"
  by (auto simp: token_only_def)

lemma token_only_upd:
  "token_only d e \<Longrightarrow> token_only d (upd_prot (\<lambda>p. p\<lparr> Last_token := f p \<rparr>) e)"
  "token_only d e \<Longrightarrow> token_only d (upd_prot (\<lambda>p. p\<lparr> Token_counter := c \<rparr>) e)"
  by (simp_all add: token_only_def down_queue_of_def win_def)

lemma token_onlys_bind: "(\<And>x. r = Inr x \<Longrightarrow> token_onlys d (f x)) \<Longrightarrow> token_onlys d (bind_res r f)"
  by (cases r) (auto simp: token_onlys_def)

lemma token_onlys_seq: "token_onlys d r \<Longrightarrow> (\<And>e. token_only d e \<Longrightarrow> token_onlys d (f e)) \<Longrightarrow> token_onlys d (bind_res r f)"
  by (cases r) (auto simp: token_onlys_def)

lemma token_only_trans: "token_only a b \<Longrightarrow> token_only b c \<Longrightarrow> token_only a c"
  by (auto simp: token_only_def)

lemma only_out_token_only: "only_out d d' \<Longrightarrow> token_only d d'"
  by (auto simp: only_out_def token_only_def)

lemma token_onlys_send_last_token:
  assumes "token_only d e"
  shows "token_onlys d (send_last_token e)"
  unfolding send_last_token_def
proof (rule token_onlys_bind)
  fix x
  assume x: "Net_send_token (Last_token (prot e)) (Requests []) e = Inr x"
  obtain t e' where "x = (t, e')" by force
  then have "token_only e e'" using x by (blast intro: only_out_token_only Net_send_token_out(1))
  then show "token_onlys d (case x of (t, d) \<Rightarrow> Inr (upd_prot (\<lambda>p. p\<lparr> Last_token := t \<rparr>) d))"
    using \<open>x = (t, e')\<close> token_only_trans [OF assms] token_only_upd(1) by simp
qed

lemma token_onlys_hurry:
  assumes "token_only d e"
  shows "token_onlys d (Prot_token_hurry e)"
proof -
  have wide: "token_onlys d (if w then bind_res r (\<lambda>l. if l = i then send_last_token f else Inr f) else Inr f)"
    if "token_only d f" for w r i f
    using token_onlys_send_last_token [OF that] that by (auto intro!: token_onlys_bind)
  have twice: "token_onlys d (if b then bind_res (send_last_token f) send_last_token else Inr f)" if "token_only d f" for b f
    using token_onlys_seq [OF token_onlys_send_last_token token_onlys_send_last_token] that by simp
  show ?thesis
    unfolding Prot_token_hurry_def Let_def
    by (rule token_onlys_bind, rule token_onlys_seq, rule token_onlys_send_last_token,
        simp add: assms token_only_upd token_only_emit)
      (rule token_onlys_seq [OF wide twice])
qed

lemma token_onlys_Handle_hurry: "token_only d e \<Longrightarrow> token_onlys d (Handle_hurry i e)"
  unfolding Handle_hurry_def
  by (rule token_onlys_bind) (simp add: token_onlys_hurry token_only_upd)

text \<open>
  C7. A new message goes to the end of the queue, the queue stays well-formed and the packet
  window is left alone, also when the message makes the daemon send the token on. When the
  queue holds \<open>WATER_MARK\<close> messages or more, the sessions are told to stop.
\<close>

theorem Prot_new_message_queues:
  assumes "queue_wf room (down_queue_of (prot d))" and "msg_wf room l" and "Prot_new_message l d = Inr d'"
  shows "dq_links (down_queue_of (prot d')) = dq_links (down_queue_of (prot d)) @ [l] \<and>
    queue_wf room (down_queue_of (prot d')) \<and> window_ok (prot d') = window_ok (prot d) \<and>
    (\<exists>es. out d' = out d @ es \<and> (num_mess (down_queue_of (prot d')) \<ge> WATER_MARK \<longrightarrow> Sess_block_users_level \<in> set es))"
proof -
  define q where "q = (down_queue_of (prot d))\<lparr> dq_links := dq_links (down_queue_of (prot d)) @ [l],
    num_mess := num_mess (down_queue_of (prot d)) + 1 \<rparr>"
  define e where "e = (if num_mess q \<ge> WATER_MARK then emit Sess_block_users_level (upd_prot (set_down_queue q) d)
    else upd_prot (set_down_queue q) d)"
  have n: "num_mess (down_queue_of (prot d)) = int (length (dq_links (down_queue_of (prot d))))"
    using assms(1) by (simp add: queue_wf_def)
  have "num_mess (down_queue_of (prot d)) \<ge> 0" using n by simp
  moreover have links: "(if num_mess (down_queue_of (prot d)) > 0 then dq_links (down_queue_of (prot d)) @ [l] else [l]) =
      dq_links (down_queue_of (prot d)) @ [l]" using n by auto
  ultimately have pn: "Prot_new_message l d = (if num_mess q = 1 \<and> Is_token_hold e then
      bind_res (Conf_leader (Memb_active_ptr e)) (\<lambda>leader.
        if leader = pr_id (My (conf e)) then Handle_hurry (p_proc_id (hurry_head e)) e
        else Inr (snd (Net_ucast leader (hurry_head e) No_body e))) else Inr e)"
    unfolding Prot_new_message_def Let_def links q_def [symmetric] e_def [symmetric] guard_res_def by simp
  have "token_only e (snd (Net_ucast i h b e))" for i h b
    using Net_ucast_out [of i h b e] only_out_token_only by (cases "Net_ucast i h b e") auto
  then have "token_onlys e (Prot_new_message l d)"
    unfolding pn by (auto intro!: token_onlys_bind token_onlys_Handle_hurry)
  then have t: "token_only e d'" using assms(3) by (simp add: token_onlys_def)
  have e: "down_queue_of (prot e) = q" "win (prot e) = win (prot d)"
    "\<exists>es. out e = out d @ es \<and> (num_mess q \<ge> WATER_MARK \<longrightarrow> Sess_block_users_level \<in> set es)"
    by (simp_all add: e_def down_queue_of_def set_down_queue_def win_def)
  have "queue_wf room q" using assms(1,2) by (auto simp: queue_wf_def q_def split: list.splits simp: msg_wf_def)
  moreover have "window_ok (prot d') = window_ok (prot d)"
    using t e(2) by (intro window_ok_win) (simp add: token_only_def)
  ultimately show ?thesis using t e unfolding token_only_def by (auto simp: q_def)
qed

theorem Prot_new_message_queues_witness:
  "\<exists>d'. Prot_new_message sample_link sample_daemon = Inr d' \<and> dq_links (down_queue_of (prot d')) = [sample_link] \<and>
    queue_wf 16 (down_queue_of (prot d'))"
proof -
  have q: "queue_wf 16 (down_queue_of (prot sample_daemon))"
    by (simp add: queue_wf_def down_queue_of_def sample_prot_def)
  have m: "msg_wf 16 sample_link" by (simp add: msg_wf_def elem_wf_def sample_link_def)
  have "\<not> Is_token_hold (upd_prot (set_down_queue q) sample_daemon)" for q
    by (simp add: Is_token_hold_def set_down_queue_def) (simp add: sample_prot_def)
  then obtain d' where "Prot_new_message sample_link sample_daemon = Inr d'"
    by (simp add: Prot_new_message_def Let_def) (simp add: down_queue_of_def sample_prot_def)
  then show ?thesis
    using Prot_new_message_queues [OF q m] by (auto simp: down_queue_of_def sample_prot_def)
qed

section \<open>Received packets\<close>

text \<open>
  C8. A received datagram keeps the invariant of the packet window, whatever it is: a packet
  of the ring, of another ring, a repeated one, a membership packet, a hurry or a monitor's
  request. Assumed is what the ring's flow control gives: the sequence number lies within
  the window, and the message type names one service.
\<close>

theorem Prot_handle_bcast_window:
  assumes "ring_ok d" and "packet_fits inp d" and "Prot_handle_bcast ext fd inp d = Inr d'"
  shows "ring_ok d'"
  using assms by (rule Prot_handle_bcast_ok)

definition sample_in :: in_packet where
  "sample_in = \<lparr> in_bytes = 0, in_src = Spu_addr 2, in_head = sample_head, in_body = Bytes [] \<rparr>"

definition sample_ext :: externals where
  "sample_ext = \<lparr> ip_differs = (\<lambda>a b. a \<noteq> b), addrs = \<lparr> ip_cmp = (\<lambda>a b. a \<noteq> b), scope = (\<lambda>_. None) \<rparr>,
     conf_file = (sample_conf, sample_proc 1 0 0), clock = 0 \<rparr>"

lemma sample_fits: "packet_fits (sample_in\<lparr> in_bytes := n \<rparr>) sample_daemon"
proof -
  have "Same_endian (p_type sample_head)" by (simp add: Same_endian_def ENDIAN_TYPE_def ARCH_ENDIAN_def sample_head_def)
  then have "native sample_head = sample_head" by (simp add: native_def)
  then show ?thesis
    by (simp add: packet_fits_def sample_in_def packet_typed_def)
      (simp add: sample_head_def sample_prot_def service_ok_def type_bits)
qed

theorem Prot_handle_bcast_window_witness:
  "ring_ok sample_daemon \<and> packet_fits sample_in sample_daemon \<and>
    (\<exists>d'. Prot_handle_bcast sample_ext 4 sample_in sample_daemon = Inr d' \<and> ring_ok d')"
proof -
  have f: "packet_fits sample_in sample_daemon" using sample_fits [of 0] by (simp add: sample_in_def)
  obtain d' where "Prot_handle_bcast sample_ext 4 sample_in sample_daemon = Inr d'"
    by (simp add: Prot_handle_bcast_def Net_recv_def sample_in_def sample_net_def)
  then show ?thesis using Prot_handle_bcast_window [OF sample_ring_ok f] sample_ring_ok f by blast
qed

text \<open>
  C9. Only datagrams of the own installation reach the protocol: what \<open>Net_recv\<close> hands up
  as a protocol packet has the length its header claims and the hash of this
  configuration, comes from the address of a configured daemon other than this one, and
  that daemon is in the same component of the monitor's partition.
\<close>

theorem Net_recv_authentic:
  assumes "Net_recv differs fd inp d = Inr (r, inp', d')" and "0 < r" and "\<not> Is_control (p_type (native (in_head inp)))"
  shows "in_bytes inp = sizeof_packet_header + p_data_len (native (in_head inp)) \<and>
    p_conf_hash (native (in_head inp)) = hash_code (Config (conf d)) \<and>
    p_transmiter_id (native (in_head inp)) \<noteq> pr_id (My (conf d)) \<and>
    In_my_component (p_transmiter_id (native (in_head inp))) d = Inr True \<and>
    (\<exists>p \<in> set (allprocs (Config (conf d))). pr_id p = p_transmiter_id (native (in_head inp)) \<and>
       \<not> differs (in_src inp) (pr_addr p))"
proof -
  define i where "i = inp\<lparr> in_head := native (in_head inp) \<rparr>"
  have "Net_recv_checks differs i d \<and> p_transmiter_id (in_head i) \<noteq> pr_id (My (conf d)) \<and>
      In_my_component (p_transmiter_id (in_head i)) d = Inr True"
    using assms unfolding Net_recv_def Let_def native_def [symmetric] i_def [symmetric]
    by (auto simp: i_def split: if_splits)
  then show ?thesis
    using Conf_proc_by_id_Some by (fastforce simp: Net_recv_checks_def i_def Let_def split: option.splits)
qed

theorem Net_recv_authentic_witness:
  "\<exists>inp' d'. Net_recv (\<lambda>a b. a \<noteq> b) 4 (sample_in\<lparr> in_bytes := 40 \<rparr>) sample_daemon = Inr (40, inp', d') \<and>
    In_my_component 2 sample_daemon = Inr True"
proof -
  have e: "Same_endian (p_type sample_head)"
    by (simp add: Same_endian_def ENDIAN_TYPE_def ARCH_ENDIAN_def sample_head_def)
  have c: "\<not> Is_control (p_type sample_head)" by (simp add: type_bits sample_head_def)
  have p: "Conf_proc_by_id_in_conf sample_conf 2 = Some (1, sample_proc 2 0 1)"
    by (simp add: Conf_proc_by_id_in_conf_def Conf_proc_ref_by_id_in_conf_def sample_conf_def sample_proc_def)
  obtain inp' d' where r: "Net_recv (\<lambda>a b. a \<noteq> b) 4 (sample_in\<lparr> in_bytes := 40 \<rparr>) sample_daemon = Inr (40, inp', d')"
  proof -
    have "In_my_component 2 sample_daemon = Inr True"
      using p by (simp add: In_my_component_def sample_conf_state_def) (simp add: sample_net_def)
    moreover have "Net_recv_checks (\<lambda>a b. a \<noteq> b) (sample_in\<lparr> in_bytes := 40 \<rparr>) sample_daemon"
      using p by (simp add: Net_recv_checks_def sample_in_def sample_conf_state_def)
        (simp add: sample_head_def sample_conf_def sample_proc_def)
    moreover have "\<not> Is_routed (p_type sample_head)" by (simp add: type_bits sample_head_def)
    moreover have "(sample_in\<lparr> in_bytes := 40 \<rparr>)\<lparr> in_head := sample_head \<rparr> = sample_in\<lparr> in_bytes := 40 \<rparr>"
      by (simp add: sample_in_def)
    ultimately show thesis
      using that e c unfolding Net_recv_def Net_recv_route_def
      by (simp add: sample_in_def Let_def sample_net_def)
        (simp add: sample_head_def sample_conf_state_def sample_proc_def)
  qed
  have n: "native sample_head = sample_head" using e by (simp add: native_def)
  then show ?thesis
    using r Net_recv_authentic [OF r] c by (simp add: sample_in_def) (simp add: sample_head_def)
qed

section \<open>What the token carries\<close>

text \<open>
  C10. No token is worked on twice: \<open>Prot_handle_token\<close> goes beyond its screening only for a
  token of the active membership that comes from the predecessor in the ring, while the
  token is alive, and whose ARQ counter is the one expected: the last one seen plus one
  modulo 16 or, at the leader, who counts up when it sends the token on, the last one sent.
  A copy of the token already passed on therefore never comes through at another daemon.
\<close>

theorem token_screen_fresh:
  assumes "token_screen received_bytes t d = Inr (Process d')"
  shows "Memb_token_alive d \<and> t_memb_id t = Memb_active_id d \<and>
    Conf_previous (My (conf d)) (Memb_active_ptr d) = Inr (t_transmiter_id t) \<and>
    received_bytes = sizeof_token_header + t_rtr_len t \<and>
    (if Conf_leader (Memb_active_ptr d) = Inr (pr_id (My (conf d)))
     then Get_arq (t_type t) = Get_arq (t_type (Last_token (prot d)))
     else Get_arq (t_type t) = (Get_arq (t_type (Last_token (prot d))) + 1) mod 16 \<and>
       Get_arq (t_type t) \<noteq> Get_arq (t_type (Last_token (prot d))))"
proof -
  have pre: "Memb_token_alive d" "t_memb_id t = Memb_active_id d"
    "Conf_previous (My (conf d)) (Memb_active_ptr d) = Inr (t_transmiter_id t)"
    "received_bytes = sizeof_token_header + t_rtr_len t" "token_arq t d = Inr (Process d')"
    using assms unfolding token_screen_def by (auto split: if_splits)
  obtain l where l: "Conf_leader (Memb_active_ptr d) = Inr l"
    using pre(5) unfolding token_arq_def Let_def by (elim bind_res_elim)
  show ?thesis
  proof (cases "l = pr_id (My (conf d))")
    case True
    then show ?thesis using pre l by (auto simp: token_arq_def Let_def split: if_splits)
  next
    case False
    then show ?thesis using pre l by (auto simp: token_arq_def Let_def split: if_splits)
  qed
qed

lemma sample_previous: "Conf_previous (sample_proc 1 0 0) sample_conf = Inr 3" "Conf_leader sample_conf = Inr 1"
  by (simp_all add: Conf_previous_def Conf_leader_def seg_at_def Conf_id_in_seg_def sample_conf_def sample_proc_def)

theorem token_screen_fresh_witness:
  "\<exists>d'. token_screen 40 sample_token sample_daemon = Inr (Process d') \<and>
    Conf_previous (My (conf sample_daemon)) (Memb_active_ptr sample_daemon) = Inr (t_transmiter_id sample_token)"
proof -
  have m: "Memb_active_ptr sample_daemon = sample_conf" "Memb_active_id sample_daemon = t_memb_id sample_token"
    "Memb_token_alive sample_daemon"
    by (simp_all add: Memb_active_ptr_def Memb_active_id_def Memb_token_alive_def sample_memb_def sample_token_def)
  have my: "My sample_conf_state = sample_proc 1 0 0" "Last_token sample_prot = sample_token"
    by (simp_all add: sample_conf_state_def sample_prot_def)
  have t: "t_transmiter_id sample_token = 3" "t_rtr_len sample_token = 0" "t_seq sample_token = 0" "pr_id (sample_proc 1 0 0) = 1"
    by (simp_all add: sample_token_def sample_proc_def)
  obtain d' where "token_screen 40 sample_token sample_daemon = Inr (Process d')"
    by (simp add: token_screen_def token_arq_def m my t sample_previous Let_def del: One_nat_def)
  then show ?thesis using token_screen_fresh by blast
qed

text \<open>
  C11. The daemon's requests for retransmission: besides the requests of other memberships,
  which it passes on unchanged and in order, it asks only for packets that it does not have,
  above its \<open>My_aru\<close> and not above the highest sequence number it may ask for, in ascending
  order, and never for more than the token's body has room for.
\<close>

theorem token_requests_bounded:
  assumes "Answer_retrans rtr d = Inr (a, d')" and "rtr_bytes rtr \<le> sizeof_token_body"
  shows "rtr_bytes (token_requests a e) \<le> sizeof_token_body \<and>
    (\<exists>own. token_requests a e = filter (\<lambda>r. r_memb_id r \<noteq> Memb_id d) rtr @ own \<and> length own \<le> 1 \<and>
      (\<forall>r \<in> set own. sorted (r_seqs r) \<and> distinct (r_seqs r) \<and> (\<forall>i \<in> set (r_seqs r).
         exist (prot e) i = 0 \<and> My_aru (prot e) < i \<and> i \<le> max_rtr_seq e)))"
proof -
  have kept: "a_kept a = filter (\<lambda>r. r_memb_id r \<noteq> Memb_id d) rtr" using Answer_retrans_kept [OF assms(1)] .
  then have fit: "rtr_bytes (a_kept a) \<le> sizeof_token_body"
    using rtr_bytes_filter [of "\<lambda>r. r_memb_id r \<noteq> Memb_id d" rtr] assms(2) by simp
  have srt: "sorted (take n (missing_seqs p k))" "distinct (take n (missing_seqs p k))" for n p k
    by (simp_all add: missing_seqs_def sorted_wrt_take sorted_wrt_filter)
  have mem: "\<forall>i \<in> set (take n (missing_seqs p k)). exist p i = 0 \<and> My_aru p < i \<and> i \<le> k" for n p k
    by (auto simp: missing_seqs_def dest!: in_set_takeD)
  show ?thesis
    using token_requests_fit [OF fit, of e] srt mem
    by (auto simp: token_requests_def kept Let_def)
qed

theorem token_requests_bounded_witness:
  "\<exists>a d'. Answer_retrans [] sample_daemon = Inr (a, d') \<and> rtr_bytes (token_requests a sample_daemon) \<le> sizeof_token_body"
proof -
  obtain a d' where a: "Answer_retrans [] sample_daemon = Inr (a, d')" by (simp add: Answer_retrans_def)
  have "rtr_bytes [] \<le> sizeof_token_body" by (simp add: rtr_bytes_def)
  then show ?thesis using a token_requests_bounded [OF a] by blast
qed





end
