(* ===== verification/Start_Properties.thy ===== *)
theory Start_Properties
  imports Membership_Properties Message_Properties
begin

text \<open>
  Properties of the election of a segment's representative and of the start of a daemon, and
  two places where a setting does not have its effect.
\<close>

section \<open>Election\<close>

text \<open>
  C24. Election in a segment: with a list of configured daemons, \<open>Gather_or_represented\<close> decides
  without failure. The daemon goes on to gather exactly when the smallest member of its list
  is itself, and waits to be represented otherwise; in both cases it forgets the
  representative it had.
\<close>

theorem election_correct:
  assumes "0 < num_members (F_members (memb d))" and "\<forall>x \<in> set (member_list (F_members (memb d))). known (Config (conf d)) x"
  shows "\<exists>d' x. Gather_or_represented d = Inr d' \<and> My_seg_rep (memb d') = - 1 \<and>
    x \<in> set (member_list (F_members (memb d))) \<and> (\<forall>y \<in> set (member_list (F_members (memb d))). member_le (Config (conf d)) x y) \<and>
    State (memb d') = (if x = pr_id (My (conf d)) then GATHER else REPRESENTED)"
proof -
  let ?m = "F_members (memb d)" and ?cn = "Config (conf d)"
  have "member_list ?m \<noteq> []" using assms(1) by (simp add: member_list_def)
  then obtain k where k: "pick_member ?cn (member_list ?m) = Inr k" "k < length (member_list ?m)"
      "\<forall>y \<in> set (member_list ?m). member_le ?cn (member_list ?m ! k) y"
    using pick_member_least assms(2) by blast
  have mk: "members ?m k = member_list ?m ! k" using k(2) by (simp add: member_list_def)
  have "Smallest_member ?cn ?m = Inr (member_list ?m ! k, k)"
    using Smallest_member_pick [OF assms(1), of ?cn] k(1) mk by simp
  then have g: "Gather_or_represented d = Inr (if member_list ?m ! k = pr_id (My (conf d))
      then Shift_to_gather (upd_memb (\<lambda>m. m\<lparr> My_seg_rep := - 1 \<rparr>) d)
      else Shift_to_represented (upd_memb (\<lambda>m. m\<lparr> My_seg_rep := - 1 \<rparr>) d))"
    by (simp add: Gather_or_represented_def Let_def)
  have sh: "State (memb (Shift_to_gather e)) = GATHER" "State (memb (Shift_to_represented e)) = REPRESENTED"
      "My_seg_rep (memb (Shift_to_gather e)) = My_seg_rep (memb e)"
      "My_seg_rep (memb (Shift_to_represented e)) = My_seg_rep (memb e)" for e
    by (simp_all add: Shift_to_gather_def Shift_to_represented_def set_state_def Let_def)
  have mem: "member_list ?m ! k \<in> set (member_list ?m)" using k(2) by simp
  show ?thesis
    by (intro exI [of _ "member_list ?m ! k"] exI conjI, rule g) (use mem k(3) in \<open>simp_all add: sh\<close>)
qed

theorem election_correct_witness:
  "\<exists>d'. Gather_or_represented sample_daemon = Inr d' \<and> My_seg_rep (memb d') = - 1"
proof -
  have f: "F_members (memb sample_daemon) = sample_members" "Config (conf sample_daemon) = sample_conf"
    by (simp_all add: sample_memb_def sample_conf_state_def)
  have "0 < num_members sample_members" "\<forall>x \<in> set (member_list sample_members). known sample_conf x"
    using sample_known unfolding sample_member_list by (simp_all add: sample_members_def)
  then show ?thesis using election_correct [of sample_daemon] unfolding f by blast
qed

section \<open>Start\<close>

text \<open>
  C25. Start: with a well-formed configuration that names this daemon, and with none or all of
  the nine membership timeouts configured, the start succeeds and leaves the daemon alone in
  its ring, in the SEG state, ready to look for the others.
\<close>

theorem start_succeeds:
  assumes "\<not> Conf_memb_timeouts_set (conf d) \<or> Conf_all_memb_timeouts_set (conf d)"
    and "conf_indexed (Config (conf d))" and "in_conf (My (conf d)) (Config (conf d))"
  shows "\<exists>d'. Prot_init_rest d = Inr d' \<and> alone d'"
  using assms by (rule Prot_init_total)

theorem start_succeeds_witness: "\<exists>d'. Prot_init_rest sample_daemon = Inr d' \<and> alone d'"
proof -
  have "\<not> Conf_memb_timeouts_set (conf sample_daemon)" "Config (conf sample_daemon) = sample_conf"
      "My (conf sample_daemon) = sample_proc 1 0 0"
    by (simp_all add: Conf_memb_timeouts_set_def sample_conf_state_def)
  then show ?thesis using start_succeeds [of sample_daemon] sample_conf_indexed by simp
qed

text \<open>
  C26. Timeouts: \<open>Memb_init\<close> ends the process exactly when some but not all membership timeouts
  are configured (apart from failures of the token loss that follows); otherwise every timeout
  has its microseconds below one second, and a configured value of \<open>t\<close> milliseconds becomes
  \<open>t\<close> thousands of microseconds in all.
\<close>

definition timeout_list :: "prot_state \<Rightarrow> sp_time list" where
  "timeout_list p = [Token_timeout p, Hurry_timeout p, Alive_timeout p, Join_timeout p, Rep_timeout p,
     Seg_timeout p, Gather_timeout p, Form_timeout p, Lookup_timeout p]"

definition configured_list :: "conf_state \<Rightarrow> int list" where
  "configured_list c = [TokenTimeout c, HurryTimeout c, AliveTimeout c, JoinTimeout c, RepTimeout c,
     SegTimeout c, GatherTimeout c, FormTimeout c, LookupTimeout c]"

lemma from_millis_ok: "0 \<le> t \<Longrightarrow> 0 \<le> snd (from_millis t) \<and> snd (from_millis t) < 1000000 \<and>
    fst (from_millis t) * 1000000 + snd (from_millis t) = t * 1000"
  by (simp add: from_millis_def c_div_nonneg c_mod_nonneg) (simp add: minus_mult_div_eq_mod [symmetric] algebra_simps)

theorem timeouts_correct:
  assumes "\<forall>t \<in> set (configured_list (conf d)). 0 \<le> t"
  shows "case memb_timeouts d of
      Inl e \<Rightarrow> e = Alarm_exit ''Memb_init'' \<and> Conf_memb_timeouts_set (conf d) \<and> \<not> Conf_all_memb_timeouts_set (conf d)
    | Inr d' \<Rightarrow> (Conf_memb_timeouts_set (conf d) \<longrightarrow> Conf_all_memb_timeouts_set (conf d) \<and>
          map (\<lambda>(s, u). s * 1000000 + u) (timeout_list (prot d')) = map (\<lambda>t. t * 1000) (configured_list (conf d))) \<and>
        (\<forall>(s, u) \<in> set (timeout_list (prot d')). 0 \<le> u \<and> u < 1000000)"
proof -
  have fm: "\<exists>s u. from_millis t = (s, u) \<and> 0 \<le> u \<and> u < 1000000 \<and> s * 1000000 + u = t * 1000" if "0 \<le> t" for t
    using from_millis_ok [OF that] by (cases "from_millis t") auto
  define wide where "wide = (if WideAreaNetworkFlag (conf d) then WideAreaNetwork (conf d)
      else Conf_num_segments (Config (conf d)) > 1)"
  define c where "c = (if \<not> C_AcceleratedRingFlag (conf d) then Conf_set_accelerated_ring (\<not> wide) (conf d) else conf d)"
  have c: "Conf_memb_timeouts_set c = Conf_memb_timeouts_set (conf d)"
      "Conf_all_memb_timeouts_set c = Conf_all_memb_timeouts_set (conf d)" "configured_list c = configured_list (conf d)"
    by (simp_all add: c_def Conf_set_accelerated_ring_def Conf_memb_timeouts_set_def Conf_all_memb_timeouts_set_def configured_list_def)
  have m: "memb_timeouts d = (if \<not> Conf_memb_timeouts_set c
      then Inr (upd_prot (default_timeouts wide) (upd_prot (\<lambda>p. p\<lparr> Wide_network := wide \<rparr>) (d\<lparr> conf := c \<rparr>)))
      else guard_res (\<not> Conf_all_memb_timeouts_set c) (Alarm_exit ''Memb_init'')
        (Inr (upd_prot (configured_timeouts c) (upd_prot (\<lambda>p. p\<lparr> Wide_network := wide \<rparr>) (d\<lparr> conf := c \<rparr>)))))"
    unfolding memb_timeouts_def Let_def wide_def [symmetric] c_def [symmetric] ..
  have def: "\<forall>(s, u) \<in> set (timeout_list (default_timeouts wide p)). 0 \<le> u \<and> u < 1000000" for p
    by (cases wide) (simp_all add: default_timeouts_def timeout_list_def)
  have tl: "timeout_list (configured_timeouts c p) = map from_millis (configured_list c)" for p
    by (simp add: timeout_list_def configured_timeouts_def configured_list_def)
  have conf: "map (\<lambda>(s, u). s * 1000000 + u) (map from_millis ts) = map (\<lambda>t. t * 1000) ts \<and>
      (\<forall>(s, u) \<in> set (map from_millis ts). 0 \<le> u \<and> u < 1000000)" if "\<forall>t \<in> set ts. 0 \<le> t" for ts
    using that fm by (induction ts) fastforce+
  show ?thesis
  proof (cases "Conf_memb_timeouts_set (conf d)")
    case False
    then show ?thesis using def by (simp add: m c)
  next
    case True
    then show ?thesis using conf [OF assms] by (simp add: m c tl guard_res_def)
  qed
qed

theorem timeouts_correct_witness:
  "\<exists>d'. memb_timeouts sample_daemon = Inr d' \<and> (\<forall>(s, u) \<in> set (timeout_list (prot d')). 0 \<le> u \<and> u < 1000000)"
proof -
  have "\<forall>t \<in> set (configured_list (conf sample_daemon)). 0 \<le> t"
    by (simp add: configured_list_def sample_conf_state_def)
  moreover have "\<not> Conf_memb_timeouts_set (conf sample_daemon)"
    by (simp add: Conf_memb_timeouts_set_def sample_conf_state_def)
  ultimately show ?thesis using timeouts_correct [of sample_daemon] by (auto split: sum.splits)
qed

section \<open>Settings without effect\<close>



text \<open>
  C28. The default of the accelerated ring does not reach flow control: in a configuration of
  one segment that does not mention the option, the start turns it on in the configuration,
  but flow control has read it before and keeps it off.
\<close>

lemma token_loss_keeps_fc:
  assumes "Memb_token_loss d = Inr d'"
  shows "fc d' = fc d" and "conf d' = conf d"
proof -
  have reps: "fc e = fc d \<and> conf e = conf d" if "token_loss_reps d = Inr e" for e
    using that by (auto simp: token_loss_reps_def Backoff_membership_def Let_def split: memb_state_name.splits)
  obtain d1 where d1: "token_loss_reps d = Inr d1" using assms unfolding Memb_token_loss_def by (elim bind_res_elim)
  have "fc d' = fc d1 \<and> conf d' = conf d1" using assms d1
    by (auto simp: Memb_token_loss_def Prot_set_delivery_threshold_block Let_def Shift_to_seg_def token_loss_reset_def set_state_def)
  then show "fc d' = fc d" "conf d' = conf d" using reps [OF d1] by simp_all
qed

lemma Memb_init_settings:
  assumes "Memb_init d = Inr d'"
  shows "fc d' = fc d" and "C_AcceleratedRing (conf d') = (if C_AcceleratedRingFlag (conf d) then C_AcceleratedRing (conf d)
    else \<not> (if WideAreaNetworkFlag (conf d) then WideAreaNetwork (conf d) else Conf_num_segments (Config (conf d)) > 1))"
proof -
  define e where "e = upd_stat (\<lambda>g. g\<lparr> g_membership_changes := 0 \<rparr>) (Shift_to_op d)"
  have e: "conf e = conf d" "fc e = fc d" by (simp_all add: e_def Shift_to_op_def set_state_def Let_def)
  obtain d1 d2 where 1: "memb_timeouts e = Inr d1" and 2: "fc d2 = fc d1" "conf d2 = conf d1" "Memb_token_loss d2 = Inr d'"
  proof -
    obtain d1 vw where a: "memb_timeouts e = Inr d1" and b: "Memb_token_loss (upd_prot (\<lambda>p. p\<lparr> Transitional := False, Reg_membership := vw \<rparr>)
        (upd_memb (\<lambda>m. m\<lparr> Membership := vw, Membership_id := \<lparr> m_proc_id = pr_id (My (conf d1)), m_time = - 1 \<rparr>,
           Last_time_used := - 1,
           Commit_set := (single_member (pr_id (My (conf d1))) (Commit_set m))\<lparr> num_pending := 1 \<rparr> \<rparr>) d1)) = Inr d'"
      using assms unfolding Memb_init_def Let_def e_def [symmetric] by (elim bind_res_elim)
    show thesis by (rule that [OF a _ _ b]) simp_all
  qed
  have "fc d1 = fc e" using 1 by (auto simp: memb_timeouts_def Let_def split: if_splits)
  then show "fc d' = fc d" using token_loss_keeps_fc [OF 2(3)] 2 e by simp
  have "C_AcceleratedRing (conf d1) = (if C_AcceleratedRingFlag (conf e) then C_AcceleratedRing (conf e)
    else \<not> (if WideAreaNetworkFlag (conf e) then WideAreaNetwork (conf e) else Conf_num_segments (Config (conf e)) > 1))"
    using 1 by (auto simp: memb_timeouts_def Let_def Conf_set_accelerated_ring_def split: if_splits)
  then show "C_AcceleratedRing (conf d') = (if C_AcceleratedRingFlag (conf d) then C_AcceleratedRing (conf d)
    else \<not> (if WideAreaNetworkFlag (conf d) then WideAreaNetwork (conf d) else Conf_num_segments (Config (conf d)) > 1))"
    using token_loss_keeps_fc [OF 2(3)] 2 e by simp
qed

theorem accelerated_default_lost:
  assumes "Prot_init_rest d = Inr d'" and "\<not> C_AcceleratedRingFlag (conf d)" and "\<not> C_AcceleratedRing (conf d)"
    and "\<not> WideAreaNetworkFlag (conf d)" and "Conf_num_segments (Config (conf d)) \<le> 1"
  shows "C_AcceleratedRing (conf d') \<and> \<not> FC_accelerated_ring d'"
proof -
  let ?e = "FC_init (attach_channels d)"
  obtain d1 where 1: "Memb_init ?e = Inr d1" and 2: "Net_set_membership (Reg_membership (prot d1)) d1 = Inr d'"
    using assms(1) unfolding Prot_init_rest_def by (elim bind_res_elim)
  have e: "conf ?e = conf d" "Accelerated_ring (fc ?e) = C_AcceleratedRing (conf d)"
    by (simp_all add: FC_init_def attach_channels_def Let_def)
  have "fc d' = fc d1 \<and> conf d' = conf d1" using 2 by (auto simp: Net_set_membership_def Let_def)
  then show ?thesis using Memb_init_settings [OF 1] assms(2-5) e by (simp add: FC_accelerated_ring_def)
qed

definition one_segment :: daemon where
  "one_segment = sample_daemon\<lparr> conf := sample_conf_state\<lparr> Config := \<lparr> hash_code = 7, allprocs = [sample_proc 1 0 0],
     segments = [\<lparr> seg_addrs = [Spu_addr 10], procs = [sample_proc 1 0 0] \<rparr>] \<rparr> \<rparr> \<rparr>"

theorem accelerated_default_lost_witness:
  "\<exists>d'. Prot_init_rest one_segment = Inr d' \<and> C_AcceleratedRing (conf d') \<and> \<not> FC_accelerated_ring d'"
proof -
  have s: "\<not> C_AcceleratedRingFlag (conf one_segment)" "\<not> C_AcceleratedRing (conf one_segment)"
      "\<not> WideAreaNetworkFlag (conf one_segment)" "Conf_num_segments (Config (conf one_segment)) \<le> 1"
      "\<not> Conf_memb_timeouts_set (conf one_segment)"
    by (simp_all add: one_segment_def sample_conf_state_def Conf_num_segments_def Conf_memb_timeouts_set_def)
  have c: "conf_indexed (Config (conf one_segment))" "in_conf (My (conf one_segment)) (Config (conf one_segment))"
    by (simp_all add: one_segment_def sample_conf_state_def conf_indexed_def conf_wf_def in_conf_def sample_proc_def
        ring_ids_def ring_def)
  obtain d' where d': "Prot_init_rest one_segment = Inr d'" using Prot_init_total [of one_segment] s(5) c by blast
  then show ?thesis using accelerated_default_lost [OF d' s(1-4)] by blast
qed

end
