(* ===== verification/Form_Correct.thy ===== *)
theory Form_Correct
  imports Handlers
begin

text \<open>
  Lemmas on the form tokens: what creating one fixes, what a daemon adds to its old ring, and
  what reading the second kind installs.
\<close>

section \<open>Creating a token\<close>

lemma fresh_time_bounds: "last_used < fresh_time now last_used" "now \<le> fresh_time now last_used"
  by (auto simp: fresh_time_def)

lemma form_potential_frame:
  assumes "form_potential src d = Inr d'"
  shows "\<exists>r. d' = upd_memb (\<lambda>m. m\<lparr> Potential_reps := r \<rparr>) d"
  using assms unfolding form_potential_def by (elim bind_res_elim) auto

lemma Prot_set_delivery_threshold_frame:
  assumes "Prot_set_delivery_threshold x d = Inr d'"
  shows "memb d' = memb d" "conf d' = conf d" "net d' = net d" "fc d' = fc d"
    "prot d' = (prot d)\<lparr> Prot_delivery_threshold := x \<rparr>"
  using assms by (auto simp: Prot_set_delivery_threshold_def Let_def)

lemma Net_ucast_token_frame:
  assumes "Net_ucast_token i t b d = Inr (t', d')"
  shows "\<exists>es. d' = d\<lparr> out := out d @ es \<rparr>" and "t' = stamp_token d t"
  using assms by (auto simp: Net_ucast_token_def Let_def emit_def split: option.splits) (metis append_Nil2 daemon.surjective daemon.update_convs(8))

text \<open>The tokens among the effects.\<close>

fun token_sent :: "effect \<Rightarrow> (dest \<times> token_header \<times> token_payload) list" where
  "token_sent (DL_sendto_token a t b) = [(a, t, b)]"
| "token_sent _ = []"

definition tokens_sent :: "effect list \<Rightarrow> (dest \<times> token_header \<times> token_payload) list" where
  "tokens_sent es = concat (map token_sent es)"

lemma tokens_sent_simps [simp]:
  "tokens_sent [] = []" "tokens_sent (e # es) = token_sent e @ tokens_sent es"
  "tokens_sent (es @ fs) = tokens_sent es @ tokens_sent fs"
  by (simp_all add: tokens_sent_def)

lemma stamp_token_simps [simp]:
  "t_memb_id (stamp_token d t) = t_memb_id t" "t_rtr_len (stamp_token d t) = t_rtr_len t"
  "t_seq (stamp_token d t) = t_seq t" "t_proc_id (stamp_token d t) = t_proc_id t"
  by (simp_all add: stamp_token_def)

definition form_sent :: "membership_id \<Rightarrow> daemon \<Rightarrow> daemon \<Rightarrow> bool" where
  "form_sent mid d d' \<longleftrightarrow> (\<exists>es. d' = d\<lparr> out := out d @ es \<rparr> \<and> length (tokens_sent es) \<le> 2 \<and>
     (\<forall>(a, t, b) \<in> set (tokens_sent es). t_memb_id t = mid))"

lemma form_sent_trans0: "d' = d \<Longrightarrow> form_sent mid d d'"
  unfolding form_sent_def by (intro exI [of _ "[]"]) simp

lemma send_form_twice_sent:
  assumes "send_form_twice i t b d = Inr (t', d')"
  shows "form_sent (t_memb_id t) d d'"
proof (cases "Conf_proc_by_id_in_conf (Config (conf d)) i")
  case None
  then show ?thesis
    using assms by (auto simp: send_form_twice_def Net_ucast_token_def Let_def bind_res_eq_Inr intro!: form_sent_trans0)
next
  case (Some a)
  then obtain u v where "d' = d\<lparr> out := out d @ [DL_sendto_token (Token_port (pr_addr (snd a))) u b,
      DL_sendto_token (Token_port (pr_addr (snd a))) v b] \<rparr>" "t_memb_id u = t_memb_id t" "t_memb_id v = t_memb_id t"
    using assms by (auto simp: send_form_twice_def Net_ucast_token_def Let_def bind_res_eq_Inr emit_def split: prod.splits)
  then show ?thesis unfolding form_sent_def by auto
qed

lemma shift_to_form_result:
  assumes "shift_to_form d = Inr d'"
  shows "prot d' = (prot d)\<lparr> Prot_delivery_threshold := BLOCK_REGULAR_DELIVERY \<rparr>"
    and "memb d' = (memb d)\<lparr> Token_alive := False, State := FORM \<rparr>"
    and "tokens_sent (out d') = tokens_sent (out d)" and "conf d' = conf d" and "net d' = net d"
  using assms
  by (auto simp: shift_to_form_def Let_def bind_res_eq_Inr set_state_def Prot_set_delivery_threshold_def)

text \<open>The state from which the token is sent.\<close>

definition form_prepared :: "int \<Rightarrow> membership_id \<Rightarrow> daemon \<Rightarrow> daemon \<Rightarrow> bool" where
  "form_prepared time mid d e \<longleftrightarrow> prot e = prot d \<and> out e = out d \<and> conf e = conf d \<and> Last_time_used (memb e) = time \<and>
     Form1_memb_id (memb e) = mid \<and> Membership_id (memb e) = Membership_id (memb d)"

lemma form_prepared_intros:
  "form_prepared time \<lparr> m_proc_id = i, m_time = time \<rparr> d
     (upd_memb (\<lambda>m. m\<lparr> Last_time_used := time, Form1_memb_id := \<lparr> m_proc_id = i, m_time = time \<rparr> \<rparr>) d)"
  "form_prepared time mid d e \<Longrightarrow> form_prepared time mid d (upd_memb (\<lambda>ms. ms\<lparr> F_members := m \<rparr>) e)"
  "form_prepared time mid d e \<Longrightarrow> form_prepared time mid d (upd_memb (\<lambda>ms. ms\<lparr> F_reps := r \<rparr>) e)"
  "form_prepared time mid d e \<Longrightarrow> form_potential src e = Inr e' \<Longrightarrow> form_prepared time mid d e'"
  by (simp_all add: form_prepared_def) (auto dest!: form_potential_frame)

lemma Create_form1_parts:
  assumes "Create_form1 now d = Inr d'"
  defines "time \<equiv> fresh_time now (Last_time_used (memb d))"
  defines "mid \<equiv> \<lparr> m_proc_id = pr_id (My (conf d)), m_time = time \<rparr>"
  shows "\<exists>e e'. form_prepared time mid d e \<and> form_sent mid e e' \<and>
    shift_to_form (emit (E_dequeue Send_join_event) e') = Inr d'"
proof -
  obtain m r e x where
    e: "form_potential r (upd_memb (\<lambda>ms. ms\<lparr> F_reps := r \<rparr>) (upd_memb (\<lambda>ms. ms\<lparr> F_members := m \<rparr>)
          (upd_memb (\<lambda>m. m\<lparr> Last_time_used := time, Form1_memb_id := mid \<rparr>) d))) = Inr e"
    and x: "(\<exists>i t b. send_form_twice i t b e = Inr x \<and> t_memb_id t = mid) \<or>
      (\<exists>i t b m. send_form_twice i t b (upd_memb (\<lambda>ms. ms\<lparr> F_members := m \<rparr>) e) = Inr x \<and> t_memb_id t = mid)"
    and d': "shift_to_form (emit (E_dequeue Send_join_event) (snd x)) = Inr d'"
    using assms(1) unfolding Create_form1_def Let_def time_def [symmetric] mid_def [symmetric]
    by (elim bind_res_elim) (force split: option.splits)
  have prep: "form_prepared time mid d e"
    by (rule form_prepared_intros(4) [OF _ e]) (simp add: mid_def form_prepared_intros(1-3))
  obtain t' e' where "x = (t', e')" by (cases x)
  with x have "form_sent mid e e' \<or> (\<exists>m. form_sent mid (upd_memb (\<lambda>ms. ms\<lparr> F_members := m \<rparr>) e) e')"
    by (auto dest: send_form_twice_sent)
  then obtain e1 where "form_prepared time mid d e1" "form_sent mid e1 e'"
    using prep form_prepared_intros(2) by meson
  then show ?thesis using d' \<open>x = (t', e')\<close> by auto
qed

lemma Create_form1_result:
  assumes "Create_form1 now d = Inr d'"
  defines "time \<equiv> fresh_time now (Last_time_used (memb d))"
  shows "State (memb d') = FORM" "\<not> Token_alive (memb d')" "Last_time_used (memb d') = time"
    "Form1_memb_id (memb d') = \<lparr> m_proc_id = pr_id (My (conf d)), m_time = time \<rparr>"
    "prot d' = (prot d)\<lparr> Prot_delivery_threshold := BLOCK_REGULAR_DELIVERY \<rparr>"
    "Membership_id (memb d') = Membership_id (memb d)"
    "\<exists>xs. tokens_sent (out d') = tokens_sent (out d) @ xs \<and> length xs \<le> 2 \<and>
      (\<forall>(a, t, b) \<in> set xs. t_memb_id t = \<lparr> m_proc_id = pr_id (My (conf d)), m_time = time \<rparr>)"
proof -
  let ?mid = "\<lparr> m_proc_id = pr_id (My (conf d)), m_time = time \<rparr>"
  obtain e e' where e: "form_prepared time ?mid d e" and e': "form_sent ?mid e e'"
      and s: "shift_to_form (emit (E_dequeue Send_join_event) e') = Inr d'"
    using Create_form1_parts [OF assms(1)] unfolding time_def by blast
  obtain es where es: "e' = e\<lparr> out := out e @ es \<rparr>" "length (tokens_sent es) \<le> 2"
      "\<forall>(a, t, b) \<in> set (tokens_sent es). t_memb_id t = ?mid"
    using e' unfolding form_sent_def by blast
  have d: "prot e = prot d" "out e = out d" "conf e = conf d"
    using e by (simp_all add: form_prepared_def)
  note r = shift_to_form_result [OF s]
  show "State (memb d') = FORM" "\<not> Token_alive (memb d')" "Last_time_used (memb d') = time"
      "Form1_memb_id (memb d') = ?mid" "Membership_id (memb d') = Membership_id (memb d)"
      "prot d' = (prot d)\<lparr> Prot_delivery_threshold := BLOCK_REGULAR_DELIVERY \<rparr>"
    using r(1,2) e es(1) d by (simp_all add: form_prepared_def)
  show "\<exists>xs. tokens_sent (out d') = tokens_sent (out d) @ xs \<and> length xs \<le> 2 \<and>
      (\<forall>(a, t, b) \<in> set xs. t_memb_id t = ?mid)"
    using r(3) es d by (intro exI [of _ "tokens_sent es"]) simp
qed

section \<open>What a ring knows together\<close>

text \<open>\<open>insert_all\<close> adds members that are not in the list yet, while there is room.\<close>

fun add_new :: "proc_id list \<Rightarrow> proc_id list \<Rightarrow> proc_id list" where
  "add_new xs [] = xs"
| "add_new xs (y # ys) = add_new (if y \<in> set xs \<or> length xs = 128 then xs else xs @ [y]) ys"

lemma add_new_distinct: "distinct xs \<Longrightarrow> distinct (add_new xs ys)"
  by (induction xs ys rule: add_new.induct) auto

lemma add_new_set:
  assumes "distinct xs" and "card (set xs \<union> set ys) \<le> 128"
  shows "set (add_new xs ys) = set xs \<union> set ys"
  using assms
proof (induction xs ys rule: add_new.induct)
  case (2 xs y ys)
  show ?case
  proof (cases "y \<in> set xs")
    case True
    with 2 show ?thesis by (simp add: insert_absorb)
  next
    case False
    have "length xs < card (set xs \<union> set (y # ys))"
      using False 2(2) distinct_card [OF 2(2)] psubset_card_mono [of "set xs \<union> set (y # ys)" "set xs"] by auto
    then show ?thesis using 2 False by simp
  qed
qed simp

lemma add_new_prefix: "\<exists>zs. add_new xs ys = xs @ zs"
proof (induction xs ys rule: add_new.induct)
  case (2 xs y ys)
  then show ?case by (cases "y \<in> set xs \<or> length xs = 128") auto
qed simp

lemma add_new_append: "add_new xs (ys @ zs) = add_new (add_new xs ys) zs"
  by (induction xs ys rule: add_new.induct) auto

lemma add_new_length: "length (add_new xs ys) \<le> length xs + length ys"
  by (induction xs ys rule: add_new.induct) (auto split: if_splits)

text \<open>If nothing was left out, everything was new.\<close>

lemma add_new_all:
  assumes "length (add_new xs ys) = length xs + length ys" and "distinct xs"
  shows "add_new xs ys = xs @ ys \<and> distinct (xs @ ys)"
  using assms
proof (induction xs ys rule: add_new.induct)
  case (2 xs y ys)
  have "\<not> (y \<in> set xs \<or> length xs = 128)"
    using 2(2) add_new_length [of xs ys] by (auto split: if_splits)
  then show ?case using 2 by simp
qed simp

lemma insert_all_list:
  assumes "0 \<le> num_members m"
  shows "member_list (insert_all xs m) = add_new (member_list m) xs \<and> 0 \<le> num_members (insert_all xs m)"
  using assms
proof (induction xs arbitrary: m)
  case (Cons i xs)
  have "int (length (member_list m)) = num_members m" using Cons(2) by simp
  then have "length (member_list m) = 128 \<longleftrightarrow> num_members m = 128" by linarith
  then have "member_list (fst (Insert_member m i)) =
      (if i \<in> set (member_list m) \<or> length (member_list m) = 128 then member_list m else member_list m @ [i])"
    using Insert_member_list [OF Cons(2), of i] by simp
  moreover have "0 \<le> num_members (fst (Insert_member m i))" using Cons(2) by (simp add: Insert_member_def)
  ultimately show ?case using Cons(1) [of "fst (Insert_member m i)"] by (simp add: insert_all_def)
qed (simp add: insert_all_def)

lemma merged_procs_result:
  assumes "merged_procs g d = Inr (ps, n)"
  defines "k \<equiv> nat (rg_num_trans g)" and "my \<equiv> pr_id (My (conf d))" and "cs \<equiv> Commit_set (memb d)"
  shows "n = rg_num_trans g + 1"
    and "ps = add_new (add_new (take k (rg_procs g) @ [my]) (drop k (rg_procs g))) (member_list cs)"
    and "distinct (take k (rg_procs g) @ [my])" and "0 \<le> rg_num_trans g" and "k \<le> length (rg_procs g)"
proof -
  let ?s0 = "\<lparr> num_members = 0, num_pending = 0, members = (\<lambda>_. 0) \<rparr>"
  let ?s1 = "insert_all (take k (rg_procs g)) ?s0"
  let ?s2 = "insert_all [my] ?s1"
  let ?s3 = "insert_all (member_list cs) (insert_all (drop k (rg_procs g)) ?s2)"
  have g: "0 \<le> rg_num_trans g" "k \<le> length (rg_procs g)" "num_members ?s2 = rg_num_trans g + 1"
      "n = rg_num_trans g + 1" "ps = member_list ?s3"
    using assms(1) by (auto simp: merged_procs_def Let_def k_def my_def cs_def member_list_def)
  then show "n = rg_num_trans g + 1" "0 \<le> rg_num_trans g" "k \<le> length (rg_procs g)" by simp_all
  have l1: "member_list ?s1 = add_new [] (take k (rg_procs g))" "0 \<le> num_members ?s1"
    using insert_all_list [of ?s0 "take k (rg_procs g)"] by (simp_all add: member_list_def)
  have l2: "member_list ?s2 = add_new (member_list ?s1) [my]" "0 \<le> num_members ?s2"
    using insert_all_list [of ?s1 "[my]"] l1(2) by simp_all
  have l3: "member_list (insert_all (drop k (rg_procs g)) ?s2) = add_new (member_list ?s2) (drop k (rg_procs g))"
      "0 \<le> num_members (insert_all (drop k (rg_procs g)) ?s2)"
    using insert_all_list [OF l2(2)] by simp_all
  have two: "member_list ?s2 = add_new [] (take k (rg_procs g) @ [my])" by (simp only: l2(1) l1(1) add_new_append)
  have "length (member_list ?s2) = k + 1" using g(1,3) by (simp add: k_def nat_add_distrib)
  then have all: "add_new [] (take k (rg_procs g) @ [my]) = [] @ take k (rg_procs g) @ [my] \<and>
      distinct ([] @ take k (rg_procs g) @ [my])"
    by (intro add_new_all) (use two g(2) in simp_all)
  then show "distinct (take k (rg_procs g) @ [my])" by simp
  show "ps = add_new (add_new (take k (rg_procs g) @ [my]) (drop k (rg_procs g))) (member_list cs)"
    using g(5) insert_all_list [OF l3(2), of "member_list cs"] l3(1) two all by simp
qed

text \<open>
  The holes are exactly the packets between the first ones and the highest that no daemon on
  the token has: adding one more daemon keeps this.
\<close>

definition holes_of :: "(int \<Rightarrow> bool) \<Rightarrow> int \<Rightarrow> ring_info \<Rightarrow> bool" where
  "holes_of has lo g \<longleftrightarrow> lo \<le> rg_highest_seq g \<and> (\<forall>i. has i \<longrightarrow> i \<le> rg_highest_seq g) \<and>
     set (rg_holes g) = {i. lo < i \<and> i \<le> rg_highest_seq g \<and> \<not> has i}"

lemma merge_ring_holes:
  assumes "merge_ring g d = Inr g'" and "holes_of has lo g"
    and "\<And>i. has' i \<longleftrightarrow> has i \<or> (lo < i \<and> i \<le> Highest_seq (prot d) \<and> exist (prot d) i \<noteq> 0)"
    and "\<And>i. Highest_seq (prot d) < i \<Longrightarrow> i \<le> rg_highest_seq g \<Longrightarrow> exist (prot d) i = 0"
  shows "holes_of has' lo g'"
proof -
  have g': "rg_highest_seq g' = max (rg_highest_seq g) (Highest_seq (prot d))" "rg_holes g' = merged_holes g (prot d)"
    using assms(1) by (auto simp: merge_ring_def)
  have "set (rg_holes g') = {i. lo < i \<and> i \<le> rg_highest_seq g' \<and> \<not> has' i}"
    using assms(2,4) unfolding g' assms(3) merged_holes_def holes_between_def holes_of_def by force
  moreover have "lo \<le> rg_highest_seq g'" "\<forall>i. has' i \<longrightarrow> i \<le> rg_highest_seq g'"
    using assms(2) unfolding g' assms(3) holes_of_def by fastforce+
  ultimately show ?thesis by (simp add: holes_of_def)
qed

section \<open>Installing the future membership\<close>

lemma mset_ring_ids_append:
  assumes "k < length ss"
  shows "mset (concat (map procs (ss[k := (ss ! k)\<lparr> procs := procs (ss ! k) @ [p] \<rparr>]))) =
    add_mset p (mset (concat (map procs ss)))"
  using assms
proof (induction ss arbitrary: k)
  case (Cons s ss)
  then show ?case by (cases k) auto
qed simp

lemma future_step_ring:
  assumes "future_step cn i vw = Inr vw'"
  shows "mset (ring_ids vw') = add_mset i (mset (ring_ids vw))" and "allprocs vw' = allprocs vw"
    and "length (segments vw') = length (segments vw)" and "hash_code vw' = hash_code vw"
proof -
  obtain n p where p: "Conf_proc_by_id_in_conf cn i = Some (n, p)"
    using assms by (cases "Conf_proc_by_id_in_conf cn i") (auto simp: future_step_def)
  have id: "pr_id p = i" using Conf_proc_by_id_Some [OF p] by blast
  obtain seg where seg: "seg_at vw (pr_seg_index p) = Inr seg"
    and v: "vw' = vw\<lparr> segments := (segments vw)[nat (pr_seg_index p) := seg\<lparr> procs := procs seg @ [p] \<rparr>] \<rparr>"
    using assms p by (auto simp: future_step_def Conf_append_id_to_seg_def id Let_def)
  have k: "nat (pr_seg_index p) < length (segments vw)" "seg = segments vw ! nat (pr_seg_index p)"
    using seg by (auto simp: seg_at_def split: if_splits)
  show "mset (ring_ids vw') = add_mset i (mset (ring_ids vw))"
    using mset_ring_ids_append [OF k(1), of p] by (simp add: v k(2) ring_ids_def ring_def id)
  show "allprocs vw' = allprocs vw" "length (segments vw') = length (segments vw)" "hash_code vw' = hash_code vw"
    by (simp_all add: v)
qed

lemma future_membership_ring:
  assumes "future_membership cn xs = Inr vw"
  shows "mset (ring_ids vw) = mset xs" and "allprocs vw = allprocs cn"
proof -
  have loop: "mset (ring_ids v') = mset (ring_ids v) + mset xs \<and> allprocs v' = allprocs v"
    if "fold_res (future_step cn) xs v = Inr v'" for v v'
    using that
  proof (induction xs arbitrary: v)
    case (Cons i xs)
    from Cons(2) obtain w where w: "future_step cn i v = Inr w" "fold_res (future_step cn) xs w = Inr v'" by auto
    show ?case using Cons(1) [OF w(2)] future_step_ring(1,2) [OF w(1)] by simp
  qed simp
  have "ring_ids (clear_members cn cn) = []" by (simp add: clear_members_def ring_ids_def ring_def)
  then show "mset (ring_ids vw) = mset xs" "allprocs vw = allprocs cn"
    using loop [of "clear_members cn cn" vw] assms by (simp_all add: future_membership_def clear_members_def)
qed

section \<open>The packets of the old ring\<close>

lemma aru_loop:
  assumes "fold_res (aru_step p) [lo + 1..lo + int n] (lo, b) = Inr (a, a2)"
  shows "lo \<le> a \<and> a \<le> lo + int n \<and> (\<forall>i. lo < i \<and> i \<le> a \<longrightarrow> exist p i \<in> {1, 2}) \<and>
    (a < lo + int n \<longrightarrow> exist p (a + 1) \<in> {0, 3})"
  using assms
proof (induction n arbitrary: a a2)
  case (Suc n)
  have "[lo + 1..lo + int (Suc n)] = [lo + 1..lo + int n] @ [lo + int n + 1]"
    by (simp add: upto_rec2)
  then obtain x x2 where x: "fold_res (aru_step p) [lo + 1..lo + int n] (lo, b) = Inr (x, x2)"
      and st: "aru_step p (lo + int n + 1) (x, x2) = Inr (a, a2)"
    using Suc(2) by (auto simp: fold_res_snoc bind_res_eq_Inr)
  note IH = Suc(1) [OF x]
  show ?case
  proof (cases "exist p (lo + int n + 1) \<in> {1, 2}")
    case True
    show ?thesis
    proof (cases "lo + int n + 1 = x + 1")
      case eq: True
      then have "a = x + 1" using st True by (auto simp: aru_step_def)
      moreover have "\<forall>i. lo < i \<and> i \<le> x + 1 \<longrightarrow> exist p i \<in> {1, 2}" using IH True eq by (metis zle_add1_eq_le le_less)
      ultimately show ?thesis using IH eq by auto
    next
      case False
      then have "a = x" using st True by (auto simp: aru_step_def)
      then show ?thesis using IH False by auto
    qed
  next
    case False
    then have "a = x" "exist p (lo + int n + 1) \<in> {0, 3}" using st by (auto simp: aru_step_def split: if_splits)
    then show ?thesis using IH by (cases "x = lo + int n") auto
  qed
qed simp

lemma recompute_my_aru_result:
  assumes "recompute_my_aru d = Inr d'"
  shows "\<exists>a. d' = upd_prot (\<lambda>p. p\<lparr> My_aru := a \<rparr>) d \<and> Last_discarded (prot d) \<le> a \<and>
    (Last_discarded (prot d) \<le> Highest_seq (prot d) \<longrightarrow> a \<le> Highest_seq (prot d)) \<and>
    (\<forall>i. Last_discarded (prot d) < i \<and> i \<le> a \<longrightarrow> exist (prot d) i \<in> {1, 2}) \<and>
    (a < Highest_seq (prot d) \<longrightarrow> exist (prot d) (a + 1) \<in> {0, 3})"
proof -
  let ?lo = "Last_discarded (prot d)" and ?hi = "Highest_seq (prot d)"
  obtain a where a: "fold_res (aru_step (prot d)) [?lo + 1..?hi] (?lo, My_aru (prot d)) = Inr (a, a)"
      and d': "d' = upd_prot (\<lambda>p. p\<lparr> My_aru := a \<rparr>) d"
    using assms by (auto simp: recompute_my_aru_def Let_def)
  have "[?lo + 1..?hi] = [?lo + 1..?lo + int (nat (?hi - ?lo))]" by (cases "?lo \<le> ?hi") auto
  then have "?lo \<le> a \<and> a \<le> ?lo + int (nat (?hi - ?lo)) \<and> (\<forall>i. ?lo < i \<and> i \<le> a \<longrightarrow> exist (prot d) i \<in> {1, 2}) \<and>
    (a < ?lo + int (nat (?hi - ?lo)) \<longrightarrow> exist (prot d) (a + 1) \<in> {0, 3})"
    using a by (intro aru_loop) simp
  then show ?thesis using d' by (intro exI [of _ a]) auto
qed

text \<open>Forgetting and marking packets change nothing but the entries.\<close>

definition entry_frame :: "daemon \<Rightarrow> daemon \<Rightarrow> bool" where
  "entry_frame d d' \<longleftrightarrow> conf d' = conf d \<and> memb d' = memb d \<and> net d' = net d \<and> fc d' = fc d \<and> out d' = out d \<and>
     prot d' = (prot d)\<lparr> Packets := Packets (prot d') \<rparr>"

lemma entry_frame_refl [simp]: "entry_frame d d"
  by (simp add: entry_frame_def)

lemma entry_frame_set [simp]: "entry_frame d (upd_prot (set_exist i e) d)"
  by (simp add: entry_frame_def set_exist_def set_pkt_def)

lemma entry_frame_trans: "entry_frame a b \<Longrightarrow> entry_frame b c \<Longrightarrow> entry_frame a c"
  unfolding entry_frame_def by (metis prot_state.surjective prot_state.update_convs(4))

lemma entry_frameD:
  assumes "entry_frame d d'"
  shows "conf d' = conf d" "memb d' = memb d" "net d' = net d" "fc d' = fc d" "out d' = out d"
    "Last_seq (prot d') = Last_seq (prot d)" "Token_timeout (prot d') = Token_timeout (prot d)"
    "Highest_seq (prot d') = Highest_seq (prot d)" "Last_discarded (prot d') = Last_discarded (prot d)"
proof -
  have p: "prot d' = (prot d)\<lparr> Packets := Packets (prot d') \<rparr>" using assms by (simp add: entry_frame_def)
  show "Last_seq (prot d') = Last_seq (prot d)" "Token_timeout (prot d') = Token_timeout (prot d)"
      "Highest_seq (prot d') = Highest_seq (prot d)" "Last_discarded (prot d') = Last_discarded (prot d)"
    by (subst p, simp)+
qed (use assms in \<open>simp_all add: entry_frame_def\<close>)

lemma forget_step_frame: "forget_step i d = Inr d' \<Longrightarrow> entry_frame d d'"
  by (auto simp: forget_step_def split: if_splits)

lemma hole_step_frame: "hole_step i d = Inr d' \<Longrightarrow> entry_frame d d' \<and> d' = upd_prot (set_exist i 3) d"
  by (auto simp: hole_step_def bind_res_eq_Inr)

lemma fold_entry_frame:
  assumes "\<And>i d d'. f i d = Inr d' \<Longrightarrow> entry_frame d d'" and "fold_res f xs d = Inr d'"
  shows "entry_frame d d'"
  by (rule fold_res_inv [OF assms(2), where P = "entry_frame d"]) (auto intro: entry_frame_trans assms(1))

lemma forget_loop:
  assumes "fold_res forget_step xs d = Inr d'" and "inj_on slot (set xs)" and "distinct xs" and "i \<in> set xs"
  shows "exist (prot d) i = 0 \<or>
    Conf_proc_ref_by_id_in_conf (Future_membership (memb d)) (p_proc_id (pi_head (pkt (prot d) i))) = - 1"
  using assms
proof (induction xs arbitrary: d)
  case (Cons j xs)
  obtain e where e: "forget_step j d = Inr e" and rest: "fold_res forget_step xs e = Inr d'" using Cons(2) by auto
  show ?case
  proof (cases "i = j")
    case True
    then show ?thesis using e by (auto simp: forget_step_def check_forget_def Let_def bind_res_eq_Inr split: if_splits)
  next
    case False
    then have "slot i \<noteq> slot j" using inj_onD [OF Cons(3), of i j] Cons(5) by auto
    then have "pkt (prot e) i = pkt (prot d) i"
      using e by (auto simp: forget_step_def bind_res_eq_Inr pkt_set_exist split: if_splits)
    moreover have "memb e = memb d" using forget_step_frame [OF e] by (simp add: entry_frame_def)
    ultimately show ?thesis using Cons(1) [OF rest] Cons(3-5) False by simp
  qed
qed simp

lemma hole_loop:
  assumes "fold_res hole_step xs d = Inr d'"
  shows "entry_frame d d'" and "exist (prot d') i = (if slot i \<in> slot ` set xs then 3 else exist (prot d) i)"
proof -
  show "entry_frame d d'" by (rule fold_entry_frame [OF _ assms]) (simp add: hole_step_frame)
  show "exist (prot d') i = (if slot i \<in> slot ` set xs then 3 else exist (prot d) i)"
    using assms
  proof (induction xs arbitrary: d)
    case (Cons j xs)
    obtain e where e: "hole_step j d = Inr e" and rest: "fold_res hole_step xs e = Inr d'" using Cons(2) by auto
    have "prot e = set_exist j 3 (prot d)" using hole_step_frame [OF e] by simp
    then show ?case using Cons(1) [OF rest] by (auto simp: pkt_set_exist)
  qed simp
qed

lemma Discard_packets_frame: "Discard_packets d = Inr d' \<Longrightarrow> State (memb d) \<noteq> EVS \<Longrightarrow> delivery_frame d d'"
  by (auto simp: Discard_packets_def dest: Discard_stable_frame split: if_splits)

lemma tokens_sent_deliver [simp]: "tokens_sent (map Sess_deliver_message ms) = []"
  by (simp add: tokens_sent_def)

text \<open>What the old ring's part of the token makes of the packet window.\<close>

definition window_of_ring :: "ring_info \<Rightarrow> prot_state \<Rightarrow> bool" where
  "window_of_ring g p \<longleftrightarrow> Highest_seq p = rg_highest_seq g \<and> (\<forall>i \<in> set (rg_holes g). exist p i = 3) \<and>
     Last_discarded p \<le> My_aru p \<and> (\<forall>i. Last_discarded p < i \<and> i \<le> My_aru p \<longrightarrow> exist p i \<in> {1, 2}) \<and>
     (My_aru p < Highest_seq p \<longrightarrow> exist p (My_aru p + 1) \<in> {0, 3})"

lemma form2_packets_result:
  assumes "form2_packets g d = Inr d'" and "State (memb d) \<noteq> EVS"
  shows "memb d' = memb d" "conf d' = conf d" "net d' = net d" "fc d' = fc d"
    "Last_seq (prot d') = Last_seq (prot d)" "Token_timeout (prot d') = Token_timeout (prot d)"
    "tokens_sent (out d') = tokens_sent (out d)" "window_of_ring g (prot d')"
proof -
  obtain d1 d2 d3 where d1: "forget_above (rg_highest_seq g) d = Inr d1"
    and d2: "Discard_packets (upd_prot (\<lambda>p. p\<lparr> My_aru := (if My_aru p > rg_highest_seq g then rg_highest_seq g else My_aru p),
               Highest_seq := rg_highest_seq g, Aru := rg_aru g \<rparr>) d1) = Inr d2"
    and d3: "fold_res hole_step (rg_holes g) d2 = Inr d3" and d': "recompute_my_aru d3 = Inr d'"
    using assms(1) unfolding form2_packets_def Let_def by (elim bind_res_elim)
  let ?e = "upd_prot (\<lambda>p. p\<lparr> My_aru := (if My_aru p > rg_highest_seq g then rg_highest_seq g else My_aru p),
               Highest_seq := rg_highest_seq g, Aru := rg_aru g \<rparr>) d1"
  note f1 = entry_frameD [OF fold_entry_frame [OF forget_step_frame d1 [unfolded forget_above_def]]]
  have f2: "delivery_frame ?e d2"
    using Discard_packets_frame [OF d2] f1(2) assms(2) by simp
  obtain ms where ms: "out d2 = out d1 @ map Sess_deliver_message ms" using f2 by (auto simp: delivery_frame_def)
  have p2: "Last_seq (prot d2) = Last_seq (prot d1)" "Token_timeout (prot d2) = Token_timeout (prot d1)"
      "Highest_seq (prot d2) = rg_highest_seq g"
  proof -
    have p: "prot d2 = (prot ?e)\<lparr> Packets := Packets (prot d2), Up_queue := Up_queue (prot d2),
       Last_delivered := Last_delivered (prot d2), Last_discarded := Last_discarded (prot d2) \<rparr>"
      using f2 unfolding delivery_frame_def by blast
    show "Last_seq (prot d2) = Last_seq (prot d1)" "Token_timeout (prot d2) = Token_timeout (prot d1)"
        "Highest_seq (prot d2) = rg_highest_seq g"
      by (subst p, simp)+
  qed
  note f3 = entry_frameD [OF hole_loop(1) [OF d3]]
  obtain a where a: "d' = upd_prot (\<lambda>p. p\<lparr> My_aru := a \<rparr>) d3" and w: "Last_discarded (prot d3) \<le> a \<and>
    (\<forall>i. Last_discarded (prot d3) < i \<and> i \<le> a \<longrightarrow> exist (prot d3) i \<in> {1, 2}) \<and>
    (a < Highest_seq (prot d3) \<longrightarrow> exist (prot d3) (a + 1) \<in> {0, 3})"
    using recompute_my_aru_result [OF d'] by blast
  show "memb d' = memb d" "conf d' = conf d" "net d' = net d" "fc d' = fc d"
      "Last_seq (prot d') = Last_seq (prot d)" "Token_timeout (prot d') = Token_timeout (prot d)"
    using a f1 f3 p2 delivery_frameD(1-4) [OF f2] by simp_all
  show "tokens_sent (out d') = tokens_sent (out d)" using a f1(5) f3(5) ms by simp
  have "pkt (prot d') = pkt (prot d3)" by (simp add: a pkt_def fun_eq_iff)
  moreover have "exist (prot d3) i = 3" if "i \<in> set (rg_holes g)" for i
    using hole_loop(2) [OF d3, of i] that by simp
  ultimately show "window_of_ring g (prot d')"
    using w f3(8) p2(3) unfolding window_of_ring_def by (simp add: a pkt_def)
qed

section \<open>Reading the token\<close>

lemma Net_set_membership_frame:
  assumes "Net_set_membership m d = Inr d'"
  shows "conf d' = conf d" "memb d' = memb d" "prot d' = prot d" "fc d' = fc d" "out d' = out d"
  using assms by (auto simp: Net_set_membership_def Let_def)

lemma form2_install_result:
  assumes "form2_install m mid d = Inr d'"
  defines "xs \<equiv> map (members m) [0..<nat (num_members m + num_pending m)]"
  shows "\<exists>vw. future_membership (Config (conf d)) xs = Inr vw \<and>
      memb d' = (memb d)\<lparr> Future_membership_id := mid, Future_membership := vw \<rparr>"
    and "conf d' = conf d" and "out d' = out d"
    and "\<exists>i. prot d' = (prot d)\<lparr> Prev_proc_id := i, Last_num_retrans := 0, Last_num_sent := 0 \<rparr>"
proof -
  obtain vw d1 i where vw: "future_membership (Config (conf d)) xs = Inr vw"
    and d1: "Net_set_membership vw (upd_memb (\<lambda>ms. ms\<lparr> Future_membership_id := mid, Future_membership := vw \<rparr>) d) = Inr d1"
    and d': "d' = FC_new_configuration (upd_prot (\<lambda>p. p\<lparr> Prev_proc_id := i \<rparr>) d1)"
    using assms(1) unfolding form2_install_def xs_def Prot_set_prev_proc_def Let_def by (auto simp: bind_res_eq_Inr)
  note f = Net_set_membership_frame [OF d1]
  show "\<exists>vw. future_membership (Config (conf d)) xs = Inr vw \<and>
      memb d' = (memb d)\<lparr> Future_membership_id := mid, Future_membership := vw \<rparr>" "conf d' = conf d" "out d' = out d"
      "\<exists>i. prot d' = (prot d)\<lparr> Prev_proc_id := i, Last_num_retrans := 0, Last_num_sent := 0 \<rparr>"
    using vw f by (auto simp: d' FC_new_configuration_def)
qed

lemma pass_form2_result:
  assumes "pass_form2 t m mid gs d = Inr d'"
  shows "memb d' = memb d" "conf d' = conf d" "net d' = net d" "\<exists>n. prot d' = (prot d)\<lparr> Token_rounds := n \<rparr>"
    "\<exists>t1 t2 b. tokens_sent (out d') = tokens_sent (out d) @
      [(Token_port (Token_addr (net d)), t1, b), (Token_port (Token_addr (net d)), t2, b)]"
  using assms unfolding pass_form2_def Let_def Net_send_token_def
  by (auto simp: bind_res_eq_Inr split: if_splits)

text \<open>The buffers in the daemon's byte order.\<close>

definition native_members :: "token_header \<Rightarrow> members_info \<Rightarrow> members_info" where
  "native_members t m = (if Same_endian (t_type t) then m else Flip_members m)"

definition native_rings :: "token_header \<Rightarrow> ring_info list \<Rightarrow> ring_info list" where
  "native_rings t gs = (if Same_endian (t_type t) then gs else Flip_rings gs)"

definition native_id :: "token_header \<Rightarrow> membership_id \<Rightarrow> membership_id" where
  "native_id t mid = (if Same_endian (t_type t) then mid else Flip_memb_id mid)"

definition ring_of :: "token_header \<Rightarrow> ring_info list \<Rightarrow> daemon \<Rightarrow> ring_info" where
  "ring_of t gs d = native_rings t gs ! the (my_ring (Membership_id (memb d)) (native_rings t gs))"

lemma Read_form2_parts:
  assumes "Read_form2 now t m mid gs d = Inr d'" and "\<not> form2_dropped t (native_members t m) (native_rings t gs) d"
  defines "n \<equiv> native_members t m"
  defines "n1 \<equiv> n\<lparr> num_members := num_members n + 1, num_pending := num_pending n - 1 \<rparr>"
  shows "\<exists>memb_time mid' d0 d1 d2 t' g gs' d3 d4.
    form2_leader now n1 (native_id t mid) (upd_prot (\<lambda>p. p\<lparr> Last_seq := t_seq t \<rparr>) d) = (memb_time, mid', d0) \<and>
    form2_install n1 mid' d0 = Inr d1 \<and> form2_packets (ring_of t gs d) d1 = Inr d2 \<and>
    form2_trans now memb_time (ring_of t gs d) d2 = (g, d3) \<and> pass_form2 t' n1 mid' gs' d3 = Inr d4 \<and>
    d' = shift_to_evs d4"
  using assms(1,2)
  unfolding Read_form2_def Let_def native_members_def [symmetric] native_rings_def [symmetric] native_id_def [symmetric]
    ring_of_def [symmetric] n_def [symmetric] n1_def [symmetric]
  by (auto simp: bind_res_eq_Inr split: prod.splits) (metis surj_pair)

lemma form2_leader_result:
  assumes "form2_leader now n mid d = (time, mid', d')"
  shows "prot d' = prot d" "conf d' = conf d" "net d' = net d" "out d' = out d"
    "State (memb d') = State (memb d)" "Membership_id (memb d') = Membership_id (memb d)"
    "Future_membership (memb d') = Future_membership (memb d)"
    "mid' = (if num_members n = 1 then \<lparr> m_proc_id = pr_id (My (conf d)),
        m_time = fresh_time now (Last_time_used (memb d)) + 1 \<rparr> else mid)"
    "Last_time_used (memb d) \<le> Last_time_used (memb d')"
    "num_members n = 1 \<longrightarrow> Last_time_used (memb d') = m_time mid' \<and> Last_time_used (memb d) < m_time mid'"
  using assms fresh_time_bounds(1) [of "Last_time_used (memb d)" now]
  by (auto simp: form2_leader_def Let_def split: if_splits)

lemma form2_trans_result:
  assumes "form2_trans now time g d = (g', d')"
  shows "prot d' = prot d" "conf d' = conf d" "net d' = net d" "out d' = out d"
    "Future_membership (memb d') = Future_membership (memb d)"
    "Future_membership_id (memb d') = Future_membership_id (memb d)"
    "member_list (Future_commit_set (memb d')) = rg_procs g" "num_pending (Future_commit_set (memb d')) = rg_num_trans g"
    "Last_time_used (memb d) \<le> Last_time_used (memb d')" "rg_trans_time g' = F_trans_memb_time (memb d')"
  using assms fresh_time_bounds(1) [of "Last_time_used (memb d)" now]
  by (auto simp: form2_trans_def Let_def member_list_def write_members_def split: if_splits intro: nth_equalityI)

lemma shift_to_evs_simps:
  "State (memb (shift_to_evs d)) = EVS" "Token_alive (memb (shift_to_evs d))" "Aru (prot (shift_to_evs d)) = 0"
  "Future_membership (memb (shift_to_evs d)) = Future_membership (memb d)"
  "Future_membership_id (memb (shift_to_evs d)) = Future_membership_id (memb d)"
  "Future_commit_set (memb (shift_to_evs d)) = Future_commit_set (memb d)"
  "Last_time_used (memb (shift_to_evs d)) = Last_time_used (memb d)"
  "Last_seq (prot (shift_to_evs d)) = Last_seq (prot d)"
  "tokens_sent (out (shift_to_evs d)) = tokens_sent (out d)" "conf (shift_to_evs d) = conf d" "net (shift_to_evs d) = net d"
  "window_of_ring g (prot (shift_to_evs d)) \<longleftrightarrow> window_of_ring g (prot d)"
  by (simp_all add: shift_to_evs_def Let_def set_state_def window_of_ring_def pkt_def)

lemma window_of_ring_frame: "window_of_ring g (p\<lparr> Token_rounds := n \<rparr>) \<longleftrightarrow> window_of_ring g p"
  by (simp add: window_of_ring_def pkt_def)

definition ring_members :: "members_info \<Rightarrow> proc_id list" where
  "ring_members m = map (members m) [0..<nat (num_members m + num_pending m)]"

lemma Read_form2_result:
  assumes "Read_form2 now t m mid gs d = Inr d'" and "State (memb d) = FORM"
    and "\<not> form2_dropped t (native_members t m) (native_rings t gs) d"
  shows "State (memb d') = EVS" "Token_alive (memb d')" "Aru (prot d') = 0" "Last_seq (prot d') = t_seq t"
    "mset (ring_ids (Future_membership (memb d'))) = mset (ring_members (native_members t m))"
    "Future_membership_id (memb d') = (if num_members (native_members t m) = 0
       then \<lparr> m_proc_id = pr_id (My (conf d)), m_time = fresh_time now (Last_time_used (memb d)) + 1 \<rparr>
       else native_id t mid)"
    "window_of_ring (ring_of t gs d) (prot d')"
    "member_list (Future_commit_set (memb d')) = rg_procs (ring_of t gs d)"
    "num_members (native_members t m) = 0 \<Longrightarrow>
       Last_time_used (memb d) < m_time (Future_membership_id (memb d')) \<and>
       m_time (Future_membership_id (memb d')) \<le> Last_time_used (memb d')"
    "\<exists>t1 t2 b. tokens_sent (out d') = tokens_sent (out d) @
      [(Token_port (Token_addr (net d')), t1, b), (Token_port (Token_addr (net d')), t2, b)]"
proof -
  let ?n = "native_members t m" and ?g = "ring_of t gs d"
  let ?n1 = "?n\<lparr> num_members := num_members ?n + 1, num_pending := num_pending ?n - 1 \<rparr>"
  obtain time mid' d0 d1 d2 t' g gs' d3 d4 where
    d0: "form2_leader now ?n1 (native_id t mid) (upd_prot (\<lambda>p. p\<lparr> Last_seq := t_seq t \<rparr>) d) = (time, mid', d0)"
    and d1: "form2_install ?n1 mid' d0 = Inr d1" and d2: "form2_packets ?g d1 = Inr d2"
    and d3: "form2_trans now time ?g d2 = (g, d3)" and d4: "pass_form2 t' ?n1 mid' gs' d3 = Inr d4"
    and d': "d' = shift_to_evs d4"
    using Read_form2_parts [OF assms(1,3)] by blast
  note r0 = form2_leader_result [OF d0]
  obtain vw i where vw: "future_membership (Config (conf d0)) (ring_members ?n) = Inr vw"
    and m1: "memb d1 = (memb d0)\<lparr> Future_membership_id := mid', Future_membership := vw \<rparr>"
    and p1: "prot d1 = (prot d0)\<lparr> Prev_proc_id := i, Last_num_retrans := 0, Last_num_sent := 0 \<rparr>"
    using form2_install_result(1,4) [OF d1] by (auto simp: ring_members_def)
  have "State (memb d1) \<noteq> EVS" using m1 r0(5) assms(2) by simp
  note r2 = form2_packets_result [OF d2 this]
  note r3 = form2_trans_result [OF d3] and r4 = pass_form2_result [OF d4]
  obtain k where k: "prot d4 = (prot d3)\<lparr> Token_rounds := k \<rparr>" using r4(4) by blast
  show "State (memb d') = EVS" "Token_alive (memb d')" "Aru (prot d') = 0" by (simp_all add: d' shift_to_evs_simps)
  show "Last_seq (prot d') = t_seq t" using k r3(1) r2(5) p1 r0(1) by (simp add: d' shift_to_evs_simps)
  show "mset (ring_ids (Future_membership (memb d'))) = mset (ring_members ?n)"
    using r4(1) r3(5) r2(1) m1 future_membership_ring(1) [OF vw] by (simp add: d' shift_to_evs_simps)
  show fid: "Future_membership_id (memb d') = (if num_members ?n = 0
       then \<lparr> m_proc_id = pr_id (My (conf d)), m_time = fresh_time now (Last_time_used (memb d)) + 1 \<rparr>
       else native_id t mid)"
    using r4(1) r3(6) r2(1) m1 r0(8) by (simp add: d' shift_to_evs_simps)
  show "window_of_ring ?g (prot d')" using r2(8) r3(1) k by (simp add: d' shift_to_evs_simps window_of_ring_frame)
  show "member_list (Future_commit_set (memb d')) = rg_procs ?g" using r4(1) r3(7) by (simp add: d' shift_to_evs_simps)
  show "Last_time_used (memb d) < m_time (Future_membership_id (memb d')) \<and>
       m_time (Future_membership_id (memb d')) \<le> Last_time_used (memb d')" if "num_members ?n = 0"
    using that fid r0(8,10) m1 r2(1) r3(9) r4(1) by (simp add: d' shift_to_evs_simps)
  show "\<exists>t1 t2 b. tokens_sent (out d') = tokens_sent (out d) @
      [(Token_port (Token_addr (net d')), t1, b), (Token_port (Token_addr (net d')), t2, b)]"
    using r4(3,5) r3(3,4) r2(7) r0(4) form2_install_result(3) [OF d1] by (simp add: d' shift_to_evs_simps)
qed

text \<open>
  A packet beyond the ring's highest number that was received after the daemon filled the
  token: its sender is looked up in the table of all configured daemons.
\<close>

lemma Read_form2_late:
  assumes "Read_form2 now t m mid gs d = Inr d'"
    and "\<not> form2_dropped t (native_members t m) (native_rings t gs) d"
    and "rg_highest_seq (ring_of t gs d) < i" and "i \<le> Highest_seq (prot d)"
    and "Highest_seq (prot d) \<le> rg_highest_seq (ring_of t gs d) + 8192"
    and "exist (prot d) i \<noteq> 0"
  shows "p_proc_id (pi_head (pkt (prot d) i)) \<notin> pr_id ` set (allprocs (Config (conf d)))"
proof -
  let ?n = "native_members t m" and ?g = "ring_of t gs d"
  let ?n1 = "?n\<lparr> num_members := num_members ?n + 1, num_pending := num_pending ?n - 1 \<rparr>"
  let ?xs = "rev [rg_highest_seq ?g + 1..Highest_seq (prot d)]"
  obtain time mid' d0 d1 d2 where
    d0: "form2_leader now ?n1 (native_id t mid) (upd_prot (\<lambda>p. p\<lparr> Last_seq := t_seq t \<rparr>) d) = (time, mid', d0)"
    and d1: "form2_install ?n1 mid' d0 = Inr d1" and d2: "form2_packets ?g d1 = Inr d2"
    using Read_form2_parts [OF assms(1,2)] by blast
  note r0 = form2_leader_result [OF d0]
  obtain vw where vw: "future_membership (Config (conf d0)) (ring_members ?n) = Inr vw"
      and m1: "Future_membership (memb d1) = vw"
    using form2_install_result(1) [OF d1] by (auto simp: ring_members_def)
  have p1: "Highest_seq (prot d1) = Highest_seq (prot d)" "pkt (prot d1) i = pkt (prot d) i"
    using form2_install_result(4) [OF d1] r0(1) by (auto simp: pkt_def)
  obtain e where "forget_above (rg_highest_seq ?g) d1 = Inr e" using d2 by (auto simp: form2_packets_def Let_def)
  then have loop: "fold_res forget_step ?xs d1 = Inr e" by (simp add: forget_above_def p1)
  have "inj_on slot (set ?xs)" using assms(5) by (intro slot_inj_window [of _ "rg_highest_seq ?g"]) auto
  then have "Conf_proc_ref_by_id_in_conf vw (p_proc_id (pi_head (pkt (prot d) i))) = - 1"
    using forget_loop [OF loop, of i] assms(3,4,6) m1 p1(2) by auto
  then have "find_index (\<lambda>p. pr_id p = p_proc_id (pi_head (pkt (prot d) i))) (allprocs (Config (conf d))) < 0"
    using future_membership_ring(2) [OF vw] r0(2) by (simp add: Conf_proc_ref_by_id_in_conf_def del: find_index_neg)
  then show ?thesis by auto
qed

end
