(* ===== verification/Form_Alone.thy ===== *)
theory Form_Alone
  imports Form_Correct Loss
begin

text \<open>
  A daemon that gathered nobody: it sends itself a form token of the second kind, accepts it,
  and installs a future membership of its own, without failing on the way.
\<close>

section \<open>Creating the token\<close>

definition gathered_alone :: "daemon \<Rightarrow> bool" where
  "gathered_alone d \<longleftrightarrow> \<not> Token_alive (memb d) \<and> conf_indexed (Config (conf d)) \<and> in_conf (My (conf d)) (Config (conf d)) \<and>
     member_list (F_members (memb d)) = [pr_id (My (conf d))] \<and>
     rep_list (F_reps (memb d)) =
       [\<lparr> rp_proc_id = pr_id (My (conf d)), rp_type = SEG_REP, rp_seg_index = pr_seg_index (My (conf d)) \<rparr>] \<and>
     Highest_seq (prot d) \<le> My_aru (prot d) + MAX_SEQ_GAP \<and> int (length (commit_procs d)) \<le> MAX_PROCS_RING"

lemma single_list:
  "member_list m = [i] \<Longrightarrow> num_members m = 1 \<and> members m 0 = i"
  "rep_list r = [e] \<Longrightarrow> num_reps r = 1 \<and> reps r 0 = e"
proof -
  assume "member_list m = [i]"
  moreover from this have "num_members m = 1" using length_member_list [of m] by simp
  ultimately show "num_members m = 1 \<and> members m 0 = i" by (simp add: member_list_def)
next
  assume r: "rep_list r = [e]"
  then have "num_reps r = 1" by (auto simp: rep_list_def dest: arg_cong [of _ _ length])
  then show "num_reps r = 1 \<and> reps r 0 = e" using r by (simp add: rep_list_def)
qed

lemma length_holes_between: "int (length (holes_between p (a + 1) b)) \<le> max 0 (b - a)"
proof -
  have "length (holes_between p (a + 1) b) \<le> length [a + 1..b]" unfolding holes_between_def by (rule length_filter_le)
  then show ?thesis by simp
qed

definition my_ring_info :: "daemon \<Rightarrow> ring_info" where
  "my_ring_info d = new_ring_info (holes_between (prot d) (My_aru (prot d) + 1) (Highest_seq (prot d))) d"

lemma my_ring_info_bytes:
  assumes "gathered_alone d"
  shows "0 \<le> rings_bytes [my_ring_info d]" "rings_bytes [my_ring_info d] \<le> 4 + 28 + 4 * (1600 + 128)"
    "\<not> ring_malformed (my_ring_info d)"
proof -
  have "int (length (holes_between (prot d) (My_aru (prot d) + 1) (Highest_seq (prot d)))) \<le> 1600"
    using length_holes_between [of "prot d" "My_aru (prot d)" "Highest_seq (prot d)"] assms
    unfolding gathered_alone_def by linarith
  moreover have "int (length (commit_procs d)) \<le> 128" "commit_procs d \<noteq> []"
    using assms by (simp_all add: gathered_alone_def commit_procs_def Let_def)
  ultimately show "0 \<le> rings_bytes [my_ring_info d]" "rings_bytes [my_ring_info d] \<le> 4 + 28 + 4 * (1600 + 128)"
      "\<not> ring_malformed (my_ring_info d)"
    by (simp_all add: rings_bytes_def ring_bytes_def my_ring_info_def new_ring_info_def ring_malformed_def Suc_le_eq)
qed

text \<open>The members on the token: this daemon, still pending.\<close>

definition lone_members :: "daemon \<Rightarrow> members_info" where
  "lone_members d = (F_members (memb d))\<lparr>
     members := write_members 0 [pr_id (My (conf d))] (members (F_members (memb d))), num_members := 0, num_pending := 1 \<rparr>"

lemma lone_form1_members:
  assumes "gathered_alone d"
  shows "form1_members d = Inr ((lone_members d)\<lparr> num_members := 1, num_pending := 0 \<rparr>)"
  using assms single_list(1) [of "F_members (memb d)"] single_list(2) [of "F_reps (memb d)"]
  by (simp add: gathered_alone_def form1_members_def Let_def keep_members_def lone_members_def)

lemma lone_Sort_reps:
  assumes "rep_list r = [e]"
  shows "Sort_reps cn r = Inr r" and "Smallest_rep cn r = Inr (rp_proc_id e, 0)"
proof -
  note e = single_list(2) [OF assms]
  then have "set_rep 0 e r = r" by (cases r) (auto simp: set_rep_def)
  then show "Sort_reps cn r = Inr r"
    using e by (simp add: Sort_reps_def sort_reps_step_def Smallest_rep_def Let_def)
  show "Smallest_rep cn r = Inr (rp_proc_id e, 0)" using e by (simp add: Smallest_rep_def)
qed

lemma lone_form_potential:
  assumes "gathered_alone d" and "num_reps r = 1" and "rp_seg_index (reps r 0) = pr_seg_index (My (conf e))"
  shows "form_potential r e = Inr (upd_memb (\<lambda>m. m\<lparr> Potential_reps := (Potential_reps (memb e))\<lparr> num_reps := 0 \<rparr> \<rparr>) e)"
  using assms by (simp add: form_potential_def form_potential_step_def)

lemma lone_send:
  fixes t :: token_header
  assumes "Conf_proc_by_id_in_conf (Config (conf d)) i = Some (k, p)" and "0 \<le> token_bytes b"
    and "token_bytes b \<le> sizeof_token_body"
  defines "t1 \<equiv> stamp_token d (t\<lparr> t_rtr_len := token_bytes b \<rparr>)"
  shows "send_form_twice i t b d = Inr (stamp_token d t1,
    d\<lparr> out := out d @ [DL_sendto_token (Token_port (pr_addr p)) t1 b, DL_sendto_token (Token_port (pr_addr p)) (stamp_token d t1) b] \<rparr>)"
proof -
  have "to_int16u (token_bytes b) = token_bytes b" using assms(2,3) by simp
  then show ?thesis
    using assms by (simp add: send_form_twice_def Net_ucast_token_def token_size_wrong_def Let_def emit_def stamp_token_def)
qed

lemma shift_to_form_total: "\<exists>d'. shift_to_form d = Inr d'"
  by (simp add: shift_to_form_def Prot_set_delivery_threshold_block Let_def)

definition lone_token :: "token_payload \<Rightarrow> membership_id \<Rightarrow> daemon \<Rightarrow> token_header" where
  "lone_token b mid d = stamp_token d (zero_token\<lparr> t_type := FORM2_TYPE, t_proc_id := pr_id (My (conf d)),
     t_memb_id := mid, t_seq := Highest_seq (prot d) + 3333, t_rtr_len := token_bytes b \<rparr>)"

lemma lone_create:
  assumes "gathered_alone d"
  shows "\<exists>d' x t2. Create_form1 now d = Inr d' \<and> conf d' = conf d \<and> net d' = net d \<and>
    (let b = Form2_body (lone_members d) x [my_ring_info d]; a = Token_port (pr_addr (My (conf d)))
     in tokens_sent (out d') = tokens_sent (out d) @ [(a, lone_token b (Form1_memb_id (memb d')) d, b), (a, t2, b)])"
proof -
  let ?my = "pr_id (My (conf d))"
  define time where "time = fresh_time now (Last_time_used (memb d))"
  define mid where "mid = \<lparr> m_proc_id = ?my, m_time = time \<rparr>"
  define d1 where "d1 = upd_memb (\<lambda>m. m\<lparr> Last_time_used := time, Form1_memb_id := mid \<rparr>) d"
  define m1 where "m1 = (lone_members d)\<lparr> num_members := 1, num_pending := 0 \<rparr>"
  define r where "r = (F_reps (memb d))\<lparr> rep_index := 1 \<rparr>"
  define d3 where "d3 = upd_memb (\<lambda>ms. ms\<lparr> F_reps := r \<rparr>) (upd_memb (\<lambda>ms. ms\<lparr> F_members := m1 \<rparr>) d1)"
  define d4 where "d4 = upd_memb (\<lambda>m. m\<lparr> Potential_reps := (Potential_reps (memb d3))\<lparr> num_reps := 0 \<rparr> \<rparr>) d3"
  define d5 where "d5 = upd_memb (\<lambda>ms. ms\<lparr> F_members := lone_members d \<rparr>) d4"
  note a = assms [unfolded gathered_alone_def]
  have rl: "rep_list (F_reps (memb d)) = [\<lparr> rp_proc_id = ?my, rp_type = SEG_REP, rp_seg_index = pr_seg_index (My (conf d)) \<rparr>]"
    using a by blast
  note r1 = single_list(2) [OF rl]
  have 1: "form1_members d1 = Inr m1"
  proof -
    have "gathered_alone d1" using assms by (simp add: gathered_alone_def d1_def commit_procs_def)
    moreover have "lone_members d1 = lone_members d" by (simp add: lone_members_def d1_def)
    ultimately show ?thesis using lone_form1_members [of d1] by (simp add: m1_def)
  qed
  have 2: "Sort_reps (Config (conf d)) (F_reps (memb d)) = Inr (F_reps (memb d))" by (rule lone_Sort_reps(1) [OF rl])
  have 3: "form_potential r d3 = Inr d4"
    unfolding d4_def by (rule lone_form_potential [OF assms]) (use r1 in \<open>simp_all add: r_def d3_def d1_def\<close>)
  have g: "my_ring_info d4 = my_ring_info d"
    by (simp add: my_ring_info_def new_ring_info_def commit_procs_def d4_def d3_def d1_def)
  have 4: "form1_ring d4 = Inr (my_ring_info d)"
    using my_ring_info_bytes(2) [OF assms] g by (simp add: form1_ring_def my_ring_info_def Let_def)
  have 5: "next_form1 f m1 r = Inr None" for f
    using r1 by (simp add: next_form1_def m1_def r_def)
  let ?b = "Form2_body (lone_members d) (reps_as_memb_id r) [my_ring_info d]"
  let ?t = "zero_token\<lparr> t_proc_id := ?my, t_memb_id := mid, t_seq := Highest_seq (prot d) + 3333, t_type := FORM2_TYPE \<rparr>"
  obtain k where k: "Conf_proc_by_id_in_conf (Config (conf d5)) ?my = Some (k, My (conf d))"
    using conf_indexed_known(1) [of "Config (conf d)" "nat (pr_seg_index (My (conf d)))" "My (conf d)"] a
    by (auto simp: in_conf_def d5_def d4_def d3_def d1_def)
  have b: "0 \<le> token_bytes ?b" "token_bytes ?b \<le> sizeof_token_body"
    using my_ring_info_bytes(1,2) [OF assms] by simp_all
  obtain t2 es where 6: "send_form_twice ?my ?t ?b d5 = Inr (t2, d5\<lparr> out := out d5 @ es \<rparr>)"
    and es: "tokens_sent es = [(Token_port (pr_addr (My (conf d))), lone_token ?b mid d, ?b),
      (Token_port (pr_addr (My (conf d))), t2, ?b)]"
  proof -
    have "stamp_token d5 (?t\<lparr> t_rtr_len := token_bytes ?b \<rparr>) = lone_token ?b mid d"
      by (simp add: lone_token_def stamp_token_def zero_token_def d5_def d4_def d3_def d1_def)
    then show ?thesis using lone_send [OF k b, of ?t] that by simp
  qed
  obtain d' where d': "shift_to_form (emit (E_dequeue Send_join_event) (d5\<lparr> out := out d5 @ es \<rparr>)) = Inr d'"
    using shift_to_form_total by blast
  have f: "F_reps (memb d1) = F_reps (memb d)" "conf d1 = conf d" "prot d1 = prot d" by (simp_all add: d1_def)
  have m: "m1\<lparr> num_pending := 1, num_members := 0 \<rparr> = lone_members d" by (simp add: m1_def lone_members_def)
  have "Create_form1 now d = Inr d'"
    using 1 2 3 4 5 6 d' f m
    by (simp add: Create_form1_def Let_def time_def [symmetric] mid_def [symmetric] d1_def [symmetric] r_def [symmetric]
        d3_def [symmetric] d5_def [symmetric])
  moreover have "Form1_memb_id (memb d') = mid" using Create_form1_result(4) [OF calculation] by (simp add: mid_def time_def)
  moreover have "conf d' = conf d" "net d' = net d" "tokens_sent (out d') = tokens_sent (out d) @ tokens_sent es"
    using shift_to_form_result(3-5) [OF d'] by (simp_all add: d5_def d4_def d3_def d1_def)
  ultimately show ?thesis using es by (auto simp: Let_def)
qed

section \<open>Installing the membership\<close>

lemma lone_future:
  assumes "conf_indexed cn" and "in_conf my cn"
  shows "\<exists>vw. future_membership cn [pr_id my] = Inr vw \<and> ring vw = [my] \<and> length (segments vw) = length (segments cn) \<and>
    procs (segments vw ! nat (pr_seg_index my)) = [my]"
proof -
  let ?k = "nat (pr_seg_index my)"
  obtain vw where vw: "only_me cn my cn = Inr vw" "ring vw = [my]" "memb_in cn vw"
    using only_me_eq [OF assms(1) refl assms(2)] by blast
  obtain j where j: "Conf_proc_by_id_in_conf cn (pr_id my) = Some (j, my)"
    using conf_indexed_known(1) [OF assms(1), of ?k my] assms(2) by (auto simp: in_conf_def)
  have k: "0 \<le> pr_seg_index my" "?k < length (segments cn)" using assms(2) by (simp_all add: in_conf_def)
  have eq: "future_membership cn [pr_id my] = only_me cn my cn"
    using j by (simp add: future_membership_def future_step_def only_me_def Let_def Conf_append_id_to_seg_def
        bind_res_assoc)
  have "procs (segments vw ! ?k) = [my]"
    using vw(1) j k by (auto simp: only_me_def clear_members_def seg_at_def Conf_append_id_to_seg_def Let_def
        split: if_splits)
  then show ?thesis using vw eq by (auto simp: memb_in_def)
qed

lemma lone_install:
  assumes "conf_indexed (Config (conf d))" and "in_conf (My (conf d)) (Config (conf d))"
    and "num_members m = 1" and "num_pending m = 0" and "members m 0 = pr_id (My (conf d))"
  shows "\<exists>d' vw. form2_install m mid d = Inr d' \<and> Future_membership (memb d') = vw \<and> ring vw = [My (conf d)]"
proof -
  let ?my = "My (conf d)"
  let ?k = "nat (pr_seg_index ?my)"
  obtain vw where vw: "future_membership (Config (conf d)) [pr_id ?my] = Inr vw" "ring vw = [?my]"
      "length (segments vw) = length (segments (Config (conf d)))" "procs (segments vw ! ?k) = [?my]"
    using lone_future [OF assms(1,2)] by blast
  have k: "?k < length (segments vw)" "pr_seg_index ?my = int (length (take ?k (segments vw)))"
    using assms(2) vw(3) by (simp_all add: in_conf_def)
  have segs: "segments vw = take ?k (segments vw) @ segments vw ! ?k # drop (Suc ?k) (segments vw)"
    using k(1) by (simp add: id_take_nth_drop [symmetric])
  let ?d = "upd_memb (\<lambda>ms. ms\<lparr> Future_membership_id := mid, Future_membership := vw \<rparr>) d"
  obtain d1 where d1: "Net_set_membership vw ?d = Inr d1" "conf d1 = conf d" "memb d1 = memb ?d"
    using Net_set_membership_ok [OF segs, of "[]" ?d "[]"] vw k by (simp add: ring_ids_def)
  have "\<exists>i. Conf_previous ?my vw = Inr i"
    using Conf_previous_pos [OF segs k(2), of "[]" "[]"] vw(4) by simp
  then obtain i where "Conf_previous ?my vw = Inr i" by blast
  then have "form2_install m mid d = Inr (FC_new_configuration (upd_prot (\<lambda>p. p\<lparr> Prev_proc_id := i \<rparr>) d1))"
    using vw(1) d1 assms(3-5) by (simp add: form2_install_def Prot_set_prev_proc_def Let_def)
  then show ?thesis using d1(3) vw(2) by (simp add: FC_new_configuration_def)
qed

section \<open>The packets\<close>

lemma lone_holes:
  assumes "distinct xs" and "inj_on slot (set xs)" and "\<forall>i \<in> set xs. exist (prot d) i = 0"
  shows "\<exists>d'. fold_res hole_step xs d = Inr d'"
  using assms
proof (induction xs arbitrary: d)
  case (Cons i xs)
  have "hole_step i d = Inr (upd_prot (set_exist i 3) d)" using Cons(4) by (simp add: hole_step_def)
  moreover have "exist (prot (upd_prot (set_exist i 3) d)) j = 0" if "j \<in> set xs" for j
    using inj_onD [OF Cons(3), of j i] Cons(2,4) that by (auto simp: pkt_set_exist)
  ultimately show ?case using Cons(1) [of "upd_prot (set_exist i 3) d"] Cons(2,3) by simp
qed simp

lemma aru_below:
  assumes "\<forall>i. lo < i \<and> i \<le> lo + int n \<longrightarrow> exist p i \<in> {1, 2}"
  shows "fold_res (aru_step p) [lo + 1..lo + int n] (lo, b) = Inr (lo + int n, b)"
  using assms
proof (induction n)
  case (Suc n)
  have "[lo + 1..lo + int (Suc n)] = [lo + 1..lo + int n] @ [lo + int n + 1]" by (simp add: upto_rec2)
  moreover have "exist p (lo + int n + 1) \<in> {1, 2}" using Suc(2) by simp
  ultimately show ?case using Suc by (simp add: fold_res_snoc aru_step_def)
qed simp

lemma aru_above:
  assumes "\<forall>i \<in> set xs. a < i \<and> exist p i \<in> {1, 2, 3}" and "a + 1 \<in> set xs \<longrightarrow> exist p (a + 1) = 3"
  shows "fold_res (aru_step p) xs (a, a) = Inr (a, a)"
  using assms
proof (induction xs)
  case (Cons i xs)
  have "aru_step p i (a, a) = Inr (a, a)" using Cons(2,3) by (auto simp: aru_step_def)
  then show ?case using Cons by simp
qed simp

lemma lone_recompute:
  assumes "Last_discarded (prot d) \<le> My_aru (prot d)" and "My_aru (prot d) \<le> Highest_seq (prot d)"
    and "\<forall>i. Last_discarded (prot d) < i \<and> i \<le> My_aru (prot d) \<longrightarrow> exist (prot d) i \<in> {1, 2}"
    and "\<forall>i. My_aru (prot d) < i \<and> i \<le> Highest_seq (prot d) \<longrightarrow> exist (prot d) i \<in> {1, 2, 3}"
    and "My_aru (prot d) < Highest_seq (prot d) \<longrightarrow> exist (prot d) (My_aru (prot d) + 1) = 3"
  shows "\<exists>d'. recompute_my_aru d = Inr d'"
proof -
  let ?lo = "Last_discarded (prot d)" and ?a = "My_aru (prot d)" and ?h = "Highest_seq (prot d)"
  have "[?lo + 1..?h] = [?lo + 1..?a] @ [?a + 1..?h]" 
  proof (cases "?lo = ?a")
    case False
    then show ?thesis using assms(1,2) by (intro upto_split2) simp_all
  qed simp
  moreover have "fold_res (aru_step (prot d)) [?lo + 1..?a] (?lo, ?a) = Inr (?a, ?a)"
    using aru_below [of ?lo "nat (?a - ?lo)" "prot d" ?a] assms(1,3) by simp
  moreover have "fold_res (aru_step (prot d)) [?a + 1..?h] (?a, ?a) = Inr (?a, ?a)"
    by (rule aru_above) (use assms(4,5) in auto)
  ultimately show ?thesis by (simp add: recompute_my_aru_def fold_res_append Let_def)
qed

lemma entry_frame_My_aru:
  assumes "entry_frame d d'"
  shows "My_aru (prot d') = My_aru (prot d)"
proof -
  have p: "prot d' = (prot d)\<lparr> Packets := Packets (prot d') \<rparr>" using assms by (simp add: entry_frame_def)
  show ?thesis by (subst p) simp
qed

lemma lone_packets:
  assumes "window_ok (prot d)" and "Last_discarded (prot d) = Aru (prot d)"
    and "My_aru (prot d) < Highest_seq (prot d) \<longrightarrow> exist (prot d) (My_aru (prot d) + 1) = 0"
    and "rg_highest_seq g = Highest_seq (prot d)" and "rg_aru g = Aru (prot d)"
    and "rg_holes g = holes_between (prot d) (My_aru (prot d) + 1) (Highest_seq (prot d))"
  shows "\<exists>d'. form2_packets g d = Inr d'"
proof -
  let ?p = "prot d"
  define d1 where "d1 = upd_prot (\<lambda>p. p\<lparr> My_aru := (if My_aru p > rg_highest_seq g then rg_highest_seq g else My_aru p),
               Highest_seq := rg_highest_seq g, Aru := rg_aru g \<rparr>) d"
  have ord: "Last_discarded ?p \<le> My_aru ?p" "My_aru ?p \<le> Highest_seq ?p" "Highest_seq ?p \<le> Last_discarded ?p + 8192"
    using assms(1) by (auto simp: window_ok_def)
  have p1: "My_aru (prot d1) = My_aru ?p" "Highest_seq (prot d1) = Highest_seq ?p" "Aru (prot d1) = Aru ?p"
      "Last_discarded (prot d1) = Last_discarded ?p" "pkt (prot d1) = pkt ?p"
    using ord assms(4,5) by (auto simp: d1_def pkt_def)
  have 1: "forget_above (rg_highest_seq g) d = Inr d" by (simp add: forget_above_def assms(4))
  have 2: "Discard_packets d1 = Inr d1" using p1 assms(2) by (simp add: Discard_packets_def)
  have holes: "set (rg_holes g) = {i. My_aru ?p < i \<and> i \<le> Highest_seq ?p \<and> exist ?p i = 0}"
    by (auto simp: assms(6) holes_between_def)
  have inj: "inj_on slot {Last_discarded ?p + 1..Last_discarded ?p + 8192}" by (rule slot_inj_on)
  have sub: "set (rg_holes g) \<subseteq> {Last_discarded ?p + 1..Last_discarded ?p + 8192}"
    unfolding holes using ord by auto
  obtain d2 where d2: "fold_res hole_step (rg_holes g) d1 = Inr d2"
  proof -
    have "inj_on slot (set (rg_holes g))" by (rule inj_on_subset [OF inj sub])
    moreover have "distinct (rg_holes g)" by (simp add: assms(6) holes_between_def)
    ultimately show ?thesis using lone_holes [of "rg_holes g" d1] holes p1(5) that by auto
  qed
  note f = entry_frameD [OF hole_loop(1) [OF d2]]
  have my: "My_aru (prot d2) = My_aru ?p"
    using entry_frame_My_aru [OF hole_loop(1) [OF d2]] p1(1) by simp
  have e: "exist (prot d2) i = (if i \<in> set (rg_holes g) then 3 else exist ?p i)"
    if "Last_discarded ?p < i" "i \<le> Highest_seq ?p" for i
  proof -
    have "slot i \<in> slot ` set (rg_holes g) \<longleftrightarrow> i \<in> set (rg_holes g)"
      by (rule inj_on_image_mem_iff [OF inj _ sub]) (use that ord in simp)
    then show ?thesis using hole_loop(2) [OF d2, of i] p1(5) by simp
  qed
  have w: "exist ?p i \<in> {0, 1, 2}" "i \<le> My_aru ?p \<longrightarrow> exist ?p i \<noteq> 0"
    if "Last_discarded ?p < i" "i \<le> Highest_seq ?p" for i
    using window_ok_entry [OF assms(1), of i] that ord by (auto simp: entry_ok_def)
  have "\<exists>d'. recompute_my_aru d2 = Inr d'"
  proof (rule lone_recompute)
    show "Last_discarded (prot d2) \<le> My_aru (prot d2)" "My_aru (prot d2) \<le> Highest_seq (prot d2)"
      using f(8,9) my p1 ord by simp_all
    show "\<forall>i. Last_discarded (prot d2) < i \<and> i \<le> My_aru (prot d2) \<longrightarrow> exist (prot d2) i \<in> {1, 2}"
      using f(9) my p1 ord e w holes by force
    show "\<forall>i. My_aru (prot d2) < i \<and> i \<le> Highest_seq (prot d2) \<longrightarrow> exist (prot d2) i \<in> {1, 2, 3}"
      using f(8) my p1 ord e w holes by force
    show "My_aru (prot d2) < Highest_seq (prot d2) \<longrightarrow> exist (prot d2) (My_aru (prot d2) + 1) = 3"
      using f(8) my p1 ord e [of "My_aru ?p + 1"] holes assms(3) by auto
  qed
  then show ?thesis using 1 2 d2 by (auto simp: form2_packets_def Let_def d1_def)
qed

section \<open>Reading the token\<close>

lemma lone_pass:
  assumes "ring (Future_membership (memb d)) = [My (conf d)]"
  shows "\<exists>d'. pass_form2 t m mid gs d = Inr d'"
  using assms
  by (simp add: pass_form2_def Conf_last_ring ring_ids_def Net_send_token_def token_size_wrong_def rtr_bytes_def Let_def
      stamp_token_def)

lemma lone_not_dropped:
  assumes "gathered_alone d" and "conf e = conf d" and "Membership_id (memb e) = Membership_id (memb d)"
    and "Form1_memb_id (memb e) = t_memb_id t"
  shows "\<not> form2_dropped t (lone_members d) [my_ring_info d] e"
  using my_ring_info_bytes(2,3) [OF assms(1)] assms(2-4)
  by (simp add: form2_dropped_def lone_members_def write_members_def my_ring_def my_ring_info_def new_ring_info_def
      Memb_is_equal_def)

text \<open>
  The daemon accepts its own token. \<open>My_aru\<close> is as high as the packets it has allow, which is
  what \<open>Read_form2\<close> insists on.
\<close>

definition settled :: "prot_state \<Rightarrow> bool" where
  "settled p \<longleftrightarrow> window_ok p \<and> Last_discarded p = Aru p \<and> (My_aru p < Highest_seq p \<longrightarrow> exist p (My_aru p + 1) = 0)"

lemma settled_frame:
  "settled (p\<lparr> Prot_delivery_threshold := x \<rparr>) \<longleftrightarrow> settled p" "settled (p\<lparr> Last_seq := s \<rparr>) \<longleftrightarrow> settled p"
  "settled (p\<lparr> Prev_proc_id := i, Last_num_retrans := 0, Last_num_sent := 0 \<rparr>) \<longleftrightarrow> settled p"
  by (simp_all add: settled_def window_ok_def entry_ok_def pkt_def)

lemma lone_read:
  assumes "gathered_alone d" and "settled (prot d)"
    and e: "conf e = conf d" "Membership_id (memb e) = Membership_id (memb d)" "Form1_memb_id (memb e) = t_memb_id t"
      "prot e = (prot d)\<lparr> Prot_delivery_threshold := BLOCK_REGULAR_DELIVERY \<rparr>"
    and "Same_endian (t_type t)" and "State (memb e) = FORM"
  shows "\<exists>d'. Read_form2 now t (lone_members d) x [my_ring_info d] e = Inr d'"
proof -
  let ?m = "(lone_members d)\<lparr> num_members := 1, num_pending := 0 \<rparr>"
  note a = assms(1) [unfolded gathered_alone_def]
  have k: "my_ring (Membership_id (memb e)) [my_ring_info d] = Some 0"
    using e(2) by (simp add: my_ring_def my_ring_info_def new_ring_info_def Memb_is_equal_def)
  obtain time mid d0 where d0: "form2_leader now ?m x (upd_prot (\<lambda>p. p\<lparr> Last_seq := t_seq t \<rparr>) e) = (time, mid, d0)"
    by (metis surj_pair)
  note r0 = form2_leader_result [OF d0]
  obtain d1 where d1: "form2_install ?m mid d0 = Inr d1" "ring (Future_membership (memb d1)) = [My (conf d0)]"
    using lone_install [of d0 ?m mid] a r0(2) e(1) by (auto simp: lone_members_def write_members_def)
  obtain i where p1: "prot d1 = (prot d0)\<lparr> Prev_proc_id := i, Last_num_retrans := 0, Last_num_sent := 0 \<rparr>"
    using form2_install_result(4) [OF d1(1)] by blast
  have "\<exists>d2. form2_packets (my_ring_info d) d1 = Inr d2"
  proof (rule lone_packets)
    have s: "settled (prot d1)" using assms(2) e(4) r0(1) p1 by (simp add: settled_frame)
    show "window_ok (prot d1)" "Last_discarded (prot d1) = Aru (prot d1)"
      "My_aru (prot d1) < Highest_seq (prot d1) \<longrightarrow> exist (prot d1) (My_aru (prot d1) + 1) = 0"
      using s by (simp_all add: settled_def)
    show "rg_highest_seq (my_ring_info d) = Highest_seq (prot d1)" "rg_aru (my_ring_info d) = Aru (prot d1)"
      "rg_holes (my_ring_info d) = holes_between (prot d1) (My_aru (prot d1) + 1) (Highest_seq (prot d1))"
      using e(4) r0(1) p1 by (simp_all add: my_ring_info_def new_ring_info_def holes_between_def pkt_def)
  qed
  then obtain d2 where d2: "form2_packets (my_ring_info d) d1 = Inr d2" by blast
  have "State (memb d1) \<noteq> EVS" using form2_install_result(1) [OF d1(1)] r0(5) assms(8) by auto
  note r2 = form2_packets_result(1,2) [OF d2 this]
  obtain g d3 where d3: "form2_trans now time (my_ring_info d) d2 = (g, d3)" by (metis surj_pair)
  note r3 = form2_trans_result(2,5) [OF d3]
  have "ring (Future_membership (memb d3)) = [My (conf d3)]"
    using d1(2) r2 r3 form2_install_result(2) [OF d1(1)] by simp
  then obtain d4 where d4: "pass_form2 (t\<lparr> t_proc_id := pr_id (My (conf e)) \<rparr>) ?m mid [g] d3 = Inr d4"
    using lone_pass by blast
  have m: "(lone_members d)\<lparr> num_members := num_members (lone_members d) + 1,
      num_pending := num_pending (lone_members d) - 1 \<rparr> = ?m" by (simp add: lone_members_def)
  show ?thesis
    using lone_not_dropped [OF assms(1) e(1-3)] assms(7) k d0 d1(1) d2 d3 d4
    by (simp add: Read_form2_def Let_def m)
qed

text \<open>From the end of gathering to the future membership.\<close>

lemma lone_daemon_installs:
  assumes "gathered_alone d" and "settled (prot d)"
  shows "\<exists>d1 a t b t2. Form_or_fail now d = Inr d1 \<and>
    tokens_sent (out d1) = tokens_sent (out d) @ [(a, t, b), (a, t2, b)] \<and> a = Token_port (pr_addr (My (conf d))) \<and>
    (\<exists>d2. Memb_handle_form2 now2 t b d1 = Inr d2 \<and> State (memb d2) = EVS \<and> Token_alive (memb d2) \<and>
       ring_ids (Future_membership (memb d2)) = [pr_id (My (conf d))] \<and>
       m_proc_id (Future_membership_id (memb d2)) = pr_id (My (conf d)) \<and>
       Last_time_used (memb d) < m_time (Future_membership_id (memb d2)))"
proof -
  note a = assms(1) [unfolded gathered_alone_def]
  obtain d1 x t2 where d1: "Create_form1 now d = Inr d1" "conf d1 = conf d"
    and out: "tokens_sent (out d1) = tokens_sent (out d) @
      [(Token_port (pr_addr (My (conf d))), lone_token (Form2_body (lone_members d) x [my_ring_info d]) (Form1_memb_id (memb d1)) d,
        Form2_body (lone_members d) x [my_ring_info d]), (Token_port (pr_addr (My (conf d))), t2, Form2_body (lone_members d) x [my_ring_info d])]"
    using lone_create [OF assms(1), of now] by (auto simp: Let_def)
  let ?t = "lone_token (Form2_body (lone_members d) x [my_ring_info d]) (Form1_memb_id (memb d1)) d"
  have "Form_or_fail now d = Inr d1"
    using lone_Sort_reps(2) [of "F_reps (memb d)"] a d1(1) by (simp add: Form_or_fail_def)
  note r1 = Create_form1_result [OF d1(1)]
  have t: "t_memb_id ?t = Form1_memb_id (memb d1)" by (simp add: lone_token_def)
  have same: "Same_endian (t_type ?t)" by (simp add: lone_token_def stamp_token_def Same_endian_Set_endian)
  obtain d2 where d2: "Read_form2 now2 ?t (lone_members d) x [my_ring_info d] d1 = Inr d2"
    using lone_read [OF assms d1(2) r1(6) t [symmetric] r1(5) same r1(1)] by blast
  have n: "native_members ?t (lone_members d) = lone_members d" "native_rings ?t [my_ring_info d] = [my_ring_info d]"
    using same by (simp_all add: native_members_def native_rings_def)
  have "\<not> form2_dropped ?t (native_members ?t (lone_members d)) (native_rings ?t [my_ring_info d]) d1"
    unfolding n by (rule lone_not_dropped [OF assms(1) d1(2) r1(6) t [symmetric]])
  note r2 = Read_form2_result [OF d2 r1(1) this]
  have "ring_members (lone_members d) = [pr_id (My (conf d))]"
    by (simp add: ring_members_def lone_members_def write_members_def)
  then have "ring_ids (Future_membership (memb d2)) = [pr_id (My (conf d))]"
    using r2(5) n(1) by (metis mset_single_iff_right)
  moreover have "num_members (lone_members d) = 0" by (simp add: lone_members_def)
  then have "m_proc_id (Future_membership_id (memb d2)) = pr_id (My (conf d))"
      "Last_time_used (memb d) < m_time (Future_membership_id (memb d2))"
    using r2(6) n(1) d1(2) r1(3) fresh_time_bounds(1) [of "Last_time_used (memb d)" now]
      fresh_time_bounds(1) [of "Last_time_used (memb d1)" now2] by simp_all
  moreover have "Memb_handle_form2 now2 ?t (Form2_body (lone_members d) x [my_ring_info d]) d1 = Inr d2"
    using d2 r1(1) by (simp add: Memb_handle_form2_def)
  ultimately show ?thesis using \<open>Form_or_fail now d = Inr d1\<close> out r2(1,2) by blast
qed

end
