(* ===== verification/Form_Properties.thy ===== *)
theory Form_Properties
  imports Start_Properties Form_Alone
begin

text \<open>
  Properties of the form tokens of a membership change, with their instances.
\<close>

section \<open>Creating and filling a token\<close>


definition lone_sample :: daemon where
  "lone_sample = sample_daemon\<lparr> memb := sample_memb\<lparr> State := GATHER, Token_alive := False,
     F_members := \<lparr> num_members = 1, num_pending = 0, members = (\<lambda>_. 1) \<rparr>,
     F_reps := \<lparr> num_reps = 1, rep_index = 0, reps = (\<lambda>_. \<lparr> rp_proc_id = 1, rp_type = SEG_REP, rp_seg_index = 0 \<rparr>) \<rparr> \<rparr> \<rparr>"

lemma lone_sample_simps [simp]:
  "conf lone_sample = sample_conf_state" "prot lone_sample = sample_prot"
  "My (conf sample_daemon) = sample_proc 1 0 0"
  by (simp_all add: lone_sample_def sample_conf_state_def)

lemma lone_sample_alone: "gathered_alone lone_sample" "settled (prot lone_sample)"
proof -
  have "length (commit_procs lone_sample) = 3"
    by (simp add: commit_procs_def lone_sample_def sample_memb_def sample_members_def sample_conf_state_def sample_proc_def
        numeral_3_eq_3)
  then show "gathered_alone lone_sample"
    using sample_conf_indexed
    by (simp add: gathered_alone_def sample_conf_state_def member_list_def rep_list_def sample_prot_def)
      (simp add: lone_sample_def sample_proc_def)
  show "settled (prot lone_sample)"
    by (simp add: settled_def window_ok_def entry_ok_def sample_prot_def pkt_def)
qed



definition sample_ring :: ring_info where
  "sample_ring = \<lparr> rg_memb_id = \<lparr> m_proc_id = 1, m_time = 5 \<rparr>, rg_trans_time = 0, rg_aru = 0, rg_highest_seq = 2,
     rg_num_trans = 1, rg_holes = [1, 2], rg_procs = [2] \<rparr>"


section \<open>Reading a token\<close>

text \<open>
  C31. A daemon that accepts a form token of the second kind (\<open>Read_form2\<close>) is in the EVS phase
  of exactly the membership the token lists, holding a live token with a fresh \<open>Aru\<close>. The
  first daemon of the new ring chooses an identifier beyond every time it used, the others
  take the token's. Of its old ring it keeps the packets up to the highest number on the
  token; every hole is a dummy, \<open>My_aru\<close> is the end of the packets it has without a gap, and
  the commit set is the one on the token. The token goes twice to the next daemon.
\<close>

theorem Read_form2_installs:
  assumes "Read_form2 now t m mid gs d = Inr d'" and "State (memb d) = FORM" and "Same_endian (t_type t)"
    and "\<not> form2_dropped t m gs d"
  shows "State (memb d') = EVS \<and> Token_alive (memb d') \<and> Aru (prot d') = 0 \<and> Last_seq (prot d') = t_seq t \<and>
    mset (ring_ids (Future_membership (memb d'))) = mset (ring_members m) \<and>
    (num_members m \<noteq> 0 \<longrightarrow> Future_membership_id (memb d') = mid) \<and>
    (num_members m = 0 \<longrightarrow> m_proc_id (Future_membership_id (memb d')) = pr_id (My (conf d)) \<and>
       Last_time_used (memb d) < m_time (Future_membership_id (memb d')) \<and>
       m_time (Future_membership_id (memb d')) \<le> Last_time_used (memb d')) \<and>
    window_of_ring (ring_of t gs d) (prot d') \<and>
    member_list (Future_commit_set (memb d')) = rg_procs (ring_of t gs d) \<and>
    (\<exists>t1 t2 b. tokens_sent (out d') = tokens_sent (out d) @
      [(Token_port (Token_addr (net d')), t1, b), (Token_port (Token_addr (net d')), t2, b)])"
proof -
  have n: "native_members t m = m" "native_rings t gs = gs" "native_id t mid = mid"
    using assms(3) by (simp_all add: native_members_def native_rings_def native_id_def)
  note r = Read_form2_result [OF assms(1,2), unfolded n, OF assms(4)]
  show ?thesis using r by simp
qed

theorem Read_form2_installs_witness:
  "\<exists>t x d d'. Read_form2 200 t (lone_members lone_sample) x [my_ring_info lone_sample] d = Inr d' \<and> State (memb d) = FORM \<and>
    State (memb d') = EVS \<and> mset (ring_ids (Future_membership (memb d'))) = {#1#}"
proof -
  obtain d and x :: membership_id where d: "Create_form1 100 lone_sample = Inr d" "conf d = conf lone_sample"
    using lone_create [OF lone_sample_alone(1)] by blast
  note r = Create_form1_result [OF d(1)]
  let ?t = "lone_token (Requests []) (Form1_memb_id (memb d)) lone_sample"
  have t: "t_memb_id ?t = Form1_memb_id (memb d)" "Same_endian (t_type ?t)"
    by (simp_all add: lone_token_def stamp_token_def Same_endian_Set_endian)
  obtain d' where d': "Read_form2 200 ?t (lone_members lone_sample) x [my_ring_info lone_sample] d = Inr d'"
    using lone_read [OF lone_sample_alone d(2) r(6) t(1) [symmetric] r(5) t(2) r(1)] by blast
  have "\<not> form2_dropped ?t (lone_members lone_sample) [my_ring_info lone_sample] d"
    by (rule lone_not_dropped [OF lone_sample_alone(1) d(2) r(6) t(1) [symmetric]])
  note i = Read_form2_installs [OF d' r(1) t(2) this]
  have "ring_members (lone_members lone_sample) = [1]"
    by (simp add: ring_members_def lone_members_def write_members_def sample_conf_state_def sample_proc_def)
  then show ?thesis using d' r(1) i by auto
qed

text \<open>
  C32. A daemon that gathered nobody forms a ring of its own: when its packets are settled, the
  end of gathering (\<open>Form_or_fail\<close>) cannot fail and sends a form token of the second kind to
  the daemon's own address; when the daemon handles that token it cannot fail either, and it
  enters EVS with itself as the only member, under an identifier beyond every one it used.
\<close>

theorem lone_daemon_forms:
  assumes "gathered_alone d" and "settled (prot d)"
  shows "\<exists>d1 a t b t2. Form_or_fail now d = Inr d1 \<and>
    tokens_sent (out d1) = tokens_sent (out d) @ [(a, t, b), (a, t2, b)] \<and> a = Token_port (pr_addr (My (conf d))) \<and>
    (\<exists>d2. Memb_handle_form2 now2 t b d1 = Inr d2 \<and> State (memb d2) = EVS \<and> Token_alive (memb d2) \<and>
       ring_ids (Future_membership (memb d2)) = [pr_id (My (conf d))] \<and>
       m_proc_id (Future_membership_id (memb d2)) = pr_id (My (conf d)) \<and>
       Last_time_used (memb d) < m_time (Future_membership_id (memb d2)))"
  by (rule lone_daemon_installs [OF assms])

theorem lone_daemon_forms_witness: "gathered_alone lone_sample \<and> (\<exists>d1. Form_or_fail 100 lone_sample = Inr d1)"
  using lone_daemon_forms [OF lone_sample_alone, of 100 200] lone_sample_alone(1) by blast

text \<open>
  C33. A packet that a daemon received, after it filled the form token, from a daemon that is not
  in the new ring ends the daemon when it reads the second token, if the packet's number is
  beyond the ring's: \<open>Read_form2\<close> means to forget such a packet, but it looks its sender up
  with \<open>Conf_proc_by_id_in_conf(&Future_membership, ...)\<close>, which searches the table of all
  configured daemons and not the segments of the future membership, and so takes every
  sender for a member.
\<close>

theorem late_packet_fatal:
  assumes "\<not> form2_dropped t m gs d" and "Same_endian (t_type t)"
    and "rg_highest_seq (ring_of t gs d) < i" and "i \<le> Highest_seq (prot d)"
    and "Highest_seq (prot d) \<le> rg_highest_seq (ring_of t gs d) + MAX_PACKETS_IN_STRUCT"
    and "exist (prot d) i = 1" and "p_proc_id (pi_head (pkt (prot d) i)) \<in> pr_id ` set (allprocs (Config (conf d)))"
  shows "\<exists>f. Read_form2 now t m mid gs d = Inl f"
proof (cases "Read_form2 now t m mid gs d")
  case (Inr d')
  have n: "native_members t m = m" "native_rings t gs = gs"
    using assms(2) by (simp_all add: native_members_def native_rings_def)
  then show ?thesis using Read_form2_late [OF Inr, unfolded n, OF assms(1,3-5)] assms(6,7) by simp
qed simp

definition late_sample :: daemon where
  "late_sample = sample_daemon\<lparr>
     prot := sample_prot\<lparr> Highest_seq := 1, Packets := (Packets sample_prot)(1 := (Packets sample_prot 1)\<lparr> pi_exist := 1 \<rparr>) \<rparr>,
     memb := sample_memb\<lparr> State := FORM \<rparr> \<rparr>"

theorem late_packet_fatal_witness:
  "\<exists>t m gs d. \<not> form2_dropped t m gs d \<and> ring_members m = [1] \<and> p_proc_id (pi_head (pkt (prot d) 1)) = 2 \<and>
    (\<exists>f. Read_form2 100 t m no_memb_id gs d = Inl f)"
proof -
  let ?m = "\<lparr> num_members = 0, num_pending = 1, members = (\<lambda>_. 1) \<rparr>"
  let ?g = "sample_ring\<lparr> rg_highest_seq := 0, rg_holes := [], rg_procs := [1] \<rparr>"
  have s: "slot 1 = 1" by (simp add: slot_mod)
  have nd: "\<not> form2_dropped sample_token ?m [?g] late_sample"
    by (simp add: form2_dropped_def late_sample_def sample_token_def sample_memb_def sample_ring_def sample_conf_state_def
        sample_proc_def my_ring_def ring_malformed_def rings_bytes_def ring_bytes_def Memb_is_equal_def)
  have same: "Same_endian (t_type sample_token)" by (simp add: sample_token_def Same_endian_bits)
  have g: "ring_of sample_token [?g] late_sample = ?g"
    using same by (simp add: ring_of_def native_rings_def my_ring_def late_sample_def sample_memb_def sample_ring_def Memb_is_equal_def)
  have p: "exist (prot late_sample) 1 = 1" "p_proc_id (pi_head (pkt (prot late_sample) 1)) = 2" "Highest_seq (prot late_sample) = 1"
    using s by (simp_all add: late_sample_def pkt_def sample_prot_def sample_head_def)
  have "\<exists>f. Read_form2 100 sample_token ?m no_memb_id [?g] late_sample = Inl f"
    by (rule late_packet_fatal [OF nd same, of 1])
      (use g p in \<open>simp_all add: sample_ring_def late_sample_def sample_conf_state_def sample_conf_def sample_proc_def\<close>)
  moreover have "ring_members ?m = [1]" by (simp add: ring_members_def)
  ultimately show ?thesis using nd p(2) by blast
qed

text \<open>A ring of as many daemons as the tables hold is never formed: every daemon drops its token.\<close>

lemma full_ring_dropped:
  assumes "num_members m + num_pending m = MAX_PROCS_RING" and "Same_endian (t_type t)"
  shows "Memb_handle_form2 now t (Form2_body m mid gs) d = Inr d"
  using assms by (simp add: Memb_handle_form2_def Read_form2_def Let_def form2_dropped_def)

end
