(* ===== verification/Messages.thy ===== *)
theory Messages
  imports Delivery "HOL-Library.Sublist"
begin

text \<open>
  Messages between the daemon and its clients (\<open>message.c\<close>, with \<open>SPREAD_PROTOCOL\<close> 3). A
  message is a scatter of buffers of \<open>sizeof(packet_body)\<close> bytes, the argument \<open>bs\<close> of the
  routines that allocate or fill one; the first buffer starts with the message header. The bytes
  of a new buffer are zero here; the code does not read them before it has written them.
\<close>

section \<open>Numbers and names in memory\<close>

text \<open>A 32-bit number in memory, low byte first, and the characters of an array.\<close>

definition put32 :: "32 word \<Rightarrow> byte list" where
  "put32 w = [ucast w, ucast (drop_bit 8 w), ucast (drop_bit 16 w), ucast (drop_bit 24 w)]"

definition get32 :: "byte list \<Rightarrow> 32 word" where
  "get32 bs = ucast (bs ! 0) OR push_bit 8 (ucast (bs ! 1)) OR push_bit 16 (ucast (bs ! 2)) OR push_bit 24 (ucast (bs ! 3))"

definition chars_of :: "byte list \<Rightarrow> string" where
  "chars_of bs = map (\<lambda>b. char_of (uint b)) bs"

definition bytes_of :: "string \<Rightarrow> byte list" where
  "bytes_of s = map of_char s"

text \<open>The string in an array, up to its first null character.\<close>

definition cstr :: "string \<Rightarrow> string" where
  "cstr s = takeWhile (\<lambda>c. c \<noteq> CHR 0x00) s"

text \<open>\<open>strncpy\<close> of \<open>n\<close> characters, which pads with null characters.\<close>

definition strncpy :: "string \<Rightarrow> nat \<Rightarrow> string" where
  "strncpy s n = take n (s @ replicate n (CHR 0x00))"

section \<open>The message header\<close>

abbreviation (input) MAX_PRIVATE_NAME :: nat where "MAX_PRIVATE_NAME \<equiv> 10"
abbreviation (input) MAX_PROC_NAME :: nat where "MAX_PROC_NAME \<equiv> 20"
abbreviation (input) MAX_GROUP_NAME :: nat where "MAX_GROUP_NAME \<equiv> 1 + MAX_PRIVATE_NAME + 1 + MAX_PROC_NAME"
abbreviation (input) MAX_GROUPS_PER_MESSAGE :: int where "MAX_GROUPS_PER_MESSAGE \<equiv> 100"
abbreviation (input) sizeof_message_header :: int where "sizeof_message_header \<equiv> 48"

record message_header =
  mh_type :: "32 word"
  mh_private_group_name :: string
  mh_num_groups :: int
  mh_hint :: "32 word"
  mh_data_len :: int

definition put_header :: "message_header \<Rightarrow> byte list" where
  "put_header h = put32 (mh_type h) @ bytes_of (strncpy (mh_private_group_name h) MAX_GROUP_NAME) @
     put32 (word_of_int (mh_num_groups h)) @ put32 (mh_hint h) @ put32 (word_of_int (mh_data_len h))"

definition get_header :: "byte list \<Rightarrow> message_header" where
  "get_header b = \<lparr>
     mh_type = get32 (take 4 b),
     mh_private_group_name = chars_of (take MAX_GROUP_NAME (drop 4 b)),
     mh_num_groups = sint (get32 (take 4 (drop 36 b))),
     mh_hint = get32 (take 4 (drop 40 b)),
     mh_data_len = sint (get32 (take 4 (drop 44 b))) \<rparr>"

abbreviation (input) UNRELIABLE_MESS :: "32 word" where "UNRELIABLE_MESS \<equiv> 0x00000001"
abbreviation (input) RELIABLE_MESS :: "32 word" where "RELIABLE_MESS \<equiv> 0x00000002"
abbreviation (input) FIFO_MESS :: "32 word" where "FIFO_MESS \<equiv> 0x00000004"
abbreviation (input) CAUSAL_MESS :: "32 word" where "CAUSAL_MESS \<equiv> 0x00000008"
abbreviation (input) AGREED_MESS :: "32 word" where "AGREED_MESS \<equiv> 0x00000010"
abbreviation (input) SAFE_MESS :: "32 word" where "SAFE_MESS \<equiv> 0x00000020"
abbreviation (input) REGULAR_MESS :: "32 word" where "REGULAR_MESS \<equiv> 0x0000003f"
abbreviation (input) NOT_REGULAR_MESS :: "32 word" where "NOT_REGULAR_MESS \<equiv> 0x00ffff00"
abbreviation (input) SELF_DISCARD :: "32 word" where "SELF_DISCARD \<equiv> 0x00000040"
abbreviation (input) REG_MEMB_MESS :: "32 word" where "REG_MEMB_MESS \<equiv> 0x00001000"
abbreviation (input) TRANSITION_MESS :: "32 word" where "TRANSITION_MESS \<equiv> 0x00002000"
abbreviation (input) CAUSED_BY_JOIN :: "32 word" where "CAUSED_BY_JOIN \<equiv> 0x00000100"
abbreviation (input) CAUSED_BY_LEAVE :: "32 word" where "CAUSED_BY_LEAVE \<equiv> 0x00000200"
abbreviation (input) CAUSED_BY_DISCONNECT :: "32 word" where "CAUSED_BY_DISCONNECT \<equiv> 0x00000400"
abbreviation (input) CAUSED_BY_NETWORK :: "32 word" where "CAUSED_BY_NETWORK \<equiv> 0x00000800"
abbreviation (input) JOIN_MESS :: "32 word" where "JOIN_MESS \<equiv> 0x00010000"
abbreviation (input) LEAVE_MESS :: "32 word" where "LEAVE_MESS \<equiv> 0x00020000"
abbreviation (input) KILL_MESS :: "32 word" where "KILL_MESS \<equiv> 0x00040000"
abbreviation (input) GROUPS_MESS :: "32 word" where "GROUPS_MESS \<equiv> 0x00080000"
abbreviation (input) REJECT_MESS :: "32 word" where "REJECT_MESS \<equiv> 0x00400000"

text \<open>The macros \<open>Is_*_mess\<close> test a type for a bit.\<close>

definition has_mess :: "32 word \<Rightarrow> 32 word \<Rightarrow> bool" where
  "has_mess t b \<longleftrightarrow> t AND b \<noteq> 0"

definition Is_only_regular_mess :: "32 word \<Rightarrow> bool" where
  "Is_only_regular_mess t \<longleftrightarrow> has_mess t REGULAR_MESS \<and> \<not> has_mess t NOT_REGULAR_MESS"

text \<open>\<open>-1\<close> is no packet type.\<close>

definition Message_get_packet_type :: "32 word \<Rightarrow> 32 word" where
  "Message_get_packet_type t =
     (if has_mess t UNRELIABLE_MESS then RELIABLE_TYPE
      else if has_mess t RELIABLE_MESS then RELIABLE_TYPE
      else if has_mess t FIFO_MESS then FIFO_TYPE
      else if has_mess t CAUSAL_MESS \<or> has_mess t AGREED_MESS then AGREED_TYPE
      else if has_mess t SAFE_MESS then SAFE_TYPE
      else if has_mess t JOIN_MESS then AGREED_TYPE
      else if has_mess t LEAVE_MESS then AGREED_TYPE
      else if has_mess t KILL_MESS then AGREED_TYPE
      else - 1)"

definition Flip_mess :: "message_header \<Rightarrow> message_header" where
  "Flip_mess h = h\<lparr> mh_type := Flip_int32 (mh_type h), mh_num_groups := flip32 (mh_num_groups h),
     mh_data_len := flip32 (mh_data_len h) \<rparr>"

section \<open>Messages\<close>

text \<open>The bytes of a message that are in use.\<close>

definition element_bytes :: "scat_element \<Rightarrow> byte list" where
  "element_bytes e = take (nat (se_len e)) (se_buf e)"

definition message_bytes :: "scatter \<Rightarrow> byte list" where
  "message_bytes m = concat (map element_bytes m)"

definition Message_get_message_header :: "scatter \<Rightarrow> message_header" where
  "Message_get_message_header m = get_header (se_buf (hd m))"

text \<open>What assignments through the header pointer leave in the first buffer.\<close>

definition set_header :: "message_header \<Rightarrow> scatter \<Rightarrow> scatter" where
  "set_header h m = (case m of [] \<Rightarrow> [] | e # es \<Rightarrow> e\<lparr> se_buf := write_at 0 (put_header h) (se_buf e) \<rparr> # es)"

definition Message_endian_correct_message_header :: "scatter \<Rightarrow> scatter" where
  "Message_endian_correct_message_header m =
     (let h = Message_get_message_header m
      in if Same_endian (mh_type h) then m else set_header (Flip_mess h) m)"

definition Message_new_message :: "int \<Rightarrow> scatter" where
  "Message_new_message bs = [\<lparr> se_buf = replicate (nat bs) 0, se_len = sizeof_message_header \<rparr>]"

definition Message_create_message :: "int \<Rightarrow> 32 word \<Rightarrow> string \<Rightarrow> scatter" where
  "Message_create_message bs mess_type sender_name =
     set_header \<lparr> mh_type = Set_endian mess_type, mh_private_group_name = strncpy sender_name MAX_GROUP_NAME,
       mh_num_groups = 0, mh_hint = Set_endian 0, mh_data_len = 0 \<rparr> (Message_new_message bs)"

definition Message_add_scat_element :: "int \<Rightarrow> scatter \<Rightarrow> scatter result" where
  "Message_add_scat_element bs m =
     guard_res (MAX_SCATTER_ELEMENTS \<le> int (length m)) (Alarm_exit ''Message_add_scat_element'')
       (Inr (m @ [\<lparr> se_buf = replicate (nat bs) 0, se_len = bs \<rparr>]))"

text \<open>
  The length of the last buffer of a message that was read. An index one past the used elements
  is a write to an entry that nothing uses, unless the scatter is full.
\<close>

definition set_element_len :: "int \<Rightarrow> int \<Rightarrow> scatter \<Rightarrow> scatter result" where
  "set_element_len i n m =
     guard_res (i < 0 \<or> MAX_SCATTER_ELEMENTS \<le> i) (Undefined ''Message_element_len_fixup'')
       (Inr (if i < int (length m) then m[nat i := (m ! nat i)\<lparr> se_len := n \<rparr>] else m))"

definition Message_element_len_fixup :: "int \<Rightarrow> scatter \<Rightarrow> scatter result" where
  "Message_element_len_fixup bs m =
     (let h = Message_get_message_header m;
          total_size = mh_data_len h + int MAX_GROUP_NAME * mh_num_groups h + sizeof_message_header;
          sum_size = bs * (int (length m) - 1);
          last = total_size div bs
      in if total_size < bs
         then guard_res (last \<noteq> 0) (Alarm_exit ''Message_element_len_fixup'') (set_element_len last total_size m)
         else bind_res (set_element_len 0 bs m) (set_element_len last (total_size - sum_size)))"

section \<open>The place in a message\<close>

record partial_message_info =
  in_mess_head :: int
  pm_cur_element :: int
  pm_cur_byte :: int
  pm_total_bytes :: int

definition Message_reset_current_location :: partial_message_info where
  "Message_reset_current_location = \<lparr> in_mess_head = 0, pm_cur_element = 0, pm_cur_byte = 0, pm_total_bytes = 0 \<rparr>"

definition Message_set_location_begin_body :: "partial_message_info \<Rightarrow> partial_message_info" where
  "Message_set_location_begin_body c = c\<lparr> in_mess_head := 0 \<rparr>"

text \<open>The loop: the element a number of bytes leads to, and the rest of them.\<close>

fun locate :: "scatter \<Rightarrow> int \<Rightarrow> int \<Rightarrow> int \<times> int" where
  "locate [] i len = (i, len)"
| "locate (e # es) i len = (if len < se_len e then (i, len) else locate es (i + 1) (len - se_len e))"

definition Message_calculate_current_location ::
    "scatter \<Rightarrow> int \<Rightarrow> partial_message_info \<Rightarrow> partial_message_info" where
  "Message_calculate_current_location m len_sent c =
     (let (i, len) = locate m 0 len_sent in c\<lparr> pm_cur_element := i, pm_cur_byte := len, in_mess_head := 0 \<rparr>)"

section \<open>The groups of a message\<close>

definition Message_get_first_data_len :: "scatter \<Rightarrow> int" where
  "Message_get_first_data_len m =
     (if has_mess (mh_type (Message_get_message_header m)) REJECT_MESS then 0 else se_len (hd m) - sizeof_message_header)"

text \<open>
  \<open>Message_get_groups_array\<close>: the bytes from the returned pointer on. When the array is not
  all in its first buffer, the buffers are copied to \<open>Temp_buf\<close>, from the start of that buffer
  on, and the pointer is to the start of \<open>Temp_buf\<close>.
\<close>

fun copy_groups :: "scatter \<Rightarrow> int \<Rightarrow> byte list" where
  "copy_groups [] n = []"
| "copy_groups (e # es) n =
     (if n \<le> 0 then []
      else let copy_bytes = (if n < se_len e then n else se_len e)
           in take (nat copy_bytes) (se_buf e) @ copy_groups es (n - copy_bytes))"

definition Message_get_groups_array :: "scatter \<Rightarrow> byte list result" where
  "Message_get_groups_array m =
     (let h = Message_get_message_header m;
          reject = has_mess (mh_type h) REJECT_MESS;
          start = (if reject then 4 else sizeof_message_header);
          groups_bytes = start + mh_num_groups h * int MAX_GROUP_NAME;
          es = (if reject then drop 1 m else m)
      in case es of
           [] \<Rightarrow> Inl (Undefined ''Message_get_groups_array'')
         | e # _ \<Rightarrow>
             if groups_bytes > se_len e
             then (let buf = copy_groups es groups_bytes
                   in guard_res (int (length buf) \<noteq> groups_bytes) (Alarm_exit ''Message_get_groups_array'') (Inr buf))
             else Inr (drop (nat start) (se_buf e)))"

text \<open>The \<open>i\<close>-th name of such an array, and its names.\<close>

definition group_at :: "byte list \<Rightarrow> nat \<Rightarrow> string" where
  "group_at b i = cstr (chars_of (take MAX_GROUP_NAME (drop (i * MAX_GROUP_NAME) b)))"

definition groups_of :: "byte list \<Rightarrow> int \<Rightarrow> string list" where
  "groups_of b n = map (group_at b) [0..<nat n]"

definition Message_get_first_group :: "scatter \<Rightarrow> string result" where
  "Message_get_first_group m =
     (if has_mess (mh_type (Message_get_message_header m)) REJECT_MESS
      then (case drop 1 m of
              [] \<Rightarrow> Inl (Undefined ''Message_get_first_group'')
            | e # _ \<Rightarrow> Inr (group_at (drop 4 (se_buf e)) 0))
      else Inr (group_at (drop (nat sizeof_message_header) (se_buf (hd m))) 0))"

text \<open>
  \<open>Message_add_oldtype_to_reject\<close>: a new second buffer with the old type, the groups, the sender as
  a group and the data of the first buffer. The copies leave the buffers when the groups are not
  all in the first one.
\<close>

definition Message_add_oldtype_to_reject :: "int \<Rightarrow> scatter \<Rightarrow> 32 word \<Rightarrow> scatter result" where
  "Message_add_oldtype_to_reject bs m old_type =
     (case m of
        [] \<Rightarrow> Inl (Undefined ''Message_add_oldtype_to_reject'')
      | e # es \<Rightarrow>
          let h = Message_get_message_header m;
              n = mh_num_groups h;
              names = nat (n * int MAX_GROUP_NAME);
              data = drop (nat sizeof_message_header + names) (element_bytes e);
              kept = (if n < MAX_GROUPS_PER_MESSAGE then names else names - MAX_GROUP_NAME);
              buf = put32 old_type @ take kept (drop (nat sizeof_message_header) (se_buf e)) @
                    bytes_of (mh_private_group_name h) @ data;
              h = (if n < MAX_GROUPS_PER_MESSAGE then h\<lparr> mh_num_groups := n + 1 \<rparr> else h)
          in guard_res (MAX_SCATTER_ELEMENTS \<le> int (length m) \<or> n < 0 \<or>
                se_len e < sizeof_message_header + int names \<or> int (length (se_buf e)) < se_len e \<or> bs < int (length buf))
               (Undefined ''Message_add_oldtype_to_reject'')
               (Inr (set_header h (e\<lparr> se_len := sizeof_message_header \<rparr> #
                  \<lparr> se_buf = buf @ replicate (nat bs - length buf) 0, se_len = int (length buf) \<rparr> # es))))"

text \<open>
  \<open>Message_Buffer_to_Message_Fragments\<close>: the bytes \<open>buf\<close> behind the header of a message of one
  element, whose length is the header's.
\<close>

fun split_bytes :: "nat \<Rightarrow> nat \<Rightarrow> byte list \<Rightarrow> byte list list" where
  "split_bytes 0 bs buf = []"
| "split_bytes (Suc k) bs buf = take bs buf # split_bytes k bs (drop bs buf)"

definition Message_Buffer_to_Message_Fragments :: "int \<Rightarrow> scatter \<Rightarrow> byte list \<Rightarrow> scatter result" where
  "Message_Buffer_to_Message_Fragments bs m buf =
     (case m of
        [] \<Rightarrow> Inl (Undefined ''Message_Buffer_to_Message_Fragments'')
      | e # _ \<Rightarrow>
          let num = (int (length buf) + sizeof_message_header - 1) div bs + 1;
              room = nat (bs - sizeof_message_header);
              chunks = split_bytes (nat num - 1) (nat bs) (drop room buf)
          in guard_res (MAX_SCATTER_ELEMENTS < num) (Alarm_exit ''Message_Buffer_to_Message_Fragments'')
               (Inr (e\<lparr> se_buf := write_at (nat sizeof_message_header) (take room buf) (se_buf e),
                        se_len := se_len e + int (length (take room buf)) \<rparr> #
                     map (\<lambda>c. \<lparr> se_buf = c @ replicate (nat bs - length c) 0, se_len = int (length c) \<rparr>) chunks)))"

end
