(* ===== verification/Sessions.thy ===== *)
theory Sessions
  imports Messages "HOL-Library.List_Lexorder" "HOL-Library.Char_ord"
begin

text \<open>
  The table of sessions of \<open>session.c\<close>: an array whose entries are linked into a list sorted by
  name, into the chains of a hash table over the mailboxes, or into the list of free entries.
  A pointer to a session is its index, \<open>NULL\<close> is \<open>None\<close>. Names are compared by \<open>strcmp\<close>, which
  is the lexicographic order of the characters. The table has \<open>MAX_SESSIONS\<close> entries, a number
  that depends on the event library; it is an argument of \<open>Sess_init_sessions\<close>. Besides its links
  an entry has the state of a client's connection: the message being read, and the queue of
  messages still to be written, \<open>s_links\<close>, with the place in the first of them.
\<close>

section \<open>The table\<close>

text \<open>
  The address of a client is kept as far as the code looks at it: \<open>Some ip\<close> is an IPv4 address,
  \<open>None\<close> one of another family, or none. The decisions of an access control policy; \<open>True\<close> is \<open>ACM_ACCESS_ALLOWED\<close>.\<close>

record acp_ops =
  open_connection :: "string \<Rightarrow> bool"
  join_group :: "string \<Rightarrow> string \<Rightarrow> bool"
  leave_group :: "string \<Rightarrow> string \<Rightarrow> bool"
  p2p_send :: "string \<Rightarrow> string list \<Rightarrow> 32 word \<Rightarrow> int \<Rightarrow> bool"
  mcast_send :: "string \<Rightarrow> string list \<Rightarrow> 32 word \<Rightarrow> int \<Rightarrow> bool"

record session =
  s_name :: string
  s_lib_version :: "int list"
  s_addr :: "32 word option"
  s_status :: "32 word"
  s_priority :: int
  s_mbox :: int
  s_acp_ops :: acp_ops
  s_read :: partial_message_info
  s_read_mess :: "scatter option"
  s_num_mess :: int
  s_write :: partial_message_info
  s_links :: "scatter list"
  sort_prev :: "nat option"
  sort_next :: "nat option"
  hash_next :: "nat option"

record sess_table =
  Sessions :: "nat \<Rightarrow> session"
  Sessions_hash_head :: "nat \<Rightarrow> nat option"
  Sessions_head :: "nat option"
  Sessions_tail :: "nat option"
  Sessions_free :: "nat option"

definition upd_session :: "nat \<Rightarrow> (session \<Rightarrow> session) \<Rightarrow> sess_table \<Rightarrow> sess_table" where
  "upd_session i f t = t\<lparr> Sessions := (Sessions t)(i := f (Sessions t i)) \<rparr>"

text \<open>The exclusive or of the four bytes of a mailbox.\<close>

definition sess_hash :: "int \<Rightarrow> nat" where
  "sess_hash mbox =
     (let m = word_of_int mbox :: 32 word
      in unat ((m AND 0xff) XOR (drop_bit 8 m AND 0xff) XOR (drop_bit 16 m AND 0xff) XOR (drop_bit 24 m AND 0xff)))"

text \<open>
  The loops over linked entries: the first entry where the loop stops. A loop over a circular
  list does not return, which is the outer \<open>None\<close>.
\<close>

partial_function (option) scan ::
    "(nat \<Rightarrow> nat option) \<Rightarrow> (nat \<Rightarrow> bool) \<Rightarrow> nat option \<Rightarrow> nat option option" where
  "scan nxt stop p =
     (case p of
        None \<Rightarrow> Some None
      | Some i \<Rightarrow> if stop i then Some (Some i) else scan nxt stop (nxt i))"

text \<open>The bits of a session's status, and the macros that test and change them.\<close>

abbreviation (input) MEMB_SESSION :: "32 word" where "MEMB_SESSION \<equiv> 0x001"
abbreviation (input) OP_SESSION :: "32 word" where "OP_SESSION \<equiv> 0x010"
abbreviation (input) PRE_AUTH_SESSION :: "32 word" where "PRE_AUTH_SESSION \<equiv> 0x100"

definition Is_memb_session :: "32 word \<Rightarrow> bool" where "Is_memb_session st \<longleftrightarrow> st AND MEMB_SESSION \<noteq> 0"
definition Is_op_session :: "32 word \<Rightarrow> bool" where "Is_op_session st \<longleftrightarrow> st AND OP_SESSION \<noteq> 0"
definition Is_preauth_session :: "32 word \<Rightarrow> bool" where "Is_preauth_session st \<longleftrightarrow> st AND PRE_AUTH_SESSION \<noteq> 0"

definition Set_status :: "32 word \<Rightarrow> 32 word \<Rightarrow> 32 word" where "Set_status b st = st OR b"
definition Clear_status :: "32 word \<Rightarrow> 32 word \<Rightarrow> 32 word" where "Clear_status b st = st AND NOT b"

section \<open>Operations\<close>

definition Sess_free_session :: "nat \<Rightarrow> sess_table \<Rightarrow> sess_table" where
  "Sess_free_session i t =
     (upd_session i (\<lambda>s. s\<lparr> sort_next := Sessions_free t \<rparr>) t)\<lparr> Sessions_free := Some i \<rparr>"

definition Sess_init_sessions :: "nat \<Rightarrow> sess_table \<Rightarrow> sess_table" where
  "Sess_init_sessions max_sessions t =
     fold Sess_free_session [0..<max_sessions]
       (t\<lparr> Sessions_hash_head := (\<lambda>i. if i < 256 then None else Sessions_hash_head t i),
           Sessions_free := None, Sessions_head := None, Sessions_tail := None \<rparr>)"

definition Sess_hash_session :: "nat \<Rightarrow> sess_table \<Rightarrow> sess_table" where
  "Sess_hash_session i t =
     (let b = sess_hash (s_mbox (Sessions t i));
          t = upd_session i (\<lambda>s. s\<lparr> hash_next := Sessions_hash_head t b \<rparr>) t
      in t\<lparr> Sessions_hash_head := (Sessions_hash_head t)(b := Some i) \<rparr>)"

definition Sess_unhash_session :: "nat \<Rightarrow> sess_table \<Rightarrow> sess_table result option" where
  "Sess_unhash_session i t =
     (let b = sess_hash (s_mbox (Sessions t i));
          tmp = Sessions_hash_head t b;
          rest = hash_next (Sessions t i)
      in if tmp = Some i then
           Some (Inr (upd_session i (\<lambda>s. s\<lparr> hash_next := None \<rparr>)
             (t\<lparr> Sessions_hash_head := (Sessions_hash_head t)(b := rest) \<rparr>)))
         else
           (case scan (\<lambda>j. hash_next (Sessions t j)) (\<lambda>j. hash_next (Sessions t j) = Some i) tmp of
              None \<Rightarrow> None
            | Some None \<Rightarrow> Some (Inl (Undefined ''Sess_unhash_session''))
            | Some (Some j) \<Rightarrow>
                Some (Inr (upd_session i (\<lambda>s. s\<lparr> hash_next := None \<rparr>) (upd_session j (\<lambda>s. s\<lparr> hash_next := rest \<rparr>) t)))))"

text \<open>With no free entry left the code reports an error and then reads through \<open>NULL\<close>.\<close>

definition Sess_get_free_session :: "sess_table \<Rightarrow> (nat \<times> sess_table) result" where
  "Sess_get_free_session t =
     (case Sessions_free t of
        None \<Rightarrow> Inl (Undefined ''Sess_get_free_session'')
      | Some i \<Rightarrow> Inr (i, t\<lparr> Sessions_free := sort_next (Sessions t i) \<rparr>))"

definition Sess_insert_new_session :: "nat option \<Rightarrow> session \<Rightarrow> sess_table \<Rightarrow> (nat \<times> sess_table) result" where
  "Sess_insert_new_session where' template t =
     bind_res (Sess_get_free_session t) (\<lambda>(i, t).
       let t = upd_session i (\<lambda>_. template) t
       in case where' of
            None \<Rightarrow>
              let t = upd_session i (\<lambda>s. s\<lparr> sort_next := None \<rparr>) t
              in (case Sessions_tail t of
                    None \<Rightarrow> Inr (i, (upd_session i (\<lambda>s. s\<lparr> sort_prev := None \<rparr>) t)\<lparr>
                              Sessions_head := Some i, Sessions_tail := Some i \<rparr>)
                  | Some l \<Rightarrow> Inr (i, (upd_session l (\<lambda>s. s\<lparr> sort_next := Some i \<rparr>)
                              (upd_session i (\<lambda>s. s\<lparr> sort_prev := Some l \<rparr>) t))\<lparr> Sessions_tail := Some i \<rparr>))
          | Some w \<Rightarrow>
              let prev = sort_prev (Sessions t w);
                  t = upd_session i (\<lambda>s. s\<lparr> sort_next := Some w, sort_prev := prev \<rparr>) t;
                  t = upd_session w (\<lambda>s. s\<lparr> sort_prev := Some i \<rparr>) t
              in (case prev of
                    None \<Rightarrow> Inr (i, t\<lparr> Sessions_head := Some i \<rparr>)
                  | Some l \<Rightarrow> Inr (i, upd_session l (\<lambda>s. s\<lparr> sort_next := Some i \<rparr>) t)))"

definition Sess_remove_session :: "nat \<Rightarrow> sess_table \<Rightarrow> sess_table" where
  "Sess_remove_session i t =
     (let pv = sort_prev (Sessions t i);
          nx = sort_next (Sessions t i);
          t = (case (pv, nx) of
                 (None, None) \<Rightarrow> t\<lparr> Sessions_head := None, Sessions_tail := None \<rparr>
               | (None, Some n) \<Rightarrow> upd_session n (\<lambda>s. s\<lparr> sort_prev := None \<rparr>) (t\<lparr> Sessions_head := Some n \<rparr>)
               | (Some p, None) \<Rightarrow> upd_session p (\<lambda>s. s\<lparr> sort_next := None \<rparr>) (t\<lparr> Sessions_tail := Some p \<rparr>)
               | (Some p, Some n) \<Rightarrow>
                   upd_session p (\<lambda>s. s\<lparr> sort_next := Some n \<rparr>) (upd_session n (\<lambda>s. s\<lparr> sort_prev := Some p \<rparr>) t));
          t = upd_session i (\<lambda>s. s\<lparr> sort_prev := None, sort_next := None, s_mbox := - 1 \<rparr>) t
      in Sess_free_session i t)"

definition Sess_get_session_index :: "int \<Rightarrow> sess_table \<Rightarrow> int option" where
  "Sess_get_session_index mbox t =
     map_option (\<lambda>r. case r of None \<Rightarrow> - 1 | Some i \<Rightarrow> int i)
       (scan (\<lambda>j. hash_next (Sessions t j)) (\<lambda>j. s_mbox (Sessions t j) = mbox) (Sessions_hash_head t (sess_hash mbox)))"

definition Sess_get_session :: "string \<Rightarrow> sess_table \<Rightarrow> int option" where
  "Sess_get_session n t =
     map_option (\<lambda>r. case r of None \<Rightarrow> - 1 | Some i \<Rightarrow> if s_name (Sessions t i) = n then int i else - 1)
       (scan (\<lambda>j. sort_next (Sessions t j)) (\<lambda>j. \<not> s_name (Sessions t j) < n) (Sessions_head t))"

text \<open>
  The check of \<open>Sess_accept_continue\<close> whether a private name is new, which also finds the
  entry before which the session is inserted.
\<close>

definition unique_place :: "string \<Rightarrow> sess_table \<Rightarrow> (bool \<times> nat option) option" where
  "unique_place n t =
     map_option (\<lambda>r. (case r of None \<Rightarrow> True | Some i \<Rightarrow> s_name (Sessions t i) \<noteq> n, r))
       (scan (\<lambda>j. sort_next (Sessions t j)) (\<lambda>j. n \<le> s_name (Sessions t j)) (Sessions_head t))"

text \<open>
  Its insertion of a session with a new name: before the place found, then into the hash table,
  not yet authorized. \<open>None\<close> is a rejected name.
\<close>

definition accept_session :: "session \<Rightarrow> sess_table \<Rightarrow> (nat \<times> sess_table) option result option" where
  "accept_session template t =
     (case unique_place (s_name template) t of
        None \<Rightarrow> None
      | Some (False, _) \<Rightarrow> Some (Inr None)
      | Some (True, w) \<Rightarrow>
          Some (bind_res (Sess_insert_new_session w template t) (\<lambda>(i, t).
            Inr (Some (i, Sess_hash_session i (upd_session i (\<lambda>s. s\<lparr> s_status := Set_status PRE_AUTH_SESSION (s_status s) \<rparr>) t))))))"

text \<open>The end of a session in \<open>Sess_handle_kill\<close>.\<close>

definition drop_session :: "nat \<Rightarrow> sess_table \<Rightarrow> sess_table result option" where
  "drop_session i t = map_option (\<lambda>r. bind_res r (\<lambda>t. Inr (Sess_remove_session i t))) (Sess_unhash_session i t)"

end
