(* ===== verification/Access_Control.thy ===== *)
theory Access_Control
  imports Sessions
begin

text \<open>
  Authentication methods and access control policies (\<open>acm.c\<close>), with the methods \<open>NULL\<close>
  (\<open>auth-null.c\<close>) and \<open>IP\<close> (\<open>auth-ip.c\<close>) and the policy \<open>PERMIT\<close> (\<open>acp-permit.c\<close>). A method is its
  index in the table \<open>Auth_Methods\<close>.
\<close>

section \<open>The tables\<close>

abbreviation (input) MAX_AUTH_METHODS :: nat where "MAX_AUTH_METHODS \<equiv> 3"
abbreviation (input) MAX_AUTH_NAME :: nat where "MAX_AUTH_NAME \<equiv> 30"

record auth_info =
  au_name :: string
  au_enabled :: bool
  au_required :: bool
  au_has_connection :: bool

record acp_info =
  ap_name :: string
  ap_ops :: acp_ops

record ip_rule =
  network_address :: "32 word"
  prefix_length :: int

text \<open>\<open>au_has_connection\<close>: the method's \<open>auth_client_connection\<close> is not \<open>NULL\<close>.\<close>

record acm_state =
  Auth_Methods :: "auth_info list"
  ACP_Methods :: "acp_info list"
  AccessControlPolicy :: int
  Allow_Rules :: "ip_rule list"
  IP_File_Loaded :: bool

record session_auth_info =
  sa_mbox :: int
  sa_completed :: nat
  sa_methods :: "nat list"
  sa_results :: "bool list"

text \<open>The first entry whose name agrees in its first \<open>MAX_AUTH_NAME\<close> characters; \<open>-1\<close> is \<open>None\<close>.\<close>

fun name_index :: "string \<Rightarrow> string list \<Rightarrow> nat option" where
  "name_index n [] = None"
| "name_index n (x # xs) =
     (if take MAX_AUTH_NAME x = take MAX_AUTH_NAME n then Some 0 else map_option Suc (name_index n xs))"

definition acm_authname_to_type :: "string \<Rightarrow> acm_state \<Rightarrow> nat option" where
  "acm_authname_to_type n a = name_index n (map au_name (Auth_Methods a))"

definition acm_acpname_to_type :: "string \<Rightarrow> acm_state \<Rightarrow> nat option" where
  "acm_acpname_to_type n a = name_index n (map ap_name (ACP_Methods a))"

section \<open>Methods\<close>

definition upd_method :: "nat \<Rightarrow> (auth_info \<Rightarrow> auth_info) \<Rightarrow> acm_state \<Rightarrow> acm_state" where
  "upd_method i f a = a\<lparr> Auth_Methods := (Auth_Methods a)[i := f (Auth_Methods a ! i)] \<rparr>"

definition Acm_auth_set_enabled :: "string \<Rightarrow> acm_state \<Rightarrow> bool \<times> acm_state" where
  "Acm_auth_set_enabled n a =
     (case acm_authname_to_type n a of
        None \<Rightarrow> (False, a)
      | Some i \<Rightarrow> (True, upd_method i (\<lambda>m. m\<lparr> au_enabled := True \<rparr>) a))"

definition Acm_auth_set_disabled :: "string \<Rightarrow> acm_state \<Rightarrow> bool \<times> acm_state" where
  "Acm_auth_set_disabled n a =
     (case acm_authname_to_type n a of
        None \<Rightarrow> (False, a)
      | Some i \<Rightarrow> (True, upd_method i (\<lambda>m. m\<lparr> au_enabled := False \<rparr>) a))"

definition Acm_auth_set_required :: "string \<Rightarrow> acm_state \<Rightarrow> bool \<times> acm_state" where
  "Acm_auth_set_required n a =
     (case acm_authname_to_type n a of
        None \<Rightarrow> (False, a)
      | Some i \<Rightarrow> (True, upd_method i (\<lambda>m. m\<lparr> au_required := True \<rparr>) a))"

definition Acm_auth_add_method :: "string \<Rightarrow> bool \<Rightarrow> acm_state \<Rightarrow> bool \<times> acm_state" where
  "Acm_auth_add_method n has_connection a =
     (if length (Auth_Methods a) = MAX_AUTH_METHODS then (False, a)
      else (True, a\<lparr> Auth_Methods := Auth_Methods a @
             [\<lparr> au_name = n, au_enabled = False, au_required = False, au_has_connection = has_connection \<rparr>] \<rparr>))"

definition Acm_auth_query_allowed :: "string \<Rightarrow> acm_state \<Rightarrow> bool" where
  "Acm_auth_query_allowed n a =
     (case acm_authname_to_type n a of None \<Rightarrow> False | Some i \<Rightarrow> au_enabled (Auth_Methods a ! i))"

text \<open>The method's function, or \<open>NULL\<close>. Entries that were never added are zero.\<close>

definition Acm_auth_get_auth_client_connection :: "nat \<Rightarrow> acm_state \<Rightarrow> bool result" where
  "Acm_auth_get_auth_client_connection i a =
     guard_res (\<not> i < MAX_AUTH_METHODS) (Alarm_exit ''Acm_auth_get_auth_client_connection'')
       (Inr (i < length (Auth_Methods a) \<and> au_has_connection (Auth_Methods a ! i)))"

definition Acm_auth_get_allowed_list :: "acm_state \<Rightarrow> string" where
  "Acm_auth_get_allowed_list a =
     concat (map (\<lambda>m. au_name m @ [CHR 0x20]) (filter au_enabled (Auth_Methods a)))"

definition Acm_auth_create_sess_info_forIP :: "int \<Rightarrow> acm_state \<Rightarrow> session_auth_info result" where
  "Acm_auth_create_sess_info_forIP mbox a =
     (case acm_authname_to_type ''IP'' a of
        None \<Rightarrow> Inl (Undefined ''Acm_auth_create_sess_info_forIP'')
      | Some i \<Rightarrow> Inr \<lparr> sa_mbox = mbox, sa_completed = 0, sa_methods = [i], sa_results = [False] \<rparr>)"

text \<open>
  A client asks for methods in \<open>MAX_AUTH_METHODS\<close> slots of \<open>MAX_AUTH_NAME\<close> characters; the loops over
  them stop at an empty slot, and read past the array when there is none. \<open>f\<close> is the test of a slot.
\<close>

fun requested :: "nat \<Rightarrow> string \<Rightarrow> string list result" where
  "requested 0 slots = Inl (Undefined ''Sess_recv_client_auth'')"
| "requested (Suc j) slots =
     (let n = cstr (take MAX_AUTH_NAME slots)
      in if n = [] then Inr [] else bind_res (requested j (drop MAX_AUTH_NAME slots)) (\<lambda>ns. Inr (n # ns)))"

definition Acm_auth_create_sess_info :: "int \<Rightarrow> string list \<Rightarrow> acm_state \<Rightarrow> session_auth_info option result" where
  "Acm_auth_create_sess_info mbox names a =
     (let types = map (\<lambda>n. acm_authname_to_type n a) names;
          chosen = filter (\<lambda>i. au_enabled (Auth_Methods a ! i)) (map the types);
          added = filter (\<lambda>i. au_required (Auth_Methods a ! i) \<and> i \<notin> set chosen) [0..<length (Auth_Methods a)]
      in guard_res (None \<in> set types \<or> length chosen > MAX_AUTH_METHODS) (Undefined ''Acm_auth_create_sess_info'')
           (if chosen = [] then Inr None
            else guard_res (length (chosen @ added) > MAX_AUTH_METHODS) (Undefined ''Acm_auth_create_sess_info'')
                   (Inr (Some \<lparr> sa_mbox = mbox, sa_completed = 0, sa_methods = chosen @ added,
                      sa_results = replicate MAX_AUTH_METHODS False \<rparr>))))"

section \<open>Policies\<close>

definition Acm_acp_add_method :: "string \<Rightarrow> acp_ops \<Rightarrow> acm_state \<Rightarrow> bool \<times> acm_state" where
  "Acm_acp_add_method n ops a =
     (if length (ACP_Methods a) = MAX_AUTH_METHODS then (False, a)
      else (True, a\<lparr> ACP_Methods := ACP_Methods a @ [\<lparr> ap_name = n, ap_ops = ops \<rparr>] \<rparr>))"

definition Acm_acp_query_allowed :: "string \<Rightarrow> acm_state \<Rightarrow> bool" where
  "Acm_acp_query_allowed n a = (acm_acpname_to_type n a \<noteq> None)"

definition Acm_acp_set_policy :: "string \<Rightarrow> acm_state \<Rightarrow> bool \<times> acm_state" where
  "Acm_acp_set_policy n a =
     (case acm_acpname_to_type n a of
        None \<Rightarrow> (False, a)
      | Some i \<Rightarrow> (True, a\<lparr> AccessControlPolicy := int i \<rparr>))"

definition Acm_acp_fill_ops :: "acm_state \<Rightarrow> acp_ops result" where
  "Acm_acp_fill_ops a =
     guard_res (AccessControlPolicy a < 0 \<or> int (length (ACP_Methods a)) \<le> AccessControlPolicy a) (Alarm_exit ''Acm_acp_fill_ops'')
       (Inr (ap_ops (ACP_Methods a ! nat (AccessControlPolicy a))))"

definition Acm_init :: "acm_state \<Rightarrow> acm_state result" where
  "Acm_init a =
     (let (ok, a) = Acm_acp_set_policy ''PERMIT'' (snd (Acm_auth_set_enabled ''NULL'' a))
      in guard_res (\<not> ok) (Alarm_exit ''Acm_init'') (Inr a))"

section \<open>The methods and the policy of the distribution\<close>

definition Permit_ops :: acp_ops where
  "Permit_ops = \<lparr> open_connection = (\<lambda>user. True), join_group = (\<lambda>mbr group. True), leave_group = (\<lambda>mbr group. True),
     p2p_send = (\<lambda>sender dests service_type mess_type. True), mcast_send = (\<lambda>sender groups service_type mess_type. True) \<rparr>"

definition permit_init :: "acm_state \<Rightarrow> acm_state result" where
  "permit_init a =
     (let (ok, a) = Acm_acp_add_method ''PERMIT'' Permit_ops a in guard_res (\<not> ok) (Alarm_exit ''permit_init'') (Inr a))"

definition null_init :: "acm_state \<Rightarrow> acm_state result" where
  "null_init a = (let (ok, a) = Acm_auth_add_method ''NULL'' True a in guard_res (\<not> ok) (Alarm_exit ''null_init'') (Inr a))"

definition insert_ip_rule :: "32 word \<Rightarrow> int \<Rightarrow> acm_state \<Rightarrow> acm_state" where
  "insert_ip_rule net_address plen a =
     a\<lparr> Allow_Rules := \<lparr> network_address = net_address, prefix_length = plen \<rparr> # Allow_Rules a \<rparr>"

text \<open>
  The lines of the file \<open>spread.access_ip\<close> as \<open>ip_init\<close> tells them apart: one with fewer than three
  dots is incomplete and ends the loop, one whose parts \<open>sscanf\<close> does not read is fatal. A network
  address is written most significant part first, its prefix is 32 when the line has none.
\<close>

datatype access_line = Comment_line | Unix_line | Local_line | Incomplete_line | Bad_line | Net_line int int int int "int option"

fun access_rules :: "access_line list \<Rightarrow> acm_state \<Rightarrow> acm_state result" where
  "access_rules [] a = Inr a"
| "access_rules (l # ls) a =
     (case l of
        Comment_line \<Rightarrow> access_rules ls a
      | Unix_line \<Rightarrow> access_rules ls (insert_ip_rule 0 32 a)
      | Local_line \<Rightarrow> access_rules ls (insert_ip_rule (push_bit 24 127) 8 a)
      | Incomplete_line \<Rightarrow> Inr a
      | Bad_line \<Rightarrow> Inl (Alarm_exit ''ip_init'')
      | Net_line i1 i2 i3 i4 plen \<Rightarrow>
          access_rules ls (insert_ip_rule
            (push_bit 24 (word_of_int i1) OR push_bit 16 (word_of_int i2) OR push_bit 8 (word_of_int i3) OR word_of_int i4)
            (case plen of None \<Rightarrow> 32 | Some n \<Rightarrow> n) a))"

definition ip_init :: "access_line list option \<Rightarrow> acm_state \<Rightarrow> acm_state result" where
  "ip_init file a =
     (let (ok, a) = Acm_auth_add_method ''IP'' True a
      in guard_res (\<not> ok) (Alarm_exit ''ip_init'')
           (case file of
              None \<Rightarrow> Inr (a\<lparr> IP_File_Loaded := False \<rparr>)
            | Some ls \<Rightarrow> bind_res (access_rules ls a) (\<lambda>a. Inr (a\<lparr> IP_File_Loaded := True \<rparr>))))"

text \<open>
  The decision of \<open>ip_auth_client_connection\<close> on the address of a session, \<open>None\<close> for a connection
  that is not IPv4. A shift by 32 bits or more, or by a negative number, is undefined.
\<close>

fun ip_search :: "ip_rule list \<Rightarrow> 32 word \<Rightarrow> bool result" where
  "ip_search [] ip = Inr False"
| "ip_search (r # rs) ip =
     guard_res (prefix_length r \<le> 0 \<or> 32 < prefix_length r) (Undefined ''ip_auth_client_connection'')
       (if network_address r = ip AND push_bit (nat (32 - prefix_length r)) (- 1) then Inr True else ip_search rs ip)"

definition ip_auth_client_connection :: "32 word option \<Rightarrow> acm_state \<Rightarrow> bool result" where
  "ip_auth_client_connection addr a =
     (if \<not> IP_File_Loaded a then Inr False
      else (case addr of None \<Rightarrow> Inr False | Some client_ip \<Rightarrow> ip_search (Allow_Rules a) client_ip))"

section \<open>What the methods guarantee\<close>

lemma name_index_less: "name_index n ns = Some i \<Longrightarrow> i < length ns"
  by (induction ns arbitrary: i) (auto split: if_splits)

text \<open>Every required method is among those a client has to pass.\<close>

lemma sess_info_required:
  assumes "Acm_auth_create_sess_info mbox names a = Inr (Some sa)"
    and "i < length (Auth_Methods a)" "au_required (Auth_Methods a ! i)"
  shows "i \<in> set (sa_methods sa)"
  using assms by (auto simp: Acm_auth_create_sess_info_def Let_def split: if_splits)

lemma sess_info_start:
  assumes "Acm_auth_create_sess_info mbox names a = Inr (Some sa)"
  shows "sa_completed sa = 0" and "sa_methods sa \<noteq> []" and "length (sa_methods sa) \<le> length (sa_results sa)" and "sa_mbox sa = mbox"
  using assms by (auto simp: Acm_auth_create_sess_info_def Let_def split: if_splits)

text \<open>
  The line \<open>unix\<close> of the access file is meant to allow connections over Unix sockets; those have no
  IPv4 address and are refused whatever the file says.
\<close>

lemma unix_refused: "ip_auth_client_connection None a = Inr False"
  by (simp add: ip_auth_client_connection_def)

end
