(* ===== verification/Group_Names.thy ===== *)
theory Group_Names
  imports Messages
begin

text \<open>
  Private group names: \<open>G_private_to_names\<close> of \<open>groups.c\<close> takes apart the name \<open>#user#daemon\<close> under
  which a client is known.
\<close>

section \<open>Taking a name apart\<close>

definition legal_char :: "char \<Rightarrow> bool" where
  "legal_char c \<longleftrightarrow> of_char CHR 0x23 < (of_char c :: nat) \<and> of_char c \<le> (of_char CHR 0x7E :: nat)"

text \<open>
  The argument is the array of \<open>MAX_GROUP_NAME\<close> characters, with a null character among them.
  \<open>ILLEGAL_GROUP\<close> is \<open>None\<close>. Characters above 127 are negative in the code and therefore illegal.
\<close>

definition G_private_to_names :: "string \<Rightarrow> (string \<times> string) option" where
  "G_private_to_names name =
     (let r = cstr (tl name);
          private_name = takeWhile (\<lambda>c. c \<noteq> CHR 0x23) r;
          proc_name = drop (length private_name + 1) r
      in if CHR 0x23 \<notin> set r \<or> hd name \<noteq> CHR 0x23 \<or>
            length private_name > MAX_PRIVATE_NAME \<or> length private_name < 1 \<or>
            length proc_name \<ge> MAX_PROC_NAME \<or> length proc_name < 1 then None
         else if list_all legal_char private_name \<and> list_all legal_char proc_name then Some (private_name, proc_name)
         else None)"

text \<open>\<open>snprintf(..., MAX_GROUP_NAME, "#%s#%s", ...)\<close>, as the string it leaves.\<close>

definition private_group :: "string \<Rightarrow> string \<Rightarrow> string" where
  "private_group name proc_name = take (MAX_GROUP_NAME - 1) (CHR 0x23 # name @ CHR 0x23 # proc_name)"

section \<open>Round trip\<close>

text \<open>The names that sessions and daemons have.\<close>

definition private_name_ok :: "string \<Rightarrow> bool" where
  "private_name_ok n \<longleftrightarrow> n \<noteq> [] \<and> length n \<le> MAX_PRIVATE_NAME \<and> list_all legal_char n"

definition proc_name_ok :: "string \<Rightarrow> bool" where
  "proc_name_ok n \<longleftrightarrow> n \<noteq> [] \<and> length n < MAX_PROC_NAME \<and> list_all legal_char n"

lemma private_group_full:
  "private_name_ok n \<Longrightarrow> proc_name_ok p \<Longrightarrow> private_group n p = CHR 0x23 # n @ CHR 0x23 # p"
  unfolding private_group_def private_name_ok_def proc_name_ok_def by (rule take_all) simp

lemma legal_char_neq: "legal_char c \<Longrightarrow> c \<noteq> CHR 0x00" "legal_char c \<Longrightarrow> c \<noteq> CHR 0x23"
  by (auto simp: legal_char_def)

lemma takeWhile_stop: "c \<notin> set xs \<Longrightarrow> takeWhile (\<lambda>x. x \<noteq> c) (xs @ c # ys) = xs"
  by (induction xs) auto

lemma cstr_append: "list_all (\<lambda>c. c \<noteq> CHR 0x00) s \<Longrightarrow> cstr (s @ CHR 0x00 # t) = s"
  by (induction s) (simp_all add: cstr_def)

lemma cstr_strncpy:
  assumes "list_all (\<lambda>c. c \<noteq> CHR 0x00) s" and "length s < n"
  shows "cstr (strncpy s n) = s"
proof -
  obtain j where j: "n = length s + Suc j" using assms(2) less_imp_Suc_add by fastforce
  have "strncpy s n = s @ replicate (Suc j) CHR 0x00" by (simp add: strncpy_def j min_def)
  then show ?thesis using cstr_append [OF assms(1), of "replicate j CHR 0x00"] by simp
qed

lemma G_private_to_names_legal:
  assumes "private_name_ok n" and "proc_name_ok p"
  shows "G_private_to_names (strncpy (private_group n p) MAX_GROUP_NAME) = Some (n, p)"
proof -
  have legal: "list_all legal_char n" "list_all legal_char p" and len: "n \<noteq> []" "p \<noteq> []" "length n \<le> 10" "length p < 20"
    using assms by (auto simp: private_name_ok_def proc_name_ok_def)
  note g = private_group_full [OF assms]
  have t: "tl (strncpy (CHR 0x23 # s) (Suc k)) = strncpy s k" for s :: string and k
    by (simp add: strncpy_def replicate_append_same [symmetric])
  have nz: "list_all (\<lambda>c. c \<noteq> CHR 0x00) (n @ CHR 0x23 # p)"
    using legal by (auto simp: list_all_iff dest: legal_char_neq)
  have c: "cstr (tl (strncpy (private_group n p) MAX_GROUP_NAME)) = n @ CHR 0x23 # p"
  proof -
    have "MAX_GROUP_NAME = Suc 31" by simp
    then show ?thesis unfolding g using cstr_strncpy [OF nz, of 31] len by (simp only: t) simp
  qed
  have "takeWhile (\<lambda>c. c \<noteq> CHR 0x23) (n @ CHR 0x23 # p) = n"
    by (rule takeWhile_stop) (use legal in \<open>auto simp: list_all_iff dest: legal_char_neq\<close>)
  moreover have "hd (strncpy (private_group n p) MAX_GROUP_NAME) = CHR 0x23" by (simp add: g strncpy_def)
  ultimately show ?thesis using legal len unfolding G_private_to_names_def c Let_def
    by (cases n; cases p) auto
qed

lemma G_private_to_names_ok:
  assumes "G_private_to_names a = Some (n, p)"
  shows "private_name_ok n" and "proc_name_ok p"
  using assms by (auto simp: G_private_to_names_def private_name_ok_def proc_name_ok_def Let_def split: if_splits)

text \<open>A name that can be taken apart is the private group of its parts.\<close>

lemma G_private_to_names_inverse:
  assumes "G_private_to_names a = Some (n, p)" and "a \<noteq> []"
  shows "cstr a = private_group n p"
proof -
  let ?r = "cstr (tl a)"
  have r: "CHR 0x23 \<in> set ?r" "hd a = CHR 0x23" "n = takeWhile (\<lambda>c. c \<noteq> CHR 0x23) ?r" "p = drop (length n + 1) ?r"
    using assms(1) by (auto simp: G_private_to_names_def Let_def split: if_splits)
  obtain ys q where q: "?r = ys @ CHR 0x23 # q" "CHR 0x23 \<notin> set ys" using split_list_first [OF r(1)] by blast
  have "takeWhile (\<lambda>c. c \<noteq> CHR 0x23) ?r = ys" unfolding q(1) by (rule takeWhile_stop [OF q(2)])
  then have s: "?r = n @ CHR 0x23 # q" using r(3) q(1) by simp
  then have "q = p" using r(4) by simp
  moreover have "cstr a = CHR 0x23 # ?r" using r(2) assms(2) by (cases a) (simp_all add: cstr_def)
  ultimately show ?thesis
    using s private_group_full [OF G_private_to_names_ok [OF assms(1)]] by simp
qed

end
