(* ===== verification/Session_IO.thy ===== *)
theory Session_IO
  imports Access_Control Group_Names Sending
begin

text \<open>
  The connections of the sessions (\<open>session.c\<close>): writing a delivered message to a client, retrying
  what its socket did not take, and ending a session. The state of the module is \<open>sess_state\<close>; the
  calls to the event loop and down to the protocol are recorded, in order, in \<open>s_out\<close>.
\<close>

section \<open>Sockets\<close>

text \<open>
  What the operating system will answer on a socket: the results of the coming calls of \<open>send\<close> and
  \<open>recv\<close>, and the bytes the client sends until it closes. A call takes or gives at most what was
  asked for; where no answer is left it fails. \<open>sk_sent\<close> is what the client has been sent.
\<close>

datatype recv_answer = Got nat | Would_block | Failed

record socket =
  sk_send :: "int list"
  sk_recv :: "recv_answer list"
  sk_in :: "byte list"
  sk_sent :: "byte list"

definition sock_send :: "byte list \<Rightarrow> socket \<Rightarrow> int \<times> socket" where
  "sock_send xs k =
     (case sk_send k of
        [] \<Rightarrow> (- 1, k)
      | r # rs \<Rightarrow>
          let r = min r (int (length xs))
          in (r, k\<lparr> sk_send := rs, sk_sent := sk_sent k @ take (nat r) xs \<rparr>))"

text \<open>\<open>n\<close> bytes of a buffer from \<open>from\<close> on.\<close>

definition send_range :: "byte list \<Rightarrow> int \<Rightarrow> int \<Rightarrow> socket \<Rightarrow> (int \<times> socket) result" where
  "send_range buf from n k =
     guard_res (from < 0 \<or> n < 0 \<or> int (length buf) < from + n) (Undefined ''send'')
       (Inr (sock_send (take (nat n) (drop (nat from) buf)) k))"

section \<open>The state\<close>

datatype fd_kind = READ_FD | WRITE_FD | EXCEPT_FD
datatype sess_handler = H_Sess_accept | H_Sess_accept_continue | H_Sess_recv_client_auth | H_Sess_read | H_Sess_badger

datatype sess_effect =
    Attach_fd int fd_kind sess_handler
  | Detach_fd int fd_kind
  | Queue_badger int
  | Dequeue_badger int
  | Queue_accept_continue
  | Dequeue_accept_continue
  | Close int
  | Set_active_threshold int
  | Prot_new_message_call down_link
  | Auth_open nat session_auth_info
  | Set_down_queue queue_type
  | Set_delivery_threshold "32 word"

text \<open>
  \<open>Auth_open i sa\<close> is the call of the function \<open>auth_client_connection\<close> of method \<open>i\<close>.
  \<open>new_ses\<close> is the entry \<open>Sessions[MAX_SESSIONS]\<close> of the connection that is being accepted. The
  last three fields are constants of the build and of the configuration.
\<close>

record sess_state =
  table :: sess_table
  new_ses :: session
  Num_sessions :: int
  my_name :: string
  Session_threshold :: int
  Protocol_threshold :: int
  Accept_mboxes :: "int list"
  Accept_unix_mbox :: int
  socks :: "int \<Rightarrow> socket"
  s_out :: "sess_effect list"
  MAX_SESSIONS :: nat
  sizeof_body :: int
  max_session_messages :: int

abbreviation ses_of :: "sess_state \<Rightarrow> nat \<Rightarrow> session" where
  "ses_of s i \<equiv> Sessions (table s) i"

definition s_emit :: "sess_effect list \<Rightarrow> sess_state \<Rightarrow> sess_state" where
  "s_emit es s = s\<lparr> s_out := s_out s @ es \<rparr>"

definition upd_ses :: "nat \<Rightarrow> (session \<Rightarrow> session) \<Rightarrow> sess_state \<Rightarrow> sess_state" where
  "upd_ses i f s = s\<lparr> table := upd_session i f (table s) \<rparr>"

definition set_sock :: "int \<Rightarrow> socket \<Rightarrow> sess_state \<Rightarrow> sess_state" where
  "set_sock mbox k s = s\<lparr> socks := (socks s)(mbox := k) \<rparr>"

text \<open>An index that a lookup returned: a number below \<open>MAX_SESSIONS\<close>, or none.\<close>

definition valid_ses :: "int \<Rightarrow> sess_state \<Rightarrow> bool" where
  "valid_ses ses s \<longleftrightarrow> 0 \<le> ses \<and> ses < int (MAX_SESSIONS s)"

section \<open>Thresholds\<close>

abbreviation (input) LOW_PRIORITY :: int where "LOW_PRIORITY \<equiv> 0"
abbreviation (input) MEDIUM_LEVEL :: int where "MEDIUM_LEVEL \<equiv> 1"

definition Sess_set_active_threshold :: "sess_state \<Rightarrow> sess_state" where
  "Sess_set_active_threshold s =
     s_emit [Set_active_threshold (if Protocol_threshold s > Session_threshold s then Protocol_threshold s
                                   else Session_threshold s)] s"

definition Sess_block_users_level :: "sess_state \<Rightarrow> sess_state" where
  "Sess_block_users_level s =
     (if Protocol_threshold s < MEDIUM_LEVEL then Sess_set_active_threshold (s\<lparr> Protocol_threshold := MEDIUM_LEVEL \<rparr>)
      else s)"

definition Sess_unblock_users_level :: "sess_state \<Rightarrow> sess_state" where
  "Sess_unblock_users_level s =
     (if Protocol_threshold s > LOW_PRIORITY then Sess_set_active_threshold (s\<lparr> Protocol_threshold := LOW_PRIORITY \<rparr>)
      else s)"

section \<open>Ending a session\<close>

text \<open>
  The loop that disposes of the queued messages follows \<open>first\<close> as often as \<open>num_mess\<close> says.
\<close>

definition Sess_clear_session :: "nat \<Rightarrow> sess_state \<Rightarrow> sess_state result" where
  "Sess_clear_session i s =
     (let m = s_mbox (ses_of s i)
      in guard_res (int (length (s_links (ses_of s i))) < s_num_mess (ses_of s i)) (Undefined ''Sess_clear_session'')
           (Inr (s_emit [Dequeue_badger m, Detach_fd m READ_FD, Detach_fd m EXCEPT_FD, Detach_fd m WRITE_FD]
             (upd_ses i (\<lambda>e. e\<lparr> s_links := [], s_num_mess := min 0 (s_num_mess e), s_read_mess := None,
                s_read := Message_reset_current_location\<lparr> in_mess_head := 1 \<rparr>, s_write := Message_reset_current_location,
                s_status := Clear_status OP_SESSION (s_status e) \<rparr>) s))))"

definition Sess_kill :: "int \<Rightarrow> sess_state \<Rightarrow> sess_state result option" where
  "Sess_kill mbox s =
     map_option (\<lambda>ses.
       if \<not> valid_ses ses s then Inr s
       else let i = nat ses;
                e = ses_of s i;
                kill_mess = Message_create_message (sizeof_body s) (KILL_MESS OR SAFE_MESS) (private_group (s_name e) (my_name s))
            in guard_res (\<not> Is_op_session (s_status e) \<and> Is_preauth_session (s_status e)) (Alarm_exit ''Sess_kill'')
                 (case Prot_Create_Down_Link kill_mess (Message_get_packet_type (mh_type (Message_get_message_header kill_mess))) of
                    None \<Rightarrow> Inl (Undefined ''Sess_kill'')
                  | Some l \<Rightarrow> Sess_clear_session i (s_emit [Prot_new_message_call l] s)))
       (Sess_get_session_index mbox (table s))"

section \<open>Retrying\<close>

text \<open>
  The loops of \<open>Sess_badger\<close>: over the elements of a message from the current one, and over the
  messages while the socket takes them. The first component says whether it did.
\<close>

fun badger_elements ::
    "scatter \<Rightarrow> int \<Rightarrow> partial_message_info \<Rightarrow> socket \<Rightarrow> (bool \<times> partial_message_info \<times> socket) result" where
  "badger_elements [] from w k = Inr (True, w, k)"
| "badger_elements (e # es) from w k =
     (let bytes_to_send = se_len e - from
      in bind_res (send_range (se_buf e) from bytes_to_send k) (\<lambda>(ret, k).
           if ret = bytes_to_send
           then badger_elements es 0 (w\<lparr> pm_cur_byte := 0, pm_cur_element := pm_cur_element w + 1 \<rparr>) k
           else Inr (False, if ret > 0 then w\<lparr> pm_cur_byte := pm_cur_byte w + ret \<rparr> else w, k)))"

definition badger_message ::
    "scatter \<Rightarrow> partial_message_info \<Rightarrow> socket \<Rightarrow> (bool \<times> partial_message_info \<times> socket) result" where
  "badger_message m w k =
     bind_res
       (if in_mess_head w = 1 then
          (let from = pm_cur_byte w;
               bytes_to_send = sizeof_message_header - from
           in bind_res (send_range (se_buf (hd m)) from bytes_to_send k) (\<lambda>(ret, k).
                if ret = bytes_to_send then Inr (True, Message_set_location_begin_body w, k)
                else Inr (False, if ret > 0 then w\<lparr> pm_cur_byte := from + ret \<rparr> else w, k)))
        else Inr (True, w, k))
       (\<lambda>(able_to_write, w, k).
          if able_to_write then badger_elements (drop (nat (pm_cur_element w)) m) (pm_cur_byte w) w k
          else Inr (False, w, k))"

function badger_loop :: "session \<Rightarrow> socket \<Rightarrow> (session \<times> socket) result" where
  "badger_loop e k =
     (if s_num_mess e > 0 then
        (case s_links e of
           [] \<Rightarrow> Inl (Undefined ''Sess_badger'')
         | m # ms \<Rightarrow>
             (case badger_message m (s_write e) k of
                Inl err \<Rightarrow> Inl err
              | Inr (able_to_write, w, k) \<Rightarrow>
                  if able_to_write
                  then badger_loop (e\<lparr> s_links := ms, s_num_mess := s_num_mess e - 1, s_write := Message_reset_current_location \<rparr>) k
                  else Inr (e\<lparr> s_write := w \<rparr>, k)))
      else Inr (e, k))"
  by pat_completeness auto
termination
  by (relation "measure (\<lambda>(e, k). length (s_links e))") auto

declare badger_loop.simps [simp del]

definition Sess_badger :: "int \<Rightarrow> sess_state \<Rightarrow> sess_state result option" where
  "Sess_badger mbox s =
     map_option (\<lambda>ses.
       let i = nat ses
       in if \<not> valid_ses ses s \<or> \<not> Is_op_session (s_status (ses_of s i)) \<or> s_num_mess (ses_of s i) \<le> 0
          then Inr (s_emit [Dequeue_badger mbox, Detach_fd mbox WRITE_FD] s)
          else bind_res (badger_loop (ses_of s i) (socks s mbox)) (\<lambda>(e, k).
                 let s = set_sock mbox k (upd_ses i (\<lambda>_. e) s)
                 in Inr (s_emit (if s_num_mess e > 0 then [Queue_badger mbox, Attach_fd mbox WRITE_FD H_Sess_badger]
                                 else [Dequeue_badger mbox, Detach_fd mbox WRITE_FD]) s)))
       (Sess_get_session_index mbox (table s))"

section \<open>Writing a message\<close>

text \<open>
  Sending a message to an idle client: its header, the rest of its first buffer and the other
  buffers, until the socket takes less than all of one. The result is the number of bytes sent.
\<close>

fun send_rest :: "scatter \<Rightarrow> socket \<Rightarrow> (int \<times> socket) result" where
  "send_rest [] k = Inr (0, k)"
| "send_rest (e # es) k =
     bind_res (send_range (se_buf e) 0 (se_len e) k) (\<lambda>(ret, k).
       let sent = (if ret > 0 then ret else 0)
       in if ret \<noteq> se_len e then Inr (sent, k)
          else bind_res (send_rest es k) (\<lambda>(n, k). Inr (sent + n, k)))"

definition write_first :: "scatter \<Rightarrow> socket \<Rightarrow> (int \<times> socket) result" where
  "write_first m k =
     bind_res (send_range (se_buf (hd m)) 0 sizeof_message_header k) (\<lambda>(ret, k).
       let sent = (if ret > 0 then ret else 0)
       in if ret \<noteq> sizeof_message_header then Inr (sent, k)
          else let first_data_len = Message_get_first_data_len m
               in bind_res (send_range (se_buf (hd m)) sizeof_message_header first_data_len k) (\<lambda>(ret, k).
                    let sent = sent + (if ret > 0 then ret else 0)
                    in if ret \<noteq> first_data_len then Inr (sent, k)
                       else bind_res (send_rest (tl m) k) (\<lambda>(n, k). Inr (sent + n, k))))"

text \<open>
  \<open>needed\<close> counts the sessions that keep the message; the first one keeps the link itself, the
  others a copy. Messages are values here, so both keep the same. \<open>write_message\<close> is the part of
  \<open>Sess_write\<close> that follows the retry.
\<close>

definition write_message :: "nat \<Rightarrow> scatter \<Rightarrow> int \<Rightarrow> sess_state \<Rightarrow> (int \<times> sess_state) result" where
  "write_message i m needed s =
     (let e = ses_of s i;
          mbox = s_mbox e;
          total_to_send = sum_list (map se_len m)
      in bind_res (if s_num_mess e = 0 then write_first m (socks s mbox) else Inr (0, socks s mbox)) (\<lambda>(len_sent, k).
           let s = set_sock mbox k s
           in if len_sent < total_to_send
              then let w = (if s_num_mess e = 0 then Message_calculate_current_location m len_sent (s_write e) else s_write e);
                       links = (if s_num_mess e = 0 then [m] else s_links e @ [m]);
                       s = upd_ses i (\<lambda>e. e\<lparr> s_links := links, s_num_mess := s_num_mess e + 1, s_write := w \<rparr>) s
                   in Inr (if needed \<noteq> 0 then needed + 1 else 1,
                           s_emit (if s_num_mess e = 0 then [Queue_badger mbox, Attach_fd mbox WRITE_FD H_Sess_badger] else []) s)
              else Inr (needed, s)))"

definition Sess_write :: "nat \<Rightarrow> scatter \<Rightarrow> int \<Rightarrow> sess_state \<Rightarrow> (int \<times> sess_state) result option" where
  "Sess_write i m needed s =
     (if \<not> Is_op_session (s_status (ses_of s i)) then Some (Inr (needed, s))
      else if s_num_mess (ses_of s i) \<ge> max_session_messages s
      then map_option (\<lambda>r. bind_res r (\<lambda>s. Inr (needed, s))) (Sess_kill (s_mbox (ses_of s i)) s)
      else map_option (\<lambda>r. bind_res r (write_message i m needed))
             (if s_num_mess (ses_of s i) > 0 then Sess_badger (s_mbox (ses_of s i)) s else Some (Inr s)))"

end
