(* ===== verification/Session_Read.thy ===== *)
theory Session_Read
  imports Session_IO
begin

text \<open>
  Reading from a client (\<open>session.c\<close>): a message is put together from what the socket gives at a
  time, its header is checked, the access control policy is asked, and the message goes down to
  the protocol. A message that the policy rejects goes back to its sender.
\<close>

section \<open>Receiving\<close>

text \<open>
  The result of \<open>recv\<close>, whether a failure was one of \<open>EINTR\<close>, \<open>EAGAIN\<close> and \<open>EWOULDBLOCK\<close>, and the
  bytes. At the end of the client's stream the result is 0.
\<close>

definition sock_recv :: "int \<Rightarrow> socket \<Rightarrow> int \<times> bool \<times> byte list \<times> socket" where
  "sock_recv n k =
     (case sk_recv k of
        [] \<Rightarrow> (- 1, True, [], k)
      | a # rs \<Rightarrow>
          let k = k\<lparr> sk_recv := rs \<rparr>
          in case a of
               Would_block \<Rightarrow> (- 1, True, [], k)
             | Failed \<Rightarrow> (- 1, False, [], k)
             | Got g \<Rightarrow>
                 let r = min g (min (nat n) (length (sk_in k)))
                 in (int r, False, take r (sk_in k), k\<lparr> sk_in := drop r (sk_in k) \<rparr>))"

datatype read_step = Read_complete | Read_partial | Read_error

definition write_element :: "nat \<Rightarrow> nat \<Rightarrow> byte list \<Rightarrow> scatter \<Rightarrow> scatter" where
  "write_element i off bytes m = m[i := (m ! i)\<lparr> se_buf := write_at off bytes (se_buf (m ! i)) \<rparr>]"

definition read_header ::
    "scatter \<Rightarrow> partial_message_info \<Rightarrow> socket \<Rightarrow> read_step \<times> scatter \<times> partial_message_info \<times> socket" where
  "read_header m w k =
     (let remain = sizeof_message_header - pm_cur_byte w;
          (ret, again, bytes, k) = sock_recv remain k;
          m' = write_element 0 (nat (pm_cur_byte w)) bytes m;
          w' = w\<lparr> pm_cur_byte := pm_cur_byte w + ret \<rparr>
      in if ret = remain then (Read_complete, m', Message_set_location_begin_body w', k)
         else if ret > 0 then (Read_partial, m', w', k)
         else if again then (Read_partial, m, w, k)
         else (Read_error, m, w, k))"

text \<open>The loop over the body. Every round takes an answer of the socket.\<close>

function read_body ::
    "int \<Rightarrow> int \<Rightarrow> scatter \<Rightarrow> partial_message_info \<Rightarrow> socket \<Rightarrow>
     (read_step \<times> scatter \<times> partial_message_info \<times> socket) result" where
  "read_body bs remain m w k =
     (if remain \<le> 0 then Inr (Read_complete, m, w, k)
      else
        (case (if int (length m) \<le> pm_cur_element w
               then guard_res (pm_cur_byte w \<noteq> 0) (Alarm_exit ''Sess_read'') (Message_add_scat_element bs m) else Inr m) of
           Inl e \<Rightarrow> Inl e
         | Inr m \<Rightarrow>
             let to_read = (if bs - pm_cur_byte w > remain then remain else bs - pm_cur_byte w)
             in if to_read < 0 then Inl (Undefined ''Sess_read'')
                else (case sock_recv to_read k of
                  (ret, again, bytes, k') \<Rightarrow>
                    let m' = write_element (nat (pm_cur_element w)) (nat (pm_cur_byte w)) bytes m
                    in if ret = to_read
                       then read_body bs (remain - ret) m'
                              (w\<lparr> pm_cur_byte := 0, pm_cur_element := pm_cur_element w + 1, pm_total_bytes := pm_total_bytes w + ret \<rparr>) k'
                       else if ret > 0
                       then Inr (Read_partial, m',
                              w\<lparr> pm_cur_byte := pm_cur_byte w + ret, pm_total_bytes := pm_total_bytes w + ret \<rparr>, k')
                       else Inr (if again then Read_partial else Read_error, m, w, k'))))"
  by pat_completeness auto
termination
  by (relation "measure (\<lambda>(bs, remain, m, w, k). length (sk_recv k))")
    (auto simp: sock_recv_def Let_def split: list.splits recv_answer.splits if_splits)

declare read_body.simps [simp del]

section \<open>The check of a header\<close>

definition count_bits_set :: "32 word \<Rightarrow> nat \<Rightarrow> nat \<Rightarrow> int" where
  "count_bits_set field first_index last_index = int (length (filter (bit field) [first_index..<last_index]))"

definition MAX_MESSAGE_BODY_LEN :: "int \<Rightarrow> int" where
  "MAX_MESSAGE_BODY_LEN bs = MAX_SCATTER_ELEMENTS * (bs + sizeof_packet_header - 32)"

text \<open>The header as the check leaves it, and whether it passes.\<close>

definition terminate_name :: "message_header \<Rightarrow> message_header" where
  "terminate_name h =
     h\<lparr> mh_private_group_name := (mh_private_group_name h)[MAX_GROUP_NAME - 1 := CHR 0x00] \<rparr>"

definition Sess_validate_read_header :: "int \<Rightarrow> string \<Rightarrow> string \<Rightarrow> message_header \<Rightarrow> bool" where
  "Sess_validate_read_header bs ses_name my h =
     (let type_bits = count_bits_set (mh_type h) 0 6;
          memb_bits = count_bits_set (mh_type h) 16 19
      in if type_bits > 1 \<or> memb_bits > 1 \<or> type_bits + memb_bits \<noteq> 1 then False
         else (case G_private_to_names (mh_private_group_name (terminate_name h)) of
                 None \<Rightarrow> False
               | Some (private_name, proc_name) \<Rightarrow>
                   take MAX_PROC_NAME proc_name = take MAX_PROC_NAME my \<and>
                   take MAX_PRIVATE_NAME private_name = take MAX_PRIVATE_NAME ses_name \<and>
                   \<not> (mh_num_groups h < 0 \<or> mh_num_groups h > MAX_GROUPS_PER_MESSAGE) \<and>
                   mh_hint h AND NOT (0x80000080 OR 0x00ffff00) = 0 \<and>
                   \<not> (mh_data_len h < 0 \<or> mh_data_len h > MAX_MESSAGE_BODY_LEN bs) \<and>
                   \<not> mh_data_len h + int MAX_GROUP_NAME * mh_num_groups h > MAX_MESSAGE_BODY_LEN bs - sizeof_message_header))"

section \<open>One message\<close>

text \<open>
  The part of \<open>Sess_read\<close> that reads; \<open>read_message\<close> is what follows a complete header. \<open>check\<close> is
  the check of the header; \<open>Msg m\<close> is a complete message, with its header in the byte order of
  this daemon.
\<close>

datatype read_result = Wait | Kill | Msg scatter

definition read_size :: "scatter \<Rightarrow> int" where
  "read_size m =
     (let h = Message_get_message_header m in mh_data_len h + int MAX_GROUP_NAME * mh_num_groups h)"

definition read_message ::
    "int \<Rightarrow> session \<Rightarrow> scatter \<Rightarrow> partial_message_info \<Rightarrow> socket \<Rightarrow> (read_result \<times> session \<times> socket) result" where
  "read_message bs e m w k =
     bind_res (read_body bs (read_size m - pm_total_bytes w) m w k) (\<lambda>(step, m, w, k).
       case step of
         Read_partial \<Rightarrow> Inr (Wait, e\<lparr> s_read_mess := Some m, s_read := w \<rparr>, k)
       | Read_error \<Rightarrow> Inr (Kill, e\<lparr> s_read_mess := Some m, s_read := w \<rparr>, k)
       | Read_complete \<Rightarrow>
           bind_res (Message_element_len_fixup bs m) (\<lambda>m.
             Inr (Msg m, e\<lparr> s_read_mess := None, s_read := Message_reset_current_location\<lparr> in_mess_head := 1 \<rparr> \<rparr>, k)))"

definition native_header :: "message_header \<Rightarrow> message_header" where
  "native_header h =
     (let h = (if Same_endian (mh_type h) then h else Flip_mess h) in h\<lparr> mh_type := Set_endian (mh_type h) \<rparr>)"

definition read_session ::
    "int \<Rightarrow> (message_header \<Rightarrow> bool) \<Rightarrow> session \<Rightarrow> socket \<Rightarrow> (read_result \<times> session \<times> socket) result" where
  "read_session bs check e k =
     (let m = (case s_read_mess e of None \<Rightarrow> Message_new_message bs | Some m \<Rightarrow> m)
      in if in_mess_head (s_read e) = 1 then
           (case read_header m (s_read e) k of
              (Read_partial, m, w, k) \<Rightarrow> Inr (Wait, e\<lparr> s_read_mess := Some m, s_read := w \<rparr>, k)
            | (Read_error, m, w, k) \<Rightarrow> Inr (Kill, e\<lparr> s_read_mess := Some m, s_read := w \<rparr>, k)
            | (Read_complete, m, w, k) \<Rightarrow>
                let h = native_header (Message_get_message_header m)
                in if \<not> check h then Inr (Kill, e\<lparr> s_read_mess := Some m, s_read := w \<rparr>, k)
                   else read_message bs e (set_header (terminate_name h) m) w k)
         else read_message bs e m (s_read e) k)"

section \<open>What is done with it\<close>

definition Sess_get_p2p_dests :: "string list \<Rightarrow> string list" where
  "Sess_get_p2p_dests groups = filter (\<lambda>g. take 1 g = [CHR 0x23]) groups"

definition Sess_create_reject_message :: "int \<Rightarrow> scatter \<Rightarrow> scatter result" where
  "Sess_create_reject_message bs m =
     (let h = Message_get_message_header m;
          old_type = mh_type h;
          t = Set_endian REJECT_MESS OR (if has_mess old_type SELF_DISCARD then SELF_DISCARD else 0)
      in Message_add_oldtype_to_reject bs (set_header (h\<lparr> mh_type := t \<rparr>) m) old_type)"

text \<open>
  The end of \<open>Sess_deliver_message\<close>: the message is written to the target sessions, except to a
  local sender that asked for it. A target below 0 is not a session.
\<close>

fun write_targets :: "int \<Rightarrow> int list \<Rightarrow> scatter \<Rightarrow> int \<Rightarrow> sess_state \<Rightarrow> sess_state result option" where
  "write_targets source [] m needed s = Some (Inr s)"
| "write_targets source (t # ts) m needed s =
     (if source = t then write_targets source ts m needed s
      else if \<not> valid_ses t s then Some (Inl (Undefined ''Sess_write''))
      else (case Sess_write (nat t) m needed s of
              None \<Rightarrow> None
            | Some (Inl e) \<Rightarrow> Some (Inl e)
            | Some (Inr (needed, s)) \<Rightarrow> write_targets source ts m needed s))"

definition source_session :: "message_header \<Rightarrow> int list \<Rightarrow> sess_state \<Rightarrow> int result option" where
  "source_session h targets s =
     (if targets \<noteq> [] \<and> has_mess (mh_type h) SELF_DISCARD
      then (case G_private_to_names (mh_private_group_name h) of
              None \<Rightarrow> Some (Inl (Undefined ''Sess_deliver_message''))
            | Some (private_name, proc_name) \<Rightarrow>
                if my_name s = proc_name then map_option Inr (Sess_get_session private_name (table s)) else Some (Inr (- 1)))
      else Some (Inr (- 1)))"

definition deliver_to :: "scatter \<Rightarrow> int list \<Rightarrow> sess_state \<Rightarrow> sess_state result option" where
  "deliver_to m targets s =
     (case source_session (Message_get_message_header m) targets s of
        None \<Rightarrow> None
      | Some (Inl e) \<Rightarrow> Some (Inl e)
      | Some (Inr source) \<Rightarrow> write_targets source targets m 0 s)"

definition Sess_deliver_reject :: "scatter \<Rightarrow> sess_state \<Rightarrow> sess_state result option" where
  "Sess_deliver_reject m s =
     (case G_private_to_names (mh_private_group_name (Message_get_message_header m)) of
        None \<Rightarrow> Some (Inl (Undefined ''Sess_deliver_message''))
      | Some (private_name, proc_name) \<Rightarrow>
          (case Sess_get_session private_name (table s) of
             None \<Rightarrow> None
           | Some t \<Rightarrow> deliver_to m [t] s))"

definition reject_with :: "32 word \<Rightarrow> 32 word \<Rightarrow> scatter \<Rightarrow> sess_state \<Rightarrow> sess_state result option" where
  "reject_with off on m s =
     (let h = Message_get_message_header m
      in case Sess_create_reject_message (sizeof_body s) (set_header (h\<lparr> mh_type := (mh_type h AND NOT off) OR on \<rparr>) m) of
           Inl e \<Rightarrow> Some (Inl e)
         | Inr m \<Rightarrow> Sess_deliver_reject m s)"

text \<open>
  The access control checks; \<open>num_local\<close> is \<open>G_get_num_local\<close>. \<open>Allow\<close> lets the message pass, the
  others give the bits of the type that are cleared and set before it is rejected. A message that
  passed the check of its header is not both a join and a leave.
\<close>

datatype decision = Allow | Reject "32 word" "32 word"

definition MAX_LOCAL_GROUP_MEMBERS :: int where
  "MAX_LOCAL_GROUP_MEMBERS = (100000 - (8 + 1) - (int MAX_GROUP_NAME + 12 + 2 + 2) - (4 + 8 + 2)) div int MAX_GROUP_NAME"

definition access_decision :: "(string \<Rightarrow> int) \<Rightarrow> acp_ops \<Rightarrow> scatter \<Rightarrow> decision result" where
  "access_decision num_local ops m =
     (let h = Message_get_message_header m;
          t = mh_type h;
          user = cstr (mh_private_group_name h)
      in bind_res
           (if has_mess t LEAVE_MESS then
              bind_res (Message_get_first_group m) (\<lambda>group.
                Inr (if leave_group ops user group then Allow else Reject LEAVE_MESS CAUSED_BY_LEAVE))
            else if has_mess t JOIN_MESS then
              bind_res (Message_get_first_group m) (\<lambda>group.
                Inr (if num_local group = MAX_LOCAL_GROUP_MEMBERS \<or> \<not> join_group ops user group
                     then Reject JOIN_MESS CAUSED_BY_JOIN else Allow))
            else Inr Allow)
           (\<lambda>d. if d = Allow \<and> Is_only_regular_mess t then
                  bind_res (Message_get_groups_array m) (\<lambda>b.
                    let groups = groups_of b (mh_num_groups h);
                        p2p = Sess_get_p2p_dests groups;
                        mess_type = sint (ucast (drop_bit 8 (mh_hint h)) :: 16 word)
                    in Inr (if p2p \<noteq> [] \<and> \<not> p2p_send ops user p2p t mess_type then Reject 0 0
                            else if length groups > length p2p \<and> \<not> mcast_send ops user groups t mess_type then Reject 0 0
                            else Allow))
                else Inr d))"

definition pass_down :: "nat \<Rightarrow> scatter \<Rightarrow> sess_state \<Rightarrow> sess_state result option" where
  "pass_down i m s =
     (let t = mh_type (Message_get_message_header m)
      in case Prot_Create_Down_Link m (Message_get_packet_type t) of
           None \<Rightarrow> Sess_kill (s_mbox (ses_of s i)) s
         | Some l \<Rightarrow>
             Some (bind_res (if has_mess t KILL_MESS then Sess_clear_session i s else Inr s) (\<lambda>s.
               Inr (s_emit [Prot_new_message_call l] s))))"

definition Sess_read :: "(string \<Rightarrow> int) \<Rightarrow> int \<Rightarrow> sess_state \<Rightarrow> sess_state result option" where
  "Sess_read num_local mbox s =
     (case Sess_get_session_index mbox (table s) of
        None \<Rightarrow> None
      | Some ses \<Rightarrow>
          if \<not> valid_ses ses s then Some (Inr s)
          else let i = nat ses;
                   check = Sess_validate_read_header (sizeof_body s) (s_name (ses_of s i)) (my_name s)
               in (case read_session (sizeof_body s) check (ses_of s i) (socks s mbox) of
                     Inl e \<Rightarrow> Some (Inl e)
                   | Inr (r, e, k) \<Rightarrow>
                       let s = set_sock mbox k (upd_ses i (\<lambda>_. e) s)
                       in case r of
                            Wait \<Rightarrow> Some (Inr s)
                          | Kill \<Rightarrow> Sess_kill mbox s
                          | Msg m \<Rightarrow>
                              (case access_decision num_local (s_acp_ops e) m of
                                 Inl e \<Rightarrow> Some (Inl e)
                               | Inr Allow \<Rightarrow> pass_down i m s
                               | Inr (Reject off on) \<Rightarrow> reject_with off on m s)))"

end
