(* ===== verification/Session_Accept.thy ===== *)
theory Session_Accept
  imports Session_Read
begin

text \<open>
  How a client becomes a session (\<open>session.c\<close>): its connection is accepted, its version and its
  private name are read, the methods it names authenticate it, and the session is authorized or
  denied. Answers of the operating system are arguments: the mailbox and the address that \<open>accept\<close>
  returned, and the numbers \<open>get_rand\<close> gives.
\<close>

section \<open>Accepting\<close>

definition Sess_attach_accept :: "sess_state \<Rightarrow> sess_state" where
  "Sess_attach_accept s =
     s_emit (concat (map (\<lambda>m. [Attach_fd m READ_FD H_Sess_accept, Attach_fd m EXCEPT_FD H_Sess_accept]) (Accept_mboxes s)) @
             [Attach_fd (Accept_unix_mbox s) READ_FD H_Sess_accept]) s"

definition Sess_detach_accept :: "sess_state \<Rightarrow> sess_state" where
  "Sess_detach_accept s =
     s_emit (concat (map (\<lambda>m. [Detach_fd m READ_FD, Detach_fd m EXCEPT_FD]) (Accept_mboxes s)) @
             [Detach_fd (Accept_unix_mbox s) READ_FD]) s"

text \<open>Sending without looking at the result, and the reply that rejects a connection.\<close>

definition send_bytes :: "int \<Rightarrow> byte list \<Rightarrow> sess_state \<Rightarrow> sess_state" where
  "send_bytes mbox xs s = set_sock mbox (snd (sock_send xs (socks s mbox))) s"

abbreviation (input) ACCEPT_SESSION :: int where "ACCEPT_SESSION \<equiv> 1"
abbreviation (input) REJECT_QUOTA :: int where "REJECT_QUOTA \<equiv> - 3"
abbreviation (input) REJECT_ILLEGAL_NAME :: int where "REJECT_ILLEGAL_NAME \<equiv> - 5"
abbreviation (input) REJECT_NOT_UNIQUE :: int where "REJECT_NOT_UNIQUE \<equiv> - 6"
abbreviation (input) REJECT_VERSION :: int where "REJECT_VERSION \<equiv> - 7"
abbreviation (input) REJECT_AUTH :: int where "REJECT_AUTH \<equiv> - 9"

definition close_new :: "sess_state \<Rightarrow> sess_state" where
  "close_new s = s_emit [Close (s_mbox (new_ses s))] s"

definition reject_new :: "int \<Rightarrow> sess_state \<Rightarrow> sess_state" where
  "reject_new response s = close_new (send_bytes (s_mbox (new_ses s)) [word_of_int response] s)"

definition Sess_accept :: "int \<Rightarrow> 32 word option \<Rightarrow> sess_state \<Rightarrow> sess_state result option" where
  "Sess_accept accepted addr s =
     (let s = s\<lparr> new_ses := (new_ses s)\<lparr> s_mbox := accepted, s_addr := addr \<rparr> \<rparr>
      in if accepted = - 1 then Some (Inr s)
         else if Num_sessions s \<ge> int (MAX_SESSIONS s) then Some (Inr (reject_new REJECT_QUOTA s))
         else map_option (\<lambda>i.
                guard_res (i \<noteq> - 1 \<and> s_mbox (ses_of s (nat i)) = accepted \<and> Is_op_session (s_status (ses_of s (nat i))))
                  (Alarm_exit ''Sess_accept'')
                  (Inr (s_emit [Attach_fd accepted READ_FD H_Sess_accept_continue, Attach_fd accepted EXCEPT_FD H_Sess_accept_continue,
                     Queue_accept_continue] (Sess_detach_accept s))))
                (Sess_get_session_index accepted (table s)))"

section \<open>Authorizing and denying\<close>

definition Sess_session_denied :: "nat \<Rightarrow> sess_state \<Rightarrow> sess_state result option" where
  "Sess_session_denied i s =
     (if \<not> Is_preauth_session (s_status (ses_of s i)) then Some (Inl (Alarm_exit ''Sess_session_denied''))
      else let mbox = s_mbox (ses_of s i);
               s = send_bytes mbox [word_of_int REJECT_AUTH] s
           in map_option (\<lambda>r. bind_res r (\<lambda>t.
                Inr (s_emit [Close mbox] (s\<lparr> table := t, Num_sessions := Num_sessions s - 1 \<rparr>))))
                (drop_session i (table s)))"

text \<open>The version of the daemon is 5.0.1; \<open>lib_version\<close> orders the versions of the library.\<close>

definition lib_version :: "int list \<Rightarrow> int" where
  "lib_version v = v ! 0 * 10000 + v ! 1 * 100 + v ! 2"

definition accept_reply :: "nat \<Rightarrow> sess_state \<Rightarrow> sess_state" where
  "accept_reply i s =
     (let e = ses_of s i;
          name = private_group (s_name e) (my_name s)
      in fold (send_bytes (s_mbox e))
           ([[word_of_int ACCEPT_SESSION], [5], [0]] @ (if lib_version (s_lib_version e) \<ge> 31500 then [[1]] else []) @
            [[word_of_int (int (length name))], bytes_of name]) s)"

definition Sess_session_authorized :: "nat \<Rightarrow> sess_state \<Rightarrow> sess_state result" where
  "Sess_session_authorized i s =
     guard_res (\<not> Is_preauth_session (s_status (ses_of s i))) (Alarm_exit ''Sess_session_authorized'')
       (let mbox = s_mbox (ses_of s i)
        in Inr (upd_ses i (\<lambda>e. e\<lparr> s_num_mess := 0,
                  s_status := Clear_status PRE_AUTH_SESSION (Set_status OP_SESSION (s_status e)),
                  s_read := Message_reset_current_location\<lparr> in_mess_head := 1 \<rparr>, s_write := Message_reset_current_location \<rparr>)
                (s_emit [Attach_fd mbox READ_FD H_Sess_read, Attach_fd mbox EXCEPT_FD H_Sess_read] (accept_reply i s))))"

section \<open>Authentication\<close>

definition Sess_session_report_auth_result ::
    "acm_state \<Rightarrow> session_auth_info \<Rightarrow> bool \<Rightarrow> sess_state \<Rightarrow> sess_state result option" where
  "Sess_session_report_auth_result a sa authenticated s =
     (case Sess_get_session_index (sa_mbox sa) (table s) of
        None \<Rightarrow> None
      | Some ses \<Rightarrow>
          if \<not> valid_ses ses s then Some (Inr s)
          else if \<not> sa_completed sa < length (sa_results sa) then Some (Inl (Undefined ''Sess_session_report_auth_result''))
          else let i = nat ses;
                   sa = sa\<lparr> sa_results := (sa_results sa)[sa_completed sa := authenticated], sa_completed := sa_completed sa + 1 \<rparr>
               in if sa_completed sa < length (sa_methods sa)
                  then let authid = sa_methods sa ! sa_completed sa
                       in (case Acm_auth_get_auth_client_connection authid a of
                             Inl e \<Rightarrow> Some (Inl e)
                           | Inr True \<Rightarrow> Some (Inr (s_emit [Auth_open authid sa] s))
                           | Inr False \<Rightarrow> Sess_session_denied i s)
                  else let permit_count = length (filter id (take (length (sa_methods sa)) (sa_results sa)))
                       in if permit_count < length (sa_methods sa) then Sess_session_denied i s
                          else if \<not> open_connection (s_acp_ops (ses_of s i)) (s_name (ses_of s i)) then Sess_session_denied i s
                          else Some (Sess_session_authorized i s))"

definition Sess_recv_client_auth :: "acm_state \<Rightarrow> int \<Rightarrow> sess_state \<Rightarrow> sess_state result option" where
  "Sess_recv_client_auth a mbox s =
     (case Sess_get_session_index mbox (table s) of
        None \<Rightarrow> None
      | Some ses \<Rightarrow>
          if \<not> valid_ses ses s then Some (Inr s)
          else let i = nat ses
               in if \<not> Is_preauth_session (s_status (ses_of s i)) then Some (Inl (Alarm_exit ''Sess_recv_client_auth''))
                  else let s = s_emit [Detach_fd mbox READ_FD, Detach_fd mbox EXCEPT_FD] s;
                           (ret, again, bytes, k) = sock_recv (int (MAX_AUTH_NAME * MAX_AUTH_METHODS)) (socks s mbox);
                           s = set_sock mbox k s
                       in if ret < int (MAX_AUTH_NAME * MAX_AUTH_METHODS) then Sess_session_denied i s
                          else (case requested MAX_AUTH_METHODS (chars_of bytes) of
                                  Inl e \<Rightarrow>
                                    if \<exists>j < MAX_AUTH_METHODS.
                                         \<not> Acm_auth_query_allowed (cstr (take MAX_AUTH_NAME (drop (j * MAX_AUTH_NAME) (chars_of bytes)))) a
                                    then Sess_session_denied i s else Some (Inl e)
                                | Inr names \<Rightarrow>
                                    if \<exists>n \<in> set names. \<not> Acm_auth_query_allowed n a then Sess_session_denied i s
                                    else (case bind_res (Acm_acp_fill_ops a) (\<lambda>ops. map_sum id (Pair ops) (Acm_auth_create_sess_info mbox names a)) of
                                            Inl e \<Rightarrow> Some (Inl e)
                                          | Inr (ops, info) \<Rightarrow>
                                              let s = upd_ses i (\<lambda>e. e\<lparr> s_acp_ops := ops \<rparr>) s
                                              in (case info of
                                                    None \<Rightarrow> Sess_session_denied i s
                                                  | Some sa \<Rightarrow>
                                                      (case Acm_auth_get_auth_client_connection (sa_methods sa ! 0) a of
                                                         Inl e \<Rightarrow> Some (Inl e)
                                                       | Inr True \<Rightarrow> Some (Inr (s_emit [Auth_open (sa_methods sa ! 0) sa] s))
                                                       | Inr False \<Rightarrow> Sess_session_denied i s)))))"

section \<open>The private name\<close>

text \<open>Decimal digits, for the names given to clients that ask for none.\<close>

fun digits :: "nat \<Rightarrow> string" where
  "digits n = (if n < 10 then [char_of (48 + n)] else digits (n div 10) @ [char_of (48 + n mod 10)])"

definition random_name :: "nat \<Rightarrow> int \<Rightarrow> string" where
  "random_name rnum mbox =
     take (MAX_PRIVATE_NAME - 1) (''r'' @ digits rnum @ ''-'' @ digits (unat (word_of_int mbox :: 32 word)))"

text \<open>
  The loop draws names until one is new; \<open>rands\<close> are the numbers it will draw, and running out of
  them stands for a loop that does not end.
\<close>

fun accept_random :: "nat list \<Rightarrow> session \<Rightarrow> sess_table \<Rightarrow> (nat \<times> sess_table) result option" where
  "accept_random [] tpl t = None"
| "accept_random (r # rs) tpl t =
     (case accept_session (tpl\<lparr> s_name := random_name r (s_mbox tpl) \<rparr>) t of
        None \<Rightarrow> None
      | Some (Inl e) \<Rightarrow> Some (Inl e)
      | Some (Inr None) \<Rightarrow> accept_random rs tpl t
      | Some (Inr (Some x)) \<Rightarrow> Some (Inr x))"

text \<open>What follows the insertion of the session \<open>i\<close> of a client with the library version \<open>v\<close>.\<close>

definition start_auth :: "acm_state \<Rightarrow> nat \<Rightarrow> int \<Rightarrow> sess_state \<Rightarrow> sess_state result option" where
  "start_auth a i v s =
     (if v < 31600 then
        (case Acm_acp_fill_ops a of
           Inl e \<Rightarrow> Some (Inl e)
         | Inr ops \<Rightarrow>
             let s = upd_ses i (\<lambda>e. e\<lparr> s_acp_ops := ops \<rparr>) s
             in if Acm_auth_query_allowed ''IP'' a
                then Some (bind_res (Acm_auth_create_sess_info_forIP (s_mbox (ses_of s i)) a) (\<lambda>sa.
                       bind_res (Acm_auth_get_auth_client_connection (sa_methods sa ! 0) a) (\<lambda>ok.
                         guard_res (\<not> ok) (Undefined ''Sess_accept_continue'') (Inr (s_emit [Auth_open (sa_methods sa ! 0) sa] s)))))
                else if Acm_auth_query_allowed ''NULL'' a then Some (Sess_session_authorized i s)
                else Sess_session_denied i s)
      else let mbox = s_mbox (ses_of s i);
               allowed = Acm_auth_get_allowed_list a;
               s = send_bytes mbox (bytes_of allowed) (send_bytes mbox [word_of_int (int (length allowed))] s)
           in if allowed = [] then Sess_session_denied i s
              else Some (Inr (s_emit [Attach_fd mbox READ_FD H_Sess_recv_client_auth, Attach_fd mbox EXCEPT_FD H_Sess_recv_client_auth] s)))"

definition add_session :: "acm_state \<Rightarrow> int \<Rightarrow> sess_state \<Rightarrow> (nat \<times> sess_table) result option \<Rightarrow> sess_state result option" where
  "add_session a v s r =
     (case r of
        None \<Rightarrow> None
      | Some (Inl e) \<Rightarrow> Some (Inl e)
      | Some (Inr (i, t)) \<Rightarrow> start_auth a i v (s\<lparr> table := t, Num_sessions := Num_sessions s + 1 \<rparr>))"

text \<open>The name a client asked for, \<open>len\<close> bytes long by its own account.\<close>

definition accept_named :: "acm_state \<Rightarrow> int \<Rightarrow> nat \<Rightarrow> sess_state \<Rightarrow> sess_state result option" where
  "accept_named a v len s =
     (let mbox = s_mbox (new_ses s);
          (ret, again, bytes, k) = sock_recv (int MAX_PRIVATE_NAME) (socks s mbox);
          s = set_sock mbox k s
      in if ret < 0 then Some (Inr (close_new s))
         else if ret \<noteq> int len then Some (Inr (reject_new REJECT_ILLEGAL_NAME s))
         else let name = chars_of (take len bytes);
                  s = s\<lparr> new_ses := (new_ses s)\<lparr> s_name := cstr name \<rparr> \<rparr>
              in if \<not> list_all legal_char name then Some (Inr (reject_new REJECT_ILLEGAL_NAME s))
                 else (case accept_session (new_ses s) (table s) of
                         None \<Rightarrow> None
                       | Some (Inl e) \<Rightarrow> Some (Inl e)
                       | Some (Inr None) \<Rightarrow> Some (Inr (reject_new REJECT_NOT_UNIQUE s))
                       | Some (Inr (Some x)) \<Rightarrow> add_session a v s (Some (Inr x))))"

text \<open>
  The answers of \<open>recv\<close> are short reads: \<open>recv_new n\<close> is \<open>Some\<close> of the bytes when all \<open>n\<close> arrived.
\<close>

definition recv_new :: "nat \<Rightarrow> sess_state \<Rightarrow> byte list option \<times> sess_state" where
  "recv_new n s =
     (let mbox = s_mbox (new_ses s);
          (ret, again, bytes, k) = sock_recv (int n) (socks s mbox)
      in (if ret = int n then Some bytes else None, set_sock mbox k s))"

text \<open>The two bytes after the version: flags, and the length of the name, which are signed.\<close>

definition accept_name :: "acm_state \<Rightarrow> nat list \<Rightarrow> int \<Rightarrow> sess_state \<Rightarrow> sess_state result option" where
  "accept_name a rands v s =
     (case recv_new 2 s of
        (None, s) \<Rightarrow> Some (Inr (close_new s))
      | (Some b, s) \<Rightarrow>
          let conn0 = sint (b ! 0);
              name_len = sint (b ! 1);
              e = (new_ses s)\<lparr> s_status := (if c_mod conn0 2 = 1 then Set_status else Clear_status) MEMB_SESSION (s_status (new_ses s)),
                    s_priority := c_div conn0 16 \<rparr>;
              s = s\<lparr> new_ses := e \<rparr>
          in if name_len > int MAX_PRIVATE_NAME \<or> name_len < 0 then Some (Inr (reject_new REJECT_ILLEGAL_NAME s))
             else if name_len = 0 then add_session a v s (accept_random rands e (table s))
             else accept_named a v (nat name_len) s)"

definition Sess_accept_continue :: "acm_state \<Rightarrow> nat list \<Rightarrow> sess_state \<Rightarrow> sess_state result option" where
  "Sess_accept_continue a rands s =
     (let mbox = s_mbox (new_ses s);
          s = Sess_attach_accept (s_emit [Dequeue_accept_continue, Detach_fd mbox READ_FD, Detach_fd mbox EXCEPT_FD] s)
      in case recv_new 2 s of
           (None, s) \<Rightarrow> Some (Inr (close_new s))
         | (Some b, s) \<Rightarrow>
             (case (if lib_version [sint (b ! 0), sint (b ! 1), 0] > 31400
                    then (case recv_new 1 s of (None, s) \<Rightarrow> (None, s) | (Some c, s) \<Rightarrow> (Some (sint (c ! 0)), s))
                    else (Some 0, s)) of
                (None, s) \<Rightarrow> Some (Inr (close_new s))
              | (Some patch, s) \<Rightarrow>
                  let version = [sint (b ! 0), sint (b ! 1), patch]
                  in if lib_version version < 30100 then Some (Inr (reject_new REJECT_VERSION s))
                     else accept_name a rands (lib_version version) (s\<lparr> new_ses := (new_ses s)\<lparr> s_lib_version := version \<rparr> \<rparr>)))"

section \<open>The end of a session\<close>

text \<open>What \<open>Sess_handle_kill\<close> does with the session of a client that has been killed.\<close>

definition Sess_end_session :: "string \<Rightarrow> string \<Rightarrow> sess_state \<Rightarrow> sess_state result option" where
  "Sess_end_session private_name proc_name s =
     (if my_name s \<noteq> proc_name then Some (Inr s)
      else (case Sess_get_session private_name (table s) of
              None \<Rightarrow> None
            | Some ses \<Rightarrow>
                if ses < 0 then Some (Inr s)
                else if Is_op_session (s_status (ses_of s (nat ses))) then Some (Inl (Alarm_exit ''Sess_handle_kill''))
                else map_option (\<lambda>r. bind_res r (\<lambda>t.
                       Inr (s_emit [Close (s_mbox (ses_of s (nat ses)))] (s\<lparr> table := t, Num_sessions := Num_sessions s - 1 \<rparr>))))
                       (drop_session (nat ses) (table s))))"

end
