(* ===== verification/Session_Table.thy ===== *)
theory Session_Table
  imports Sessions
begin

text \<open>
  The links of the session table as lists, and the table as a sorted list of names with their
  mailboxes: what the operations of \<open>session.c\<close> do to it.
\<close>

section \<open>Linked entries\<close>

primrec linked :: "(nat \<Rightarrow> nat option) \<Rightarrow> nat option \<Rightarrow> nat list \<Rightarrow> bool" where
  "linked nx p [] \<longleftrightarrow> p = None"
| "linked nx p (i # is) \<longleftrightarrow> p = Some i \<and> linked nx (nx i) is"

definition ptr :: "nat list \<Rightarrow> nat option" where
  "ptr xs = (case xs of [] \<Rightarrow> None | i # _ \<Rightarrow> Some i)"

lemma ptr_simps [simp]: "ptr [] = None" "ptr (i # xs) = Some i"
  by (simp_all add: ptr_def)

lemma ptr_eq: "ptr xs = None \<longleftrightarrow> xs = []" "ptr xs = Some i \<longleftrightarrow> (\<exists>ys. xs = i # ys)"
  by (auto simp: ptr_def split: list.splits)

lemma linked_cong: "(\<And>j. j \<in> set xs \<Longrightarrow> nx j = nx' j) \<Longrightarrow> linked nx p xs \<longleftrightarrow> linked nx' p xs"
  by (induction xs arbitrary: p) auto

lemma linked_ptr: "linked nx p xs \<Longrightarrow> p = ptr xs"
  by (cases xs) auto

lemma linked_start: "linked nx p xs \<Longrightarrow> linked nx (ptr xs) xs"
  using linked_ptr by metis

lemma linked_at: "linked nx p (as @ i # bs) \<Longrightarrow> nx i = ptr bs"
  by (induction as arbitrary: p) (auto dest: linked_ptr)

lemma linked_upd:
  "a \<notin> set xs \<Longrightarrow> linked (nx(a := v)) p xs \<longleftrightarrow> linked nx p xs"
  "a \<notin> set xs \<Longrightarrow> linked (\<lambda>b. if b = a then v else nx b) p xs \<longleftrightarrow> linked nx p xs"
  by (rule linked_cong; auto)+

text \<open>Putting an entry between two lists and taking it out.\<close>

definition nx_insert :: "(nat \<Rightarrow> nat option) \<Rightarrow> nat list \<Rightarrow> nat \<Rightarrow> nat list \<Rightarrow> nat \<Rightarrow> nat option" where
  "nx_insert nx as i bs = (if as = [] then nx(i := ptr bs) else nx(i := ptr bs, last as := Some i))"

lemma linked_insert:
  assumes "linked nx p (as @ bs)" and "distinct (as @ bs)" and "i \<notin> set (as @ bs)"
  shows "linked (nx_insert nx as i bs) (if as = [] then Some i else p) (as @ i # bs)"
  using assms
proof (induction as arbitrary: p)
  case Nil
  then have "linked nx (ptr bs) bs" by (auto dest: linked_start)
  then show ?case using Nil by (simp add: nx_insert_def linked_upd)
next
  case (Cons a as)
  show ?case
  proof (cases "as = []")
    case True
    then show ?thesis using Cons.prems by (auto simp: nx_insert_def linked_upd dest: linked_start)
  next
    case False
    have "nx_insert nx (a # as) i bs = nx_insert nx as i bs" using False by (simp add: nx_insert_def)
    moreover have "nx_insert nx as i bs a = nx a" using Cons.prems False by (auto simp: nx_insert_def)
    moreover have "linked (nx_insert nx as i bs) (nx a) (as @ i # bs)"
      using Cons.IH [of "nx a"] Cons.prems False by simp
    ultimately show ?thesis using Cons.prems by simp
  qed
qed

definition nx_remove :: "(nat \<Rightarrow> nat option) \<Rightarrow> nat list \<Rightarrow> nat list \<Rightarrow> nat \<Rightarrow> nat option" where
  "nx_remove nx as bs = (if as = [] then nx else nx(last as := ptr bs))"

lemma linked_remove:
  assumes "linked nx p (as @ i # bs)" and "distinct (as @ i # bs)"
  shows "linked (nx_remove nx as bs) (if as = [] then ptr bs else p) (as @ bs)"
  using assms
proof (induction as arbitrary: p)
  case Nil
  then show ?case by (auto simp: nx_remove_def dest: linked_start)
next
  case (Cons a as)
  show ?case
  proof (cases "as = []")
    case True
    then show ?thesis using Cons.prems by (auto simp: nx_remove_def linked_upd dest: linked_start)
  next
    case False
    have "nx_remove nx (a # as) bs = nx_remove nx as bs" using False by (simp add: nx_remove_def)
    moreover have "nx_remove nx as bs a = nx a" using Cons.prems False by (auto simp: nx_remove_def)
    moreover have "linked (nx_remove nx as bs) (nx a) (as @ bs)"
      using Cons.IH [of "nx a"] Cons.prems False by simp
    ultimately show ?thesis using Cons.prems by simp
  qed
qed

text \<open>A loop over a list that ends returns, with the first entry where it stops.\<close>

lemma scan_linked: "linked nx p xs \<Longrightarrow> scan nx stop p = Some (List.find stop xs)"
proof (induction xs arbitrary: p)
  case Nil
  then show ?case by (simp add: scan.simps)
next
  case (Cons i xs)
  then show ?case by (subst scan.simps) auto
qed

section \<open>The invariant\<close>

text \<open>
  \<open>ss\<close> are the entries in use in the order of their names, \<open>fs\<close> the free ones and \<open>hs b\<close> the
  chain of bucket \<open>b\<close>.
\<close>

definition sort_ok :: "nat \<Rightarrow> sess_table \<Rightarrow> nat list \<Rightarrow> nat list \<Rightarrow> bool" where
  "sort_ok n t ss fs \<longleftrightarrow>
     linked (\<lambda>j. sort_next (Sessions t j)) (Sessions_head t) ss \<and>
     linked (\<lambda>j. sort_prev (Sessions t j)) (Sessions_tail t) (rev ss) \<and>
     linked (\<lambda>j. sort_next (Sessions t j)) (Sessions_free t) fs \<and>
     distinct (ss @ fs) \<and> set (ss @ fs) = {0..<n}"

definition hash_ok :: "sess_table \<Rightarrow> nat set \<Rightarrow> (nat \<Rightarrow> nat list) \<Rightarrow> bool" where
  "hash_ok t hashed hs \<longleftrightarrow>
     (\<forall>b < 256. linked (\<lambda>j. hash_next (Sessions t j)) (Sessions_hash_head t b) (hs b) \<and> distinct (hs b) \<and>
        set (hs b) = {i \<in> hashed. sess_hash (s_mbox (Sessions t i)) = b})"

definition names :: "sess_table \<Rightarrow> nat list \<Rightarrow> string list" where
  "names t ss = map (\<lambda>i. s_name (Sessions t i)) ss"

definition table_ok :: "nat \<Rightarrow> sess_table \<Rightarrow> nat list \<Rightarrow> bool" where
  "table_ok n t ss \<longleftrightarrow> (\<exists>fs hs. sort_ok n t ss fs \<and> hash_ok t (set ss) hs) \<and> sorted_wrt (<) (names t ss) \<and>
     inj_on (\<lambda>i. s_mbox (Sessions t i)) (set ss)"

lemma sess_hash_less: "sess_hash mbox < 256"
proof -
  let ?m = "word_of_int mbox :: 32 word"
  have "(?m AND 0xff) XOR (drop_bit 8 ?m AND 0xff) XOR (drop_bit 16 ?m AND 0xff) XOR (drop_bit 24 ?m AND 0xff)
      = ((?m XOR drop_bit 8 ?m XOR drop_bit 16 ?m XOR drop_bit 24 ?m) AND mask 8)"
    by (rule bit_word_eqI) (auto simp: bit_simps mask_numeral)
  then show ?thesis
    by (simp add: sess_hash_def Let_def take_bit_eq_mask [symmetric] unsigned_take_bit_eq take_bit_eq_mod
        unat_mod)
qed

lemma Sessions_upd_session [simp]:
  "Sessions (upd_session i f t) j = (if j = i then f (Sessions t i) else Sessions t j)"
  "Sessions_hash_head (upd_session i f t) = Sessions_hash_head t" "Sessions_head (upd_session i f t) = Sessions_head t"
  "Sessions_tail (upd_session i f t) = Sessions_tail t" "Sessions_free (upd_session i f t) = Sessions_free t"
  by (simp_all add: upd_session_def)

lemma Sess_init_sort:
  "sort_ok n (Sess_init_sessions n t) [] (rev [0..<n])" "hash_ok (Sess_init_sessions n t) {} (\<lambda>_. [])"
proof -
  let ?t0 = "t\<lparr> Sessions_hash_head := (\<lambda>i. if i < 256 then None else Sessions_hash_head t i),
           Sessions_free := None, Sessions_head := None, Sessions_tail := None \<rparr>"
  have "let t' = fold Sess_free_session [0..<k] ?t0
        in linked (\<lambda>j. sort_next (Sessions t' j)) (Sessions_free t') (rev [0..<k]) \<and> Sessions_head t' = None \<and>
           Sessions_tail t' = None \<and> Sessions_hash_head t' = Sessions_hash_head ?t0" for k
  proof (induction k)
    case (Suc k)
    then show ?case by (auto simp: Sess_free_session_def Let_def linked_upd if_distrib cong: if_cong)
  qed simp
  from this [of n] show "sort_ok n (Sess_init_sessions n t) [] (rev [0..<n])" "hash_ok (Sess_init_sessions n t) {} (\<lambda>_. [])"
    by (auto simp: sort_ok_def hash_ok_def Sess_init_sessions_def Let_def)
qed

section \<open>Inserting a session\<close>

text \<open>What an operation leaves of the other entries, and of the hash table.\<close>

definition contents :: "session \<Rightarrow> session" where
  "contents s = s\<lparr> sort_prev := None, sort_next := None, hash_next := None \<rparr>"

lemma contents_upd [simp]:
  "contents (s\<lparr> sort_next := p \<rparr>) = contents s" "contents (s\<lparr> sort_prev := p \<rparr>) = contents s"
  "contents (s\<lparr> hash_next := p \<rparr>) = contents s"
  by (simp_all add: contents_def)

lemma contents_status:
  assumes "contents s = contents r"
  shows "contents (s\<lparr> s_status := v \<rparr>) = contents (r\<lparr> s_status := v \<rparr>)"
  using assms by (cases s; cases r) (simp add: contents_def)

lemma contents_eqD:
  assumes "contents s = contents r"
  shows "s_name s = s_name r" and "s_mbox s = s_mbox r" and "s_status s = s_status r"
  using arg_cong [OF assms, of s_name] arg_cong [OF assms, of s_mbox] arg_cong [OF assms, of s_status]
  by (simp_all add: contents_def)

definition same_entries :: "nat set \<Rightarrow> sess_table \<Rightarrow> sess_table \<Rightarrow> bool" where
  "same_entries js t t' \<longleftrightarrow> Sessions_hash_head t' = Sessions_hash_head t \<and>
     (\<forall>j \<in> js. contents (Sessions t' j) = contents (Sessions t j) \<and> hash_next (Sessions t' j) = hash_next (Sessions t j))"

lemma same_entriesD:
  assumes "same_entries js t t'" and "j \<in> js"
  shows "s_name (Sessions t' j) = s_name (Sessions t j)" and "s_mbox (Sessions t' j) = s_mbox (Sessions t j)"
  using assms contents_eqD [of "Sessions t' j" "Sessions t j"] by (simp_all add: same_entries_def)

lemma insert_sorted:
  assumes ok: "sort_ok n t (as @ bs) (i # fs)"
  shows "\<exists>t'. Sess_insert_new_session (ptr bs) template t = Inr (i, t') \<and> sort_ok n t' (as @ i # bs) fs \<and>
    same_entries (- {i}) t t' \<and> contents (Sessions t' i) = contents template"
proof -
  let ?N = "\<lambda>j. sort_next (Sessions t j)" and ?P = "\<lambda>j. sort_prev (Sessions t j)"
  have N: "linked ?N (Sessions_head t) (as @ bs)" and P: "linked ?P (Sessions_tail t) (rev bs @ rev as)"
    and F: "Sessions_free t = Some i" "linked ?N (?N i) fs"
    and D: "distinct (as @ bs)" "distinct (rev bs @ rev as)" "i \<notin> set (as @ bs)" "i \<notin> set (rev bs @ rev as)" "i \<notin> set fs"
      "set fs \<inter> set (as @ bs) = {}" "distinct fs" "set (as @ bs @ i # fs) = {0..<n}"
    using ok by (auto simp: sort_ok_def)
  obtain t' where t': "Sess_insert_new_session (ptr bs) template t = Inr (i, t')"
    and links: "(\<lambda>j. sort_next (Sessions t' j)) = nx_insert ?N as i bs"
      "(\<lambda>j. sort_prev (Sessions t' j)) = nx_insert ?P (rev bs) i (rev as)"
      "Sessions_head t' = (if as = [] then Some i else Sessions_head t)"
      "Sessions_tail t' = (if rev bs = [] then Some i else Sessions_tail t)" "Sessions_free t' = ?N i"
    and rest: "same_entries (- {i}) t t'" "contents (Sessions t' i) = contents template"
  proof (cases bs)
    case Nil
    show ?thesis
    proof (cases as rule: rev_cases)
      case Nil
      have "Sessions_tail t = None" using linked_ptr [OF P] Nil \<open>bs = []\<close> by simp
      then show ?thesis
        using that F(1) Nil \<open>bs = []\<close>
        by (simp add: Sess_insert_new_session_def Sess_get_free_session_def Let_def nx_insert_def same_entries_def fun_eq_iff)
    next
      case (snoc as' l)
      have "Sessions_tail t = Some l" "l \<noteq> i" using linked_ptr [OF P] snoc \<open>bs = []\<close> D(3) by auto
      then show ?thesis
        using that F(1) snoc \<open>bs = []\<close>
        by (simp add: Sess_insert_new_session_def Sess_get_free_session_def Let_def nx_insert_def same_entries_def fun_eq_iff)
    qed
  next
    case (Cons w bs')
    have pw: "?P w = ptr (rev as)" using linked_at [of ?P "Sessions_tail t" "rev bs'" w "rev as"] P Cons by simp
    have wi: "w \<noteq> i" "i \<noteq> w" using D(3) Cons by auto
    show ?thesis
    proof (cases as rule: rev_cases)
      case Nil
      then show ?thesis
        using that F(1) Cons pw wi
        by (simp add: Sess_insert_new_session_def Sess_get_free_session_def Let_def nx_insert_def same_entries_def fun_eq_iff)
    next
      case (snoc as' l)
      have "l \<noteq> i" "l \<noteq> w" "w \<noteq> l" using D(1,3) snoc Cons by auto
      then show ?thesis
        using that F(1) Cons snoc pw wi
        by (simp add: Sess_insert_new_session_def Sess_get_free_session_def Let_def nx_insert_def same_entries_def fun_eq_iff)
    qed
  qed
  have "linked (\<lambda>j. sort_next (Sessions t' j)) (Sessions_free t') fs"
  proof -
    have "nx_insert ?N as i bs j = ?N j" if j: "j \<in> set fs" for j
    proof -
      have "j \<notin> set as" "j \<noteq> i" using j D(5,6) by auto
      then have "as \<noteq> [] \<Longrightarrow> j \<noteq> last as" using last_in_set by metis
      then show ?thesis using \<open>j \<noteq> i\<close> by (simp add: nx_insert_def)
    qed
    then show ?thesis unfolding links using F(2) linked_cong [of fs "nx_insert ?N as i bs" ?N] by simp
  qed
  moreover have "linked (\<lambda>j. sort_next (Sessions t' j)) (Sessions_head t') (as @ i # bs)"
    unfolding links using linked_insert [OF N D(1,3)] by simp
  moreover have "linked (\<lambda>j. sort_prev (Sessions t' j)) (Sessions_tail t') (rev (as @ i # bs))"
    unfolding links using linked_insert [OF P D(2,4)] by simp
  moreover have "distinct ((as @ i # bs) @ fs)" "set ((as @ i # bs) @ fs) = {0..<n}" using D by auto
  ultimately have "sort_ok n t' (as @ i # bs) fs" by (simp add: sort_ok_def)
  then show ?thesis using t' rest by blast
qed

section \<open>Removing a session\<close>

lemma remove_sorted:
  assumes ok: "sort_ok n t (as @ i # bs) fs"
  shows "sort_ok n (Sess_remove_session i t) (as @ bs) (i # fs)" and "same_entries (- {i}) t (Sess_remove_session i t)"
proof -
  let ?t = "Sess_remove_session i t"
  let ?N = "\<lambda>j. sort_next (Sessions t j)" and ?P = "\<lambda>j. sort_prev (Sessions t j)"
  have N: "linked ?N (Sessions_head t) (as @ i # bs)" and P: "linked ?P (Sessions_tail t) (rev bs @ i # rev as)"
    and F: "linked ?N (Sessions_free t) fs"
    and D: "distinct (as @ i # bs)" "distinct (rev bs @ i # rev as)" "set fs \<inter> set (as @ i # bs) = {}" "distinct fs"
      "set (as @ i # bs @ fs) = {0..<n}"
    using ok by (auto simp: sort_ok_def)
  have at: "?N i = ptr bs" "?P i = ptr (rev as)" using linked_at [OF N] linked_at [OF P] by simp_all
  have links: "j \<noteq> i \<Longrightarrow> sort_next (Sessions ?t j) = nx_remove ?N as bs j"
      "j \<noteq> i \<Longrightarrow> sort_prev (Sessions ?t j) = nx_remove ?P (rev bs) (rev as) j"
      "sort_next (Sessions ?t i) = Sessions_free t"
      "Sessions_head ?t = (if as = [] then ptr bs else Sessions_head t)"
      "Sessions_tail ?t = (if rev bs = [] then ptr (rev as) else Sessions_tail t)" "Sessions_free ?t = Some i"
      "same_entries (- {i}) t ?t" for j
  proof -
    consider "as = []" "bs = []" | w bs' where "as = []" "bs = w # bs'" | l as' where "as = as' @ [l]" "bs = []"
      | l as' w bs' where "as = as' @ [l]" "bs = w # bs'"
      by (cases as rule: rev_cases; cases bs) auto
    then have "(j \<noteq> i \<longrightarrow> sort_next (Sessions ?t j) = nx_remove ?N as bs j) \<and>
      (j \<noteq> i \<longrightarrow> sort_prev (Sessions ?t j) = nx_remove ?P (rev bs) (rev as) j) \<and>
      sort_next (Sessions ?t i) = Sessions_free t \<and>
      Sessions_head ?t = (if as = [] then ptr bs else Sessions_head t) \<and>
      Sessions_tail ?t = (if rev bs = [] then ptr (rev as) else Sessions_tail t) \<and> Sessions_free ?t = Some i \<and>
      same_entries (- {i}) t ?t"
    proof cases
      case 1
      then show ?thesis using at
        by (simp add: Sess_remove_session_def Sess_free_session_def Let_def nx_remove_def same_entries_def)
    next
      case 2
      then show ?thesis using at D(1)
        by (simp add: Sess_remove_session_def Sess_free_session_def Let_def nx_remove_def same_entries_def)
    next
      case 3
      then show ?thesis using at D(1)
        by (simp add: Sess_remove_session_def Sess_free_session_def Let_def nx_remove_def same_entries_def)
    next
      case 4
      then show ?thesis using at D(1)
        by (simp add: Sess_remove_session_def Sess_free_session_def Let_def nx_remove_def same_entries_def)
    qed
    then show "j \<noteq> i \<Longrightarrow> sort_next (Sessions ?t j) = nx_remove ?N as bs j"
      "j \<noteq> i \<Longrightarrow> sort_prev (Sessions ?t j) = nx_remove ?P (rev bs) (rev as) j"
      "sort_next (Sessions ?t i) = Sessions_free t"
      "Sessions_head ?t = (if as = [] then ptr bs else Sessions_head t)"
      "Sessions_tail ?t = (if rev bs = [] then ptr (rev as) else Sessions_tail t)" "Sessions_free ?t = Some i"
      "same_entries (- {i}) t ?t"
      by blast+
  qed
  show "same_entries (- {i}) t ?t" by (rule links(7))
  have ne: "j \<noteq> i" if "j \<in> set (as @ bs)" for j using that D(1) by auto
  have "linked (\<lambda>j. sort_next (Sessions ?t j)) p (as @ bs) \<longleftrightarrow> linked (nx_remove ?N as bs) p (as @ bs)" for p
    by (rule linked_cong) (rule links(1) [OF ne])
  then have "linked (\<lambda>j. sort_next (Sessions ?t j)) (Sessions_head ?t) (as @ bs)"
    unfolding links(4) using linked_remove [OF N D(1)] by simp
  moreover have "linked (\<lambda>j. sort_prev (Sessions ?t j)) p (rev bs @ rev as) \<longleftrightarrow>
      linked (nx_remove ?P (rev bs) (rev as)) p (rev bs @ rev as)" for p
    by (rule linked_cong) (rule links(2) [OF ne], auto)
  then have "linked (\<lambda>j. sort_prev (Sessions ?t j)) (Sessions_tail ?t) (rev (as @ bs))"
    unfolding links(5) using linked_remove [OF P D(2)] by simp
  moreover have "linked (\<lambda>j. sort_next (Sessions ?t j)) (Sessions_free ?t) (i # fs)"
  proof -
    have "sort_next (Sessions ?t j) = ?N j" if j: "j \<in> set fs" for j
    proof -
      have "j \<notin> set as" "j \<noteq> i" using j D(3) by auto
      then have "as \<noteq> [] \<Longrightarrow> j \<noteq> last as" using last_in_set by metis
      then show ?thesis using \<open>j \<noteq> i\<close> by (simp add: links nx_remove_def)
    qed
    then show ?thesis using F linked_cong [of fs "\<lambda>j. sort_next (Sessions ?t j)" ?N] by (simp add: links)
  qed
  moreover have "distinct ((as @ bs) @ i # fs)" "set ((as @ bs) @ i # fs) = {0..<n}" using D by auto
  ultimately show "sort_ok n ?t (as @ bs) (i # fs)" by (simp add: sort_ok_def)
qed

section \<open>The hash table\<close>

lemma hash_insert:
  assumes "hash_ok t hashed hs" and "i \<notin> hashed"
  defines "b \<equiv> sess_hash (s_mbox (Sessions t i))"
  shows "hash_ok (Sess_hash_session i t) (insert i hashed) (hs(b := i # hs b))"
proof -
  let ?H = "\<lambda>j. hash_next (Sessions t j)"
  have upd: "(\<lambda>j. hash_next (Sessions (Sess_hash_session i t) j)) = ?H(i := Sessions_hash_head t b)"
      "Sessions_hash_head (Sess_hash_session i t) = (Sessions_hash_head t)(b := Some i)"
      "s_mbox (Sessions (Sess_hash_session i t) j) = s_mbox (Sessions t j)" for j
    by (auto simp: Sess_hash_session_def Let_def b_def)
  have "linked (?H(i := Sessions_hash_head t b)) (((Sessions_hash_head t)(b := Some i)) c) ((hs(b := i # hs b)) c) \<and>
      distinct ((hs(b := i # hs b)) c) \<and>
      set ((hs(b := i # hs b)) c) = {j \<in> insert i hashed. sess_hash (s_mbox (Sessions t j)) = c}" if "c < 256" for c
  proof -
    have c: "linked ?H (Sessions_hash_head t c) (hs c)" "distinct (hs c)"
        "set (hs c) = {j \<in> hashed. sess_hash (s_mbox (Sessions t j)) = c}"
      using assms(1) that by (simp_all add: hash_ok_def)
    have i: "i \<notin> set (hs c)" using c(3) assms(2) by simp
    show ?thesis using c i by (auto simp: linked_upd b_def)
  qed
  then show ?thesis unfolding hash_ok_def upd by blast
qed

lemma find_before:
  "linked nx p (as @ i # bs) \<Longrightarrow> distinct (as @ i # bs) \<Longrightarrow> as \<noteq> [] \<Longrightarrow>
    List.find (\<lambda>j. nx j = Some i) (as @ i # bs) = Some (last as)"
proof (induction as arbitrary: p)
  case (Cons a as)
  show ?case
  proof (cases as)
    case (Cons a' as')
    then have "nx a = Some a'" "a' \<noteq> i" using Cons.prems(1,2) by auto
    then show ?thesis using Cons.IH [of "nx a"] Cons.prems \<open>as = a' # as'\<close> by simp
  qed (use Cons.prems in auto)
qed simp

lemma hash_remove:
  assumes "hash_ok t hashed hs" and "i \<in> hashed"
  shows "\<exists>t' hs'. Sess_unhash_session i t = Some (Inr t') \<and> hash_ok t' (hashed - {i}) hs' \<and>
    (\<forall>j. contents (Sessions t' j) = contents (Sessions t j) \<and> sort_next (Sessions t' j) = sort_next (Sessions t j) \<and>
      sort_prev (Sessions t' j) = sort_prev (Sessions t j)) \<and>
    Sessions_head t' = Sessions_head t \<and> Sessions_tail t' = Sessions_tail t \<and> Sessions_free t' = Sessions_free t"
proof -
  let ?H = "\<lambda>j. hash_next (Sessions t j)"
  define b where "b = sess_hash (s_mbox (Sessions t i))"
  have b: "b < 256" by (simp add: b_def sess_hash_less)
  have ok: "linked ?H (Sessions_hash_head t c) (hs c)" "distinct (hs c)"
      "set (hs c) = {j \<in> hashed. sess_hash (s_mbox (Sessions t j)) = c}" if "c < 256" for c
    using assms(1) that by (simp_all add: hash_ok_def)
  have "i \<in> set (hs b)" using ok(3) [OF b] assms(2) by (simp add: b_def)
  then obtain as bs where hb: "hs b = as @ i # bs" by (meson split_list)
  have L: "linked ?H (Sessions_hash_head t b) (as @ i # bs)" "distinct (as @ i # bs)" using ok(1,2) [OF b] hb by simp_all
  have ri: "?H i = ptr bs" by (rule linked_at [OF L(1)])
  obtain t' where t': "Sess_unhash_session i t = Some (Inr t')"
    and H': "(\<lambda>j. hash_next (Sessions t' j)) = (nx_remove ?H as bs)(i := None)"
      "Sessions_hash_head t' = (Sessions_hash_head t)(b := (if as = [] then ptr bs else Sessions_hash_head t b))"
    and same: "\<forall>j. contents (Sessions t' j) = contents (Sessions t j) \<and> sort_next (Sessions t' j) = sort_next (Sessions t j) \<and>
      sort_prev (Sessions t' j) = sort_prev (Sessions t j)"
      "Sessions_head t' = Sessions_head t" "Sessions_tail t' = Sessions_tail t" "Sessions_free t' = Sessions_free t"
  proof (cases "as = []")
    case True
    then have "Sessions_hash_head t b = Some i" using L(1) by simp
    then have u: "Sess_unhash_session i t = Some (Inr (upd_session i (\<lambda>s. s\<lparr> hash_next := None \<rparr>)
        (t\<lparr> Sessions_hash_head := (Sessions_hash_head t)(b := ptr bs) \<rparr>)))"
      using ri by (simp add: Sess_unhash_session_def Let_def b_def)
    show ?thesis by (rule that [OF u]) (auto simp: True nx_remove_def fun_eq_iff upd_session_def)
  next
    case False
    then obtain a as' where "as = a # as'" by (cases as) auto
    then have hd: "Sessions_hash_head t b \<noteq> Some i" using L by auto
    have li: "last as \<noteq> i" "i \<noteq> last as" using L(2) False by (metis distinct_append last_in_set list.set_intros(1) disjoint_iff)+
    have "scan ?H (\<lambda>j. ?H j = Some i) (Sessions_hash_head t b) = Some (Some (last as))"
      using scan_linked [OF L(1)] find_before [OF L False] by simp
    then have u: "Sess_unhash_session i t = Some (Inr (upd_session i (\<lambda>s. s\<lparr> hash_next := None \<rparr>)
        (upd_session (last as) (\<lambda>s. s\<lparr> hash_next := ptr bs \<rparr>) t)))"
      using ri hd by (simp add: Sess_unhash_session_def Let_def b_def [symmetric])
    show ?thesis by (rule that [OF u]) (use li in \<open>auto simp: False nx_remove_def fun_eq_iff upd_session_def\<close>)
  qed
  have mb: "s_mbox (Sessions t' j) = s_mbox (Sessions t j)" for j
    using same(1) contents_eqD by blast
  have "linked ((nx_remove ?H as bs)(i := None)) (Sessions_hash_head t' c) ((hs(b := as @ bs)) c) \<and>
      distinct ((hs(b := as @ bs)) c) \<and>
      set ((hs(b := as @ bs)) c) = {j \<in> hashed - {i}. sess_hash (s_mbox (Sessions t j)) = c}" if c: "c < 256" for c
  proof (cases "c = b")
    case True
    have "i \<notin> set (as @ bs)" using L(2) by auto
    then have "linked ((nx_remove ?H as bs)(i := None)) (Sessions_hash_head t' c) (as @ bs)"
      using linked_remove [OF L] True by (simp add: linked_upd H'(2))
    moreover have "set (as @ bs) = set (hs b) - {i}" using L(2) hb by auto
    ultimately show ?thesis using True L(2) ok(3) [OF b] by auto
  next
    case False
    have "((nx_remove ?H as bs)(i := None)) j = ?H j" if j: "j \<in> set (hs c)" for j
    proof -
      have "sess_hash (s_mbox (Sessions t j)) = c" using j ok(3) [OF c] by simp
      then have "j \<notin> set (hs b)" using ok(3) [OF b] False by auto
      then have "j \<noteq> i" "as \<noteq> [] \<Longrightarrow> j \<noteq> last as" using hb by auto
      then show ?thesis by (simp add: nx_remove_def)
    qed
    then have "linked ((nx_remove ?H as bs)(i := None)) (Sessions_hash_head t c) (hs c)"
      using ok(1) [OF c] linked_cong [of "hs c" "(nx_remove ?H as bs)(i := None)" ?H] by simp
    then show ?thesis using False ok(2,3) [OF c] by (auto simp: H'(2) b_def)
  qed
  then have "hash_ok t' (hashed - {i}) (hs(b := as @ bs))" unfolding hash_ok_def H'(1) mb by blast
  then show ?thesis using t' same by blast
qed

section \<open>Looking a session up\<close>

lemma find_sorted:
  assumes "sorted_wrt (<) (names t (as @ i # bs))"
  shows "List.find (\<lambda>j. \<not> s_name (Sessions t j) < s_name (Sessions t i)) (as @ i # bs) = Some i"
proof -
  have "\<forall>j \<in> set as. s_name (Sessions t j) < s_name (Sessions t i)"
    using assms by (auto simp: names_def sorted_wrt_append)
  then show ?thesis by (induction as) auto
qed

lemma Sess_get_session_found:
  assumes "table_ok n t ss" and "i \<in> set ss"
  shows "Sess_get_session (s_name (Sessions t i)) t = Some (int i)"
proof -
  obtain as bs where ss: "ss = as @ i # bs" using assms(2) by (meson split_list)
  have "linked (\<lambda>j. sort_next (Sessions t j)) (Sessions_head t) ss" using assms(1) by (auto simp: table_ok_def sort_ok_def)
  then show ?thesis
    using scan_linked [of "\<lambda>j. sort_next (Sessions t j)" "Sessions_head t" ss] find_sorted [of t as i bs] assms(1) ss
    by (simp add: Sess_get_session_def table_ok_def)
qed

lemma Sess_get_session_absent:
  assumes "table_ok n t ss" and "nm \<notin> set (names t ss)"
  shows "Sess_get_session nm t = Some (- 1)"
proof -
  have "linked (\<lambda>j. sort_next (Sessions t j)) (Sessions_head t) ss" using assms(1) by (auto simp: table_ok_def sort_ok_def)
  then show ?thesis
    using scan_linked [of "\<lambda>j. sort_next (Sessions t j)" "Sessions_head t" ss] assms(2)
    by (auto simp: Sess_get_session_def names_def find_Some_iff split: option.splits)
qed

lemma Sess_get_session_index_correct:
  assumes "table_ok n t ss"
  shows "i \<in> set ss \<Longrightarrow> Sess_get_session_index (s_mbox (Sessions t i)) t = Some (int i)"
    and "m \<notin> (\<lambda>i. s_mbox (Sessions t i)) ` set ss \<Longrightarrow> Sess_get_session_index m t = Some (- 1)"
proof -
  obtain hs where hs: "hash_ok t (set ss) hs" using assms by (auto simp: table_ok_def)
  have c: "scan (\<lambda>j. hash_next (Sessions t j)) stop (Sessions_hash_head t (sess_hash x)) = Some (List.find stop (hs (sess_hash x)))"
      "set (hs (sess_hash x)) = {j \<in> set ss. sess_hash (s_mbox (Sessions t j)) = sess_hash x}" for x stop
    using hs sess_hash_less [of x] scan_linked by (auto simp: hash_ok_def)
  show "Sess_get_session_index (s_mbox (Sessions t i)) t = Some (int i)" if i: "i \<in> set ss"
  proof -
    let ?m = "s_mbox (Sessions t i)"
    have only: "j = i" if "j \<in> set (hs (sess_hash ?m))" "s_mbox (Sessions t j) = ?m" for j
      using that assms i c(2) by (auto simp: table_ok_def dest: inj_onD)
    have "List.find (\<lambda>j. s_mbox (Sessions t j) = ?m) (hs (sess_hash ?m)) \<noteq> None"
      using i c(2) [of ?m] by (auto simp: find_None_iff)
    then obtain j where "List.find (\<lambda>j. s_mbox (Sessions t j) = ?m) (hs (sess_hash ?m)) = Some j" by auto
    moreover from this have "j = i" using only by (auto simp: find_Some_iff)
    ultimately show ?thesis by (simp add: Sess_get_session_index_def c(1))
  qed
  show "Sess_get_session_index m t = Some (- 1)" if "m \<notin> (\<lambda>i. s_mbox (Sessions t i)) ` set ss"
  proof -
    have "List.find (\<lambda>j. s_mbox (Sessions t j) = m) (hs (sess_hash m)) = None"
      using that c(2) [of m] by (auto simp: find_None_iff)
    then show ?thesis by (simp add: Sess_get_session_index_def c(1))
  qed
qed

section \<open>A session's life\<close>

lemma hash_ok_same:
  assumes h: "hash_ok t hashed hs" and s: "same_entries hashed t t'"
  shows "hash_ok t' hashed hs"
proof -
  have l: "linked (\<lambda>j. hash_next (Sessions t' j)) p (hs b) \<longleftrightarrow> linked (\<lambda>j. hash_next (Sessions t j)) p (hs b)" if "b < 256" for b p
    by (rule linked_cong) (use h s that in \<open>auto simp: hash_ok_def same_entries_def\<close>)
  have m: "{i \<in> hashed. sess_hash (s_mbox (Sessions t' i)) = b} = {i \<in> hashed. sess_hash (s_mbox (Sessions t i)) = b}" for b
    using same_entriesD(2) [OF s] by auto
  have "Sessions_hash_head t' = Sessions_hash_head t" using s by (simp add: same_entries_def)
  then show ?thesis using h l by (simp add: hash_ok_def m)
qed

lemma sort_ok_same:
  assumes "sort_ok n t ss fs" and "\<And>j. sort_next (Sessions t' j) = sort_next (Sessions t j)"
    and "\<And>j. sort_prev (Sessions t' j) = sort_prev (Sessions t j)" and "Sessions_head t' = Sessions_head t"
    and "Sessions_tail t' = Sessions_tail t" and "Sessions_free t' = Sessions_free t"
  shows "sort_ok n t' ss fs"
  using assms by (simp add: sort_ok_def)

text \<open>Where a new name belongs.\<close>

lemma unique_place_correct:
  assumes "table_ok n t ss"
  shows "\<exists>as bs. ss = as @ bs \<and> unique_place nm t = Some (nm \<notin> set (names t ss), ptr bs) \<and>
    (\<forall>a \<in> set as. s_name (Sessions t a) < nm) \<and> (nm \<notin> set (names t ss) \<longrightarrow> (\<forall>b \<in> set bs. nm < s_name (Sessions t b)))"
proof -
  let ?stop = "\<lambda>j. nm \<le> s_name (Sessions t j)"
  let ?as = "takeWhile (\<lambda>j. \<not> ?stop j) ss" and ?bs = "dropWhile (\<lambda>j. \<not> ?stop j) ss"
  have sorted: "sorted_wrt (<) (names t ss)" using assms by (simp add: table_ok_def)
  have "linked (\<lambda>j. sort_next (Sessions t j)) (Sessions_head t) ss" using assms by (auto simp: table_ok_def sort_ok_def)
  then have sc: "scan (\<lambda>j. sort_next (Sessions t j)) ?stop (Sessions_head t) = Some (List.find ?stop ss)" by (rule scan_linked)
  have fd: "List.find ?stop ss = ptr ?bs" by (induction ss) auto
  have bs: "nm \<le> s_name (Sessions t b)" "nm = s_name (Sessions t b) \<longrightarrow> ptr ?bs = Some b" if b: "b \<in> set ?bs" for b
  proof -
    obtain c cs where c: "?bs = c # cs" using b by (cases ?bs) auto
    then have "?stop c" by (metis hd_dropWhile list.sel(1) list.distinct(1) not_not)
    moreover have "sorted_wrt (<) (names t (?as @ c # cs))" using sorted c by (metis takeWhile_dropWhile_id)
    then have "\<forall>x \<in> set cs. s_name (Sessions t c) < s_name (Sessions t x)" by (auto simp: names_def sorted_wrt_append)
    ultimately show "nm \<le> s_name (Sessions t b)" "nm = s_name (Sessions t b) \<longrightarrow> ptr ?bs = Some b"
      using b c by (auto dest: order_trans)
  qed
  have as: "s_name (Sessions t a) < nm" if "a \<in> set ?as" for a
    using set_takeWhileD [OF that] by (simp add: not_le)
  have set_ss: "set ss = set ?as \<union> set ?bs" by (metis set_append takeWhile_dropWhile_id)
  have "nm \<notin> set (names t ss) \<longleftrightarrow> (case ptr ?bs of None \<Rightarrow> True | Some i \<Rightarrow> s_name (Sessions t i) \<noteq> nm)"
  proof (cases ?bs)
    case Nil
    have "s_name (Sessions t a) \<noteq> nm" if "a \<in> set ss" for a
      using as [of a] that set_ss unfolding Nil list.set(1) Un_empty_right by blast
    then show ?thesis unfolding Nil ptr_simps by (auto simp: names_def)
  next
    case (Cons c cs)
    have c: "c \<in> set ss" using set_ss Cons by auto
    have "a = c" if "a \<in> set ss" "s_name (Sessions t a) = nm" for a
    proof -
      have "a \<in> set ?bs" using as [of a] that set_ss by blast
      then show ?thesis using bs(2) [of a] that(2) Cons by simp
    qed
    then have "nm \<in> set (names t ss) \<longleftrightarrow> nm = s_name (Sessions t c)" using c by (auto simp: names_def)
    then show ?thesis using Cons by auto
  qed
  then have "unique_place nm t = Some (nm \<notin> set (names t ss), ptr ?bs)" by (simp add: unique_place_def sc fd)
  moreover have "nm < s_name (Sessions t b)" if "nm \<notin> set (names t ss)" "b \<in> set ?bs" for b
    using that bs(1) [OF that(2)] set_ss by (force simp: names_def)
  ultimately show ?thesis using as by (intro exI [of _ ?as] exI [of _ ?bs]) simp
qed

lemma accept_refines:
  assumes ok: "table_ok n t ss" and room: "length ss < n" and new: "s_name tpl \<notin> set (names t ss)"
    and mbox: "s_mbox tpl \<notin> (\<lambda>i. s_mbox (Sessions t i)) ` set ss"
  shows "\<exists>as bs i t'. ss = as @ bs \<and> accept_session tpl t = Some (Inr (Some (i, t'))) \<and> i \<notin> set ss \<and> i < n \<and>
    table_ok n t' (as @ i # bs) \<and>
    contents (Sessions t' i) = contents (tpl\<lparr> s_status := Set_status PRE_AUTH_SESSION (s_status tpl) \<rparr>) \<and>
    (\<forall>j \<in> set ss. contents (Sessions t' j) = contents (Sessions t j))"
proof -
  obtain as bs where ss: "ss = as @ bs" and pl: "unique_place (s_name tpl) t = Some (True, ptr bs)"
    and lt: "\<forall>a \<in> set as. s_name (Sessions t a) < s_name tpl" "\<forall>b \<in> set bs. s_name tpl < s_name (Sessions t b)"
    using unique_place_correct [OF ok, of "s_name tpl"] new by auto
  obtain fs hs where s: "sort_ok n t ss fs" and h: "hash_ok t (set ss) hs" using ok by (auto simp: table_ok_def)
  have "length ss + length fs = n"
    using s distinct_card [of "ss @ fs"] by (simp add: sort_ok_def)
  then obtain i fs' where fs: "fs = i # fs'" using room by (cases fs) auto
  have i: "i \<notin> set ss" "i < n" using s fs by (auto simp: sort_ok_def)
  obtain t1 where t1: "Sess_insert_new_session (ptr bs) tpl t = Inr (i, t1)" "sort_ok n t1 (as @ i # bs) fs'"
      "same_entries (- {i}) t t1" "contents (Sessions t1 i) = contents tpl"
    using insert_sorted [of n t as bs i fs' tpl] s fs ss by blast
  define t2 where "t2 = upd_session i (\<lambda>s. s\<lparr> s_status := Set_status PRE_AUTH_SESSION (s_status s) \<rparr>) t1"
  define t' where "t' = Sess_hash_session i t2"
  have acc: "accept_session tpl t = Some (Inr (Some (i, t')))" by (simp add: accept_session_def pl t1(1) t2_def t'_def)
  have c': "contents (Sessions t' j) = contents (Sessions t2 j)" for j
    by (simp add: t'_def Sess_hash_session_def Let_def)
  have same: "contents (Sessions t' j) = contents (Sessions t j)" if "j \<in> set ss" for j
    using t1(3) that i c' by (auto simp: same_entries_def t2_def)
  have ci: "contents (Sessions t' i) = contents (tpl\<lparr> s_status := Set_status PRE_AUTH_SESSION (s_status tpl) \<rparr>)"
    using contents_status [OF t1(4)] contents_eqD(3) [OF t1(4)] by (simp add: c' t2_def)
  then have ei: "s_name (Sessions t' i) = s_name tpl" "s_mbox (Sessions t' i) = s_mbox tpl"
    using contents_eqD(1,2) [OF ci] by simp_all
  note sm = contents_eqD(1,2) [OF same]
  have "same_entries (set ss) t t2" using t1(3) i by (auto simp: same_entries_def t2_def)
  then have "hash_ok t2 (set ss) hs" by (rule hash_ok_same [OF h])
  then obtain hs' where h': "hash_ok t' (set (as @ i # bs)) hs'"
    using hash_insert [of t2 "set ss" hs i] i ss by (auto simp: t'_def)
  have s': "sort_ok n t' (as @ i # bs) fs'"
    by (rule sort_ok_same [OF t1(2)]) (simp_all add: t'_def t2_def Sess_hash_session_def Let_def)
  have "sorted_wrt (<) (names t' (as @ i # bs))"
  proof -
    have srt: "sorted_wrt (<) (names t as)" "sorted_wrt (<) (names t bs)"
      using ok ss by (auto simp: table_ok_def names_def sorted_wrt_append)
    have "names t' as = names t as" "names t' bs = names t bs" using sm ss by (auto simp: names_def)
    then have nm: "names t' (as @ i # bs) = names t as @ s_name tpl # names t bs" using ei by (simp add: names_def)
    have "\<forall>x \<in> set (names t as). x < s_name tpl" "\<forall>y \<in> set (names t bs). s_name tpl < y"
      using lt by (auto simp: names_def)
    with srt show ?thesis unfolding nm by (auto simp: sorted_wrt_append dest: less_trans)
  qed
  moreover have "inj_on (\<lambda>j. s_mbox (Sessions t' j)) (set (as @ i # bs))"
  proof -
    have "inj_on (\<lambda>j. s_mbox (Sessions t' j)) (set ss)" using ok sm by (auto simp: table_ok_def inj_on_def)
    moreover have "s_mbox (Sessions t' i) \<notin> (\<lambda>j. s_mbox (Sessions t' j)) ` set ss" using mbox sm ei by force
    moreover have "set (as @ i # bs) = insert i (set ss)" using ss by auto
    ultimately show ?thesis by (simp add: inj_on_insert) blast
  qed
  ultimately have "table_ok n t' (as @ i # bs)" using s' h' by (auto simp: table_ok_def)
  then show ?thesis using ss acc i same ci
    by (intro exI [of _ as] exI [of _ bs] exI [of _ i] exI [of _ t'] conjI ballI)
qed

lemma drop_refines:
  assumes ok: "table_ok n t (as @ i # bs)"
  shows "\<exists>t'. drop_session i t = Some (Inr t') \<and> table_ok n t' (as @ bs) \<and>
    (\<forall>j \<in> set (as @ bs). contents (Sessions t' j) = contents (Sessions t j))"
proof -
  obtain fs hs where s: "sort_ok n t (as @ i # bs) fs" and h: "hash_ok t (set (as @ i # bs)) hs" using ok by (auto simp: table_ok_def)
  have i: "i \<notin> set (as @ bs)" "set (as @ i # bs) - {i} = set (as @ bs)" using s by (auto simp: sort_ok_def)
  obtain t1 hs' where t1: "Sess_unhash_session i t = Some (Inr t1)" "hash_ok t1 (set (as @ bs)) hs'"
      "\<And>j. contents (Sessions t1 j) = contents (Sessions t j)" "\<And>j. sort_next (Sessions t1 j) = sort_next (Sessions t j)"
      "\<And>j. sort_prev (Sessions t1 j) = sort_prev (Sessions t j)"
      "Sessions_head t1 = Sessions_head t" "Sessions_tail t1 = Sessions_tail t" "Sessions_free t1 = Sessions_free t"
    using hash_remove [OF h, of i] i(2) by auto
  have "sort_ok n t1 (as @ i # bs) fs" by (rule sort_ok_same [OF s]) (simp_all add: t1(4-8))
  note r = remove_sorted [OF this]
  let ?t = "Sess_remove_session i t1"
  have sm: "same_entries (set (as @ bs)) t1 ?t" using r(2) i by (auto simp: same_entries_def)
  have same: "contents (Sessions ?t j) = contents (Sessions t j)" if "j \<in> set (as @ bs)" for j
    using sm that t1(3) by (auto simp: same_entries_def)
  note e = contents_eqD(1,2) [OF same]
  have "names ?t (as @ bs) = names t (as @ bs)" using e by (auto simp: names_def)
  moreover have "sorted_wrt (<) (names t (as @ bs))"
    using ok by (auto simp: table_ok_def names_def sorted_wrt_append)
  moreover have "inj_on (\<lambda>j. s_mbox (Sessions ?t j)) (set (as @ bs))"
    using ok e by (auto simp: table_ok_def inj_on_def)
  ultimately have "table_ok n ?t (as @ bs)"
    using r(1) hash_ok_same [OF t1(2) sm] by (auto simp: table_ok_def)
  then show ?thesis using t1(1) same by (auto simp: drop_session_def)
qed

text \<open>A change of an entry that leaves its name, its mailbox and its links.\<close>

lemma table_ok_upd:
  assumes ok: "table_ok n t ss"
    and "s_name (f (Sessions t i)) = s_name (Sessions t i)" "s_mbox (f (Sessions t i)) = s_mbox (Sessions t i)"
      "sort_prev (f (Sessions t i)) = sort_prev (Sessions t i)" "sort_next (f (Sessions t i)) = sort_next (Sessions t i)"
      "hash_next (f (Sessions t i)) = hash_next (Sessions t i)"
  shows "table_ok n (upd_session i f t) ss"
proof -
  let ?t = "upd_session i f t"
  have e: "s_name (Sessions ?t j) = s_name (Sessions t j)" "s_mbox (Sessions ?t j) = s_mbox (Sessions t j)"
      "sort_prev (Sessions ?t j) = sort_prev (Sessions t j)" "sort_next (Sessions ?t j) = sort_next (Sessions t j)"
      "hash_next (Sessions ?t j) = hash_next (Sessions t j)" for j
    using assms(2-) by simp_all
  then show ?thesis using ok
    by (simp add: table_ok_def sort_ok_def hash_ok_def names_def del: Sessions_upd_session(1))
qed

end
