(* ===== verification/Session_Life.thy ===== *)
theory Session_Life
  imports Session_Accept Session_Table
begin

text \<open>
  The life of the sessions: accepted, authenticated, operational, killed and dropped. Whatever the
  clients, the operating system and the policy do, the table of sessions stays well formed.
\<close>

section \<open>The invariant\<close>

definition status_ok :: "32 word \<Rightarrow> bool" where
  "status_ok st \<longleftrightarrow> \<not> (Is_op_session st \<and> Is_preauth_session st)"

definition sess_inv :: "nat list \<Rightarrow> sess_state \<Rightarrow> bool" where
  "sess_inv ss s \<longleftrightarrow> table_ok (MAX_SESSIONS s) (table s) ss \<and> Num_sessions s = int (length ss) \<and>
     (\<forall>i \<in> set ss. private_name_ok (s_name (ses_of s i)) \<and> status_ok (s_status (ses_of s i))) \<and>
     \<not> Is_op_session (s_status (new_ses s))"

section \<open>Changes that leave the table's structure\<close>

definition soft :: "sess_state \<Rightarrow> sess_state \<Rightarrow> bool" where
  "soft s s' \<longleftrightarrow> MAX_SESSIONS s' = MAX_SESSIONS s \<and> Num_sessions s' = Num_sessions s \<and> new_ses s' = new_ses s \<and>
     my_name s' = my_name s \<and> sizeof_body s' = sizeof_body s \<and> max_session_messages s' = max_session_messages s \<and>
     Sessions_hash_head (table s') = Sessions_hash_head (table s) \<and> Sessions_head (table s') = Sessions_head (table s) \<and>
     Sessions_tail (table s') = Sessions_tail (table s) \<and> Sessions_free (table s') = Sessions_free (table s) \<and>
     (\<forall>i. s_name (ses_of s' i) = s_name (ses_of s i) \<and> s_mbox (ses_of s' i) = s_mbox (ses_of s i) \<and>
          sort_prev (ses_of s' i) = sort_prev (ses_of s i) \<and> sort_next (ses_of s' i) = sort_next (ses_of s i) \<and>
          hash_next (ses_of s' i) = hash_next (ses_of s i) \<and>
          (status_ok (s_status (ses_of s i)) \<longrightarrow> status_ok (s_status (ses_of s' i))))"

lemma soft_refl [simp, intro]: "soft s s"
  by (simp add: soft_def)

lemma soft_trans [trans]: "soft s t \<Longrightarrow> soft t u \<Longrightarrow> soft s u"
  by (simp add: soft_def)

lemma soft_table: "table_ok n (table s) ss \<Longrightarrow> soft s s' \<Longrightarrow> table_ok n (table s') ss"
  by (simp add: soft_def table_ok_def sort_ok_def hash_ok_def names_def)

lemma soft_inv: "sess_inv ss s \<Longrightarrow> soft s s' \<Longrightarrow> sess_inv ss s'"
  using soft_table [of "MAX_SESSIONS s" s ss s'] by (auto simp: sess_inv_def soft_def)

lemma soft_emit [simp]: "soft s (s_emit es t) \<longleftrightarrow> soft s t" "soft (s_emit es s) t \<longleftrightarrow> soft s t"
  by (simp_all add: soft_def s_emit_def)

lemma soft_sock [simp]: "soft s (set_sock m k t) \<longleftrightarrow> soft s t" "soft (set_sock m k s) t \<longleftrightarrow> soft s t"
  by (simp_all add: soft_def set_sock_def)

lemma soft_send [simp]: "soft s (send_bytes m xs t) \<longleftrightarrow> soft s t"
  by (simp add: send_bytes_def)

lemma soft_upd:
  assumes "\<And>e. s_name (f e) = s_name e" "\<And>e. s_mbox (f e) = s_mbox e" "\<And>e. sort_prev (f e) = sort_prev e"
    "\<And>e. sort_next (f e) = sort_next e" "\<And>e. hash_next (f e) = hash_next e"
    and "status_ok (s_status (ses_of s i)) \<longrightarrow> status_ok (s_status (f (ses_of s i)))"
  shows "soft s (upd_ses i f s)"
  using assms by (simp add: soft_def upd_ses_def)

lemma status_clear_op: "status_ok (Clear_status OP_SESSION st)"
proof -
  have "\<not> Is_op_session (Clear_status OP_SESSION st)"
    by (simp add: Is_op_session_def Clear_status_def and.assoc)
  then show ?thesis by (simp add: status_ok_def)
qed

section \<open>Operations on operational sessions\<close>

lemma Sess_clear_session_soft: "Sess_clear_session i s = Inr s' \<Longrightarrow> soft s s'"
  by (auto simp: Sess_clear_session_def Let_def status_clear_op intro!: soft_upd)

lemma Sess_kill_soft: "Sess_kill mbox s = Some (Inr s') \<Longrightarrow> soft s s'"
  by (auto simp: Sess_kill_def Let_def dest: Sess_clear_session_soft split: if_splits option.splits)

definition same_keys :: "session \<Rightarrow> session \<Rightarrow> bool" where
  "same_keys e e' \<longleftrightarrow> s_name e' = s_name e \<and> s_mbox e' = s_mbox e \<and> sort_prev e' = sort_prev e \<and>
     sort_next e' = sort_next e \<and> hash_next e' = hash_next e \<and> s_status e' = s_status e"

lemma badger_loop_keys: "badger_loop e k = Inr (e', k') \<Longrightarrow> same_keys e e'"
proof (induction e k rule: badger_loop.induct)
  case (1 e k)
  note r = 1(2) [unfolded badger_loop.simps [of e]]
  show ?case
  proof (cases "s_num_mess e > 0")
    case True
    obtain m ms where ms: "s_links e = m # ms" using r True by (cases "s_links e") simp_all
    obtain able w k1 where b: "badger_message m (s_write e) k = Inr (able, w, k1)"
      using r True ms by (cases "badger_message m (s_write e) k") auto
    show ?thesis
    proof (cases able)
      case able: True
      from 1(1) [OF True ms b refl refl able] r True ms b able show ?thesis by (simp add: same_keys_def)
    next
      case False
      then show ?thesis using r True ms b by (auto simp: same_keys_def)
    qed
  qed (use r in \<open>simp add: same_keys_def\<close>)
qed

lemma soft_set_entry: "same_keys (ses_of s i) e \<Longrightarrow> soft s (upd_ses i (\<lambda>_. e) s)"
  by (auto simp: soft_def upd_ses_def same_keys_def)

lemma Sess_badger_soft:
  assumes "Sess_badger mbox s = Some (Inr s')"
  shows "soft s s'"
proof -
  obtain ses where ses: "Sess_get_session_index mbox (table s) = Some ses" using assms by (auto simp: Sess_badger_def)
  show ?thesis
  proof (cases "\<not> valid_ses ses s \<or> \<not> Is_op_session (s_status (ses_of s (nat ses))) \<or> s_num_mess (ses_of s (nat ses)) \<le> 0")
    case True
    then show ?thesis using assms ses by (auto simp: Sess_badger_def Let_def)
  next
    case False
    then obtain e k where b: "badger_loop (ses_of s (nat ses)) (socks s mbox) = Inr (e, k)"
      using assms ses by (auto simp: Sess_badger_def Let_def)
    have "\<exists>es. s' = s_emit es (set_sock mbox k (upd_ses (nat ses) (\<lambda>_. e) s))"
      using assms ses False b by (auto simp: Sess_badger_def Let_def)
    then show ?thesis using soft_set_entry [OF badger_loop_keys [OF b]] by auto
  qed
qed

lemma write_message_soft:
  assumes "write_message i m needed s = Inr (n, s')"
  shows "soft s s'"
proof -
  define e where "e = ses_of s i"
  obtain x where x: "(if s_num_mess e = 0 then write_first m (socks s (s_mbox e)) else Inr (0, socks s (s_mbox e))) = Inr x"
    using assms unfolding write_message_def Let_def e_def [symmetric] by (rule bind_res_elim)
  obtain l k where "x = (l, k)" by fastforce
  note k = x [unfolded this]
  have "soft s (upd_ses i (\<lambda>e. e\<lparr> s_links := ms, s_num_mess := s_num_mess e + 1, s_write := w \<rparr>) (set_sock mb k s))" for ms w mb
    by (simp add: soft_def upd_ses_def set_sock_def)
  then show ?thesis using assms unfolding write_message_def Let_def e_def [symmetric] k by (auto split: if_splits)
qed

lemma Sess_write_soft:
  assumes "Sess_write i m needed s = Some (Inr (n, s'))"
  shows "soft s s'"
proof -
  consider "s' = s" | "Sess_kill (s_mbox (ses_of s i)) s = Some (Inr s')"
    | s1 where "s1 = s \<or> Sess_badger (s_mbox (ses_of s i)) s = Some (Inr s1)" "write_message i m needed s1 = Inr (n, s')"
    using assms by (auto simp: Sess_write_def split: if_splits)
  then show ?thesis
    by cases (auto dest: Sess_kill_soft Sess_badger_soft write_message_soft intro: soft_trans)
qed

lemma write_targets_soft: "write_targets source ts m needed s = Some (Inr s') \<Longrightarrow> soft s s'"
proof (induction ts arbitrary: needed s)
  case (Cons t ts)
  show ?case
  proof (cases "source = t")
    case False
    then obtain n s1 where "Sess_write (nat t) m needed s = Some (Inr (n, s1))" "write_targets source ts m n s1 = Some (Inr s')"
      using Cons.prems by (auto split: if_splits option.splits sum.splits)
    then show ?thesis using Sess_write_soft Cons.IH soft_trans by blast
  qed (use Cons in simp)
qed simp

lemma deliver_to_soft: "deliver_to m ts s = Some (Inr s') \<Longrightarrow> soft s s'"
  by (auto simp: deliver_to_def dest: write_targets_soft split: option.splits sum.splits)

lemma reject_with_soft: "reject_with off on m s = Some (Inr s') \<Longrightarrow> soft s s'"
  by (auto simp: reject_with_def Sess_deliver_reject_def Let_def dest: deliver_to_soft split: option.splits sum.splits)

lemma pass_down_soft: "pass_down i m s = Some (Inr s') \<Longrightarrow> soft s s'"
  by (auto simp: pass_down_def Let_def dest: Sess_kill_soft Sess_clear_session_soft intro: soft_trans
      split: option.splits if_splits)

lemma read_message_keys: "read_message bs e m w k = Inr (r, e', k') \<Longrightarrow> same_keys e e'"
  by (auto simp: read_message_def same_keys_def split: read_step.splits)

lemma read_session_keys: "read_session bs check e k = Inr (r, e', k') \<Longrightarrow> same_keys e e'"
  by (auto simp: read_session_def Let_def dest: read_message_keys split: if_splits prod.splits read_step.splits)
    (auto simp: same_keys_def)

lemma Sess_read_soft:
  assumes r: "Sess_read num_local mbox s = Some (Inr s')"
  shows "soft s s'"
proof -
  obtain ses where ses: "Sess_get_session_index mbox (table s) = Some ses" using r by (auto simp: Sess_read_def split: option.splits)
  show ?thesis
  proof (cases "valid_ses ses s")
    case False
    then show ?thesis using r ses by (simp add: Sess_read_def)
  next
    case True
    define check where "check = Sess_validate_read_header (sizeof_body s) (s_name (ses_of s (nat ses))) (my_name s)"
    obtain x e k where rs: "read_session (sizeof_body s) check (ses_of s (nat ses)) (socks s mbox) = Inr (x, e, k)"
      using r ses True by (auto simp: Sess_read_def Let_def check_def split: sum.splits)
    define s1 where "s1 = set_sock mbox k (upd_ses (nat ses) (\<lambda>_. e) s)"
    have "soft s s1" using soft_set_entry [OF read_session_keys [OF rs]] by (simp add: s1_def)
    moreover have "(case x of Wait \<Rightarrow> Some (Inr s1) | Kill \<Rightarrow> Sess_kill mbox s1
        | Msg m \<Rightarrow> (case access_decision num_local (s_acp_ops e) m of
                     Inl e \<Rightarrow> Some (Inl e)
                   | Inr Allow \<Rightarrow> pass_down (nat ses) m s1
                   | Inr (Reject off on) \<Rightarrow> reject_with off on m s1)) = Some (Inr s')"
      using r ses True rs unfolding s1_def by (simp add: Sess_read_def Let_def check_def)
    then have "soft s1 s'"
      by (auto dest: Sess_kill_soft reject_with_soft pass_down_soft split: read_result.splits sum.splits decision.splits)
    ultimately show ?thesis by (rule soft_trans)
  qed
qed

section \<open>Sessions that end\<close>

definition mboxes :: "nat list \<Rightarrow> sess_state \<Rightarrow> int set" where
  "mboxes ss s = (\<lambda>i. s_mbox (ses_of s i)) ` set ss"

text \<open>What an operation that accepts no connection keeps.\<close>

definition keeps :: "nat list \<Rightarrow> sess_state \<Rightarrow> sess_state \<Rightarrow> bool" where
  "keeps ss s s' \<longleftrightarrow> (\<exists>ss'. sess_inv ss' s' \<and> length ss' \<le> length ss \<and> mboxes ss' s' \<subseteq> mboxes ss s) \<and>
     new_ses s' = new_ses s \<and> MAX_SESSIONS s' = MAX_SESSIONS s"

lemma soft_keeps: "sess_inv ss s \<Longrightarrow> soft s s' \<Longrightarrow> keeps ss s s'"
  using soft_inv [of ss s s'] by (auto simp: keeps_def mboxes_def soft_def)

lemma soft_mboxes: "soft s s' \<Longrightarrow> mboxes ss s' = mboxes ss s"
  by (simp add: mboxes_def soft_def)

lemma keeps_soft_trans:
  assumes "soft s t" and "keeps ss t u"
  shows "keeps ss s u"
  using assms by (simp add: keeps_def soft_mboxes) (simp add: soft_def)

lemma index_found:
  assumes inv: "sess_inv ss s" and "Sess_get_session_index m (table s) = Some ses" and "valid_ses ses s"
  shows "nat ses \<in> set ss" and "s_mbox (ses_of s (nat ses)) = m"
proof -
  have t: "table_ok (MAX_SESSIONS s) (table s) ss" using inv by (simp add: sess_inv_def)
  note c = Sess_get_session_index_correct [OF t]
  have "m \<in> mboxes ss s" using c(2) [of m] assms(2,3) by (auto simp: mboxes_def valid_ses_def)
  then obtain i where "i \<in> set ss" "m = s_mbox (ses_of s i)" by (auto simp: mboxes_def)
  then show "nat ses \<in> set ss" "s_mbox (ses_of s (nat ses)) = m" using c(1) [of i] assms(2) by auto
qed

lemma drop_keeps:
  assumes inv: "sess_inv ss s" and i: "i \<in> set ss"
    and r: "map_option (\<lambda>r. bind_res r (\<lambda>t. Inr (s_emit es (s\<lparr> table := t, Num_sessions := Num_sessions s - 1 \<rparr>)))) (drop_session i (table s))
      = Some (Inr s')"
  shows "keeps ss s s'"
proof -
  obtain as bs where ss: "ss = as @ i # bs" using i by (meson split_list)
  have t: "table_ok (MAX_SESSIONS s) (table s) (as @ i # bs)" using inv ss by (simp add: sess_inv_def)
  obtain t' where t': "drop_session i (table s) = Some (Inr t')" "table_ok (MAX_SESSIONS s) t' (as @ bs)"
      "\<forall>j \<in> set (as @ bs). contents (Sessions t' j) = contents (ses_of s j)"
    using drop_refines [OF t] by blast
  have s': "s' = s_emit es (s\<lparr> table := t', Num_sessions := Num_sessions s - 1 \<rparr>)" using r t'(1) by simp
  have e: "s_name (ses_of s' j) = s_name (ses_of s j)" "s_mbox (ses_of s' j) = s_mbox (ses_of s j)" "s_status (ses_of s' j) = s_status (ses_of s j)"
    if "j \<in> set (as @ bs)" for j
    using contents_eqD [of "Sessions t' j" "ses_of s j"] t'(3) that by (simp_all add: s' s_emit_def)
  have "sess_inv (as @ bs) s'" using inv t'(2) e ss by (auto simp: sess_inv_def s' s_emit_def)
  moreover have "mboxes (as @ bs) s' \<subseteq> mboxes ss s" using e ss by (auto simp: mboxes_def)
  ultimately show ?thesis using ss by (auto simp: keeps_def s' s_emit_def)
qed

lemma Sess_session_denied_keeps:
  assumes inv: "sess_inv ss s" and i: "i \<in> set ss" and r: "Sess_session_denied i s = Some (Inr s')"
  shows "keeps ss s s'"
proof -
  let ?s = "send_bytes (s_mbox (ses_of s i)) [word_of_int REJECT_AUTH] s"
  have s: "soft s ?s" by simp
  have "table ?s = table s" by (simp add: send_bytes_def set_sock_def)
  then have "keeps ss ?s s'" using r
    by (intro drop_keeps [OF soft_inv [OF inv s] i]) (auto simp: Sess_session_denied_def Let_def split: if_splits)
  then show ?thesis by (rule keeps_soft_trans [OF s])
qed

lemma Sess_end_session_keeps:
  assumes inv: "sess_inv ss s" and r: "Sess_end_session n p s = Some (Inr s')"
  shows "keeps ss s s'"
proof -
  have t: "table_ok (MAX_SESSIONS s) (table s) ss" using inv by (simp add: sess_inv_def)
  consider "s' = s" | i where "i \<in> set ss" "map_option (\<lambda>r. bind_res r (\<lambda>t.
      Inr (s_emit [Close (s_mbox (ses_of s i))] (s\<lparr> table := t, Num_sessions := Num_sessions s - 1 \<rparr>)))) (drop_session i (table s)) = Some (Inr s')"
  proof (cases "n \<in> set (names (table s) ss)")
    case True
    then obtain i where "i \<in> set ss" "n = s_name (ses_of s i)" by (auto simp: names_def)
    then show ?thesis using that r Sess_get_session_found [OF t, of i] by (auto simp: Sess_end_session_def split: if_splits)
  next
    case False
    then show ?thesis using that r Sess_get_session_absent [OF t False] by (auto simp: Sess_end_session_def split: if_splits)
  qed
  then show ?thesis
  proof cases
    case 1
    then show ?thesis using inv soft_keeps by simp
  next
    case 2
    then show ?thesis by (rule drop_keeps [OF inv])
  qed
qed

section \<open>Authentication\<close>

lemma status_authorized: "status_ok (Clear_status PRE_AUTH_SESSION (Set_status OP_SESSION st))"
proof -
  have "\<not> Is_preauth_session (Clear_status PRE_AUTH_SESSION st')" for st'
    by (simp add: Is_preauth_session_def Clear_status_def and.assoc)
  then show ?thesis by (simp add: status_ok_def)
qed

lemma fold_send_soft [simp]: "soft s (fold (send_bytes m) xs t) \<longleftrightarrow> soft s t"
  by (induction xs arbitrary: t) simp_all

lemma accept_reply_soft [simp]: "soft s (accept_reply i t) \<longleftrightarrow> soft s t"
  by (simp only: accept_reply_def Let_def fold_send_soft)

lemma Sess_session_authorized_soft:
  assumes "Sess_session_authorized i s = Inr s'"
  shows "soft s s'"
proof -
  obtain es where s': "s' = upd_ses i (\<lambda>e. e\<lparr> s_num_mess := 0,
                  s_status := Clear_status PRE_AUTH_SESSION (Set_status OP_SESSION (s_status e)),
                  s_read := Message_reset_current_location\<lparr> in_mess_head := 1 \<rparr>, s_write := Message_reset_current_location \<rparr>)
                (s_emit es (accept_reply i s))"
    using assms by (auto simp: Sess_session_authorized_def Let_def)
  have "soft s (s_emit es (accept_reply i s))" by simp
  then show ?thesis unfolding s' by (rule soft_trans) (rule soft_upd; simp add: status_authorized)
qed

lemma Sess_session_report_keeps:
  assumes inv: "sess_inv ss s" and r: "Sess_session_report_auth_result a sa ok s = Some (Inr s')"
  shows "keeps ss s s'"
proof -
  obtain ses where ses: "Sess_get_session_index (sa_mbox sa) (table s) = Some ses"
    using r by (auto simp: Sess_session_report_auth_result_def split: option.splits)
  show ?thesis
  proof (cases "valid_ses ses s")
    case True
    note i = index_found(1) [OF inv ses True]
    have "Sess_session_denied (nat ses) s = Some (Inr s') \<or> Sess_session_authorized (nat ses) s = Inr s' \<or> (\<exists>es. s' = s_emit es s)"
      using r ses True by (auto simp: Sess_session_report_auth_result_def Let_def split: if_splits sum.splits bool.splits)
    then show ?thesis
      using Sess_session_denied_keeps [OF inv i] Sess_session_authorized_soft soft_keeps [OF inv] by auto
  next
    case False
    then show ?thesis using r ses soft_keeps [OF inv] by (simp add: Sess_session_report_auth_result_def)
  qed
qed

lemma soft_denied_keeps:
  assumes "sess_inv ss s" and "soft s t" and "i \<in> set ss" and "Sess_session_denied i t = Some (Inr s')"
  shows "keeps ss s s'"
  by (rule keeps_soft_trans [OF assms(2)]) (rule Sess_session_denied_keeps [OF soft_inv [OF assms(1,2)] assms(3,4)])

lemma soft_set_acp [simp]: "soft s (upd_ses i (\<lambda>e. e\<lparr> s_acp_ops := ops \<rparr>) t) \<longleftrightarrow> soft s t"
  by (auto simp: soft_def upd_ses_def)

lemma Sess_recv_client_auth_keeps:
  assumes inv: "sess_inv ss s" and r: "Sess_recv_client_auth a mbox s = Some (Inr s')"
  shows "keeps ss s s'"
proof -
  obtain ses where ses: "Sess_get_session_index mbox (table s) = Some ses"
    using r by (auto simp: Sess_recv_client_auth_def split: option.splits)
  show ?thesis
  proof (cases "valid_ses ses s")
    case True
    note i = index_found(1) [OF inv ses True]
    have "soft s s' \<or> (\<exists>t. soft s t \<and> Sess_session_denied (nat ses) t = Some (Inr s'))"
    proof -
      obtain ret again bytes k where k: "sock_recv (int (MAX_AUTH_NAME * MAX_AUTH_METHODS)) (socks s mbox) = (ret, again, bytes, k)"
        by (metis prod_cases4)
      define s1 where "s1 = set_sock mbox k (s_emit [Detach_fd mbox READ_FD, Detach_fd mbox EXCEPT_FD] s)"
      have s1: "soft s s1" by (simp add: s1_def)
      have so: "socks (s_emit es s) m = socks s m" for es m by (simp add: s_emit_def)
      have "Sess_session_denied (nat ses) s1 = Some (Inr s') \<or>
          (\<exists>ops. let t = upd_ses (nat ses) (\<lambda>e. e\<lparr> s_acp_ops := ops \<rparr>) s1
             in Sess_session_denied (nat ses) t = Some (Inr s') \<or> (\<exists>es. s' = s_emit es t))"
        using r ses True k unfolding Sess_recv_client_auth_def Let_def so
        by (auto simp: s1_def [symmetric] Let_def split: if_splits sum.splits option.splits bool.splits) blast
      then show ?thesis using s1 by (auto simp: Let_def)
    qed
    then show ?thesis using soft_keeps [OF inv] soft_denied_keeps [OF inv _ i] by blast
  next
    case False
    then show ?thesis using r ses soft_keeps [OF inv] by (simp add: Sess_recv_client_auth_def)
  qed
qed

section \<open>New sessions\<close>

lemma legal_digit: "n < 10 \<Longrightarrow> legal_char (char_of (48 + n :: nat))"
  by (simp add: legal_char_def)

lemma digits_legal: "list_all legal_char (digits n)"
  by (induction n rule: digits.induct) (subst digits.simps, auto simp: legal_digit simp del: digits.simps)

lemma digits_nonempty: "digits n \<noteq> []"
  by (subst digits.simps) (simp del: digits.simps)

lemma random_name_ok: "private_name_ok (random_name r mbox)"
proof -
  have "list_all legal_char (''r'' @ digits r @ ''-'' @ digits k)" for k
    using digits_legal by (simp add: legal_char_def del: digits.simps)
  moreover have "list_all legal_char (take k xs)" if "list_all legal_char xs" for k xs
    using that by (auto simp: list_all_iff dest: in_set_takeD)
  ultimately have "list_all legal_char (random_name r mbox)" unfolding random_name_def by blast
  then show ?thesis by (simp add: private_name_ok_def random_name_def del: digits.simps)
qed

lemma accept_session_inserts:
  assumes t: "table_ok n t ss" and room: "length ss < n" and mbox: "s_mbox tpl \<notin> (\<lambda>i. s_mbox (Sessions t i)) ` set ss"
    and r: "accept_session tpl t = Some (Inr (Some (i, t')))"
  shows "\<exists>as bs. ss = as @ bs \<and> table_ok n t' (as @ i # bs) \<and> i \<notin> set ss \<and>
    contents (Sessions t' i) = contents (tpl\<lparr> s_status := Set_status PRE_AUTH_SESSION (s_status tpl) \<rparr>) \<and>
    (\<forall>j \<in> set ss. contents (Sessions t' j) = contents (Sessions t j))"
proof -
  have "s_name tpl \<notin> set (names t ss)"
  proof
    assume "s_name tpl \<in> set (names t ss)"
    then have "accept_session tpl t = Some (Inr None)"
      using unique_place_correct [OF t, of "s_name tpl"] by (auto simp: accept_session_def)
    then show False using r by simp
  qed
  from accept_refines [OF t room this mbox] show ?thesis using r by auto
qed

lemma start_auth_cases:
  assumes "start_auth a i v s = Some (Inr s')"
  shows "\<exists>t. soft s t \<and> (s' = t \<or> Sess_session_denied i t = Some (Inr s') \<or> Sess_session_authorized i t = Inr s')"
proof (cases "v < 31600")
  case True
  then obtain ops where ops: "Acm_acp_fill_ops a = Inr ops" using assms by (auto simp: start_auth_def split: sum.splits)
  let ?t = "upd_ses i (\<lambda>e. e\<lparr> s_acp_ops := ops \<rparr>) s"
  have "soft s ?t" by simp
  moreover have "(\<exists>es. s' = s_emit es ?t) \<or> Sess_session_denied i ?t = Some (Inr s') \<or> Sess_session_authorized i ?t = Inr s'"
    using assms True ops by (auto simp: start_auth_def Let_def split: if_splits)
  ultimately show ?thesis by (metis soft_emit(1))
next
  case False
  define t where "t = send_bytes (s_mbox (ses_of s i)) (bytes_of (Acm_auth_get_allowed_list a))
    (send_bytes (s_mbox (ses_of s i)) [word_of_int (int (length (Acm_auth_get_allowed_list a)))] s)"
  have "soft s t" by (simp add: t_def)
  moreover have "(\<exists>es. s' = s_emit es t) \<or> Sess_session_denied i t = Some (Inr s')"
    using assms False unfolding start_auth_def Let_def t_def [symmetric] by (auto split: if_splits)
  ultimately show ?thesis by (metis soft_emit(1))
qed

lemma add_session_inv:
  assumes inv: "sess_inv ss s" and room: "length ss < MAX_SESSIONS s" and mbox: "s_mbox tpl \<notin> mboxes ss s"
    and tpl: "private_name_ok (s_name tpl)" "\<not> Is_op_session (s_status tpl)"
    and acc: "accept_session tpl (table s) = Some (Inr (Some (i, t')))" and r: "add_session a v s (Some (Inr (i, t'))) = Some (Inr s')"
  shows "\<exists>ss'. sess_inv ss' s'"
proof -
  have t: "table_ok (MAX_SESSIONS s) (table s) ss" using inv by (simp add: sess_inv_def)
  obtain as bs where x: "ss = as @ bs" "table_ok (MAX_SESSIONS s) t' (as @ i # bs)" "i \<notin> set ss"
      "contents (Sessions t' i) = contents (tpl\<lparr> s_status := Set_status PRE_AUTH_SESSION (s_status tpl) \<rparr>)"
      "\<forall>j \<in> set ss. contents (Sessions t' j) = contents (ses_of s j)"
    using accept_session_inserts [OF t room _ acc] mbox by (auto simp: mboxes_def)
  define s1 where "s1 = s\<lparr> table := t', Num_sessions := Num_sessions s + 1 \<rparr>"
  have "Is_op_session (Set_status PRE_AUTH_SESSION st) \<longleftrightarrow> Is_op_session st" for st
    by (simp add: Is_op_session_def Set_status_def and.commute [of _ "16"] bit.conj_disj_distrib)
  then have st: "status_ok (s_status (ses_of s1 i))" "s_name (ses_of s1 i) = s_name tpl"
    using contents_eqD(1,3) [OF x(4)] tpl(2) by (simp_all add: s1_def status_ok_def)
  have "private_name_ok (s_name (ses_of s1 j)) \<and> status_ok (s_status (ses_of s1 j))" if "j \<in> set ss" for j
    using contents_eqD(1,3) [of "Sessions t' j" "ses_of s j"] x(5) that inv by (simp add: s1_def sess_inv_def)
  then have inv1: "sess_inv (as @ i # bs) s1"
    using inv x(1,2) st tpl(1) by (auto simp: sess_inv_def s1_def)
  have "start_auth a i v s1 = Some (Inr s')" using r by (simp add: add_session_def s1_def)
  from start_auth_cases [OF this] obtain t where
    t: "soft s1 t" "s' = t \<or> Sess_session_denied i t = Some (Inr s') \<or> Sess_session_authorized i t = Inr s'" by blast
  then have "keeps (as @ i # bs) s1 s'"
    using soft_keeps [OF inv1] soft_denied_keeps [OF inv1 t(1), of i] Sess_session_authorized_soft soft_trans [OF t(1)] by auto
  then show ?thesis by (auto simp: keeps_def)
qed

text \<open>The states between \<open>Sess_accept\<close> and \<open>Sess_accept_continue\<close>.\<close>

definition can_accept :: "nat list \<Rightarrow> sess_state \<Rightarrow> bool" where
  "can_accept ss s \<longleftrightarrow> sess_inv ss s \<and> length ss < MAX_SESSIONS s \<and> s_mbox (new_ses s) \<notin> mboxes ss s"

text \<open>Reading from a new connection, and remembering what was read.\<close>

definition new_soft :: "sess_state \<Rightarrow> sess_state \<Rightarrow> bool" where
  "new_soft s s' \<longleftrightarrow> table s' = table s \<and> MAX_SESSIONS s' = MAX_SESSIONS s \<and> Num_sessions s' = Num_sessions s \<and>
     s_mbox (new_ses s') = s_mbox (new_ses s) \<and>
     (Is_op_session (s_status (new_ses s')) \<longleftrightarrow> Is_op_session (s_status (new_ses s)))"

lemma new_soft_trans: "new_soft s t \<Longrightarrow> new_soft t u \<Longrightarrow> new_soft s u"
  by (simp add: new_soft_def)

lemma new_soft_accept: "can_accept ss s \<Longrightarrow> new_soft s s' \<Longrightarrow> can_accept ss s'"
  by (auto simp: can_accept_def sess_inv_def new_soft_def mboxes_def)

lemma new_soft_simps [simp]:
  "new_soft s (s_emit es s)" "new_soft s (set_sock m k s)" "new_soft s (close_new s)" "new_soft s (reject_new r s)"
  "new_soft s (Sess_attach_accept s)"
  by (simp_all add: new_soft_def s_emit_def set_sock_def close_new_def reject_new_def send_bytes_def Sess_attach_accept_def)

lemma recv_new_soft: "recv_new n s = (r, s') \<Longrightarrow> new_soft s s'"
  by (auto simp: recv_new_def Let_def split: prod.splits)

lemma sock_recv_length: "sock_recv n k = (ret, again, bytes, k') \<Longrightarrow> 0 \<le> ret \<Longrightarrow> int (length bytes) = ret"
  by (auto simp: sock_recv_def Let_def split: list.splits recv_answer.splits)

lemma accept_random_some:
  assumes "accept_random rs tpl t = Some (Inr (i, t'))"
  shows "\<exists>r. accept_session (tpl\<lparr> s_name := random_name r (s_mbox tpl) \<rparr>) t = Some (Inr (Some (i, t')))"
  using assms by (induction rs) (auto split: option.splits sum.splits)

lemma can_accept_inv: "can_accept ss s \<Longrightarrow> \<exists>ss. sess_inv ss s"
  by (auto simp: can_accept_def)

lemma accept_named_inv:
  assumes c: "can_accept ss s" and len: "0 < len" "len \<le> MAX_PRIVATE_NAME" and r: "accept_named a v len s = Some (Inr s')"
  shows "\<exists>ss. sess_inv ss s'"
proof -
  obtain ret again bytes k where k: "sock_recv (int MAX_PRIVATE_NAME) (socks s (s_mbox (new_ses s))) = (ret, again, bytes, k)"
    by (metis prod_cases4)
  define s1 where "s1 = set_sock (s_mbox (new_ses s)) k s"
  define name where "name = chars_of (take len bytes)"
  define s2 where "s2 = s1\<lparr> new_ses := (new_ses s1)\<lparr> s_name := cstr name \<rparr> \<rparr>"
  have s2: "new_soft s s2" "new_soft s s1" by (simp_all add: new_soft_def s2_def s1_def set_sock_def)
  note c2 = new_soft_accept [OF c s2(1)] and c1 = new_soft_accept [OF c s2(2)]
  have "new_soft s1 s' \<or> new_soft s2 s' \<or> (ret = int len \<and> list_all legal_char name \<and>
      (\<exists>i t. accept_session (new_ses s2) (table s2) = Some (Inr (Some (i, t))) \<and> add_session a v s2 (Some (Inr (i, t))) = Some (Inr s')))"
    using r k unfolding accept_named_def Let_def
    by (auto simp: s1_def [symmetric] name_def [symmetric] s2_def [symmetric] split: if_splits option.splits sum.splits)
  moreover have ?thesis if x: "ret = int len" "list_all legal_char name"
    "accept_session (new_ses s2) (table s2) = Some (Inr (Some (i, t)))" "add_session a v s2 (Some (Inr (i, t))) = Some (Inr s')" for i t
  proof -
    have "length name = len" using sock_recv_length [OF k] x(1) by (simp add: name_def chars_of_def)
    moreover have "cstr name = name" using x(2) by (auto simp: cstr_def takeWhile_eq_all_conv list_all_iff dest: legal_char_neq)
    ultimately have "private_name_ok (s_name (new_ses s2))" using x(2) len by (auto simp: private_name_ok_def s2_def)
    then show ?thesis using add_session_inv [OF _ _ _ _ _ x(3,4)] c2 by (auto simp: can_accept_def sess_inv_def)
  qed
  ultimately show ?thesis using new_soft_accept [OF c1] new_soft_accept [OF c2] can_accept_inv by blast
qed

lemma accept_name_inv:
  assumes c: "can_accept ss s" and r: "accept_name a rands v s = Some (Inr s')"
  shows "\<exists>ss. sess_inv ss s'"
proof -
  obtain b s1 where b: "recv_new 2 s = (b, s1)" by fastforce
  note c1 = new_soft_accept [OF c recv_new_soft [OF b]]
  show ?thesis
  proof (cases b)
    case None
    then have "s' = close_new s1" using r b by (simp add: accept_name_def)
    then show ?thesis using new_soft_accept [OF c1, of "close_new s1"] can_accept_inv by auto
  next
    case (Some bs)
    define s2 where "s2 = s1\<lparr> new_ses := (new_ses s1)\<lparr> s_status := (if c_mod (sint (bs ! 0)) 2 = 1 then Set_status else Clear_status) MEMB_SESSION (s_status (new_ses s1)),
                    s_priority := c_div (sint (bs ! 0)) 16 \<rparr> \<rparr>"
    have "Is_op_session (Set_status MEMB_SESSION st) = Is_op_session st" "Is_op_session (Clear_status MEMB_SESSION st) = Is_op_session st" for st
    proof -
      show "Is_op_session (Set_status MEMB_SESSION st) = Is_op_session st"
        by (simp add: Is_op_session_def Set_status_def and.commute [of _ "16"] bit.conj_disj_distrib)
      have "NOT 1 AND 16 = (16 :: 32 word)" by simp
      then show "Is_op_session (Clear_status MEMB_SESSION st) = Is_op_session st"
        by (simp add: Is_op_session_def Clear_status_def and.assoc)
    qed
    then have "new_soft s1 s2" by (simp add: new_soft_def s2_def)
    note c2 = new_soft_accept [OF c1 this]
    have "s' = reject_new REJECT_ILLEGAL_NAME s2 \<or> add_session a v s2 (accept_random rands (new_ses s2) (table s2)) = Some (Inr s') \<or>
        (\<exists>len. 0 < len \<and> len \<le> MAX_PRIVATE_NAME \<and> accept_named a v len s2 = Some (Inr s'))"
    proof -
      have "accept_name a rands v s =
          (if sint (bs ! 1) > int MAX_PRIVATE_NAME \<or> sint (bs ! 1) < 0 then Some (Inr (reject_new REJECT_ILLEGAL_NAME s2))
           else if sint (bs ! 1) = 0 then add_session a v s2 (accept_random rands (new_ses s2) (table s2))
           else accept_named a v (nat (sint (bs ! 1))) s2)"
        unfolding accept_name_def b Some prod.case option.case Let_def s2_def by simp
      moreover have "0 < nat (sint (bs ! 1)) \<and> nat (sint (bs ! 1)) \<le> MAX_PRIVATE_NAME"
        if "\<not> (sint (bs ! 1) > int MAX_PRIVATE_NAME \<or> sint (bs ! 1) < 0)" "sint (bs ! 1) \<noteq> 0" using that by auto
      ultimately show ?thesis using r by (metis option.inject sum.inject(2))
    qed
    moreover have ?thesis if x: "add_session a v s2 (accept_random rands (new_ses s2) (table s2)) = Some (Inr s')"
    proof -
      obtain i t where it: "accept_random rands (new_ses s2) (table s2) = Some (Inr (i, t))"
        using x by (auto simp: add_session_def split: option.splits sum.splits)
      obtain rn where "accept_session ((new_ses s2)\<lparr> s_name := random_name rn (s_mbox (new_ses s2)) \<rparr>) (table s2) = Some (Inr (Some (i, t)))"
        using accept_random_some [OF it] by blast
      from add_session_inv [OF _ _ _ _ _ this] x it c2 random_name_ok show ?thesis by (auto simp: can_accept_def sess_inv_def)
    qed
    ultimately show ?thesis
      using new_soft_accept [OF c2, of "reject_new REJECT_ILLEGAL_NAME s2"] can_accept_inv accept_named_inv [OF c2] by auto
  qed
qed

lemma Sess_accept_continue_inv:
  assumes c: "can_accept ss s" and r: "Sess_accept_continue a rands s = Some (Inr s')"
  shows "\<exists>ss. sess_inv ss s'"
proof -
  define s1 where "s1 = Sess_attach_accept (s_emit [Dequeue_accept_continue, Detach_fd (s_mbox (new_ses s)) READ_FD,
    Detach_fd (s_mbox (new_ses s)) EXCEPT_FD] s)"
  have "new_soft s s1" unfolding s1_def by (rule new_soft_trans [OF new_soft_simps(1) new_soft_simps(5)])
  note c1 = new_soft_accept [OF c this]
  obtain b s2 where b: "recv_new 2 s1 = (b, s2)" by fastforce
  note c2 = new_soft_accept [OF c1 recv_new_soft [OF b]]
  have closed: ?thesis if "s' = close_new t \<or> s' = reject_new q t" "can_accept ss t" for t q
    using that(1) can_accept_inv [OF new_soft_accept [OF that(2) new_soft_simps(3)]]
      can_accept_inv [OF new_soft_accept [OF that(2) new_soft_simps(4)]] by blast
  show ?thesis
  proof (cases b)
    case None
    then show ?thesis using r b closed [OF _ c2] unfolding Sess_accept_continue_def Let_def s1_def [symmetric] by simp
  next
    case (Some bs)
    obtain p s3 where p: "(if lib_version [sint (bs ! 0), sint (bs ! 1), 0] > 31400
                    then (case recv_new 1 s2 of (None, s) \<Rightarrow> (None, s) | (Some c, s) \<Rightarrow> (Some (sint (c ! 0)), s))
                    else (Some 0, s2)) = (p, s3)" by fastforce
    have "new_soft s2 s3" using p recv_new_soft [of 1 s2] by (auto simp: new_soft_def split: if_splits prod.splits option.splits)
    note c3 = new_soft_accept [OF c2 this]
    have x: "(case (p, s3) of (None, s) \<Rightarrow> Some (Inr (close_new s))
              | (Some patch, s) \<Rightarrow>
                  let version = [sint (bs ! 0), sint (bs ! 1), patch]
                  in if lib_version version < 30100 then Some (Inr (reject_new REJECT_VERSION s))
                     else accept_name a rands (lib_version version) (s\<lparr> new_ses := (new_ses s)\<lparr> s_lib_version := version \<rparr> \<rparr>)) = Some (Inr s')"
      using r b Some unfolding Sess_accept_continue_def Let_def s1_def [symmetric] p [symmetric] by simp
    show ?thesis
    proof (cases p)
      case None
      then show ?thesis using x closed [OF _ c3] by simp
    next
      case (Some patch)
      have "new_soft s3 (s3\<lparr> new_ses := (new_ses s3)\<lparr> s_lib_version := v \<rparr> \<rparr>)" for v by (simp add: new_soft_def)
      note n = accept_name_inv [OF new_soft_accept [OF c3 this]]
      show ?thesis using x Some closed [OF _ c3] n by (simp add: Let_def split: if_splits) blast+
    qed
  qed
qed

lemma Sess_accept_can:
  assumes inv: "sess_inv ss s" and free: "Sess_get_session_index accepted (table s) = Some (- 1)"
    and r: "Sess_accept accepted addr s = Some (Inr s')"
  shows "sess_inv ss s'" and "accepted \<noteq> - 1 \<and> Num_sessions s < int (MAX_SESSIONS s) \<Longrightarrow> can_accept ss s'"
proof -
  have fields: "table s' = table s \<and> MAX_SESSIONS s' = MAX_SESSIONS s \<and> Num_sessions s' = Num_sessions s \<and>
      s_mbox (new_ses s') = accepted \<and> s_status (new_ses s') = s_status (new_ses s)"
    using r by (auto simp: Sess_accept_def Let_def reject_new_def close_new_def send_bytes_def set_sock_def s_emit_def
        Sess_detach_accept_def split: if_splits)
  then show inv': "sess_inv ss s'" using inv by (auto simp: sess_inv_def)
  have "accepted \<notin> mboxes ss s"
    using Sess_get_session_index_correct(1) [of "MAX_SESSIONS s" "table s" ss] inv free by (auto simp: sess_inv_def mboxes_def)
  then show "can_accept ss s'" if "accepted \<noteq> - 1 \<and> Num_sessions s < int (MAX_SESSIONS s)"
    using that inv inv' fields by (auto simp: can_accept_def sess_inv_def mboxes_def)
qed

section \<open>Runs\<close>

text \<open>
  The states of the session layer, with the mark whether a connection is being accepted. The
  operating system gives a new connection a descriptor that no session uses.
\<close>

type_synonym sess_run = "sess_state \<times> bool"

inductive sess_step :: "acm_state \<Rightarrow> sess_run \<Rightarrow> sess_run \<Rightarrow> bool" for a :: acm_state where
  "Sess_get_session_index accepted (table s) = Some (- 1) \<Longrightarrow> Sess_accept accepted addr s = Some (Inr s') \<Longrightarrow>
     sess_step a (s, False) (s', accepted \<noteq> - 1 \<and> Num_sessions s < int (MAX_SESSIONS s))"
| "Sess_accept_continue a rands s = Some (Inr s') \<Longrightarrow> sess_step a (s, True) (s', False)"
| "Sess_recv_client_auth a mbox s = Some (Inr s') \<Longrightarrow> sess_step a (s, p) (s', p)"
| "Sess_session_report_auth_result a sa authenticated s = Some (Inr s') \<Longrightarrow> sess_step a (s, p) (s', p)"
| "Sess_read num_local mbox s = Some (Inr s') \<Longrightarrow> sess_step a (s, p) (s', p)"
| "Sess_write i m needed s = Some (Inr (n, s')) \<Longrightarrow> sess_step a (s, p) (s', p)"
| "Sess_badger mbox s = Some (Inr s') \<Longrightarrow> sess_step a (s, p) (s', p)"
| "Sess_kill mbox s = Some (Inr s') \<Longrightarrow> sess_step a (s, p) (s', p)"
| "Sess_end_session private_name proc_name s = Some (Inr s') \<Longrightarrow> sess_step a (s, p) (s', p)"

inductive_cases sess_stepE: "sess_step a (s, p) (s', p')"

definition sess_started :: "sess_run \<Rightarrow> bool" where
  "sess_started r \<longleftrightarrow> (\<exists>s t. r = (s\<lparr> table := Sess_init_sessions (MAX_SESSIONS s) t, Num_sessions := 0 \<rparr>, False) \<and>
     \<not> Is_op_session (s_status (new_ses s)))"

definition run_inv :: "sess_run \<Rightarrow> bool" where
  "run_inv = (\<lambda>(s, p). \<exists>ss. sess_inv ss s \<and> (p \<longrightarrow> can_accept ss s))"

lemma keeps_run:
  assumes k: "keeps ss s s'" and p: "p \<longrightarrow> can_accept ss s"
  shows "run_inv (s', p)"
  using assms by (fastforce simp: run_inv_def keeps_def can_accept_def)

lemma sess_step_inv:
  assumes i: "run_inv (s, p)" and st: "sess_step a (s, p) (s', p')"
  shows "run_inv (s', p')"
proof -
  obtain ss where ss: "sess_inv ss s" "p \<longrightarrow> can_accept ss s" using i by (auto simp: run_inv_def)
  note k = keeps_run [OF _ ss(2)] and sk = keeps_run [OF soft_keeps [OF ss(1)] ss(2)]
  from st show ?thesis
    by (elim sess_stepE)
      (use k sk ss Sess_accept_can [OF ss(1)] Sess_accept_continue_inv Sess_recv_client_auth_keeps Sess_session_report_keeps
        Sess_read_soft Sess_write_soft Sess_badger_soft Sess_kill_soft Sess_end_session_keeps in
        \<open>(blast | fastforce simp: run_inv_def)+\<close>)
qed

lemma sess_started_inv: "sess_started r \<Longrightarrow> run_inv r"
proof -
  assume "sess_started r"
  then obtain s t where r: "r = (s\<lparr> table := Sess_init_sessions (MAX_SESSIONS s) t, Num_sessions := 0 \<rparr>, False)"
      "\<not> Is_op_session (s_status (new_ses s))" by (auto simp: sess_started_def)
  have "table_ok (MAX_SESSIONS s) (Sess_init_sessions (MAX_SESSIONS s) t) []"
    using Sess_init_sort [of "MAX_SESSIONS s" t] by (auto simp: table_ok_def names_def)
  then have "sess_inv [] (fst r)" using r by (simp add: sess_inv_def)
  then show ?thesis using r by (auto simp: run_inv_def)
qed

interpretation session_runs: step_system sess_started "sess_step a" run_inv for a
proof
  show "run_inv r" if "sess_started r" for r using that by (rule sess_started_inv)
  show "run_inv r'" if "run_inv r" "sess_step a r r'" for r r'
    using that sess_step_inv by (metis surj_pair)
qed

end
