(* ===== verification/Session_Stream.thy ===== *)
theory Session_Stream
  imports Session_IO Session_Table
begin

text \<open>
  What a client receives: the bytes written to its socket and those still queued are the bytes of
  the messages written to the session, in their order, however the socket splits them.
\<close>

section \<open>Well-formed messages and queues\<close>

definition element_ok :: "scat_element \<Rightarrow> bool" where
  "element_ok e \<longleftrightarrow> 0 \<le> se_len e \<and> se_len e \<le> int (length (se_buf e))"

definition message_ok :: "scatter \<Rightarrow> bool" where
  "message_ok m \<longleftrightarrow> m \<noteq> [] \<and> (\<forall>e \<in> set m. element_ok e) \<and> sizeof_message_header \<le> se_len (hd m) \<and>
     (has_mess (mh_type (Message_get_message_header m)) REJECT_MESS \<longrightarrow> se_len (hd m) = sizeof_message_header)"

text \<open>The bytes from a place in a list of elements on.\<close>

definition rest_bytes :: "scatter \<Rightarrow> int \<Rightarrow> byte list" where
  "rest_bytes es from = (case es of [] \<Rightarrow> [] | e # es \<Rightarrow> drop (nat from) (element_bytes e) @ message_bytes es)"

definition place_ok :: "scatter \<Rightarrow> partial_message_info \<Rightarrow> bool" where
  "place_ok m w \<longleftrightarrow> in_mess_head w = 0 \<and> 0 \<le> pm_cur_element w \<and> pm_cur_element w < int (length m) \<and>
     0 \<le> pm_cur_byte w \<and> pm_cur_byte w \<le> se_len (m ! nat (pm_cur_element w))"

definition queue_ok :: "session \<Rightarrow> bool" where
  "queue_ok e \<longleftrightarrow> s_num_mess e = int (length (s_links e)) \<and> (\<forall>m \<in> set (s_links e). message_ok m) \<and>
     (s_links e \<noteq> [] \<longrightarrow> place_ok (hd (s_links e)) (s_write e))"

definition pending :: "session \<Rightarrow> byte list" where
  "pending e =
     (case s_links e of
        [] \<Rightarrow> []
      | m # ms \<Rightarrow> rest_bytes (drop (nat (pm_cur_element (s_write e))) m) (pm_cur_byte (s_write e)) @
                 concat (map message_bytes ms))"

lemma length_element_bytes: "element_ok e \<Longrightarrow> int (length (element_bytes e)) = se_len e"
  by (auto simp: element_ok_def element_bytes_def)

lemma length_message_bytes:
  "\<forall>e \<in> set m. element_ok e \<Longrightarrow> int (length (message_bytes m)) = sum_list (map se_len m)"
  by (induction m) (auto simp: message_bytes_def length_element_bytes)

lemma message_bytes_simps [simp]:
  "message_bytes [] = []" "message_bytes (e # es) = element_bytes e @ message_bytes es"
  by (simp_all add: message_bytes_def)

lemma rest_bytes_0 [simp]: "rest_bytes m 0 = message_bytes m"
  by (cases m) (simp_all add: rest_bytes_def)

lemma rest_bytes_simps [simp]:
  "rest_bytes [] from = []" "rest_bytes (e # es) from = drop (nat from) (element_bytes e) @ message_bytes es"
  by (simp_all add: rest_bytes_def)

section \<open>Sending\<close>

lemma sock_send_sent:
  assumes "sock_send xs k = (r, k')"
  shows "r \<le> int (length xs)" and "sk_sent k' = sk_sent k @ take (nat r) xs"
  using assms by (auto simp: sock_send_def Let_def split: list.splits)

lemma send_range_ok:
  assumes e: "element_ok e" and "0 \<le> from" "0 \<le> n" "from + n \<le> se_len e"
  shows "\<exists>r k'. send_range (se_buf e) from n k = Inr (r, k') \<and> r \<le> n \<and>
    sk_sent k' = sk_sent k @ take (nat r) (take (nat n) (drop (nat from) (element_bytes e)))"
proof -
  have b: "take (nat n) (drop (nat from) (se_buf e)) = take (nat n) (drop (nat from) (element_bytes e))"
    using assms by (simp add: element_bytes_def drop_take min_def nat_le_eq_zle flip: nat_diff_distrib') 
  have l: "int (length (take (nat n) (drop (nat from) (se_buf e)))) = n"
    using assms by (simp add: element_ok_def)
  obtain r k' where s: "sock_send (take (nat n) (drop (nat from) (se_buf e))) k = (r, k')" by fastforce
  have "send_range (se_buf e) from n k = Inr (r, k')"
    using assms s by (simp add: send_range_def element_ok_def)
  then show ?thesis using sock_send_sent [OF s] l b by auto
qed

lemma badger_elements_stream:
  assumes "\<forall>e \<in> set es. element_ok e" and "0 \<le> pm_cur_byte w" and "es \<noteq> [] \<Longrightarrow> pm_cur_byte w \<le> se_len (hd es)"
  shows "\<exists>able w' k'. badger_elements es (pm_cur_byte w) w k = Inr (able, w', k') \<and>
    (if able then sk_sent k' = sk_sent k @ rest_bytes es (pm_cur_byte w)
     else in_mess_head w' = in_mess_head w \<and>
       (\<exists>j < length es. pm_cur_element w' = pm_cur_element w + int j \<and> 0 \<le> pm_cur_byte w' \<and> pm_cur_byte w' \<le> se_len (es ! j) \<and>
          sk_sent k' @ rest_bytes (drop j es) (pm_cur_byte w') = sk_sent k @ rest_bytes es (pm_cur_byte w)))"
  using assms
proof (induction es arbitrary: w k)
  case (Cons e es)
  let ?from = "pm_cur_byte w" and ?n = "se_len e - pm_cur_byte w"
  have e: "element_ok e" "0 \<le> ?from" "0 \<le> ?n" "?from + ?n \<le> se_len e" using Cons.prems by auto
  obtain r k1 where r: "send_range (se_buf e) ?from ?n k = Inr (r, k1)" "r \<le> ?n"
      "sk_sent k1 = sk_sent k @ take (nat r) (take (nat ?n) (drop (nat ?from) (element_bytes e)))"
    using send_range_ok [OF e] by blast
  have all: "take (nat ?n) (drop (nat ?from) (element_bytes e)) = drop (nat ?from) (element_bytes e)"
    using length_element_bytes [OF e(1)] e by (intro take_all) simp
  show ?case
  proof (cases "r = ?n")
    case True
    let ?w = "w\<lparr> pm_cur_byte := 0, pm_cur_element := pm_cur_element w + 1 \<rparr>"
    have "sk_sent k1 = sk_sent k @ drop (nat ?from) (element_bytes e)" using r(3) True all by simp
    moreover have "\<exists>able w' k'. badger_elements es (pm_cur_byte ?w) ?w k1 = Inr (able, w', k') \<and>
      (if able then sk_sent k' = sk_sent k1 @ rest_bytes es (pm_cur_byte ?w)
       else in_mess_head w' = in_mess_head ?w \<and>
         (\<exists>j < length es. pm_cur_element w' = pm_cur_element ?w + int j \<and> 0 \<le> pm_cur_byte w' \<and> pm_cur_byte w' \<le> se_len (es ! j) \<and>
            sk_sent k' @ rest_bytes (drop j es) (pm_cur_byte w') = sk_sent k1 @ rest_bytes es (pm_cur_byte ?w)))"
      using Cons.prems by (intro Cons.IH) (auto simp: element_ok_def neq_Nil_conv)
    moreover have "badger_elements (e # es) ?from w k = badger_elements es 0 ?w k1" using r(1) True by simp
    ultimately show ?thesis by (force split: if_splits intro: exI [of _ "Suc _"])
  next
    case False
    let ?w = "if r > 0 then w\<lparr> pm_cur_byte := ?from + r \<rparr> else w"
    have "badger_elements (e # es) ?from w k = Inr (False, ?w, k1)" using r(1) False by simp
    moreover have "sk_sent k1 @ drop (nat (pm_cur_byte ?w)) (element_bytes e) = sk_sent k @ drop (nat ?from) (element_bytes e)"
    proof (cases "r > 0")
      case True
      then have "nat (?from + r) = nat r + nat ?from" using e(2) by simp
      then have "drop (nat (?from + r)) (element_bytes e) = drop (nat r) (drop (nat ?from) (element_bytes e))" by simp
      moreover have "pm_cur_byte ?w = ?from + r" using True by simp
      ultimately show ?thesis by (simp only: r(3) all append_assoc append_take_drop_id)
    qed (use r(3) in simp)
    ultimately show ?thesis using r(2) e by (auto intro!: exI [of _ 0])
  qed
qed auto

lemma place_start: "message_ok m \<Longrightarrow> place_ok m Message_reset_current_location"
  by (auto simp: message_ok_def place_ok_def Message_reset_current_location_def neq_Nil_conv)

lemma badger_message_stream:
  assumes m: "message_ok m" and w: "place_ok m w"
  shows "\<exists>able w' k'. badger_message m w k = Inr (able, w', k') \<and>
    (if able then sk_sent k' = sk_sent k @ rest_bytes (drop (nat (pm_cur_element w)) m) (pm_cur_byte w)
     else place_ok m w' \<and> sk_sent k' @ rest_bytes (drop (nat (pm_cur_element w')) m) (pm_cur_byte w') =
       sk_sent k @ rest_bytes (drop (nat (pm_cur_element w)) m) (pm_cur_byte w))"
proof -
  let ?c = "nat (pm_cur_element w)"
  have c: "?c < length m" "in_mess_head w = 0" "0 \<le> pm_cur_byte w" "pm_cur_byte w \<le> se_len (hd (drop ?c m))" "0 \<le> pm_cur_element w"
    using w by (auto simp: place_ok_def hd_drop_conv_nth)
  have "\<forall>e \<in> set (drop ?c m). element_ok e" using m by (auto simp: message_ok_def dest: in_set_dropD)
  from badger_elements_stream [OF this c(3)] c(4) obtain able w' k' where
    b: "badger_elements (drop ?c m) (pm_cur_byte w) w k = Inr (able, w', k')" and
    r: "if able then sk_sent k' = sk_sent k @ rest_bytes (drop ?c m) (pm_cur_byte w)
     else in_mess_head w' = in_mess_head w \<and>
       (\<exists>j < length (drop ?c m). pm_cur_element w' = pm_cur_element w + int j \<and> 0 \<le> pm_cur_byte w' \<and>
          pm_cur_byte w' \<le> se_len (drop ?c m ! j) \<and>
          sk_sent k' @ rest_bytes (drop j (drop ?c m)) (pm_cur_byte w') = sk_sent k @ rest_bytes (drop ?c m) (pm_cur_byte w))"
    by blast
  have "badger_message m w k = Inr (able, w', k')" using b c(2) by (simp add: badger_message_def)
  moreover have "place_ok m w' \<and> sk_sent k' @ rest_bytes (drop (nat (pm_cur_element w')) m) (pm_cur_byte w') =
       sk_sent k @ rest_bytes (drop ?c m) (pm_cur_byte w)" if na: "\<not> able"
  proof -
    obtain j where j: "j < length m - ?c" "pm_cur_element w' = pm_cur_element w + int j" "0 \<le> pm_cur_byte w'"
        "pm_cur_byte w' \<le> se_len (drop ?c m ! j)" "in_mess_head w' = 0"
        "sk_sent k' @ rest_bytes (drop j (drop ?c m)) (pm_cur_byte w') = sk_sent k @ rest_bytes (drop ?c m) (pm_cur_byte w)"
      using r na c(2) by auto
    have n: "nat (pm_cur_element w') = j + ?c" using j(2) c(5) by simp
    have "place_ok m w'" using j c(1,5) n by (auto simp: place_ok_def add.commute)
    then show ?thesis using j(6) n by simp
  qed
  ultimately show ?thesis using r by auto
qed

section \<open>The queue of a session\<close>

lemma pending_start:
  "pending (e\<lparr> s_links := ms, s_num_mess := n, s_write := Message_reset_current_location \<rparr>) = concat (map message_bytes ms)"
  by (cases ms) (simp_all add: pending_def Message_reset_current_location_def)

lemma badger_loop_stream:
  assumes "queue_ok e"
  shows "\<exists>ms n w k'. let e' = e\<lparr> s_links := ms, s_num_mess := n, s_write := w \<rparr> in
    badger_loop e k = Inr (e', k') \<and> queue_ok e' \<and> sk_sent k' @ pending e' = sk_sent k @ pending e"
  using assms
proof (induction "length (s_links e)" arbitrary: e k)
  case 0
  then have b: "badger_loop e k = Inr (e, k)" by (subst badger_loop.simps) (simp add: queue_ok_def)
  have e: "e\<lparr> s_links := s_links e, s_num_mess := s_num_mess e, s_write := s_write e \<rparr> = e" by simp
  show ?case
    by (intro exI [of _ "s_links e"] exI [of _ "s_num_mess e"] exI [of _ "s_write e"] exI [of _ k])
      (simp only: e Let_def b 0 simp_thms)
next
  case (Suc l)
  then obtain m ms where ms: "s_links e = m # ms" "length ms = l" by (cases "s_links e") auto
  have q: "message_ok m" "place_ok m (s_write e)" "s_num_mess e = int (length ms) + 1" "\<forall>m \<in> set ms. message_ok m"
    using Suc.prems ms by (auto simp: queue_ok_def)
  obtain able w' k1 where b: "badger_message m (s_write e) k = Inr (able, w', k1)"
    and r: "if able then sk_sent k1 = sk_sent k @ rest_bytes (drop (nat (pm_cur_element (s_write e))) m) (pm_cur_byte (s_write e))
     else place_ok m w' \<and> sk_sent k1 @ rest_bytes (drop (nat (pm_cur_element w')) m) (pm_cur_byte w') =
       sk_sent k @ rest_bytes (drop (nat (pm_cur_element (s_write e))) m) (pm_cur_byte (s_write e))"
    using badger_message_stream [OF q(1,2)] by blast
  show ?case
  proof (cases able)
    case True
    let ?e = "e\<lparr> s_links := ms, s_num_mess := s_num_mess e - 1, s_write := Message_reset_current_location \<rparr>"
    have "queue_ok ?e" using q by (auto simp: queue_ok_def place_start)
    with Suc.hyps(1) [of ?e k1] ms(2) obtain ms' n w k' where
      h: "badger_loop ?e k1 = Inr (?e\<lparr> s_links := ms', s_num_mess := n, s_write := w \<rparr>, k')"
        "queue_ok (?e\<lparr> s_links := ms', s_num_mess := n, s_write := w \<rparr>)"
        "sk_sent k' @ pending (?e\<lparr> s_links := ms', s_num_mess := n, s_write := w \<rparr>) = sk_sent k1 @ pending ?e"
      by (auto simp: Let_def)
    have "badger_loop e k = badger_loop ?e k1" using b True q(3) ms by (subst badger_loop.simps) simp
    moreover have "sk_sent k1 @ pending ?e = sk_sent k @ pending e"
      using r True ms by (simp add: pending_start) (simp add: pending_def)
    ultimately show ?thesis using h
      by (intro exI [of _ ms'] exI [of _ n] exI [of _ w] exI [of _ k']) (simp add: Let_def)
  next
    case False
    let ?e = "e\<lparr> s_links := s_links e, s_num_mess := s_num_mess e, s_write := w' \<rparr>"
    have "badger_loop e k = Inr (?e, k1)" using b False q(3) ms by (subst badger_loop.simps) simp
    moreover have "queue_ok ?e" using Suc.prems r False ms by (simp add: queue_ok_def)
    moreover have "sk_sent k1 @ pending ?e = sk_sent k @ pending e"
      using r False ms by (simp add: pending_def flip: append_assoc)
    ultimately show ?thesis
      by (intro exI [of _ "s_links e"] exI [of _ "s_num_mess e"] exI [of _ w'] exI [of _ k1]) (simp only: Let_def simp_thms)
  qed
qed

text \<open>Writing to an idle client.\<close>

lemma nat_max_0 [simp]: "nat (max 0 r) = nat r"
  by (simp add: max_def)

lemma take_nat_add: "0 \<le> a \<Longrightarrow> 0 \<le> b \<Longrightarrow> take (nat (a + b)) xs = take (nat a) xs @ take (nat b) (drop (nat a) xs)"
  by (simp add: nat_add_distrib take_add)

lemma send_rest_stream:
  assumes "\<forall>e \<in> set es. element_ok e"
  shows "\<exists>n k'. send_rest es k = Inr (n, k') \<and> 0 \<le> n \<and> n \<le> sum_list (map se_len es) \<and>
    sk_sent k' = sk_sent k @ take (nat n) (message_bytes es)"
  using assms
proof (induction es arbitrary: k)
  case (Cons e es)
  have e: "element_ok e" "0 \<le> se_len e" "int (length (element_bytes e)) = se_len e"
    using Cons.prems by (auto simp: element_ok_def element_bytes_def)
  have sum: "0 \<le> sum_list (map se_len es)" using Cons.prems by (intro sum_list_nonneg) (auto simp: element_ok_def)
  obtain r k1 where r: "send_range (se_buf e) 0 (se_len e) k = Inr (r, k1)" "r \<le> se_len e"
      "sk_sent k1 = sk_sent k @ take (nat r) (take (nat (se_len e)) (drop (nat 0) (element_bytes e)))"
    using send_range_ok [OF e(1), of 0 "se_len e" k] e(2) by auto
  have l: "length (element_bytes e) = nat (se_len e)" using e(3) by simp
  have s: "sk_sent k1 = sk_sent k @ take (nat r) (element_bytes e)" using r(3) l by simp
  show ?case
  proof (cases "r = se_len e")
    case True
    obtain n k' where n: "send_rest es k1 = Inr (n, k')" "0 \<le> n" "n \<le> sum_list (map se_len es)"
        "sk_sent k' = sk_sent k1 @ take (nat n) (message_bytes es)"
      using Cons by (meson list.set_intros(2))
    have "send_rest (e # es) k = Inr (se_len e + n, k')" using r(1) True n(1) e(2) by (simp add: Let_def)
    then show ?thesis using n e(2) s True l by (auto simp: nat_add_distrib)
  next
    case False
    then have "send_rest (e # es) k = Inr (max 0 r, k1)" using r(1) by (simp add: Let_def)
    moreover have "sk_sent k1 = sk_sent k @ take (nat (max 0 r)) (message_bytes (e # es))" using s r(2) l by simp
    ultimately show ?thesis using r(2) e(2) sum by auto
  qed
qed simp

lemma write_first_stream:
  assumes m: "message_ok m"
  shows "\<exists>n k'. write_first m k = Inr (n, k') \<and> 0 \<le> n \<and> n \<le> sum_list (map se_len m) \<and>
    sk_sent k' = sk_sent k @ take (nat n) (message_bytes m)"
proof -
  obtain e es where es: "m = e # es" using m by (cases m) (auto simp: message_ok_def)
  define d where "d = Message_get_first_data_len m"
  have e: "element_ok e" "sizeof_message_header \<le> se_len e" "\<forall>e \<in> set es. element_ok e" "d = se_len e - sizeof_message_header"
    using m es by (auto simp: message_ok_def Message_get_first_data_len_def d_def)
  have l: "int (length (element_bytes e)) = se_len e" using e(1) by (simp add: length_element_bytes)
  then have l': "length (element_bytes e) = nat (se_len e)" by simp
  have sum: "0 \<le> sum_list (map se_len es)" using e(3) by (intro sum_list_nonneg) (auto simp: element_ok_def)
  obtain r k1 where r: "send_range (se_buf e) 0 sizeof_message_header k = Inr (r, k1)" "r \<le> sizeof_message_header"
      "sk_sent k1 = sk_sent k @ take (nat r) (take (nat sizeof_message_header) (drop (nat 0) (element_bytes e)))"
    using send_range_ok [OF e(1), of 0 sizeof_message_header k] e(2) by auto
  have s: "sk_sent k1 = sk_sent k @ take (nat r) (message_bytes m)" using r(2,3) l e(2) es by simp
  show ?thesis
  proof (cases "r = sizeof_message_header")
    case False
    then have "write_first m k = Inr (max 0 r, k1)" using r(1) es by (simp add: write_first_def Let_def)
    moreover have "sk_sent k1 = sk_sent k @ take (nat (max 0 r)) (message_bytes m)" using s by (simp add: max_def)
    ultimately show ?thesis using r(2) e(2) sum es by (intro exI [of _ "max 0 r"] exI [of _ k1]) auto
  next
    case True
    obtain r2 k2 where r2: "send_range (se_buf e) sizeof_message_header d k1 = Inr (r2, k2)" "r2 \<le> d"
        "sk_sent k2 = sk_sent k1 @ take (nat r2) (take (nat d) (drop (nat sizeof_message_header) (element_bytes e)))"
      using send_range_ok [OF e(1), of sizeof_message_header d k1] e(2,4) by auto
    have s2: "sk_sent k2 = sk_sent k @ take (nat (sizeof_message_header + max 0 r2)) (message_bytes m)"
    proof -
      have "take (nat (max 0 r2)) (drop (nat sizeof_message_header) (message_bytes m))
          = take (nat r2) (take (nat d) (drop (nat sizeof_message_header) (element_bytes e)))"
        using r2(2) e(4) l es by (simp add: min_def)
      then show ?thesis using s r2(3) True by (simp add: take_nat_add del: nat_numeral)
    qed
    show ?thesis
    proof (cases "r2 = d")
      case False
      then have "write_first m k = Inr (sizeof_message_header + max 0 r2, k2)"
        using r(1) r2(1) True es by (simp add: write_first_def Let_def d_def)
      then show ?thesis using s2 r2(2) e(2,4) sum es by (intro exI [of _ "sizeof_message_header + max 0 r2"] exI [of _ k2]) auto
    next
      case r2d: True
      obtain n k' where n: "send_rest es k2 = Inr (n, k')" "0 \<le> n" "n \<le> sum_list (map se_len es)"
          "sk_sent k' = sk_sent k2 @ take (nat n) (message_bytes es)"
        using send_rest_stream [OF e(3)] by blast
      have "write_first m k = Inr (se_len e + n, k')"
        using r(1) r2(1) n(1) True r2d e(2,4) es by (simp add: write_first_def Let_def d_def)
      moreover have "sk_sent k' = sk_sent k @ take (nat (se_len e + n)) (message_bytes m)"
        using s2 n(2,4) r2d e(2,4) l' es by (simp add: nat_add_distrib)
      ultimately show ?thesis using n(2,3) e(2) es by (intro exI [of _ "se_len e + n"] exI [of _ k']) auto
    qed
  qed
qed

lemma locate_rest:
  assumes "\<forall>e \<in> set m. element_ok e" and "0 \<le> n" and "n < sum_list (map se_len m)"
  shows "\<exists>i l. locate m c n = (c + int i, l) \<and> i < length m \<and> 0 \<le> l \<and> l < se_len (m ! i) \<and>
    rest_bytes (drop i m) l = drop (nat n) (message_bytes m)"
  using assms
proof (induction m arbitrary: c n)
  case (Cons e es)
  have l: "length (element_bytes e) = nat (se_len e)" "0 \<le> se_len e"
    using Cons.prems(1) by (auto simp: element_ok_def element_bytes_def)
  show ?case
  proof (cases "n < se_len e")
    case True
    then show ?thesis using Cons.prems(2) l by (intro exI [of _ 0] exI [of _ n]) simp
  next
    case False
    then obtain i k where ik: "locate es (c + 1) (n - se_len e) = (c + 1 + int i, k)" "i < length es" "0 \<le> k" "k < se_len (es ! i)"
        "rest_bytes (drop i es) k = drop (nat (n - se_len e)) (message_bytes es)"
      using Cons.IH [of "n - se_len e" "c + 1"] Cons.prems by auto
    moreover have "drop (nat n) (message_bytes (e # es)) = drop (nat (n - se_len e)) (message_bytes es)"
      using False l by (simp add: nat_diff_distrib')
    ultimately show ?thesis using False by (intro exI [of _ "Suc i"] exI [of _ k]) simp
  qed
qed simp

section \<open>The table of sessions\<close>

definition sess_ok :: "nat list \<Rightarrow> sess_state \<Rightarrow> bool" where
  "sess_ok ss s \<longleftrightarrow> table_ok (MAX_SESSIONS s) (table s) ss \<and> (\<forall>i \<in> set ss. queue_ok (ses_of s i)) \<and>
     Num_sessions s = int (length ss)"

text \<open>The bytes meant for a client so far.\<close>

definition stream :: "sess_state \<Rightarrow> nat \<Rightarrow> byte list" where
  "stream s i = sk_sent (socks s (s_mbox (ses_of s i))) @ pending (ses_of s i)"

text \<open>What writing to the session \<open>i\<close> changes.\<close>

definition write_change :: "nat \<Rightarrow> sess_state \<Rightarrow> sess_state \<Rightarrow> bool" where
  "write_change i s s' \<longleftrightarrow> (\<exists>ms n w k es. s' = s\<lparr>
     table := upd_session i (\<lambda>e. e\<lparr> s_links := ms, s_num_mess := n, s_write := w \<rparr>) (table s),
     socks := (socks s)(s_mbox (ses_of s i) := k), s_out := es \<rparr>)"

lemma table_ok_less: "table_ok n t ss \<Longrightarrow> i \<in> set ss \<Longrightarrow> i < n"
  by (auto simp: table_ok_def sort_ok_def)

lemma sess_index:
  assumes "sess_ok ss s" and "i \<in> set ss"
  shows "Sess_get_session_index (s_mbox (ses_of s i)) (table s) = Some (int i)" and "valid_ses (int i) s"
  using assms Sess_get_session_index_correct(1) table_ok_less by (auto simp: sess_ok_def valid_ses_def)

lemma write_change_ok:
  assumes ok: "sess_ok ss s" and i: "i \<in> set ss" and c: "write_change i s s'" and q: "queue_ok (ses_of s' i)"
  shows "sess_ok ss s'" and "\<And>j. j \<in> set ss \<Longrightarrow> j \<noteq> i \<Longrightarrow> stream s' j = stream s j \<and> ses_of s' j = ses_of s j"
proof -
  obtain ms n w k es where s': "s' = s\<lparr> table := upd_session i (\<lambda>e. e\<lparr> s_links := ms, s_num_mess := n, s_write := w \<rparr>) (table s),
     socks := (socks s)(s_mbox (ses_of s i) := k), s_out := es \<rparr>"
    using c by (auto simp: write_change_def)
  have "table_ok (MAX_SESSIONS s) (table s') ss" using ok unfolding s' by (auto simp: sess_ok_def intro!: table_ok_upd)
  then show "sess_ok ss s'" using ok q by (auto simp: sess_ok_def s')
  show "stream s' j = stream s j \<and> ses_of s' j = ses_of s j" if "j \<in> set ss" "j \<noteq> i" for j
  proof -
    have "s_mbox (ses_of s j) \<noteq> s_mbox (ses_of s i)"
      using ok i that by (auto simp: sess_ok_def table_ok_def dest: inj_onD)
    then show ?thesis using that by (simp add: stream_def s')
  qed
qed

lemma upd_session_same: "f (Sessions t i) = Sessions t i \<Longrightarrow> upd_session i f t = t"
  by (simp add: upd_session_def)

lemma write_changeI:
  assumes "table s' = upd_session i (\<lambda>e. e\<lparr> s_links := ms, s_num_mess := n, s_write := w \<rparr>) (table s)"
    and "socks s' = (socks s)(s_mbox (ses_of s i) := k)" and "s' = s\<lparr> table := table s', socks := socks s', s_out := s_out s' \<rparr>"
  shows "write_change i s s'"
  unfolding write_change_def using assms by metis

lemma write_change_trans: "write_change i s s1 \<Longrightarrow> write_change i s1 s2 \<Longrightarrow> write_change i s s2"
  by (fastforce simp: write_change_def upd_session_def)

lemma write_change_frame:
  assumes "write_change i s s'"
  shows "s_mbox (ses_of s' j) = s_mbox (ses_of s j)" and "s_name (ses_of s' j) = s_name (ses_of s j)"
    and "s_status (ses_of s' j) = s_status (ses_of s j)" and "max_session_messages s' = max_session_messages s"
  using assms by (auto simp: write_change_def)

lemma write_change_emit: "write_change i s (s_emit es s)"
  by (rule write_changeI [where k = "socks s (s_mbox (ses_of s i))" and ms = "s_links (ses_of s i)"
        and n = "s_num_mess (ses_of s i)" and w = "s_write (ses_of s i)"])
    (simp_all add: s_emit_def upd_session_same)

lemma stream_emit [simp]: "stream (s_emit es s) i = stream s i" "ses_of (s_emit es s) i = ses_of s i"
  by (simp_all add: stream_def s_emit_def)

lemma Sess_badger_stream:
  assumes ok: "sess_ok ss s" and i: "i \<in> set ss"
  shows "\<exists>s'. Sess_badger (s_mbox (ses_of s i)) s = Some (Inr s') \<and> write_change i s s' \<and> queue_ok (ses_of s' i) \<and>
    stream s' i = stream s i"
proof -
  let ?e = "ses_of s i" and ?m = "s_mbox (ses_of s i)"
  have q: "queue_ok ?e" using ok i by (simp add: sess_ok_def)
  note x = sess_index [OF ok i]
  show ?thesis
  proof (cases "\<not> Is_op_session (s_status ?e) \<or> s_num_mess ?e \<le> 0")
    case True
    then have "Sess_badger ?m s = Some (Inr (s_emit [Dequeue_badger ?m, Detach_fd ?m WRITE_FD] s))"
      using x by (auto simp: Sess_badger_def Let_def)
    then show ?thesis using q write_change_emit by auto
  next
    case False
    obtain ms n w k' where b: "badger_loop ?e (socks s ?m) = Inr (?e\<lparr> s_links := ms, s_num_mess := n, s_write := w \<rparr>, k')"
      and b2: "queue_ok (?e\<lparr> s_links := ms, s_num_mess := n, s_write := w \<rparr>)"
        "sk_sent k' @ pending (?e\<lparr> s_links := ms, s_num_mess := n, s_write := w \<rparr>) = sk_sent (socks s ?m) @ pending ?e"
      using badger_loop_stream [OF q, of "socks s ?m"] by (auto simp: Let_def)
    define s1 where "s1 = set_sock ?m k' (upd_ses i (\<lambda>_. ?e\<lparr> s_links := ms, s_num_mess := n, s_write := w \<rparr>) s)"
    have "\<exists>es. Sess_badger ?m s = Some (Inr (s_emit es s1))"
      using x False b by (auto simp: Sess_badger_def Let_def s1_def)
    moreover have "write_change i s s1"
      by (rule write_changeI [where ms = ms and n = n and w = w and k = k']) (simp_all add: s1_def set_sock_def upd_ses_def upd_session_def)
    moreover have "queue_ok (ses_of s1 i)" "stream s1 i = stream s i"
      using b2 by (simp_all add: s1_def set_sock_def upd_ses_def stream_def)
    ultimately show ?thesis using write_change_trans [OF _ write_change_emit] by fastforce
  qed
qed

lemma pending_snoc: "s_links e \<noteq> [] \<Longrightarrow> pending (e\<lparr> s_links := s_links e @ [m], s_num_mess := n, s_write := s_write e \<rparr>) = pending e @ message_bytes m"
  by (cases "s_links e") (simp_all add: pending_def)

lemma write_message_idle:
  assumes m: "message_ok m" and q: "queue_ok (ses_of s i)" and idle: "s_num_mess (ses_of s i) = 0"
  shows "\<exists>n s'. write_message i m needed s = Inr (n, s') \<and> write_change i s s' \<and> queue_ok (ses_of s' i) \<and>
    stream s' i = stream s i @ message_bytes m"
proof -
  let ?e = "ses_of s i" and ?m = "s_mbox (ses_of s i)"
  have els: "\<forall>e \<in> set m. element_ok e" using m by (simp add: message_ok_def)
  have links: "s_links ?e = []" using q idle by (simp add: queue_ok_def)
  obtain l k' where k: "write_first m (socks s ?m) = Inr (l, k')" "0 \<le> l" "l \<le> sum_list (map se_len m)"
      "sk_sent k' = sk_sent (socks s ?m) @ take (nat l) (message_bytes m)"
    using write_first_stream [OF m] by blast
  show ?thesis
  proof (cases "l < sum_list (map se_len m)")
    case True
    obtain j b where jb: "locate m 0 l = (int j, b)" "j < length m" "0 \<le> b" "b < se_len (m ! j)"
        "rest_bytes (drop j m) b = drop (nat l) (message_bytes m)"
      using locate_rest [OF els k(2) True, of 0] by auto
    define w where "w = Message_calculate_current_location m l (s_write ?e)"
    have w: "in_mess_head w = 0" "pm_cur_element w = int j" "pm_cur_byte w = b"
      using jb(1) by (simp_all add: w_def Message_calculate_current_location_def)
    define s1 where "s1 = upd_ses i (\<lambda>e. e\<lparr> s_links := [m], s_num_mess := s_num_mess e + 1, s_write := w \<rparr>) (set_sock ?m k' s)"
    have "\<exists>n es. write_message i m needed s = Inr (n, s_emit es s1)"
      using k(1) True idle by (auto simp: write_message_def Let_def s1_def w_def)
    moreover have "write_change i s s1"
      by (rule write_changeI [where ms = "[m]" and n = "s_num_mess ?e + 1" and w = w and k = k'])
        (simp_all add: s1_def set_sock_def upd_ses_def upd_session_def)
    moreover have "queue_ok (ses_of s1 i)"
      using m idle w jb by (simp add: queue_ok_def place_ok_def s1_def upd_ses_def set_sock_def)
    moreover have "stream s1 i = stream s i @ message_bytes m"
      using links w jb(5) k(4) by (simp add: stream_def s1_def upd_ses_def set_sock_def pending_def)
    ultimately show ?thesis using write_change_trans [OF _ write_change_emit] by fastforce
  next
    case False
    define s1 where "s1 = set_sock ?m k' s"
    have "write_message i m needed s = Inr (needed, s1)" using k(1) False idle by (simp add: write_message_def Let_def s1_def)
    moreover have "write_change i s s1"
      by (rule write_changeI [where ms = "s_links ?e" and n = "s_num_mess ?e" and w = "s_write ?e" and k = k'])
        (simp_all add: s1_def set_sock_def upd_session_same)
    moreover have "take (nat l) (message_bytes m) = message_bytes m"
      using False k(3) length_message_bytes [OF els] by (intro take_all) simp
    then have "stream s1 i = stream s i @ message_bytes m"
      using k(4) links by (simp add: stream_def s1_def set_sock_def pending_def)
    ultimately show ?thesis using q by (simp add: s1_def set_sock_def)
  qed
qed

lemma write_message_busy:
  assumes m: "message_ok m" and q: "queue_ok (ses_of s i)" and busy: "s_num_mess (ses_of s i) \<noteq> 0"
  shows "\<exists>n s'. write_message i m needed s = Inr (n, s') \<and> write_change i s s' \<and> queue_ok (ses_of s' i) \<and>
    stream s' i = stream s i @ message_bytes m"
proof -
  let ?e = "ses_of s i" and ?m = "s_mbox (ses_of s i)"
  have els: "\<forall>e \<in> set m. element_ok e" "sizeof_message_header \<le> se_len (hd m)" "m \<noteq> []" using m by (auto simp: message_ok_def)
  have "0 < sum_list (map se_len m)"
  proof -
    have "0 \<le> sum_list (map se_len (tl m))"
      by (rule sum_list_nonneg) (use els(1,3) in \<open>auto simp: element_ok_def dest: list.set_sel(2)\<close>)
    then show ?thesis using els(2,3) by (cases m) auto
  qed
  define s1 where "s1 = upd_ses i (\<lambda>e. e\<lparr> s_links := s_links ?e @ [m], s_num_mess := s_num_mess e + 1, s_write := s_write ?e \<rparr>) s"
  have "set_sock ?m (socks s ?m) s = s" by (simp add: set_sock_def)
  then have "\<exists>n es. write_message i m needed s = Inr (n, s_emit es s1)"
    using \<open>0 < sum_list (map se_len m)\<close> busy by (auto simp: write_message_def Let_def s1_def)
  moreover have "write_change i s s1"
    by (rule write_changeI [where ms = "s_links ?e @ [m]" and n = "s_num_mess ?e + 1" and w = "s_write ?e" and k = "socks s ?m"])
      (simp_all add: s1_def upd_ses_def upd_session_def)
  moreover have links: "s_links ?e \<noteq> []" using q busy by (auto simp: queue_ok_def)
  moreover have "queue_ok (ses_of s1 i)" using m q links by (auto simp: queue_ok_def s1_def upd_ses_def)
  moreover have "stream s1 i = stream s i @ message_bytes m"
    using pending_snoc [OF links] by (simp add: stream_def s1_def upd_ses_def)
  ultimately show ?thesis using write_change_trans [OF _ write_change_emit] by fastforce
qed

lemma Sess_write_stream:
  assumes ok: "sess_ok ss s" and i: "i \<in> set ss" and m: "message_ok m"
    and op: "Is_op_session (s_status (ses_of s i))" and room: "s_num_mess (ses_of s i) < max_session_messages s"
  shows "\<exists>n s'. Sess_write i m needed s = Some (Inr (n, s')) \<and> write_change i s s' \<and> sess_ok ss s' \<and>
    stream s' i = stream s i @ message_bytes m"
proof -
  obtain s1 where s1: "(if s_num_mess (ses_of s i) > 0 then Sess_badger (s_mbox (ses_of s i)) s else Some (Inr s)) = Some (Inr s1)"
      "write_change i s s1" "queue_ok (ses_of s1 i)" "stream s1 i = stream s i"
  proof (cases "s_num_mess (ses_of s i) > 0")
    case False
    have "write_change i s s" using write_change_emit [of i s "[]"] by (simp add: s_emit_def)
    then show ?thesis using that [of s] False ok i by (simp add: sess_ok_def)
  qed (use Sess_badger_stream [OF ok i] that in auto)
  obtain n s' where s': "write_message i m needed s1 = Inr (n, s')" "write_change i s1 s'" "queue_ok (ses_of s' i)"
      "stream s' i = stream s1 i @ message_bytes m"
    using write_message_idle [OF m s1(3)] write_message_busy [OF m s1(3)] by blast
  have c: "write_change i s s'" by (rule write_change_trans [OF s1(2) s'(2)])
  moreover have "sess_ok ss s'" by (rule write_change_ok(1) [OF ok i c s'(3)])
  moreover have "Sess_write i m needed s = Some (Inr (n, s'))" using op room s1(1) s'(1) by (simp add: Sess_write_def)
  ultimately show ?thesis using s'(4) s1(4) by auto
qed

end
