(* ===== verification/Session_Framing.thy ===== *)
theory Session_Framing
  imports Session_Read
begin

text \<open>
  Reading puts a client's messages together byte by byte: however the socket splits the stream,
  the message that comes out has the bytes the client sent, and nothing after them is consumed.
\<close>

section \<open>Headers in memory\<close>

lemma bit_get32:
  "n < 32 \<Longrightarrow> bit (get32 bs) n \<longleftrightarrow> bit (bs ! (n div 8)) (n mod 8)"
proof -
  assume n: "n < 32"
  consider "n < 8" | "8 \<le> n" "n < 16" | "16 \<le> n" "n < 24" | "24 \<le> n" "n < 32" using n by linarith
  then show ?thesis
  proof cases
    case 1
    then have "n div 8 = 0" "n mod 8 = n" by simp_all
    then show ?thesis using 1 by (simp add: get32_def bit_simps)
  next
    case 2
    then have "n div 8 = 1" "n mod 8 = n - 8" by (simp_all add: div_nat_eqI mod_nat_eqI)
    then show ?thesis using 2 by (auto simp: get32_def bit_simps dest: bit_imp_le_length)
  next
    case 3
    then have "n div 8 = 2" "n mod 8 = n - 16" by (simp_all add: div_nat_eqI mod_nat_eqI)
    then show ?thesis using 3 by (auto simp: get32_def bit_simps dest: bit_imp_le_length)
  next
    case 4
    then have "n div 8 = 3" "n mod 8 = n - 24" by (simp_all add: div_nat_eqI mod_nat_eqI)
    then show ?thesis using 4 by (auto simp: get32_def bit_simps dest: bit_imp_le_length)
  qed
qed

lemma length_put32 [simp]: "length (put32 w) = 4"
  by (simp add: put32_def)

lemma put32_nth: "i < 4 \<Longrightarrow> put32 w ! i = ucast (drop_bit (8 * i) w)"
  by (auto simp: put32_def less_Suc_eq numeral_eq_Suc)

lemma bit_ucast8: "k < 8 \<Longrightarrow> bit (ucast (w :: 32 word) :: byte) k \<longleftrightarrow> bit w k"
  by (simp add: bit_simps)

lemma get32_put32 [simp]: "get32 (put32 w) = w"
proof (rule bit_word_eqI)
  fix n assume "n < LENGTH(32)"
  then have n: "n < 32" "n div 8 < 4" by simp_all
  have "bit (put32 w ! (n div 8)) (n mod 8) = bit w (n mod 8 + 8 * (n div 8))"
    unfolding put32_nth [OF n(2)] using bit_ucast8 [of "n mod 8"] by (simp add: bit_drop_bit_eq comp_def add.commute)
  then show "bit (get32 (put32 w)) n = bit w n" by (simp add: bit_get32 [OF n(1)])
qed

lemma put32_get32:
  assumes "length bs = 4"
  shows "put32 (get32 bs) = bs"
proof (rule nth_equalityI)
  fix i assume "i < length (put32 (get32 bs))"
  then have i: "i < 4" by simp
  show "put32 (get32 bs) ! i = bs ! i"
  proof (rule bit_word_eqI)
    fix n assume n: "n < LENGTH(8)"
    then have d: "(n + 8 * i) div 8 = i" "(n + 8 * i) mod 8 = n" "n + 8 * i < 32" using i by auto
    have "bit (put32 (get32 bs) ! i) n = bit (get32 bs) (n + 8 * i)"
      unfolding put32_nth [OF i] using n by (simp add: bit_simps add.commute)
    then show "bit (put32 (get32 bs) ! i) n = bit (bs ! i) n" unfolding bit_get32 [OF d(3)] d(1,2) .
  qed
qed (use assms in simp)

lemma length_chars_of [simp]: "length (chars_of b) = length b" "length (bytes_of s) = length s"
  by (simp_all add: chars_of_def bytes_of_def)

lemma chars_of_bytes_of [simp]: "chars_of (bytes_of s) = s"
proof -
  have "char_of (uint (of_char c :: 8 word)) = c" for c :: char
  proof -
    have "uint (of_char c :: 8 word) = of_char c" by (cases c) (simp add: of_char_def)
    then show ?thesis by simp
  qed
  then show ?thesis by (simp add: chars_of_def bytes_of_def comp_def)
qed

lemma strncpy_full: "length s = n \<Longrightarrow> strncpy s n = s"
  by (simp add: strncpy_def)

definition header_ok :: "message_header \<Rightarrow> bool" where
  "header_ok h \<longleftrightarrow> length (mh_private_group_name h) = MAX_GROUP_NAME \<and> int32_range (mh_num_groups h) \<and>
     int32_range (mh_data_len h)"

lemma sint_word_of_int32: "int32_range x \<Longrightarrow> sint (word_of_int x :: 32 word) = x"
  by (simp add: sint_sbintrunc' signed_take_bit_int_eq_self)

lemma length_put_header [simp]: "length (put_header h) = 48"
  by (simp add: put_header_def strncpy_def)

lemma get_put_header:
  assumes "header_ok h"
  shows "get_header (put_header h @ r) = h"
  using assms by (simp add: get_header_def put_header_def header_ok_def strncpy_full sint_word_of_int32)

section \<open>Buffers\<close>

definition flat :: "scatter \<Rightarrow> byte list" where
  "flat m = concat (map se_buf m)"

lemma flat_simps [simp]: "flat [] = []" "flat (e # m) = se_buf e @ flat m" "flat (m @ m') = flat m @ flat m'"
  by (simp_all add: flat_def)

lemma length_flat: "\<forall>e \<in> set m. length (se_buf e) = n \<Longrightarrow> length (flat m) = length m * n"
  by (induction m) simp_all

lemma write_at_append: "off + length src \<le> length xs \<Longrightarrow> write_at off src (xs @ ys) = write_at off src xs @ ys"
  by (simp add: write_at_def)

lemma write_at_shift: "write_at (length xs + off) src (xs @ ys) = xs @ write_at off src ys"
  by (simp add: write_at_def)

lemma flat_write:
  assumes "\<forall>e \<in> set m. length (se_buf e) = n" and "i < length m" and "off + length src \<le> n"
  shows "flat (write_element i off src m) = write_at (i * n + off) src (flat m)"
  using assms
proof (induction m arbitrary: i)
  case (Cons e m)
  show ?case
  proof (cases i)
    case 0
    then show ?thesis using Cons.prems by (simp add: write_element_def write_at_append)
  next
    case (Suc j)
    have "flat (write_element j off src m) = write_at (j * n + off) src (flat m)" using Cons Suc by simp
    moreover have "write_element (Suc j) off src (e # m) = e # write_element j off src m" by (simp add: write_element_def)
    ultimately show ?thesis using Cons.prems(1) Suc write_at_shift [of "se_buf e" "j * n + off" src "flat m"]
      by (simp add: add.assoc)
  qed
qed simp

lemma take_write_at: "off \<le> length xs \<Longrightarrow> take (off + length src) (write_at off src xs) = take off xs @ src"
  by (simp add: write_at_def)

lemma drop_write_at: "n \<le> off \<Longrightarrow> off \<le> length xs \<Longrightarrow> drop n (write_at off src xs) = write_at (off - n) src (drop n xs)"
  by (simp add: write_at_def drop_take add.commute)

lemma write_element_bufs:
  assumes "\<forall>e \<in> set m. length (se_buf e) = n" and "i < length m" and "off + length src \<le> n"
  shows "\<forall>e \<in> set (write_element i off src m). length (se_buf e) = n" and "length (write_element i off src m) = length m"
    and "map se_len (write_element i off src m) = map se_len m"
proof -
  show "\<forall>e \<in> set (write_element i off src m). length (se_buf e) = n"
    using assms by (auto simp: write_element_def dest!: subsetD [OF set_update_subset_insert])
  show "map se_len (write_element i off src m) = map se_len m"
    using assms(2) by (simp add: write_element_def map_update list_update_same_conv)
qed (simp add: write_element_def)

section \<open>The body\<close>

text \<open>An answer that ends a session: a failure, or 0 before the end of the stream.\<close>

definition bad_answer :: "recv_answer \<Rightarrow> bool" where
  "bad_answer a \<longleftrightarrow> a = Failed \<or> a = Got 0"

lemma sock_recv_bytes:
  assumes "sock_recv n k = (ret, again, bytes, k')" and "0 \<le> n"
  shows "sk_in k = bytes @ sk_in k'" and "ret \<le> n" and "ret = int (length bytes) \<or> ret = - 1 \<and> bytes = []"
    and "0 \<le> ret \<Longrightarrow> length (sk_recv k') < length (sk_recv k)" and "set (sk_recv k') \<subseteq> set (sk_recv k)"
    and "ret \<le> 0 \<Longrightarrow> \<not> again \<Longrightarrow> 0 < n \<Longrightarrow> (\<exists>a \<in> set (sk_recv k). bad_answer a) \<or> sk_in k' = []"
  unfolding bad_answer_def using assms by (auto simp: sock_recv_def Let_def split: list.splits recv_answer.splits)

text \<open>
  The place in a message whose body is being read: \<open>n\<close> is the size of a buffer, \<open>sz\<close> the number of
  bytes of the body, \<open>c\<close> and \<open>b\<close> the current element and byte.
\<close>

definition body_ok :: "nat \<Rightarrow> nat \<Rightarrow> scatter \<Rightarrow> nat \<Rightarrow> nat \<Rightarrow> nat \<Rightarrow> bool" where
  "body_ok n sz m c b tot \<longleftrightarrow> (\<forall>e \<in> set m. length (se_buf e) = n) \<and> (\<forall>l \<in> set (tl (map se_len m)). l = int n) \<and>
     m \<noteq> [] \<and> b < n \<and> tot \<le> sz \<and> c * n + b = 48 + tot \<and>
     (length m = Suc c \<and> (b = 0 \<longrightarrow> tot < sz) \<or> b = 0 \<and> length m = c)"

abbreviation place :: "nat \<Rightarrow> nat \<Rightarrow> nat \<Rightarrow> partial_message_info" where
  "place c b tot \<equiv> \<lparr> in_mess_head = 0, pm_cur_element = int c, pm_cur_byte = int b, pm_total_bytes = int tot \<rparr>"

definition got_body :: "nat \<Rightarrow> scatter \<Rightarrow> byte list" where
  "got_body tot m = take tot (drop 48 (flat m))"

lemma body_alloc:
  assumes ok: "body_ok n sz m c b tot" and more: "tot < sz" and fits: "48 + sz < 100 * n"
  shows "\<exists>m1. (if int (length m) \<le> int c then guard_res (int b \<noteq> 0) (Alarm_exit ''Sess_read'') (Message_add_scat_element (int n) m)
      else Inr m) = Inr m1 \<and> body_ok n sz m1 c b tot \<and> length m1 = Suc c \<and> got_body tot m1 = got_body tot m \<and>
      take 48 (flat m1) = take 48 (flat m)"
proof (cases "length m = c")
  case True
  have b: "b = 0" "c * n = 48 + tot" "\<forall>e \<in> set m. length (se_buf e) = n" "m \<noteq> []" using ok True by (auto simp: body_ok_def)
  have "c * n < 100 * n" using b(2) more fits by simp
  then have c: "c < 100" by simp
  let ?m = "m @ [\<lparr> se_buf = replicate n 0, se_len = int n \<rparr>]"
  have len: "length (flat m) = 48 + tot" using length_flat [OF b(3)] True b(2) by simp
  have "body_ok n sz ?m c b tot" using ok True more b by (auto simp: body_ok_def)
  moreover have "got_body tot ?m = got_body tot m" "take 48 (flat ?m) = take 48 (flat m)"
    using len by (simp_all add: got_body_def)
  ultimately show ?thesis using True b(1) c by (intro exI [of _ ?m]) (simp add: Message_add_scat_element_def)
next
  case False
  then have "length m = Suc c" using ok by (auto simp: body_ok_def)
  then show ?thesis using ok by (intro exI [of _ m]) simp
qed

lemma body_write:
  assumes ok: "body_ok n sz m c b tot" and len: "length m = Suc c" and r: "b + length bytes \<le> n"
  shows "\<forall>e \<in> set (write_element c b bytes m). length (se_buf e) = n" "length (write_element c b bytes m) = Suc c"
    "\<forall>l \<in> set (tl (map se_len (write_element c b bytes m))). l = int n"
    "got_body (tot + length bytes) (write_element c b bytes m) = got_body tot m @ bytes"
    "take 48 (flat (write_element c b bytes m)) = take 48 (flat m)"
proof -
  have m: "\<forall>e \<in> set m. length (se_buf e) = n" "c * n + b = 48 + tot" "b < n" using ok by (auto simp: body_ok_def)
  have fl: "flat (write_element c b bytes m) = write_at (48 + tot) bytes (flat m)"
    using flat_write [OF m(1), of c b bytes] len r m(2) by simp
  have lf: "48 + tot \<le> length (flat m)" using length_flat [OF m(1)] len m by (simp add: add.commute)
  show "got_body (tot + length bytes) (write_element c b bytes m) = got_body tot m @ bytes"
    using lf by (simp add: got_body_def fl drop_write_at take_write_at)
  show "take 48 (flat (write_element c b bytes m)) = take 48 (flat m)" using lf by (simp add: fl)
qed (use write_element_bufs [OF _ _ r, of m c] ok len in \<open>auto simp: body_ok_def\<close>)

lemma read_body_step:
  assumes "tot < sz" and alloc: "(if int (length m) \<le> int c then guard_res (int b \<noteq> 0) (Alarm_exit ''Sess_read'')
      (Message_add_scat_element (int n) m) else Inr m) = Inr m1"
    and tr: "to_read = (if int n - int b > int sz - int tot then int sz - int tot else int n - int b)" "0 < to_read"
    and rc: "sock_recv to_read k = (ret, again, bytes, k1)"
  shows "read_body (int n) (int sz - int tot) m (place c b tot) k =
        (if ret = to_read then read_body (int n) (int sz - int tot - ret) (write_element c b bytes m1)
           \<lparr> in_mess_head = 0, pm_cur_element = int c + 1, pm_cur_byte = 0, pm_total_bytes = int tot + ret \<rparr> k1
         else if ret > 0 then Inr (Read_partial, write_element c b bytes m1,
           \<lparr> in_mess_head = 0, pm_cur_element = int c, pm_cur_byte = int b + ret, pm_total_bytes = int tot + ret \<rparr>, k1)
         else Inr (if again then Read_partial else Read_error, m1, place c b tot, k1))"
proof -
  have "\<not> int sz - int tot \<le> 0" "\<not> to_read < 0" using assms(1) tr(2) by simp_all
  then show ?thesis
    unfolding read_body.simps [of "int n" "int sz - int tot" m]
    by (simp only: partial_message_info.simps alloc if_False sum.case Let_def tr(1) [symmetric] rc prod.case nat_int)
qed

text \<open>
  One call of the loop: either the body is complete, and the message has as many buffers as it
  needs, or it is not and reading can go on at the place reached.
\<close>

definition bufs_ok :: "nat \<Rightarrow> scatter \<Rightarrow> bool" where
  "bufs_ok n m \<longleftrightarrow> m \<noteq> [] \<and> (\<forall>e \<in> set m. length (se_buf e) = n) \<and> (\<forall>l \<in> set (tl (map se_len m)). l = int n)"

lemma body_bufs: "body_ok n sz m c b tot \<Longrightarrow> bufs_ok n m"
  by (simp add: body_ok_def bufs_ok_def)

lemma read_body_done:
  assumes "body_ok n sz m c b sz"
  shows "(length m - 1) * n < 48 + sz" and "48 + sz \<le> length m * n"
proof -
  have "c * n + b = 48 + sz" "b < n" "length m = Suc c \<and> 0 < b \<or> b = 0 \<and> length m = c" using assms by (auto simp: body_ok_def)
  then show "(length m - 1) * n < 48 + sz" "48 + sz \<le> length m * n" by (auto simp: diff_mult_distrib)
qed

lemma read_body_spec:
  assumes "body_ok n sz m c b tot" and "48 + sz < 100 * n"
  shows "\<exists>step m' w' tot' k'. read_body (int n) (int sz - int tot) m (place c b tot) k = Inr (step, m', w', k') \<and>
    bufs_ok n m' \<and> got_body tot' m' @ sk_in k' = got_body tot m @ sk_in k \<and> take 48 (flat m') = take 48 (flat m) \<and>
    (case step of
       Read_complete \<Rightarrow> tot' = sz \<and> (length m' - 1) * n < 48 + sz \<and> 48 + sz \<le> length m' * n
     | Read_partial \<Rightarrow> tot' < sz \<and> (\<exists>c' b'. w' = place c' b' tot' \<and> body_ok n sz m' c' b' tot')
     | Read_error \<Rightarrow> tot' < sz \<and> ((\<exists>a \<in> set (sk_recv k). bad_answer a) \<or> sk_in k' = []))"
  using assms(1)
proof (induction "length (sk_recv k)" arbitrary: m c b tot k rule: less_induct)
  case less
  note ok = less.prems
  have b: "b < n" "tot \<le> sz" "c * n + b = 48 + tot" using ok by (auto simp: body_ok_def)
  show ?case
  proof (cases "tot < sz")
    case False
    then have t: "tot = sz" using b by simp
    moreover from this have "read_body (int n) (int sz - int tot) m (place c b tot) k = Inr (Read_complete, m, place c b tot, k)"
      by (subst read_body.simps) simp
    ultimately show ?thesis using read_body_done [of n sz m c b] ok body_bufs [OF ok] by fastforce
  next
    case True
    obtain m1 where m1: "(if int (length m) \<le> int c then guard_res (int b \<noteq> 0) (Alarm_exit ''Sess_read'') (Message_add_scat_element (int n) m)
      else Inr m) = Inr m1" "body_ok n sz m1 c b tot" "length m1 = Suc c" "got_body tot m1 = got_body tot m" "take 48 (flat m1) = take 48 (flat m)"
      using body_alloc [OF ok True assms(2)] by blast
    define to_read where "to_read = (if int n - int b > int sz - int tot then int sz - int tot else int n - int b)"
    have tr: "0 < to_read" "to_read \<le> int n - int b" "to_read \<le> int sz - int tot" using b True by (auto simp: to_read_def)
    obtain ret again bytes k1 where rc: "sock_recv to_read k = (ret, again, bytes, k1)" by (metis prod_cases4)
    note rb = sock_recv_bytes [OF rc less_imp_le [OF tr(1)]]
    note step = read_body_step [OF True m1(1) to_read_def tr(1) rc]
    let ?m = "write_element c b bytes m1"
    show ?thesis
    proof (cases "ret > 0")
      case pos: True
      then have l: "ret = int (length bytes)" "b + length bytes \<le> n" "tot + length bytes \<le> sz" using rb(2,3) tr by auto
      have lb: "0 < length bytes" using pos l(1) by simp
      note w = body_write [OF m1(2,3) l(2)]
      have bufs: "bufs_ok n ?m" using w by (auto simp: bufs_ok_def)
      have got: "got_body (tot + length bytes) ?m @ sk_in k1 = got_body tot m @ sk_in k" using w(4) m1(4) rb(1) by simp
      have tk: "take 48 (flat ?m) = take 48 (flat m)" using w(5) m1(5) by simp
      have "b + length bytes = n \<or> tot + length bytes = sz \<and> b + length bytes < n" if "ret = to_read"
        using that l(1) b(1,2) unfolding to_read_def by (cases "int n - int b > int sz - int tot") auto
      then consider "ret = to_read" "b + length bytes = n" | "ret = to_read" "tot + length bytes = sz" "b + length bytes < n" | "ret \<noteq> to_read"
        by blast
      then show ?thesis
      proof cases
        case 1
        have "body_ok n sz ?m (Suc c) 0 (tot + length bytes)"
          using w(1,2,3) b(3) 1 l(3) b(1) by (auto simp: body_ok_def)
        moreover have "read_body (int n) (int sz - int tot) m (place c b tot) k =
            read_body (int n) (int sz - int (tot + length bytes)) ?m (place (Suc c) 0 (tot + length bytes)) k1"
          using step 1 l(1) by (simp add: add.commute algebra_simps)
        moreover obtain step m' w' tot' k' where
          "read_body (int n) (int sz - int (tot + length bytes)) ?m (place (Suc c) 0 (tot + length bytes)) k1 = Inr (step, m', w', k')"
          "bufs_ok n m'" "got_body tot' m' @ sk_in k' = got_body tot m @ sk_in k" "take 48 (flat m') = take 48 (flat m)" and
          st: "case step of
             Read_complete \<Rightarrow> tot' = sz \<and> (length m' - 1) * n < 48 + sz \<and> 48 + sz \<le> length m' * n
           | Read_partial \<Rightarrow> tot' < sz \<and> (\<exists>c' b'. w' = place c' b' tot' \<and> body_ok n sz m' c' b' tot')
           | Read_error \<Rightarrow> tot' < sz \<and> ((\<exists>a \<in> set (sk_recv k1). bad_answer a) \<or> sk_in k' = [])"
          using less.hyps [of k1 ?m "Suc c" 0 "tot + length bytes"] rb(4) pos got tk calculation(1) by auto
        moreover have "case step of
             Read_complete \<Rightarrow> tot' = sz \<and> (length m' - 1) * n < 48 + sz \<and> 48 + sz \<le> length m' * n
           | Read_partial \<Rightarrow> tot' < sz \<and> (\<exists>c' b'. w' = place c' b' tot' \<and> body_ok n sz m' c' b' tot')
           | Read_error \<Rightarrow> tot' < sz \<and> ((\<exists>a \<in> set (sk_recv k). bad_answer a) \<or> sk_in k' = [])"
          using st rb(5) by (cases step) auto
        ultimately show ?thesis by (intro exI conjI) auto
      next
        case 2
        have "read_body (int n) (int sz - int tot - ret) m' w' k1 = Inr (Read_complete, m', w', k1)" for m' w'
          using 2(2) l(1) by (subst read_body.simps) simp
        moreover have "(length ?m - 1) * n < 48 + sz" "48 + sz \<le> length ?m * n" 
          using w(2) b(3) 2(2,3) lb by (simp_all del: length_greater_0_conv)
        ultimately show ?thesis using step 2 bufs got tk by fastforce
      next
        case 3
        have "ret < to_read" using 3 rb(2) by simp
        then have "body_ok n sz ?m c (b + length bytes) (tot + length bytes)" "tot + length bytes < sz"
          using w(1,2,3) b(3) l tr pos by (auto simp: body_ok_def)
        moreover have "read_body (int n) (int sz - int tot) m (place c b tot) k =
            Inr (Read_partial, ?m, place c (b + length bytes) (tot + length bytes), k1)"
          using step 3 pos l(1) by simp
        ultimately show ?thesis using bufs got tk
          by (intro exI [of _ Read_partial] exI [of _ ?m] exI [of _ "place c (b + length bytes) (tot + length bytes)"]
              exI [of _ "tot + length bytes"] exI [of _ k1]) (simp only: read_step.case, blast)
      qed
    next
      case False
      then have z: "bytes = []" "ret \<noteq> to_read" using rb(3) tr(1) by auto
      then have "read_body (int n) (int sz - int tot) m (place c b tot) k = Inr (if again then Read_partial else Read_error, m1, place c b tot, k1)"
        using step False by simp
      then show ?thesis using z rb(1) rb(6) False tr(1) m1 True body_bufs [OF m1(2)]
        by (intro exI [of _ "if again then Read_partial else Read_error"] exI [of _ m1] exI [of _ "place c b tot"] exI [of _ tot]
            exI [of _ k1]) (cases again; auto)
    qed
  qed
qed

section \<open>The lengths of a complete message\<close>

lemma message_bytes_full:
  "\<forall>e \<in> set m. length (se_buf e) = n \<Longrightarrow> \<forall>l \<in> set (map se_len m). l = int n \<Longrightarrow> message_bytes m = flat m"
  by (induction m) (simp_all add: message_bytes_def element_bytes_def)

lemma fixup_bytes:
  assumes ok: "bufs_ok n m" and need: "(length m - 1) * n < 48 + sz" "48 + sz \<le> length m * n" and fits: "48 + sz < 100 * n"
    and hs: "read_size m = int sz" and n: "48 < n"
  shows "\<exists>m'. Message_element_len_fixup (int n) m = Inr m' \<and> message_bytes m' = take (48 + sz) (flat m)"
proof -
  let ?T = "int (48 + sz)"
  obtain e es where m: "m = e # es" using ok by (cases m) (auto simp: bufs_ok_def)
  have e: "length (se_buf e) = n" "\<forall>x \<in> set es. length (se_buf x) = n" "\<forall>l \<in> set (map se_len es). l = int n"
    using ok by (auto simp: bufs_ok_def m)
  have T: "mh_data_len (Message_get_message_header m) + int MAX_GROUP_NAME * mh_num_groups (Message_get_message_header m) +
      sizeof_message_header = ?T"
    using hs by (simp add: read_size_def Let_def)
  show ?thesis
  proof (cases "48 + sz < n")
    case True
    have "es = []" using need(1) True m by (cases es) auto
    moreover have "?T div int n = 0" using True by simp
    ultimately have "Message_element_len_fixup (int n) m = Inr [e\<lparr> se_len := ?T \<rparr>]"
      using True unfolding Message_element_len_fixup_def Let_def T by (simp add: m set_element_len_def)
    then show ?thesis using \<open>es = []\<close> m by (simp add: message_bytes_def element_bytes_def nat_add_distrib)
  next
    case False
    have T2: "\<not> ?T < int n" using False by simp
    have l: "length es * n < 48 + sz" "48 + sz \<le> Suc (length es) * n" using need m by simp_all
    have lim: "length es < 100" using l(1) fits by (metis less_trans mult_less_cancel2)
    show ?thesis
    proof (cases "48 + sz = Suc (length es) * n")
      case True
      have d: "?T div int n = int (Suc (length es))" unfolding True using n by (simp del: of_nat_Suc)
      have "Suc (length es) < 100" using True fits n by (metis mult_less_cancel2)
      then have "Message_element_len_fixup (int n) m = Inr (e\<lparr> se_len := int n \<rparr> # es)"
        using T2 unfolding Message_element_len_fixup_def Let_def T d by (simp add: m set_element_len_def)
      moreover have "message_bytes (e\<lparr> se_len := int n \<rparr> # es) = flat (e\<lparr> se_len := int n \<rparr> # es)"
        by (rule message_bytes_full [of _ n]) (use e in auto)
      moreover have "length (flat m) = 48 + sz" using length_flat [of m n] e m True by simp
      ultimately show ?thesis using m by simp
    next
      case part: False
      have "(48 + sz) div n = length es" using l part n by (intro div_nat_eqI) (auto simp: mult.commute)
      then have d: "?T div int n = int (length es)" by (metis zdiv_int)
      have "es \<noteq> []" using l(2) part False by auto
      then obtain xs x where x: "es = xs @ [x]" by (cases es rule: rev_cases) auto
      have nat1: "nat (1 + int k) = Suc k" for k by simp
      let ?r = "48 + sz - length es * n"
      have r: "?T - int n * int (length es) = int ?r" "?r \<le> n" using l by (simp_all add: mult.commute of_nat_diff)
      have "Message_element_len_fixup (int n) m = Inr (e\<lparr> se_len := int n \<rparr> # xs @ [x\<lparr> se_len := int ?r \<rparr>])"
        using T2 lim r(1) unfolding Message_element_len_fixup_def Let_def T d
        by (simp add: m x set_element_len_def list_update_append nth_append nat1)
      moreover have "message_bytes (e\<lparr> se_len := int n \<rparr> # xs) = flat (e\<lparr> se_len := int n \<rparr> # xs)"
        by (rule message_bytes_full [of _ n]) (use e x in auto)
      moreover have "length (flat (e # xs)) = length es * n" using length_flat [of "e # xs" n] e x by simp
      then have "take (48 + sz) (flat m) = flat (e # xs) @ take ?r (se_buf x)" using l(1) by (simp add: m x)
      ultimately show ?thesis by (simp add: message_bytes_def element_bytes_def)
    qed
  qed
qed

section \<open>One client message\<close>

text \<open>The header as the daemon keeps it: in its own byte order, with a terminated name.\<close>

abbreviation canon :: "byte list \<Rightarrow> message_header" where
  "canon hdr \<equiv> native_header (get_header hdr)"

definition body_size :: "byte list \<Rightarrow> int" where
  "body_size hdr = mh_data_len (canon hdr) + int MAX_GROUP_NAME * mh_num_groups (canon hdr)"

text \<open>
  A session that is reading a message whose 48 bytes of header are \<open>hdr\<close> and whose body is \<open>body\<close>;
  the client will send \<open>tail\<close> after it.
\<close>

definition reading :: "nat \<Rightarrow> byte list \<Rightarrow> byte list \<Rightarrow> byte list \<Rightarrow> session \<Rightarrow> socket \<Rightarrow> bool" where
  "reading n hdr body tail e k \<longleftrightarrow>
     (if in_mess_head (s_read e) = 1 then
        (let m = (case s_read_mess e of None \<Rightarrow> Message_new_message (int n) | Some m \<Rightarrow> m);
             j = nat (pm_cur_byte (s_read e))
         in s_read e = \<lparr> in_mess_head = 1, pm_cur_element = 0, pm_cur_byte = int j, pm_total_bytes = 0 \<rparr> \<and> j < 48 \<and>
            length m = 1 \<and> length (se_buf (hd m)) = n \<and> take j (se_buf (hd m)) = take j hdr \<and>
            sk_in k = drop j hdr @ body @ tail)
      else
        (\<exists>m c b tot. s_read_mess e = Some m \<and> s_read e = place c b tot \<and> body_ok n (length body) m c b tot \<and> tot < length body \<and>
           take 48 (flat m) = put_header (terminate_name (canon hdr)) \<and> got_body tot m @ sk_in k = body @ tail))"

definition fresh :: "session \<Rightarrow> bool" where
  "fresh e \<longleftrightarrow> s_read_mess e = None \<and> s_read e = Message_reset_current_location\<lparr> in_mess_head := 1 \<rparr>"

lemma fresh_reading:
  assumes "fresh e" and "length hdr = 48" and "sk_in k = hdr @ body @ tail"
  shows "reading n hdr body tail e k"
  using assms by (simp add: fresh_def reading_def Message_reset_current_location_def Message_new_message_def)

lemma header_ok_canon: "length hdr = 48 \<Longrightarrow> header_ok (terminate_name (canon hdr))"
proof -
  have r: "int32_range (sint (w :: 32 word))" for w
    using sint_greater_eq [of w] sint_less [of w] by simp
  then have f: "int32_range (flip32 x)" for x by (simp add: flip32_def)
  assume "length hdr = 48"
  then show ?thesis using r f
    by (auto simp: header_ok_def terminate_name_def native_header_def Let_def Flip_mess_def get_header_def)
qed

lemma header_of_flat:
  assumes "take 48 (flat m) = put_header h" and "header_ok h" and "bufs_ok n m" and "48 < n"
  shows "Message_get_message_header m = h"
proof -
  obtain e es where m: "m = e # es" "length (se_buf e) = n" using assms(3) by (cases m) (auto simp: bufs_ok_def)
  have "se_buf e = put_header h @ drop 48 (se_buf e)" using assms(1,4) m by (metis append_take_drop_id flat_simps(2) less_imp_le_nat take_append diff_is_0_eq take_0 append_Nil2)
  then show ?thesis using get_put_header [OF assms(2)] m by (metis Message_get_message_header_def list.sel(1))
qed

lemma body_size_canon: "mh_data_len (terminate_name (canon hdr)) + int MAX_GROUP_NAME * mh_num_groups (terminate_name (canon hdr)) = body_size hdr"
  by (simp add: terminate_name_def body_size_def)

text \<open>From the place where the header is complete on.\<close>

lemma read_rest:
  assumes ok: "body_ok n (length body) m c b tot" and hd: "take 48 (flat m) = put_header (terminate_name (canon hdr))"
    and got: "got_body tot m @ sk_in k = body @ tail" and hdr: "length hdr = 48" and n: "48 < n"
    and sz: "body_size hdr = int (length body)" and fits: "48 + length body < 100 * n"
  shows "read_size m = int (length body)"
    and "\<exists>step m' w' k'. read_body (int n) (read_size m - int tot) m (place c b tot) k = Inr (step, m', w', k') \<and>
      (case step of
         Read_complete \<Rightarrow> sk_in k' = tail \<and>
           (\<exists>m2. Message_element_len_fixup (int n) m' = Inr m2 \<and> message_bytes m2 = put_header (terminate_name (canon hdr)) @ body)
       | Read_partial \<Rightarrow> reading n hdr body tail (e\<lparr> s_read_mess := Some m', s_read := w' \<rparr>) k'
       | Read_error \<Rightarrow> \<exists>a \<in> set (sk_recv k). bad_answer a)"
proof -
  have rs: "read_size m' = int (length body)" if "take 48 (flat m') = put_header (terminate_name (canon hdr))" "bufs_ok n m'" for m'
    using header_of_flat [OF that(1) header_ok_canon [OF hdr] that(2) n] body_size_canon [of hdr] sz by (simp add: read_size_def)
  then show r: "read_size m = int (length body)" using hd body_bufs [OF ok] by blast
  obtain step m' w' tot' k' where res: "read_body (int n) (int (length body) - int tot) m (place c b tot) k = Inr (step, m', w', k')"
      "bufs_ok n m'" "got_body tot' m' @ sk_in k' = got_body tot m @ sk_in k" "take 48 (flat m') = take 48 (flat m)" and
    st: "case step of
       Read_complete \<Rightarrow> tot' = length body \<and> (length m' - 1) * n < 48 + length body \<and> 48 + length body \<le> length m' * n
     | Read_partial \<Rightarrow> tot' < length body \<and> (\<exists>c' b'. w' = place c' b' tot' \<and> body_ok n (length body) m' c' b' tot')
     | Read_error \<Rightarrow> tot' < length body \<and> ((\<exists>a \<in> set (sk_recv k). bad_answer a) \<or> sk_in k' = [])"
    using read_body_spec [OF ok fits, of k] by blast
  note h' = res(4) [unfolded hd]
  show "\<exists>step m' w' k'. read_body (int n) (read_size m - int tot) m (place c b tot) k = Inr (step, m', w', k') \<and>
      (case step of
         Read_complete \<Rightarrow> sk_in k' = tail \<and>
           (\<exists>m2. Message_element_len_fixup (int n) m' = Inr m2 \<and> message_bytes m2 = put_header (terminate_name (canon hdr)) @ body)
       | Read_partial \<Rightarrow> reading n hdr body tail (e\<lparr> s_read_mess := Some m', s_read := w' \<rparr>) k'
       | Read_error \<Rightarrow> \<exists>a \<in> set (sk_recv k). bad_answer a)"
  proof (cases step)
    case Read_complete
    then have c: "tot' = length body" "(length m' - 1) * n < 48 + length body" "48 + length body \<le> length m' * n" using st by simp_all
    have len: "length (flat m') = length m' * n" using res(2) length_flat by (auto simp: bufs_ok_def)
    have lg: "length (got_body tot' m') = length body" using c len by (simp add: got_body_def)
    then have g: "got_body tot' m' = body" "sk_in k' = tail" using res(3) got by (metis append_eq_append_conv)+
    obtain m2 where m2: "Message_element_len_fixup (int n) m' = Inr m2" "message_bytes m2 = take (48 + length body) (flat m')"
      using fixup_bytes [OF res(2) c(2,3) fits rs [OF h' res(2)] n] by blast
    have "take (48 + length body) (flat m') = put_header (terminate_name (canon hdr)) @ body"
      using h' g(1) c(1) by (simp add: take_add got_body_def)
    then show ?thesis using res(1) r g(2) m2 Read_complete by auto
  next
    case Read_partial
    then show ?thesis using res r st h' got by (fastforce simp: reading_def)
  next
    case Read_error
    have "sk_in k' \<noteq> []"
    proof
      assume "sk_in k' = []"
      then have "length (got_body tot' m') = length body + length tail" using res(3) got by (metis append_Nil2 length_append)
      moreover have "length (got_body tot' m') \<le> tot'" by (simp add: got_body_def)
      ultimately show False using st Read_error by simp
    qed
    then show ?thesis using res(1) r st Read_error by auto
  qed
qed

text \<open>The header.\<close>

lemma read_header_spec:
  assumes m: "length m = 1" "length (se_buf (hd m)) = n" and n: "48 < n" and j: "j < 48" "length hdr = 48"
    and pre: "take j (se_buf (hd m)) = take j hdr" and inp: "sk_in k = drop j hdr @ rest"
  defines "w \<equiv> \<lparr> in_mess_head = 1, pm_cur_element = 0, pm_cur_byte = int j, pm_total_bytes = 0 \<rparr>"
  shows "\<exists>step m' w' k'. read_header m w k = (step, m', w', k') \<and> length m' = 1 \<and> length (se_buf (hd m')) = n \<and>
    set (sk_recv k') \<subseteq> set (sk_recv k) \<and>
    (case step of
       Read_complete \<Rightarrow> w' = place 0 48 0 \<and> take 48 (se_buf (hd m')) = hdr \<and> sk_in k' = rest
     | Read_partial \<Rightarrow> \<exists>j'. j' < 48 \<and> w' = \<lparr> in_mess_head = 1, pm_cur_element = 0, pm_cur_byte = int j', pm_total_bytes = 0 \<rparr> \<and>
         take j' (se_buf (hd m')) = take j' hdr \<and> sk_in k' = drop j' hdr @ rest
     | Read_error \<Rightarrow> \<exists>a \<in> set (sk_recv k). bad_answer a)"
proof -
  obtain e where e: "m = [e]" "length (se_buf e) = n" using m by (cases m) auto
  obtain ret again bytes k1 where rc: "sock_recv (48 - int j) k = (ret, again, bytes, k1)" by (metis prod_cases4)
  have nn: "0 \<le> 48 - int j" using j by simp
  note rb = sock_recv_bytes [OF rc nn]
  let ?e = "e\<lparr> se_buf := write_at j bytes (se_buf e) \<rparr>"
  have wr: "write_element 0 (nat (int j)) bytes m = [?e]" by (simp add: write_element_def e)
  show ?thesis
  proof (cases "ret > 0")
    case True
    then have l: "ret = int (length bytes)" "j + length bytes \<le> 48" using rb(2,3) by auto
    have b: "bytes = take (length bytes) (drop j hdr)"
    proof -
      have "bytes = take (length bytes) (sk_in k)" using rb(1) by simp
      then show ?thesis using inp l(2) j(2) by simp
    qed
    have rest: "sk_in k1 = drop (j + length bytes) hdr @ rest"
    proof -
      have "sk_in k1 = drop (length bytes) (sk_in k)" using rb(1) by simp
      then show ?thesis using inp l(2) j(2) by (simp add: add.commute)
    qed
    have buf: "length (write_at j bytes (se_buf e)) = n" "take (j + length bytes) (write_at j bytes (se_buf e)) = take (j + length bytes) hdr"
      using e l n pre b by (simp_all add: take_write_at take_add)
    have h: "read_header m w k = (if ret = 48 - int j then (Read_complete, [?e], place 0 48 0, k1)
        else (Read_partial, [?e], \<lparr> in_mess_head = 1, pm_cur_element = 0, pm_cur_byte = int (j + length bytes), pm_total_bytes = 0 \<rparr>, k1))"
      using True rc l(1) wr by (simp add: read_header_def w_def Let_def Message_set_location_begin_body_def)
    show ?thesis
    proof (cases "ret = 48 - int j")
      case True
      then have "j + length bytes = 48" using l by simp
      then show ?thesis using h True buf rest rb(5) j(2) by simp
    next
      case False
      then have "j + length bytes < 48" using l by simp
      then show ?thesis using h False buf rest rb(5) by (simp del: of_nat_add)
    qed
  next
    case False
    then have z: "bytes = []" "ret \<noteq> 48 - int j" using rb(3) j(1) by auto
    then have "read_header m w k = (if again then Read_partial else Read_error, m, w, k1)"
      using rc False by (simp add: read_header_def w_def Let_def)
    moreover have "\<exists>a \<in> set (sk_recv k). bad_answer a" if "\<not> again"
      using rb(1,6) False that z inp j by auto
    ultimately show ?thesis using m z rb(1,5) pre inp j by (cases again) (auto simp: w_def)
  qed
qed

lemma set_header_flat:
  assumes "length m = 1" and "length (se_buf (hd m)) = n" and "48 < n"
  shows "take 48 (flat (set_header h m)) = put_header h" and "body_ok n sz (set_header h m) 0 48 0"
proof -
  obtain e where e: "m = [e]" "length (se_buf e) = n" using assms by (cases m) auto
  show "take 48 (flat (set_header h m)) = put_header h" by (simp add: e(1) set_header_def write_at_def)
  show "body_ok n sz (set_header h m) 0 48 0" using e assms(3) by (simp add: set_header_def body_ok_def)
qed

lemma read_session_frames:
  assumes r: "reading n hdr body tail e k" and hdr: "length hdr = 48" and n: "48 < n"
    and sz: "body_size hdr = int (length body)" and fits: "48 + length body < 100 * n" and chk: "check (canon hdr)"
  shows "\<exists>r e' k'. read_session (int n) check e k = Inr (r, e', k') \<and>
    (case r of
       Wait \<Rightarrow> reading n hdr body tail e' k'
     | Kill \<Rightarrow> \<exists>a \<in> set (sk_recv k). bad_answer a
     | Msg m \<Rightarrow> message_bytes m = put_header (terminate_name (canon hdr)) @ body \<and> sk_in k' = tail \<and> fresh e')"
proof -
  have rest: ?thesis
    if ok: "body_ok n (length body) m c b tot" and hd: "take 48 (flat m) = put_header (terminate_name (canon hdr))"
      and got: "got_body tot m @ sk_in k0 = body @ tail" and sub: "set (sk_recv k0) \<subseteq> set (sk_recv k)"
      and rs: "read_session (int n) check e k = read_message (int n) e m (place c b tot) k0" for m c b tot k0
  proof -
    obtain step m' w' k' where x: "read_body (int n) (read_size m - int tot) m (place c b tot) k0 = Inr (step, m', w', k')" and
      st: "case step of
         Read_complete \<Rightarrow> sk_in k' = tail \<and>
           (\<exists>m2. Message_element_len_fixup (int n) m' = Inr m2 \<and> message_bytes m2 = put_header (terminate_name (canon hdr)) @ body)
       | Read_partial \<Rightarrow> reading n hdr body tail (e\<lparr> s_read_mess := Some m', s_read := w' \<rparr>) k'
       | Read_error \<Rightarrow> \<exists>a \<in> set (sk_recv k0). bad_answer a"
      using read_rest(2) [OF ok hd got hdr n sz fits, of e] by blast
    show ?thesis unfolding rs read_message_def using x st sub by (cases step) (auto simp: fresh_def)
  qed
  show ?thesis
  proof (cases "in_mess_head (s_read e) = 1")
    case True
    define m where "m = (case s_read_mess e of None \<Rightarrow> Message_new_message (int n) | Some m \<Rightarrow> m)"
    obtain j where w: "s_read e = \<lparr> in_mess_head = 1, pm_cur_element = 0, pm_cur_byte = int j, pm_total_bytes = 0 \<rparr>"
      and m: "length m = 1" "length (se_buf (hd m)) = n" and j: "j < 48" and pre: "take j (se_buf (hd m)) = take j hdr"
      and inp: "sk_in k = drop j hdr @ body @ tail"
      using r True that [of "nat (pm_cur_byte (s_read e))"] unfolding reading_def Let_def m_def [symmetric] if_P [OF True] by blast
    obtain step m' w' k' where x: "read_header m (s_read e) k = (step, m', w', k')" "length m' = 1" "length (se_buf (hd m')) = n"
        "set (sk_recv k') \<subseteq> set (sk_recv k)" and
      st: "case step of
         Read_complete \<Rightarrow> w' = place 0 48 0 \<and> take 48 (se_buf (hd m')) = hdr \<and> sk_in k' = body @ tail
       | Read_partial \<Rightarrow> \<exists>j'. j' < 48 \<and> w' = \<lparr> in_mess_head = 1, pm_cur_element = 0, pm_cur_byte = int j', pm_total_bytes = 0 \<rparr> \<and>
           take j' (se_buf (hd m')) = take j' hdr \<and> sk_in k' = drop j' hdr @ body @ tail
       | Read_error \<Rightarrow> \<exists>a \<in> set (sk_recv k). bad_answer a"
      using read_header_spec [OF m n j hdr pre inp] unfolding w by blast
    show ?thesis
    proof (cases step)
      case Read_complete
      have "get_header (se_buf (hd m')) = get_header (take 48 (se_buf (hd m')))" by (simp add: get_header_def take_drop)
      then have c: "native_header (Message_get_message_header m') = canon hdr"
        using st Read_complete by (simp add: Message_get_message_header_def)
      note h = set_header_flat [OF x(2,3) n]
      have g: "got_body 0 (set_header (terminate_name (canon hdr)) m') @ sk_in k' = body @ tail"
        using st Read_complete by (simp add: got_body_def)
      show ?thesis
        by (rule rest [OF h(2) h(1) g x(4)])
          (use True x(1) Read_complete c chk st in \<open>simp add: read_session_def m_def [symmetric] Let_def\<close>)
    next
      case Read_partial
      then have "read_session (int n) check e k = Inr (Wait, e\<lparr> s_read_mess := Some m', s_read := w' \<rparr>, k')"
        using True x(1) by (simp add: read_session_def m_def [symmetric] Let_def)
      moreover have "reading n hdr body tail (e\<lparr> s_read_mess := Some m', s_read := w' \<rparr>) k'"
        using st Read_partial x(2,3) by (auto simp: reading_def Let_def)
      ultimately show ?thesis by auto
    next
      case Read_error
      then have "read_session (int n) check e k = Inr (Kill, e\<lparr> s_read_mess := Some m', s_read := w' \<rparr>, k')"
        using True x(1) by (simp add: read_session_def m_def [symmetric] Let_def)
      then show ?thesis using st Read_error by auto
    qed
  next
    case False
    then obtain m c b tot where b: "s_read_mess e = Some m" "s_read e = place c b tot" "body_ok n (length body) m c b tot"
        "take 48 (flat m) = put_header (terminate_name (canon hdr))" "got_body tot m @ sk_in k = body @ tail"
      using r by (auto simp: reading_def)
    show ?thesis by (rule rest [OF b(3-5)]) (use b(1,2) in \<open>simp_all add: read_session_def Let_def\<close>)
  qed
qed

end
