(* ===== verification/Session_Delivery.thy ===== *)
theory Session_Delivery
  imports Session_Stream Session_Framing
begin

text \<open>
  A sequence of writes and retries on the sessions, some of which may be killed for not reading:
  every client that is still connected at the end has been given, or has queued, exactly the
  messages written to it, in their order.
\<close>

datatype client_event = Write nat scatter | Retry nat

fun event_target :: "client_event \<Rightarrow> nat" where
  "event_target (Write i m) = i"
| "event_target (Retry i) = i"

fun event_bytes :: "client_event \<Rightarrow> nat \<Rightarrow> byte list" where
  "event_bytes (Write i m) j = (if i = j then message_bytes m else [])"
| "event_bytes (Retry i) j = []"

fun event_ok :: "client_event \<Rightarrow> bool" where
  "event_ok (Write i m) = message_ok m"
| "event_ok (Retry i) = True"

fun run_event :: "client_event \<Rightarrow> sess_state \<Rightarrow> sess_state result option" where
  "run_event (Write i m) s = map_option (\<lambda>r. bind_res r (\<lambda>(n, s). Inr s)) (Sess_write i m 0 s)"
| "run_event (Retry i) s = Sess_badger (s_mbox (ses_of s i)) s"

fun run_events :: "client_event list \<Rightarrow> sess_state \<Rightarrow> sess_state result option" where
  "run_events [] s = Some (Inr s)"
| "run_events (ev # evs) s =
     (case run_event ev s of
        None \<Rightarrow> None
      | Some (Inl e) \<Rightarrow> Some (Inl e)
      | Some (Inr s) \<Rightarrow> run_events evs s)"

text \<open>No session is waiting for its authentication.\<close>

definition authenticated :: "nat list \<Rightarrow> sess_state \<Rightarrow> bool" where
  "authenticated ss s \<longleftrightarrow> (\<forall>i \<in> set ss. \<not> Is_preauth_session (s_status (ses_of s i)))"

abbreviation alive :: "sess_state \<Rightarrow> nat \<Rightarrow> bool" where
  "alive s i \<equiv> Is_op_session (s_status (ses_of s i))"

lemma status_cleared: "\<not> Is_op_session (Clear_status OP_SESSION st)"
    "Is_preauth_session (Clear_status OP_SESSION st) \<longleftrightarrow> Is_preauth_session st"
proof -
  have "NOT 16 AND 256 = (256 :: 32 word)" by simp
  then show "Is_preauth_session (Clear_status OP_SESSION st) \<longleftrightarrow> Is_preauth_session st"
    by (simp add: Is_preauth_session_def Clear_status_def and.assoc)
qed (simp add: Is_op_session_def Clear_status_def and.assoc)

lemma created_header:
  "Message_get_message_header (Message_create_message bs ty g) =
     \<lparr> mh_type = Set_endian ty, mh_private_group_name = strncpy g MAX_GROUP_NAME, mh_num_groups = 0, mh_hint = Set_endian 0, mh_data_len = 0 \<rparr>"
proof -
  let ?h = "\<lparr> mh_type = Set_endian ty, mh_private_group_name = strncpy g MAX_GROUP_NAME, mh_num_groups = 0, mh_hint = Set_endian 0, mh_data_len = 0 \<rparr>"
  have "header_ok ?h" by (simp add: header_ok_def strncpy_def)
  from get_put_header [OF this] show ?thesis
    by (simp add: Message_create_message_def Message_new_message_def set_header_def write_at_def Message_get_message_header_def)
qed

lemma kill_type:
  "Message_get_packet_type (mh_type (Message_get_message_header (Message_create_message bs (KILL_MESS OR SAFE_MESS) g))) = SAFE_TYPE"
proof -
  have "Message_get_packet_type (Set_endian (KILL_MESS OR SAFE_MESS)) = SAFE_TYPE" by code_simp
  then show ?thesis by (simp only: created_header message_header.simps)
qed

lemma Sess_kill_sends:
  assumes "Sess_get_session_index mbox (table s) = Some (int i)" and "valid_ses (int i) s"
    and "\<not> Is_preauth_session (s_status (ses_of s i))"
  shows "\<exists>l. Sess_kill mbox s = Some (Sess_clear_session i (s_emit [Prot_new_message_call l] s))"
  unfolding Sess_kill_def Let_def kill_type Prot_Create_Down_Link_def using assms by (auto simp: guard_res_def)

lemma Sess_kill_effect:
  assumes ok: "sess_ok ss s" and au: "authenticated ss s" and i: "i \<in> set ss"
  shows "\<exists>s'. Sess_kill (s_mbox (ses_of s i)) s = Some (Inr s') \<and> sess_ok ss s' \<and> authenticated ss s' \<and> \<not> alive s' i \<and>
    (\<forall>j \<in> set ss. j \<noteq> i \<longrightarrow> ses_of s' j = ses_of s j \<and> stream s' j = stream s j)"
proof -
  let ?f = "\<lambda>e. e\<lparr> s_links := [], s_num_mess := min 0 (s_num_mess e), s_read_mess := None,
                s_read := Message_reset_current_location\<lparr> in_mess_head := 1 \<rparr>, s_write := Message_reset_current_location,
                s_status := Clear_status OP_SESSION (s_status e) \<rparr>"
  have q: "queue_ok (ses_of s i)" and p: "\<not> Is_preauth_session (s_status (ses_of s i))"
    using ok au i by (auto simp: sess_ok_def authenticated_def)
  have "\<exists>es. Sess_kill (s_mbox (ses_of s i)) s = Some (Inr (s_emit es (upd_ses i ?f s)))"
    using Sess_kill_sends [OF sess_index [OF ok i] p] q
    by (fastforce simp: Sess_clear_session_def Let_def queue_ok_def s_emit_def upd_ses_def guard_res_def)
  then obtain es where k: "Sess_kill (s_mbox (ses_of s i)) s = Some (Inr (s_emit es (upd_ses i ?f s)))" by blast
  let ?s = "s_emit es (upd_ses i ?f s)"
  have t: "table_ok (MAX_SESSIONS s) (table (upd_ses i ?f s)) ss"
    unfolding upd_ses_def using ok by (auto simp: sess_ok_def intro!: table_ok_upd)
  have e: "ses_of ?s j = (if j = i then ?f (ses_of s i) else ses_of s j)" "socks ?s = socks s" "Num_sessions ?s = Num_sessions s"
      "MAX_SESSIONS ?s = MAX_SESSIONS s" for j
    by (simp_all add: s_emit_def upd_ses_def)
  have "table ?s = table (upd_ses i ?f s)" by (simp add: s_emit_def)
  moreover have "queue_ok (?f (ses_of s i))" using q by (auto simp: queue_ok_def)
  ultimately have "sess_ok ss ?s" using ok t unfolding sess_ok_def e by auto
  moreover have "authenticated ss ?s" using au i unfolding authenticated_def e by (auto simp: status_cleared)
  moreover have "\<not> alive ?s i" unfolding e by (simp add: status_cleared)
  moreover have "stream ?s j = stream s j" if "j \<noteq> i" for j using that unfolding stream_def e by simp
  ultimately show ?thesis using k e(1) by (intro exI [of _ ?s]) auto
qed

lemma run_event_stream:
  assumes ok: "sess_ok ss s" and au: "authenticated ss s" and i: "event_target ev \<in> set ss" and ev: "event_ok ev"
  shows "\<exists>s'. run_event ev s = Some (Inr s') \<and> sess_ok ss s' \<and> authenticated ss s' \<and>
    (\<forall>j \<in> set ss. alive s' j \<longrightarrow> alive s j \<and> stream s' j = stream s j @ event_bytes ev j)"
proof -
  have changed: "authenticated ss s' \<and> (\<forall>j \<in> set ss. alive s' j \<longrightarrow> alive s j \<and> stream s' j = stream s j @ (if i = j then x else []))"
    if c: "write_change i s s'" and q: "queue_ok (ses_of s' i)" and st: "stream s' i = stream s i @ x" and i: "i \<in> set ss" for s' x i
    using write_change_ok(2) [OF ok i c q] write_change_frame(3) [OF c] au st by (auto simp: authenticated_def)
  show ?thesis
  proof (cases ev)
    case (Write i m)
    then have i': "i \<in> set ss" and m: "message_ok m" using i ev by auto
    consider "\<not> alive s i" | "alive s i" "s_num_mess (ses_of s i) \<ge> max_session_messages s" | "alive s i" "s_num_mess (ses_of s i) < max_session_messages s"
      by linarith
    then show ?thesis
    proof cases
      case 1
      then show ?thesis using Write ok au by (auto simp: Sess_write_def)
    next
      case 2
      from Sess_kill_effect [OF ok au i'] obtain s' where k: "Sess_kill (s_mbox (ses_of s i)) s = Some (Inr s')" "sess_ok ss s'" "authenticated ss s'"
          "\<not> alive s' i" "\<forall>j \<in> set ss. j \<noteq> i \<longrightarrow> ses_of s' j = ses_of s j \<and> stream s' j = stream s j" by blast
      then show ?thesis using Write 2 by (auto simp: Sess_write_def)
    next
      case 3
      obtain n s' where w: "Sess_write i m 0 s = Some (Inr (n, s'))" "write_change i s s'" "sess_ok ss s'" "stream s' i = stream s i @ message_bytes m"
        using Sess_write_stream [OF ok i' m 3] by blast
      have "queue_ok (ses_of s' i)" using w(3) i' by (simp add: sess_ok_def)
      from changed [OF w(2) this w(4) i'] show ?thesis using Write w(1,3) by simp
    qed
  next
    case (Retry i)
    then have i': "i \<in> set ss" using i by simp
    obtain s' where b: "Sess_badger (s_mbox (ses_of s i)) s = Some (Inr s')" "write_change i s s'" "queue_ok (ses_of s' i)" "stream s' i = stream s i @ []"
      using Sess_badger_stream [OF ok i'] by auto
    from changed [OF b(2-4) i'] show ?thesis using Retry b(1) write_change_ok(1) [OF ok i' b(2,3)] by auto
  qed
qed

lemma run_events_stream:
  assumes "sess_ok ss s" and "authenticated ss s" and "\<forall>ev \<in> set evs. event_target ev \<in> set ss \<and> event_ok ev"
  shows "\<exists>s'. run_events evs s = Some (Inr s') \<and> sess_ok ss s' \<and>
    (\<forall>i \<in> set ss. alive s' i \<longrightarrow> stream s' i = stream s i @ concat (map (\<lambda>ev. event_bytes ev i) evs))"
proof -
  have "\<exists>s'. run_events evs s = Some (Inr s') \<and> sess_ok ss s' \<and>
    (\<forall>i \<in> set ss. alive s' i \<longrightarrow> alive s i \<and> stream s' i = stream s i @ concat (map (\<lambda>ev. event_bytes ev i) evs))"
    using assms
  proof (induction evs arbitrary: s)
    case (Cons ev evs)
    obtain s1 where s1: "run_event ev s = Some (Inr s1)" "sess_ok ss s1" "authenticated ss s1"
        "\<forall>j \<in> set ss. alive s1 j \<longrightarrow> alive s j \<and> stream s1 j = stream s j @ event_bytes ev j"
      using run_event_stream [OF Cons.prems(1,2), of ev] Cons.prems(3) by auto
    obtain s' where s': "run_events evs s1 = Some (Inr s')" "sess_ok ss s'"
        "\<forall>i \<in> set ss. alive s' i \<longrightarrow> alive s1 i \<and> stream s' i = stream s1 i @ concat (map (\<lambda>ev. event_bytes ev i) evs)"
      using Cons.IH [OF s1(2,3)] Cons.prems(3) by auto
    then show ?case using s1 by auto
  qed auto
  then show ?thesis by blast
qed

end
