(* ===== verification/Session_Progress.thy ===== *)
theory Session_Progress
  imports Session_Framing
begin

text \<open>
  The calls of \<open>Sess_read\<close> for one message. The event loop calls it when the socket has something
  to read; every such call takes at least a byte, so the message is complete after at most as
  many calls as it has bytes.
\<close>

text \<open>One call for every list of answers, until a call does not wait for more.\<close>

fun read_calls ::
    "int \<Rightarrow> (message_header \<Rightarrow> bool) \<Rightarrow> recv_answer list list \<Rightarrow> session \<Rightarrow> socket \<Rightarrow>
     (read_result \<times> session \<times> socket) result" where
  "read_calls bs check [] e k = Inr (Wait, e, k)"
| "read_calls bs check (as # ass) e k =
     bind_res (read_session bs check e (k\<lparr> sk_recv := as \<rparr>)) (\<lambda>(r, e, k).
       case r of Wait \<Rightarrow> read_calls bs check ass e k | _ \<Rightarrow> Inr (r, e, k))"

text \<open>A call when the socket is readable: its first answer has bytes, and no answer is an error.\<close>

definition readable :: "recv_answer list \<Rightarrow> bool" where
  "readable as \<longleftrightarrow> (\<exists>g as'. as = Got g # as') \<and> (\<forall>a \<in> set as. \<not> bad_answer a)"

lemma sock_recv_shrinks:
  assumes "sock_recv n k = (ret, again, bytes, k')"
  shows "length (sk_in k') \<le> length (sk_in k)"
    and "0 < n \<Longrightarrow> sk_in k \<noteq> [] \<Longrightarrow> readable (sk_recv k) \<Longrightarrow> length (sk_in k') < length (sk_in k)"
  using assms
  by (auto simp: sock_recv_def readable_def bad_answer_def Let_def split: list.splits recv_answer.splits)

lemma read_body_first:
  assumes r: "read_body bs remain m w k = Inr (step, m', w', k')" and pos: "0 < remain"
  shows "\<exists>ret again bytes k1. sock_recv (min remain (bs - pm_cur_byte w)) k = (ret, again, bytes, k1) \<and>
    (k' = k1 \<or> (length (sk_recv k1) < length (sk_recv k) \<and> (\<exists>remain' m1 w1. read_body bs remain' m1 w1 k1 = Inr (step, m', w', k'))))"
proof -
  obtain m1 where m1: "(if int (length m) \<le> pm_cur_element w
             then guard_res (pm_cur_byte w \<noteq> 0) (Alarm_exit ''Sess_read'') (Message_add_scat_element bs m) else Inr m) = Inr m1"
    using r pos by (subst (asm) read_body.simps) (auto split: sum.splits)
  let ?t = "if bs - pm_cur_byte w > remain then remain else bs - pm_cur_byte w"
  have mn: "min remain (bs - pm_cur_byte w) = ?t" by simp
  obtain ret again bytes k1 where rc: "sock_recv ?t k = (ret, again, bytes, k1)" by (metis surj_pair)
  have t: "\<not> ?t < 0" using r pos m1 by (subst (asm) read_body.simps) (auto simp: Let_def split: if_splits)
  note u = r [unfolded read_body.simps [of bs remain]]
  have "k' = k1 \<or> (length (sk_recv k1) < length (sk_recv k) \<and> (\<exists>remain' m1 w1. read_body bs remain' m1 w1 k1 = Inr (step, m', w', k')))"
  proof (cases "ret = ?t")
    case True
    have "length (sk_recv k1) < length (sk_recv k)" using sock_recv_bytes(4) [OF rc] t True by simp
    moreover have "\<exists>remain' m1 w1. read_body bs remain' m1 w1 k1 = Inr (step, m', w', k')"
      using u pos rc t True unfolding m1 by (auto simp: Let_def)
    ultimately show ?thesis by blast
  next
    case False
    then show ?thesis using u pos rc t unfolding m1 by (auto simp: Let_def split: if_splits)
  qed
  then show ?thesis unfolding mn using rc by blast
qed

lemma read_body_shrinks:
  assumes "read_body bs remain m w k = Inr (step, m', w', k')"
  shows "length (sk_in k') \<le> length (sk_in k)"
  using assms
proof (induction "length (sk_recv k)" arbitrary: remain m w k rule: less_induct)
  case less
  show ?case
  proof (cases "0 < remain")
    case True
    from read_body_first [OF less.prems True] obtain ret again bytes k1 remain' m1 w1 where
      "sock_recv (min remain (bs - pm_cur_byte w)) k = (ret, again, bytes, k1)"
      "k' = k1 \<or> length (sk_recv k1) < length (sk_recv k) \<and> read_body bs remain' m1 w1 k1 = Inr (step, m', w', k')" by blast
    then show ?thesis using less.hyps sock_recv_shrinks(1) le_trans by blast
  next
    case False
    then show ?thesis using less.prems by (simp add: read_body.simps)
  qed
qed

lemma read_body_progress:
  assumes "read_body bs remain m w k = Inr (step, m', w', k')" and "0 < remain" and "pm_cur_byte w < bs"
    and "sk_in k \<noteq> []" and "readable (sk_recv k)"
  shows "length (sk_in k') < length (sk_in k)"
proof -
  from read_body_first [OF assms(1,2)] obtain ret again bytes k1 remain' m1 w1 where
    r: "sock_recv (min remain (bs - pm_cur_byte w)) k = (ret, again, bytes, k1)"
    "k' = k1 \<or> read_body bs remain' m1 w1 k1 = Inr (step, m', w', k')" by blast
  then have "length (sk_in k') \<le> length (sk_in k1)" using read_body_shrinks by blast
  also have "\<dots> < length (sk_in k)" using sock_recv_shrinks(2) [OF r(1)] assms by simp
  finally show ?thesis .
qed

lemma read_message_sock:
  assumes "read_message bs e m w k = Inr (r, e', k')"
  shows "\<exists>step m' w'. read_body bs (read_size m - pm_total_bytes w) m w k = Inr (step, m', w', k')"
  using assms by (auto simp: read_message_def bind_res_def split: sum.splits read_step.splits prod.splits)

lemma read_session_progress:
  assumes r: "reading n hdr body tail e k" and rs: "read_session (int n) check e k = Inr (res, e', k')"
    and hdr: "length hdr = 48" and n: "48 < n" and sz: "body_size hdr = int (length body)" and rd: "readable (sk_recv k)"
  shows "length (sk_in k') < length (sk_in k)"
proof (cases "in_mess_head (s_read e) = 1")
  case True
  define m where "m = (case s_read_mess e of None \<Rightarrow> Message_new_message (int n) | Some m \<Rightarrow> m)"
  obtain step m' w' k1 where h: "read_header m (s_read e) k = (step, m', w', k1)" by (metis surj_pair)
  have j: "pm_cur_byte (s_read e) < 48" "sk_in k \<noteq> []"
    using r True hdr by (auto simp: reading_def Let_def)
  have "length (sk_in k1) < length (sk_in k)"
    using h j rd sock_recv_shrinks(2) [of "48 - pm_cur_byte (s_read e)" k]
    by (auto simp: read_header_def Let_def split: prod.splits if_splits)
  moreover have "length (sk_in k') \<le> length (sk_in k1)"
    using rs True h unfolding read_session_def Let_def m_def [symmetric]
    by (cases step) (auto split: if_splits dest!: read_message_sock read_body_shrinks)
  ultimately show ?thesis by simp
next
  case False
  then obtain m c b tot where b: "s_read_mess e = Some m" "s_read e = place c b tot" "body_ok n (length body) m c b tot"
      "tot < length body" "take 48 (flat m) = put_header (terminate_name (canon hdr))" "got_body tot m @ sk_in k = body @ tail"
    using r by (auto simp: reading_def)
  have "sk_in k \<noteq> []"
  proof
    assume "sk_in k = []"
    then have "length (got_body tot m) = length body + length tail" using b(6) by simp
    moreover have "length (got_body tot m) \<le> tot" by (simp add: got_body_def)
    ultimately show False using b(4) by simp
  qed
  moreover have "read_size m = int (length body)"
    using header_of_flat [OF b(5) header_ok_canon [OF hdr] body_bufs [OF b(3)] n] body_size_canon [of hdr] sz by (simp add: read_size_def)
  moreover have "b < n" using b(3) by (simp add: body_ok_def)
  moreover obtain step m' w' where "read_body (int n) (read_size m - int tot) m (place c b tot) k = Inr (step, m', w', k')"
    using rs False b(1,2) by (auto simp: read_session_def Let_def dest: read_message_sock)
  ultimately show ?thesis using read_body_progress [OF _ _ _ _ rd] b(4) by fastforce
qed

lemma reading_answers: "reading n hdr body tail e (k\<lparr> sk_recv := as \<rparr>) = reading n hdr body tail e k"
  by (simp add: reading_def)

lemma read_calls_frame:
  assumes "reading n hdr body tail e k" and "length hdr = 48" and "48 < n" and "body_size hdr = int (length body)"
    and "48 + length body < 100 * n" and "check (canon hdr)" and "\<forall>as \<in> set ass. readable as"
  shows "\<exists>r e' k'. read_calls (int n) check ass e k = Inr (r, e', k') \<and>
    (case r of
       Wait \<Rightarrow> reading n hdr body tail e' k' \<and> length (sk_in k') + length ass \<le> length (sk_in k)
     | Kill \<Rightarrow> False
     | Msg m \<Rightarrow> message_bytes m = put_header (terminate_name (canon hdr)) @ body \<and> sk_in k' = tail \<and> fresh e')"
  using assms
proof (induction ass arbitrary: e k)
  case (Cons as ass)
  let ?k = "k\<lparr> sk_recv := as \<rparr>"
  have rd: "reading n hdr body tail e ?k" using Cons.prems(1) by (simp only: reading_answers)
  have as: "readable (sk_recv ?k)" using Cons.prems(7) by simp
  obtain r e1 k1 where s: "read_session (int n) check e ?k = Inr (r, e1, k1)" and
    c: "case r of Wait \<Rightarrow> reading n hdr body tail e1 k1 | Kill \<Rightarrow> \<exists>a \<in> set (sk_recv ?k). bad_answer a
      | Msg m \<Rightarrow> message_bytes m = put_header (terminate_name (canon hdr)) @ body \<and> sk_in k1 = tail \<and> fresh e1"
    using read_session_frames [where check = check, OF rd Cons.prems(2-6)] by blast
  show ?case
  proof (cases r)
    case Wait
    have "length (sk_in k1) < length (sk_in k)" using read_session_progress [OF rd s Cons.prems(2-4) as] by simp
    moreover have rd1: "reading n hdr body tail e1 k1" using c Wait by simp
    moreover have "\<forall>as \<in> set ass. readable as" using Cons.prems(7) by simp
    moreover obtain r e' k' where "read_calls (int n) check ass e1 k1 = Inr (r, e', k')" and
      "case r of Wait \<Rightarrow> reading n hdr body tail e' k' \<and> length (sk_in k') + length ass \<le> length (sk_in k1) | Kill \<Rightarrow> False
      | Msg m \<Rightarrow> message_bytes m = put_header (terminate_name (canon hdr)) @ body \<and> sk_in k' = tail \<and> fresh e'"
      using Cons.IH [OF rd1 Cons.prems(2-6)] Cons.prems(7) by (metis list.set_intros(2))
    ultimately show ?thesis using s Wait by (cases r) auto
  next
    case Kill
    then show ?thesis using c as by (auto simp: readable_def)
  next
    case (Msg m)
    then show ?thesis using s c by simp
  qed
qed simp

lemma reading_more:
  assumes "reading n hdr body tail e k" and "length hdr = 48"
  shows "length tail < length (sk_in k)"
proof (cases "in_mess_head (s_read e) = 1")
  case True
  then show ?thesis using assms by (auto simp: reading_def Let_def)
next
  case False
  then obtain m tot where b: "tot < length body" "got_body tot m @ sk_in k = body @ tail"
    using assms by (auto simp: reading_def)
  have "length (got_body tot m) + length (sk_in k) = length body + length tail" using b(2) by (metis length_append)
  moreover have "length (got_body tot m) \<le> tot" by (simp add: got_body_def)
  ultimately show ?thesis using b(1) by simp
qed

end
