(* ===== verification/Session_Oversize.thy ===== *)
theory Session_Oversize
  imports Session_Framing Session_Stream
begin

text \<open>
  A message that passes the check of its header and still needs more buffers than a scatter has:
  \<open>MAX_MESSAGE_BODY_LEN\<close> takes a packet header to have 32 bytes, it has 40.
\<close>

lemma read_body_overflow:
  assumes "body_ok n sz m c b tot" and "length m \<le> 100" and "100 * n < 48 + sz" and "c \<le> 100"
    and "sk_recv k = replicate (100 - c + j) (Got n)" and "sz - tot \<le> length (sk_in k)"
  shows "read_body (int n) (int sz - int tot) m (place c b tot) k = Inl (Alarm_exit ''Message_add_scat_element'')"
  using assms
proof (induction "100 - c" arbitrary: m c b tot k)
  case 0
  then have c: "c = 100" by simp
  then have b: "b = 0" "length m = 100" "100 * n = 48 + tot" using 0 by (auto simp: body_ok_def)
  then show ?case using 0 c by (subst read_body.simps) (simp add: Message_add_scat_element_def)
next
  case (Suc l)
  have c: "c < 100" using Suc.hyps(2) by simp
  have ok: "b < n" "c * n + b = 48 + tot" "\<forall>e \<in> set m. length (se_buf e) = n" "m \<noteq> []" using Suc.prems(1) by (auto simp: body_ok_def)
  have "c * n + n \<le> 100 * n" using mult_le_mono1 [of "Suc c" 100 n] c by simp
  then have tot: "tot + (n - b) < sz" using ok(1,2) Suc.prems(3) by linarith
  then have more: "tot < sz" using ok(1) by simp
  obtain m1 where m1: "(if int (length m) \<le> int c then guard_res (int b \<noteq> 0) (Alarm_exit ''Sess_read'') (Message_add_scat_element (int n) m)
      else Inr m) = Inr m1" "length m1 = Suc c" "body_ok n sz m1 c b tot"
  proof (cases "length m = c")
    case True
    let ?m = "m @ [\<lparr> se_buf = replicate n 0, se_len = int n \<rparr>]"
    have b: "b = 0" using Suc.prems(1) True by (auto simp: body_ok_def)
    have "body_ok n sz ?m c b tot" using Suc.prems(1) True more b by (auto simp: body_ok_def)
    then show ?thesis using that [of ?m] True c b by (simp add: Message_add_scat_element_def)
  next
    case False
    then have "length m = Suc c" using Suc.prems(1) by (auto simp: body_ok_def)
    then show ?thesis using that [of m] Suc.prems(1) by simp
  qed
  let ?r = "int n - int b" and ?bytes = "take (n - b) (sk_in k)"
  let ?k = "k\<lparr> sk_recv := replicate (100 - Suc c + j) (Got n), sk_in := drop (n - b) (sk_in k) \<rparr>"
  have tr: "?r = (if int n - int b > int sz - int tot then int sz - int tot else int n - int b)" "0 < ?r"
    using tot ok(1) by auto
  have "100 - c + j = Suc (100 - Suc c + j)" using c by simp
  moreover have "min n (min (nat ?r) (length (sk_in k))) = n - b" using Suc.prems(6) tot ok(1) by (simp add: nat_diff_distrib)
  ultimately have rc: "sock_recv ?r k = (?r, False, ?bytes, ?k)"
    using Suc.prems(5) ok(1) by (simp add: sock_recv_def Let_def of_nat_diff)
  have lb: "b + length ?bytes \<le> n" "length ?bytes = n - b" using Suc.prems(6) tot ok(1) by auto
  note w = body_write [OF m1(3,2) lb(1)]
  have "read_body (int n) (int sz - int tot) m (place c b tot) k =
      read_body (int n) (int sz - int (tot + (n - b))) (write_element c b ?bytes m1) (place (Suc c) 0 (tot + (n - b))) ?k"
    using read_body_step [OF more m1(1) tr rc] ok(1) by (simp add: of_nat_diff algebra_simps)
  also have "\<dots> = Inl (Alarm_exit ''Message_add_scat_element'')"
  proof (rule Suc.hyps(1))
    show "body_ok n sz (write_element c b ?bytes m1) (Suc c) 0 (tot + (n - b))"
      using w(1,2,3) ok(1,2) tot by (auto simp: body_ok_def)
  qed (use Suc.hyps(2) Suc.prems tot w(2) c in auto)
  finally show ?case .
qed

section \<open>A large message\<close>

text \<open>The header of a message with \<open>d\<close> bytes of data, from a client of the same byte order.\<close>

definition data_header :: "string \<Rightarrow> string \<Rightarrow> nat \<Rightarrow> message_header" where
  "data_header user daemon_name d = \<lparr> mh_type = Set_endian AGREED_MESS,
     mh_private_group_name = strncpy (private_group user daemon_name) MAX_GROUP_NAME,
     mh_num_groups = 0, mh_hint = 0, mh_data_len = int d \<rparr>"

lemma length_strncpy [simp]: "length (strncpy g n) = n"
  by (simp add: strncpy_def)

lemma data_header_canon:
  assumes "int d < 2 ^ 31"
  shows "canon (put_header (data_header u p d)) = data_header u p d" and "header_ok (data_header u p d)"
proof -
  show ok: "header_ok (data_header u p d)" using assms by (simp add: header_ok_def data_header_def)
  have "get_header (put_header (data_header u p d)) = data_header u p d" using get_put_header [OF ok, of "[]"] by simp
  moreover have "Same_endian (Set_endian AGREED_MESS)" "Set_endian (Set_endian AGREED_MESS) = Set_endian AGREED_MESS" by code_simp+
  ultimately show "canon (put_header (data_header u p d)) = data_header u p d" by (simp add: native_header_def data_header_def)
qed

lemma terminate_data_header:
  assumes "private_name_ok u" and "proc_name_ok p"
  shows "terminate_name (data_header u p d) = data_header u p d"
proof -
  have "length (private_group u p) < 32" using assms by (simp add: private_group_full private_name_ok_def proc_name_ok_def)
  then have "strncpy (private_group u p) 32 ! 31 = CHR 0x00" by (simp add: strncpy_def nth_append)
  then have "(strncpy (private_group u p) 32)[31 := CHR 0x00] = strncpy (private_group u p) 32" using list_update_id by metis
  then show ?thesis by (simp add: terminate_name_def data_header_def)
qed

lemma data_header_valid:
  assumes "private_name_ok u" and "proc_name_ok p" and "int d \<le> 100 * bs + 752"
  shows "Sess_validate_read_header bs u p (data_header u p d)"
proof -
  have "count_bits_set (Set_endian AGREED_MESS) 0 6 = 1" "count_bits_set (Set_endian AGREED_MESS) 16 19 = 0" by code_simp+
  moreover have "G_private_to_names (mh_private_group_name (terminate_name (data_header u p d))) = Some (u, p)"
    using G_private_to_names_legal [OF assms(1,2)] terminate_data_header [OF assms(1,2)] by (simp add: data_header_def)
  ultimately show ?thesis using assms(3)
    by (simp add: Sess_validate_read_header_def Let_def) (simp add: data_header_def MAX_MESSAGE_BODY_LEN_def)
qed

lemma read_session_oversized:
  assumes f: "fresh e" and n: "48 < n" and d: "100 * n < 48 + d" "int d < 2 ^ 31" and u: "private_name_ok u" "proc_name_ok p"
    and chk: "check (data_header u p d)" and inp: "sk_in k = put_header (data_header u p d) @ body" "length body = d"
    and ans: "sk_recv k = Got 48 # replicate 100 (Got n)"
  shows "read_session (int n) check e k = Inl (Alarm_exit ''Message_add_scat_element'')"
proof -
  let ?h = "data_header u p d" and ?m = "Message_new_message (int n)"
  let ?k = "k\<lparr> sk_recv := replicate 100 (Got n), sk_in := body \<rparr>"
  let ?w = "\<lparr> in_mess_head = 1, pm_cur_element = 0, pm_cur_byte = 0, pm_total_bytes = 0 \<rparr> :: partial_message_info"
  note c = data_header_canon [OF d(2), of u p]
  define m1 where "m1 = write_element 0 0 (put_header ?h) ?m"
  have "read_header ?m ?w k = (Read_complete, m1, place 0 48 0, ?k)"
    using inp ans by (simp add: read_header_def sock_recv_def Let_def m1_def Message_set_location_begin_body_def)
  moreover have "Message_get_message_header m1 = ?h"
    using get_put_header [OF c(2)] n by (simp add: m1_def write_element_def Message_new_message_def Message_get_message_header_def write_at_def)
  moreover have "native_header ?h = ?h" using c(1) get_put_header [OF c(2), of "[]"] by simp
  ultimately have rs: "read_session (int n) check e k = read_message (int n) e (set_header ?h m1) (place 0 48 0) ?k"
    using f chk terminate_data_header [OF u, of d]
    by (simp add: read_session_def fresh_def Message_reset_current_location_def)
  have m1: "length m1 = 1" "length (se_buf (hd m1)) = n"
    using n by (simp_all add: m1_def write_element_def Message_new_message_def)
  note b = set_header_flat [OF m1 n]
  have "read_size (set_header ?h m1) = int d"
    using header_of_flat [OF b(1) c(2) body_bufs [OF b(2)] n] by (simp add: read_size_def Let_def data_header_def)
  moreover have "read_body (int n) (int d - int 0) (set_header ?h m1) (place 0 48 0) ?k = Inl (Alarm_exit ''Message_add_scat_element'')"
    by (rule read_body_overflow [OF b(2), where j = 0]) (use d(1) inp(2) m1(1) in \<open>auto simp: set_header_def split: list.splits\<close>)
  ultimately show ?thesis by (simp add: rs read_message_def)
qed

end
