(* ===== verification/Session_Properties.thy ===== *)
theory Session_Properties
  imports Session_Life Session_Delivery Session_Progress Session_Oversize
begin

text \<open>
  The properties of the sessions with the clients: the table in every reachable state, the bytes
  every client gets, the messages read from a client, and a message that ends the daemon.
\<close>

section \<open>A small table\<close>

definition sample_acp :: acp_ops where
  "sample_acp = \<lparr> open_connection = (\<lambda>_. True), join_group = (\<lambda>_ _. True), leave_group = (\<lambda>_ _. True),
     p2p_send = (\<lambda>_ _ _ _. True), mcast_send = (\<lambda>_ _ _ _. True) \<rparr>"

definition sample_session :: session where
  "sample_session = \<lparr> s_name = ''u'', s_lib_version = [5, 0, 1], s_addr = None, s_status = OP_SESSION, s_priority = 0, s_mbox = 5,
     s_acp_ops = sample_acp, s_read = Message_reset_current_location\<lparr> in_mess_head := 1 \<rparr>, s_read_mess = None,
     s_num_mess = 0, s_write = Message_reset_current_location, s_links = [], sort_prev = None, sort_next = None, hash_next = None \<rparr>"

definition sample_table :: sess_table where
  "sample_table = \<lparr> Sessions = (\<lambda>_. sample_session), Sessions_hash_head = (\<lambda>b. if b = 5 then Some 0 else None),
     Sessions_head = Some 0, Sessions_tail = Some 0, Sessions_free = Some 1 \<rparr>"

definition sample_sessions :: "nat \<Rightarrow> socket \<Rightarrow> sess_state" where
  "sample_sessions n k = \<lparr> table = sample_table, new_ses = sample_session\<lparr> s_status := 0 \<rparr>, Num_sessions = 1, my_name = ''d'',
     Session_threshold = 0, Protocol_threshold = 0, Accept_mboxes = [3], Accept_unix_mbox = 4, socks = (\<lambda>_. k), s_out = [],
     MAX_SESSIONS = 2, sizeof_body = int n, max_session_messages = 1000 \<rparr>"

lemma sample_sessions_ok: "sess_ok [0] (sample_sessions n k)"
proof -
  have h: "sess_hash 5 = 5" by code_simp
  have "sort_ok 2 sample_table [0] [1]"
    by (auto simp: sort_ok_def sample_table_def sample_session_def)
  moreover have "hash_ok sample_table {0} (\<lambda>b. if b = 5 then [0] else [])"
    by (auto simp: hash_ok_def sample_table_def sample_session_def h)
  ultimately have "table_ok 2 sample_table [0]" by (auto simp: table_ok_def names_def)
  moreover have "queue_ok sample_session" by (simp add: queue_ok_def sample_session_def)
  ultimately show ?thesis by (simp add: sess_ok_def sample_sessions_def sample_table_def)
qed

section \<open>The table\<close>

text \<open>
  C34. In every state that the handlers of the sessions lead to from the start, in any order, the
  table is well formed: the sorted list has the sessions in the strict order of their names, its
  links back are those forward reversed, every chain of the hash table has the sessions
  of its mailboxes, and every other entry is free. So the lookups by name and by mailbox
  end and find the session, or find that there is none; and every session has a legal private
  name and is not both operating and waiting for its authentication.
\<close>

theorem reachable_sessions_ok:
  assumes "sess_started r" and "(sess_step a)\<^sup>*\<^sup>* r (s, p)"
  shows "\<exists>ss. sess_inv ss s \<and>
    (\<forall>i \<in> set ss. Sess_get_session (s_name (ses_of s i)) (table s) = Some (int i) \<and>
                  Sess_get_session_index (s_mbox (ses_of s i)) (table s) = Some (int i)) \<and>
    (\<forall>nm. nm \<notin> set (names (table s) ss) \<longrightarrow> Sess_get_session nm (table s) = Some (- 1)) \<and>
    (\<forall>mbox. mbox \<notin> (\<lambda>i. s_mbox (ses_of s i)) ` set ss \<longrightarrow> Sess_get_session_index mbox (table s) = Some (- 1))"
proof -
  from session_runs.reach_inv [OF assms] obtain ss where ss: "sess_inv ss s" by (auto simp: run_inv_def)
  then have t: "table_ok (MAX_SESSIONS s) (table s) ss" by (simp add: sess_inv_def)
  show ?thesis
    using ss Sess_get_session_found [OF t] Sess_get_session_absent [OF t] Sess_get_session_index_correct [OF t] by blast
qed

definition empty_sessions :: sess_state where
  "empty_sessions = (sample_sessions 64 \<lparr> sk_send = [], sk_recv = [], sk_in = [], sk_sent = [] \<rparr>)\<lparr>
     table := Sess_init_sessions 2 sample_table, Num_sessions := 0 \<rparr>"

theorem reachable_sessions_ok_witness:
  "\<exists>a s. sess_started (empty_sessions, False) \<and> (sess_step a)\<^sup>*\<^sup>* (empty_sessions, False) (s, True) \<and> s_mbox (new_ses s) = 7 \<and>
    (\<exists>ss. sess_inv ss s)"
proof -
  let ?k = "\<lparr> sk_send = [], sk_recv = [], sk_in = [], sk_sent = [] \<rparr> :: socket"
  have st: "sess_started (empty_sessions, False)"
    unfolding sess_started_def empty_sessions_def
    by (rule exI [of _ "sample_sessions 64 ?k"], rule exI [of _ sample_table])
      (simp add: sample_sessions_def Is_op_session_def sample_session_def)
  have "table_ok 2 (Sess_init_sessions 2 sample_table) []"
    using Sess_init_sort [of 2 sample_table] by (auto simp: table_ok_def names_def)
  then have i: "Sess_get_session_index 7 (table empty_sessions) = Some (- 1)"
    using Sess_get_session_index_correct(2) [of 2 _ "[]"] by (simp add: empty_sessions_def)
  obtain s where s: "Sess_accept 7 None empty_sessions = Some (Inr s)" "s_mbox (new_ses s) = 7"
    using i by (simp add: Sess_accept_def Let_def guard_res_def s_emit_def Sess_detach_accept_def empty_sessions_def sample_sessions_def)
  have "sess_step a (empty_sessions, False) (s, True)" for a
    using sess_step.intros(1) [OF i s(1), of a] by (simp add: empty_sessions_def sample_sessions_def)
  then have run: "(sess_step a)\<^sup>*\<^sup>* (empty_sessions, False) (s, True)" for a by blast
  show ?thesis using reachable_sessions_ok [OF st run] st run s(2) by blast
qed

section \<open>Writing to the clients\<close>

text \<open>
  C35. Writes of messages to sessions and retries, in any order, with sockets that take what they
  like of every \<open>send\<close>: nothing fails, and every client that is still connected at the end has
  been sent, or has in its queue, exactly the bytes meant for it before followed by those of the
  messages written to it, in their order. A client that is too slow loses its session and no
  other client's bytes.
\<close>

theorem client_streams:
  assumes "sess_ok ss s" and "authenticated ss s" and "\<forall>ev \<in> set evs. event_target ev \<in> set ss \<and> event_ok ev"
  shows "\<exists>s'. run_events evs s = Some (Inr s') \<and> sess_ok ss s' \<and>
    (\<forall>i \<in> set ss. alive s' i \<longrightarrow> stream s' i = stream s i @ concat (map (\<lambda>ev. event_bytes ev i) evs))"
  using run_events_stream [OF assms] .

definition sample_message :: scatter where
  "sample_message = Message_create_message 64 AGREED_MESS ''#u#d''"

theorem client_streams_witness:
  "\<exists>s'. run_events [Write 0 sample_message, Write 0 sample_message, Retry 0]
      (sample_sessions 64 \<lparr> sk_send = [10, - 1, 20], sk_recv = [], sk_in = [], sk_sent = [] \<rparr>) = Some (Inr s') \<and> sess_ok [0] s'"
proof -
  let ?s = "sample_sessions 64 \<lparr> sk_send = [10, - 1, 20], sk_recv = [], sk_in = [], sk_sent = [] \<rparr>"
  have "message_ok sample_message" unfolding sample_message_def by code_simp
  moreover have "authenticated [0] ?s"
    by (simp add: authenticated_def sample_sessions_def sample_table_def sample_session_def Is_preauth_session_def)
  ultimately show ?thesis
    using client_streams [OF sample_sessions_ok, of 64 _ "[Write 0 sample_message, Write 0 sample_message, Retry 0]"] by fastforce
qed

section \<open>Reading from a client\<close>

text \<open>
  C36. A client sends a header that passes the check, its body and whatever follows; the message
  fits the buffers of a scatter. However the socket splits this, every call of \<open>Sess_read\<close> on a
  readable socket either waits for more or has the message; it has it after at most as many calls
  as there are bytes. The message then is the header in this daemon's byte order and the
  body, and the bytes that follow are left in the socket.
\<close>

theorem client_message_completes:
  assumes "fresh e" and "sk_in k = hdr @ body @ tail" and "length hdr = 48" and "48 < n" and "body_size hdr = int (length body)"
    and "48 + length body < 100 * n" and "check (canon hdr)" and "\<forall>as \<in> set ass. readable as" and "48 + length body \<le> length ass"
  shows "\<exists>m e' k'. read_calls (int n) check ass e k = Inr (Msg m, e', k') \<and>
    message_bytes m = put_header (terminate_name (canon hdr)) @ body \<and> sk_in k' = tail \<and> fresh e'"
proof -
  note r = fresh_reading [OF assms(1,3,2)]
  obtain r e' k' where c: "read_calls (int n) check ass e k = Inr (r, e', k')" and
    st: "case r of
       Wait \<Rightarrow> reading n hdr body tail e' k' \<and> length (sk_in k') + length ass \<le> length (sk_in k)
     | Kill \<Rightarrow> False
     | Msg m \<Rightarrow> message_bytes m = put_header (terminate_name (canon hdr)) @ body \<and> sk_in k' = tail \<and> fresh e'"
    using read_calls_frame [where check = check, OF r assms(3-8)] by blast
  show ?thesis
  proof (cases r)
    case Wait
    then have "length tail < length (sk_in k')" "length (sk_in k') + length ass \<le> length (sk_in k)"
      using reading_more [OF _ assms(3)] st by auto
    then show ?thesis using assms(2,3,9) by simp
  qed (use c st in auto)
qed

theorem client_message_completes_witness:
  "\<exists>m e' k'. read_calls 64 (\<lambda>_. True) (replicate 50 [Got 1, Would_block]) sample_session
      \<lparr> sk_send = [], sk_recv = [], sk_in = put_header (data_header ''u'' ''d'' 2) @ [7, 8] @ [9], sk_sent = [] \<rparr> = Inr (Msg m, e', k') \<and>
    message_bytes m = put_header (data_header ''u'' ''d'' 2) @ [7, 8] \<and> sk_in k' = [9]"
proof -
  let ?hdr = "put_header (data_header ''u'' ''d'' 2)"
  let ?k = "\<lparr> sk_send = [], sk_recv = [], sk_in = ?hdr @ [7, 8] @ [9], sk_sent = [] \<rparr>"
  have c: "canon ?hdr = data_header ''u'' ''d'' 2" by (rule data_header_canon) simp
  have u: "private_name_ok ''u''" "proc_name_ok ''d''" by code_simp+
  have b: "body_size ?hdr = int (length [7, 8 :: byte])" unfolding body_size_def c by (simp add: data_header_def)
  show ?thesis
    using client_message_completes [of sample_session ?k ?hdr "[7, 8]" "[9]" 64 "\<lambda>_. True" "replicate 50 [Got 1, Would_block]", OF _ _ _ _ b]
    by (simp add: c terminate_data_header [OF u] fresh_def sample_session_def readable_def bad_answer_def) fastforce
qed

section \<open>A message that is too large\<close>

text \<open>
  C37. The limit that \<open>Sess_validate_read_header\<close> puts on a message is up to 800 bytes more than a
  scatter can hold: \<open>MAX_MESSAGE_BODY_LEN\<close> subtracts 32 bytes for a packet's header, where the
  header has 40. A client that sends a message of such a size, with a header that is accepted,
  ends the daemon: \<open>Sess_read\<close> asks for a buffer beyond the last one.
\<close>

theorem oversized_message_aborts:
  assumes "sess_ok ss s" and "i \<in> set ss" and "fresh (ses_of s i)" and "sizeof_body s = int n" and "48 < n"
    and "100 * n < 48 + d" and "48 + d \<le> 100 * n + 800" and "int d < 2 ^ 31"
    and "private_name_ok (s_name (ses_of s i))" and "proc_name_ok (my_name s)"
    and "sk_in (socks s (s_mbox (ses_of s i))) = put_header (data_header (s_name (ses_of s i)) (my_name s) d) @ body"
    and "length body = d" and "sk_recv (socks s (s_mbox (ses_of s i))) = Got 48 # replicate 100 (Got n)"
  shows "Sess_validate_read_header (sizeof_body s) (s_name (ses_of s i)) (my_name s) (data_header (s_name (ses_of s i)) (my_name s) d) \<and>
    Sess_read num_local (s_mbox (ses_of s i)) s = Some (Inl (Alarm_exit ''Message_add_scat_element''))"
proof -
  let ?check = "Sess_validate_read_header (int n) (s_name (ses_of s i)) (my_name s)"
  have v: "?check (data_header (s_name (ses_of s i)) (my_name s) d)"
    using data_header_valid [OF assms(9,10)] assms(7) by simp
  moreover have "read_session (int n) ?check (ses_of s i) (socks s (s_mbox (ses_of s i))) = Inl (Alarm_exit ''Message_add_scat_element'')"
    using read_session_oversized [where check = ?check, OF assms(3,5,6,8,9,10) v assms(11,12,13)] .
  ultimately show ?thesis
    using sess_index [OF assms(1,2)] assms(4) by (simp add: Sess_read_def Let_def)
qed

theorem oversized_message_aborts_witness:
  "\<exists>s. Sess_validate_read_header 1364 ''u'' ''d'' (data_header ''u'' ''d'' 136400) \<and>
    Sess_read (\<lambda>_. 0) 5 s = Some (Inl (Alarm_exit ''Message_add_scat_element''))"
proof -
  let ?h = "data_header ''u'' ''d'' 136400"
  define k where "k = \<lparr> sk_send = [], sk_recv = Got 48 # replicate 100 (Got 1364), sk_in = put_header ?h @ replicate 136400 0, sk_sent = [] \<rparr>"
  let ?s = "sample_sessions 1364 k"
  have u: "private_name_ok ''u''" "proc_name_ok ''d''" by code_simp+
  have f: "ses_of ?s 0 = sample_session" "my_name ?s = ''d''" "sizeof_body ?s = int 1364" "socks ?s 5 = k" "s_name sample_session = ''u''"
      "s_mbox sample_session = 5" "fresh sample_session" by (simp_all add: sample_sessions_def sample_table_def sample_session_def fresh_def)
  have k: "sk_in k = put_header ?h @ replicate 136400 0" "sk_recv k = Got 48 # replicate 100 (Got 1364)" by (simp_all add: k_def)
  note o = oversized_message_aborts [OF sample_sessions_ok, of 0 1364 k 1364 136400 "replicate 136400 0" "\<lambda>_. 0", unfolded f]
  show ?thesis using o u k f(7) by (intro exI [of _ ?s]) simp
qed

end
