(* ===== verification/Group_Data.thy ===== *)
theory Group_Data
  imports Session_Read
begin

text \<open>
  The data of \<open>groups.c\<close>: groups of clients, with their daemons and members, and the state of the
  module. Groups, the daemons of a group and the members of a daemon are kept in skip lists
  (\<open>stdskl\<close>), the mailboxes of a group's local members in an array (\<open>stdarr\<close>). Both are containers of
  a library whose code is not part of the repository: their operations are the argument \<open>L\<close> of the
  definitions that use them. A container is the list of its elements in the order in which an
  iterator goes through them; \<open>skl_ok\<close> is what the library promises for skip lists, \<open>lib_ok\<close> for all
  of them.
\<close>

section \<open>Containers\<close>

text \<open>
  \<open>stdskl_find\<close>, \<open>stdskl_put\<close> of an element and \<open>stdskl_erase\<close> of the element found, on a list that
  was constructed with a comparison function.
\<close>

record ('e, 'k) skl_ops =
  skl_find :: "('k \<Rightarrow> 'k \<Rightarrow> int) \<Rightarrow> 'e list \<Rightarrow> 'k \<Rightarrow> 'e option"
  skl_put :: "('k \<Rightarrow> 'k \<Rightarrow> int) \<Rightarrow> 'e list \<Rightarrow> 'e \<Rightarrow> 'e list"
  skl_erase :: "('k \<Rightarrow> 'k \<Rightarrow> int) \<Rightarrow> 'e list \<Rightarrow> 'k \<Rightarrow> 'e list"

definition cmp_ok :: "('k \<Rightarrow> 'k \<Rightarrow> int) \<Rightarrow> bool" where
  "cmp_ok cmp \<longleftrightarrow> (\<forall>a. cmp a a = 0) \<and> (\<forall>a b. cmp a b < 0 \<longleftrightarrow> 0 < cmp b a) \<and>
     (\<forall>a b c. cmp a b < 0 \<longrightarrow> cmp b c < 0 \<longrightarrow> cmp a c < 0) \<and> (\<forall>a b c. cmp a b = 0 \<longrightarrow> cmp a c = cmp b c)"

definition skl_sorted :: "('e \<Rightarrow> 'k) \<Rightarrow> ('k \<Rightarrow> 'k \<Rightarrow> int) \<Rightarrow> 'e list \<Rightarrow> bool" where
  "skl_sorted key cmp xs \<longleftrightarrow> sorted_wrt (\<lambda>x y. cmp (key x) (key y) < 0) xs"

definition skl_ok :: "('e \<Rightarrow> 'k) \<Rightarrow> ('e, 'k) skl_ops \<Rightarrow> bool" where
  "skl_ok key ops \<longleftrightarrow>
     (\<forall>cmp xs. cmp_ok cmp \<and> skl_sorted key cmp xs \<longrightarrow>
        (\<forall>k. skl_find ops cmp xs k = find (\<lambda>x. cmp (key x) k = 0) xs) \<and>
        (\<forall>k. skl_erase ops cmp xs k = filter (\<lambda>x. cmp (key x) k \<noteq> 0) xs) \<and>
        (\<forall>e. (\<forall>x \<in> set xs. cmp (key x) (key e) \<noteq> 0) \<longrightarrow>
           skl_put ops cmp xs e = filter (\<lambda>x. cmp (key x) (key e) < 0) xs @ e # filter (\<lambda>x. 0 < cmp (key x) (key e)) xs))"

section \<open>Groups\<close>

text \<open>
  A member is the array of \<open>MAX_GROUP_NAME\<close> characters of its private group name. The names of
  groups are strings: the code clears the array before it copies a name into it.
\<close>

record group_id =
  gid_memb_id :: membership_id
  gid_index :: int

record daemon_members =
  dm_proc_id :: proc_id
  dm_memb_id :: membership_id
  MembersList :: "string list"

record group =
  g_name :: string
  grp_id :: group_id
  g_changed :: bool
  g_num_members :: int
  DaemonsList :: "daemon_members list"
  mboxes :: "int list"

record std_lib =
  lib_groups :: "(group, string) skl_ops"
  lib_daemons :: "(daemon_members, proc_id) skl_ops"
  lib_members :: "(string, string) skl_ops"
  lib_vs :: "(daemon_members, membership_id \<times> proc_id) skl_ops"
  arr_push :: "int list \<Rightarrow> int \<Rightarrow> int list"
  arr_pop :: "int list \<Rightarrow> int list"

abbreviation vs_key :: "daemon_members \<Rightarrow> membership_id \<times> proc_id" where
  "vs_key d \<equiv> (dm_memb_id d, dm_proc_id d)"

definition lib_ok :: "std_lib \<Rightarrow> bool" where
  "lib_ok L \<longleftrightarrow> skl_ok g_name (lib_groups L) \<and> skl_ok dm_proc_id (lib_daemons L) \<and> skl_ok cstr (lib_members L) \<and>
     skl_ok vs_key (lib_vs L) \<and> (\<forall>xs x. arr_push L xs x = xs @ [x]) \<and> (\<forall>xs. xs \<noteq> [] \<longrightarrow> arr_pop L xs = butlast xs)"

section \<open>Orders\<close>

definition strncmp :: "nat \<Rightarrow> string \<Rightarrow> string \<Rightarrow> int" where
  "strncmp n a b = (if take n a < take n b then - 1 else if take n a = take n b then 0 else 1)"

definition G_compare_nameptr :: "string \<Rightarrow> string \<Rightarrow> int" where
  "G_compare_nameptr a b = strncmp MAX_GROUP_NAME a b"

definition G_compare_proc_ids_by_conf_internal :: "configuration \<Rightarrow> proc_id \<Rightarrow> proc_id \<Rightarrow> int" where
  "G_compare_proc_ids_by_conf_internal config aip bip =
     (let ia = Conf_proc_ref_by_id_in_conf config aip;
          ib = Conf_proc_ref_by_id_in_conf config bip
      in if ia > - 1 \<and> ib > - 1 then ia - ib
         else if ia < 0 \<and> ib < 0 then (if aip = bip then 0 else if aip < bip then - 1 else 1)
         else if ia < 0 then 1
         else - 1)"

definition unknown_memb_id :: membership_id where
  "unknown_memb_id = \<lparr> m_proc_id = - 1, m_time = - 1 \<rparr>"

definition Is_unknown_memb_id :: "membership_id \<Rightarrow> bool" where
  "Is_unknown_memb_id m \<longleftrightarrow> m_proc_id m = - 1"

abbreviation Is_partitioned_daemon :: "daemon_members \<Rightarrow> bool" where
  "Is_partitioned_daemon d \<equiv> Is_unknown_memb_id (dm_memb_id d)"

text \<open>The differences are taken at 32 bits.\<close>

definition G_compare_memb_ids :: "membership_id \<Rightarrow> membership_id \<Rightarrow> int" where
  "G_compare_memb_ids m1 m2 =
     (case (Is_unknown_memb_id m1, Is_unknown_memb_id m2) of
        (True, False) \<Rightarrow> 1
      | (False, True) \<Rightarrow> - 1
      | (True, True) \<Rightarrow> 0
      | (False, False) \<Rightarrow>
          if m_proc_id m1 \<noteq> m_proc_id m2 then sint (m_proc_id m1 - m_proc_id m2)
          else if m_time m1 \<noteq> m_time m2 then sint (word_of_int (m_time m1 - m_time m2) :: 32 word)
          else 0)"

definition G_compare_daemon_vs_set :: "configuration \<Rightarrow> membership_id \<times> proc_id \<Rightarrow> membership_id \<times> proc_id \<Rightarrow> int" where
  "G_compare_daemon_vs_set config a b =
     (let cmp = G_compare_memb_ids (fst a) (fst b)
      in if cmp = 0 then G_compare_proc_ids_by_conf_internal config (snd a) (snd b) else cmp)"

section \<open>The state\<close>

datatype gstate = GOP | GTRANS | GGATHER | GGT

record groups_message_link =
  gm_rep_proc_id :: proc_id
  gm_complete :: bool
  gm_messages :: "scatter list"

text \<open>
  \<open>Gathered\<close> is the list behind the entry \<open>Gathered\<close>, and \<open>Gathered_complete\<close> its flag.
  \<open>Groups_bufs\<close> are the bytes of the buffers. \<open>gr_Config\<close> is the loaded configuration and \<open>gr_My\<close>
  this daemon's entry; \<open>sess\<close> is the state of the sessions.
\<close>

record groups_state =
  Gstate :: gstate
  gr_Trans_memb :: configuration
  gr_Trans_memb_id :: membership_id
  gr_Reg_memb :: configuration
  gr_Reg_memb_id :: membership_id
  Groups_bufs :: "byte list list"
  Groups_bufs_fresh :: bool
  Num_mess_gathered :: int
  Num_daemons_gathered :: int
  Gathered_complete :: bool
  Gathered :: "groups_message_link list"
  GroupsList :: "group list"
  Num_groups :: int
  MySyncedSet :: "proc_id list"
  Cn_active :: configuration
  gr_Config :: configuration
  gr_My :: proc
  sess :: sess_state

definition g_emit :: "sess_effect list \<Rightarrow> groups_state \<Rightarrow> groups_state" where
  "g_emit es s = s\<lparr> sess := s_emit es (sess s) \<rparr>"

abbreviation cmp_daemons :: "groups_state \<Rightarrow> proc_id \<Rightarrow> proc_id \<Rightarrow> int" where
  "cmp_daemons s \<equiv> G_compare_proc_ids_by_conf_internal (Cn_active s)"

text \<open>Operations that end the process or do not return, in sequence.\<close>

definition ro_bind :: "'a result option \<Rightarrow> ('a \<Rightarrow> 'b result option) \<Rightarrow> 'b result option" where
  "ro_bind r f = (case r of None \<Rightarrow> None | Some (Inl e) \<Rightarrow> Some (Inl e) | Some (Inr x) \<Rightarrow> f x)"

primrec ro_fold :: "('i \<Rightarrow> 's \<Rightarrow> 's result option) \<Rightarrow> 'i list \<Rightarrow> 's \<Rightarrow> 's result option" where
  "ro_fold f [] s = Some (Inr s)"
| "ro_fold f (x # xs) s = ro_bind (f x s) (ro_fold f xs)"

lemma ro_bind_simps [simp]:
  "ro_bind None f = None" "ro_bind (Some (Inl e)) f = Some (Inl e)" "ro_bind (Some (Inr x)) f = f x"
  by (simp_all add: ro_bind_def)

section \<open>Lookups\<close>

definition G_get_group :: "std_lib \<Rightarrow> string \<Rightarrow> groups_state \<Rightarrow> group option" where
  "G_get_group L n s = skl_find (lib_groups L) G_compare_nameptr (GroupsList s) n"

definition G_get_daemon :: "std_lib \<Rightarrow> groups_state \<Rightarrow> group \<Rightarrow> proc_id \<Rightarrow> daemon_members option" where
  "G_get_daemon L s g i = skl_find (lib_daemons L) (cmp_daemons s) (DaemonsList g) i"

definition G_get_member :: "std_lib \<Rightarrow> daemon_members \<Rightarrow> string \<Rightarrow> string option" where
  "G_get_member L d n = skl_find (lib_members L) G_compare_nameptr (MembersList d) n"

definition G_get_num_local :: "std_lib \<Rightarrow> groups_state \<Rightarrow> string \<Rightarrow> int" where
  "G_get_num_local L s n = (case G_get_group L n s of None \<Rightarrow> 0 | Some g \<Rightarrow> int (length (mboxes g)))"

text \<open>The group behind a pointer, which its name stands for.\<close>

definition cur_group :: "string \<Rightarrow> groups_state \<Rightarrow> group option" where
  "cur_group n s = find (\<lambda>g. g_name g = n) (GroupsList s)"

text \<open>What changing a group, or a daemon of a group, through its pointer does to the lists.\<close>

definition set_group :: "group \<Rightarrow> groups_state \<Rightarrow> groups_state" where
  "set_group g s = s\<lparr> GroupsList := map (\<lambda>x. if g_name x = g_name g then g else x) (GroupsList s) \<rparr>"

definition set_daemon :: "daemon_members \<Rightarrow> group \<Rightarrow> group" where
  "set_daemon d g = g\<lparr> DaemonsList := map (\<lambda>x. if dm_proc_id x = dm_proc_id d then d else x) (DaemonsList g) \<rparr>"

end
