(* ===== verification/Group_Notices.thy ===== *)
theory Group_Notices
  imports Group_Data
begin

text \<open>
  What \<open>groups.c\<close> tells the local members of a group: regular memberships after a join, a leave or a
  disconnect, regular memberships after a change of the network with the sets of members that came
  together, transitional memberships, and the notice to a member that left.
\<close>

section \<open>Building notices\<close>

abbreviation (input) sizeof_group_id :: int where "sizeof_group_id \<equiv> 12"

definition put_group_id :: "group_id \<Rightarrow> byte list" where
  "put_group_id g = put32 (m_proc_id (gid_memb_id g)) @ put32 (word_of_int (m_time (gid_memb_id g))) @ put32 (word_of_int (gid_index g))"

definition group_members :: "group \<Rightarrow> string list" where
  "group_members g = concat (map MembersList (DaemonsList g))"

definition names_bytes :: "string list \<Rightarrow> byte list" where
  "names_bytes ns = concat (map (\<lambda>n. bytes_of (strncpy n MAX_GROUP_NAME)) ns)"

text \<open>
  \<open>G_build_memb_buf\<close>: the header and the bytes. The buffer \<open>Mess_buf\<close> has \<open>MAX_MESSAGE_BODY_LEN\<close>
  bytes, which nothing checks; \<open>finish_notice\<close> is the check of what was written.
\<close>

definition G_build_memb_buf :: "group \<Rightarrow> 32 word \<Rightarrow> message_header \<times> byte list" where
  "G_build_memb_buf g caused =
     (\<lparr> mh_type = Set_endian REG_MEMB_MESS OR caused, mh_private_group_name = strncpy (g_name g) MAX_GROUP_NAME,
        mh_num_groups = g_num_members g, mh_hint = Set_endian 0, mh_data_len = sizeof_group_id \<rparr>,
      names_bytes (group_members g) @ put_group_id (grp_id g))"

definition finish_notice :: "int \<Rightarrow> message_header \<Rightarrow> byte list \<Rightarrow> scatter result" where
  "finish_notice bs h buf =
     guard_res (MAX_MESSAGE_BODY_LEN bs < int (length buf)) (Undefined ''G_build_memb_buf'')
       (Message_Buffer_to_Message_Fragments bs (set_header h (Message_new_message bs)) buf)"

section \<open>Virtual synchrony sets\<close>

text \<open>
  The loop of \<open>G_build_memb_vs_buf\<close> over the daemons, sorted by their membership identifiers. The
  accumulator has the sets so far, the identifier of the current one, the offset of this daemon's
  set, and whether the joiner was found.
\<close>

record vs_acc =
  vs_sets :: "string list list"
  vs_memb_id :: membership_id
  vs_offset :: "nat option"
  vs_found :: bool

definition vs_bytes :: "string list list \<Rightarrow> byte list" where
  "vs_bytes sets = concat (map (\<lambda>ns. put32 (of_nat (length ns)) @ names_bytes ns) sets)"

fun drop_joiner :: "string option \<Rightarrow> bool \<Rightarrow> string list \<Rightarrow> string list \<times> bool" where
  "drop_joiner joiner found [] = ([], found)"
| "drop_joiner joiner found (m # ms) =
     (if joiner \<noteq> None \<and> \<not> found \<and> cstr (the joiner) = cstr m then let (ns, f) = drop_joiner joiner True ms in (ns, f)
      else let (ns, f) = drop_joiner joiner found ms in (m # ns, f))"

definition vs_step :: "proc_id \<Rightarrow> string option \<Rightarrow> daemon_members \<Rightarrow> vs_acc \<Rightarrow> vs_acc result" where
  "vs_step my joiner d v =
     (let needed = Is_unknown_memb_id (vs_memb_id v) \<or> \<not> Memb_is_equal (vs_memb_id v) (dm_memb_id d);
          sets = (if needed then vs_sets v @ [[]] else vs_sets v);
          memb_id = (if needed then dm_memb_id d else vs_memb_id v);
          here = length (vs_bytes (butlast sets));
          (ns, found) = drop_joiner joiner (vs_found v) (MembersList d)
      in guard_res (dm_proc_id d = my \<and> vs_offset v \<noteq> None \<and> vs_offset v \<noteq> Some 0) (Alarm_exit ''G_build_memb_vs_buf'')
           (Inr \<lparr> vs_sets = butlast sets @ [last sets @ ns], vs_memb_id = memb_id,
                  vs_offset = (if dm_proc_id d = my then Some here else vs_offset v), vs_found = found \<rparr>))"

definition vs_order :: "std_lib \<Rightarrow> configuration \<Rightarrow> daemon_members list \<Rightarrow> daemon_members list" where
  "vs_order L config ds = fold (\<lambda>d ts. skl_put (lib_vs L) (G_compare_daemon_vs_set config) ts d) ds []"

text \<open>
  Without a daemon of its own the offset would be what an earlier message left in the buffer,
  which is not modelled.
\<close>

definition G_build_memb_vs_buf ::
    "std_lib \<Rightarrow> groups_state \<Rightarrow> group \<Rightarrow> 32 word \<Rightarrow> string option \<Rightarrow> (message_header \<times> byte list \<times> byte list) result" where
  "G_build_memb_vs_buf L s g caused joiner =
     (let (h, memb_buf) = G_build_memb_buf g caused
      in bind_res (fold_res (vs_step (pr_id (gr_My s)) joiner) (vs_order L (Cn_active s) (DaemonsList g))
                     \<lparr> vs_sets = [], vs_memb_id = unknown_memb_id, vs_offset = None, vs_found = False \<rparr>) (\<lambda>v.
           guard_res (joiner \<noteq> None \<and> \<not> vs_found v) (Alarm_exit ''G_build_memb_vs_buf'')
             (let sets = vs_sets v @ (case joiner of None \<Rightarrow> [] | Some j \<Rightarrow> [[j]]);
                  h = h\<lparr> mh_data_len := mh_data_len h + 8 + int (length (vs_bytes sets)) \<rparr>;
                  head = memb_buf @ put32 (of_nat (length sets))
              in case vs_offset v of
                   None \<Rightarrow> Inl (Undefined ''G_build_memb_vs_buf'')
                 | Some off \<Rightarrow> Inr (h, head, put32 (of_nat off) @ vs_bytes sets))))"

section \<open>Sending notices\<close>

text \<open>
  Writing a message to the sessions of some mailboxes that asked for memberships. A mailbox without
  a session makes the code look before the table.
\<close>

fun write_mboxes :: "int list \<Rightarrow> scatter \<Rightarrow> int \<Rightarrow> sess_state \<Rightarrow> sess_state result option" where
  "write_mboxes [] m needed s = Some (Inr s)"
| "write_mboxes (b # bs) m needed s =
     (case Sess_get_session_index b (table s) of
        None \<Rightarrow> None
      | Some ses \<Rightarrow>
          if \<not> valid_ses ses s then Some (Inl (Undefined ''Is_memb_session''))
          else if Is_memb_session (s_status (ses_of s (nat ses))) then
            (case Sess_write (nat ses) m needed s of
               None \<Rightarrow> None
             | Some (Inl e) \<Rightarrow> Some (Inl e)
             | Some (Inr (needed, s)) \<Rightarrow> write_mboxes bs m needed s)
          else write_mboxes bs m needed s)"

definition write_notice :: "int list \<Rightarrow> scatter result \<Rightarrow> groups_state \<Rightarrow> groups_state result option" where
  "write_notice bs m s =
     ro_bind (Some m) (\<lambda>m. ro_bind (write_mboxes bs m 0 (sess s)) (\<lambda>ss. Some (Inr (s\<lparr> sess := ss \<rparr>))))"

definition G_send_lightweight_memb :: "group \<Rightarrow> 32 word \<Rightarrow> string \<Rightarrow> groups_state \<Rightarrow> groups_state result option" where
  "G_send_lightweight_memb g caused private_group_name s =
     (let (h, buf) = G_build_memb_buf g caused;
          buf = buf @ put32 1 @ put32 0 @ put32 1 @ names_bytes [private_group_name];
          h = h\<lparr> mh_data_len := mh_data_len h + (3 * 4 + int MAX_GROUP_NAME) \<rparr>
      in write_notice (mboxes g) (finish_notice (sizeof_body (sess s)) h buf) s)"

definition G_send_self_leave :: "group \<Rightarrow> nat \<Rightarrow> groups_state \<Rightarrow> groups_state result option" where
  "G_send_self_leave g ses s =
     (let h = \<lparr> mh_type = Set_endian CAUSED_BY_LEAVE, mh_private_group_name = strncpy (g_name g) MAX_GROUP_NAME,
                mh_num_groups = 0, mh_hint = Set_endian 0, mh_data_len = 0 \<rparr>
      in ro_bind (Some (finish_notice (sizeof_body (sess s)) h [])) (\<lambda>m.
           if Is_memb_session (s_status (ses_of (sess s) ses))
           then ro_bind (Sess_write ses m 0 (sess s)) (\<lambda>(needed, ss). Some (Inr (s\<lparr> sess := ss \<rparr>)))
           else Some (Inr s)))"

text \<open>
  A local joiner gets the message with the offset of the last set, its own; \<open>- 1\<close> is no mailbox.
\<close>

definition G_send_heavyweight_join ::
    "std_lib \<Rightarrow> group \<Rightarrow> string option \<Rightarrow> int \<Rightarrow> groups_state \<Rightarrow> groups_state result option" where
  "G_send_heavyweight_join L g joiner new_mbox s =
     ro_bind (Some (G_build_memb_vs_buf L s g CAUSED_BY_NETWORK joiner)) (\<lambda>(h, head, rest).
       ro_bind (write_notice (filter (\<lambda>b. \<not> (joiner \<noteq> None \<and> new_mbox = b)) (mboxes g))
                  (finish_notice (sizeof_body (sess s)) h (head @ rest)) s) (\<lambda>s.
         if new_mbox = - 1 then Some (Inr s)
         else let off = mh_data_len h - (4 + int MAX_GROUP_NAME) - (sizeof_group_id + 2 * 4)
              in write_notice [new_mbox] (finish_notice (sizeof_body (sess s)) h (head @ put32 (word_of_int off) @ drop 4 rest)) s))"

definition G_send_heavyweight_memb :: "std_lib \<Rightarrow> group \<Rightarrow> groups_state \<Rightarrow> groups_state result option" where
  "G_send_heavyweight_memb L g s = G_send_heavyweight_join L g None (- 1) s"

definition G_build_trans_mess :: "int \<Rightarrow> group \<Rightarrow> scatter" where
  "G_build_trans_mess bs g =
     (let m = Message_create_message bs TRANSITION_MESS (g_name g);
          h = (Message_get_message_header m)\<lparr> mh_data_len := sizeof_group_id \<rparr>
      in case set_header h m of
           [] \<Rightarrow> []
         | e # es \<Rightarrow> e\<lparr> se_buf := write_at (nat sizeof_message_header) (put_group_id (grp_id g)) (se_buf e),
                        se_len := sizeof_message_header + sizeof_group_id \<rparr> # es)"

definition G_send_trans_memb :: "group \<Rightarrow> groups_state \<Rightarrow> groups_state result option" where
  "G_send_trans_memb g s = write_notice (mboxes g) (Inr (G_build_trans_mess (sizeof_body (sess s)) g)) s"

end
