(* ===== verification/Group_Clients.thy ===== *)
theory Group_Clients
  imports Group_Notices
begin

text \<open>
  The handlers of \<open>groups.c\<close> for the events of clients: joining a group, leaving it, and the end of a
  client's connection; and the targets of a message.
\<close>

section \<open>Removing\<close>

text \<open>The last mailbox takes the place of the one removed.\<close>

definition G_remove_mailbox :: "std_lib \<Rightarrow> int \<Rightarrow> group \<Rightarrow> group result" where
  "G_remove_mailbox L m g =
     (let i = find_index (\<lambda>b. b = m) (mboxes g)
      in guard_res (i < 0) (Alarm_exit ''G_remove_mailbox'')
           (Inr (g\<lparr> mboxes := arr_pop L ((mboxes g)[nat i := last (mboxes g)]) \<rparr>)))"

definition G_remove_daemon :: "std_lib \<Rightarrow> groups_state \<Rightarrow> daemon_members \<Rightarrow> group \<Rightarrow> group result" where
  "G_remove_daemon L s d g =
     guard_res (G_get_daemon L s g (dm_proc_id d) = None) (Alarm_exit ''G_remove_daemon'')
       (Inr (g\<lparr> DaemonsList := skl_erase (lib_daemons L) (cmp_daemons s) (DaemonsList g) (dm_proc_id d),
                g_num_members := g_num_members g - int (length (MembersList d)) \<rparr>))"

definition G_remove_group :: "std_lib \<Rightarrow> group \<Rightarrow> groups_state \<Rightarrow> groups_state result" where
  "G_remove_group L g s =
     guard_res (DaemonsList g \<noteq> [] \<or> mboxes g \<noteq> []) (Alarm_exit ''G_remove_group'')
       (guard_res (G_get_group L (g_name g) s = None) (Alarm_exit ''G_remove_group'')
          (Inr (s\<lparr> GroupsList := skl_erase (lib_groups L) G_compare_nameptr (GroupsList s) (g_name g),
                   Num_groups := Num_groups s - 1 \<rparr>)))"

section \<open>Joining\<close>

text \<open>The group and the daemon of a member, which are created when they do not exist.\<close>

definition new_group :: "string \<Rightarrow> membership_id \<Rightarrow> group" where
  "new_group n memb_id = \<lparr> g_name = n, grp_id = \<lparr> gid_memb_id = memb_id, gid_index = 0 \<rparr>, g_changed = False,
     g_num_members = 0, DaemonsList = [], mboxes = [] \<rparr>"

definition add_group :: "std_lib \<Rightarrow> group \<Rightarrow> groups_state \<Rightarrow> groups_state" where
  "add_group L g s = s\<lparr> GroupsList := skl_put (lib_groups L) G_compare_nameptr (GroupsList s) g, Num_groups := Num_groups s + 1 \<rparr>"

definition ensure_group :: "std_lib \<Rightarrow> string \<Rightarrow> groups_state \<Rightarrow> (group \<times> groups_state) result" where
  "ensure_group L n s =
     (case G_get_group L n s of
        Some g \<Rightarrow> Inr (g, s)
      | None \<Rightarrow>
          guard_res (MAX_GROUP_NAME \<le> length n) (Undefined ''G_handle_join'')
            (let g = new_group n (if Gstate s = GOP then gr_Reg_memb_id s else gr_Trans_memb_id s)
             in Inr (g, add_group L g s)))"

definition ensure_daemon :: "std_lib \<Rightarrow> groups_state \<Rightarrow> proc_id \<Rightarrow> group \<Rightarrow> daemon_members \<times> group" where
  "ensure_daemon L s i g =
     (case G_get_daemon L s g i of
        Some d \<Rightarrow> (d, g)
      | None \<Rightarrow>
          let d = \<lparr> dm_proc_id = i,
                    dm_memb_id = (if Gstate s = GOP \<or> Conf_id_in_conf (gr_Trans_memb s) i \<noteq> - 1 then gid_memb_id (grp_id g)
                                  else unknown_memb_id),
                    MembersList = [] \<rparr>
          in (d, g\<lparr> DaemonsList := skl_put (lib_daemons L) (cmp_daemons s) (DaemonsList g) d \<rparr>))"

abbreviation bump_index :: "group \<Rightarrow> group" where
  "bump_index g \<equiv> g\<lparr> grp_id := (grp_id g)\<lparr> gid_index := gid_index (grp_id g) + 1 \<rparr> \<rparr>"

text \<open>The notices after a change of a group by a client.\<close>

definition notify_change :: "std_lib \<Rightarrow> group \<Rightarrow> 32 word \<Rightarrow> string \<Rightarrow> string option \<Rightarrow> int \<Rightarrow> groups_state \<Rightarrow> groups_state result option" where
  "notify_change L g caused name joiner new_mbox s =
     (if mboxes g = [] then Some (Inr s)
      else if g_changed g then ro_bind (G_send_heavyweight_join L g joiner new_mbox s) (G_send_trans_memb g)
      else G_send_lightweight_memb g caused name s)"

text \<open>
  \<open>private_group_name\<close> is the array of the header. A name that cannot be taken apart leaves the
  names uninitialised.
\<close>

definition local_ses :: "string \<Rightarrow> sess_state \<Rightarrow> nat result option" where
  "local_ses private_name ss =
     (case Sess_get_session private_name (table ss) of
        None \<Rightarrow> None
      | Some ses \<Rightarrow> Some (guard_res (ses < 0) (Alarm_exit ''Sess_get_session'') (Inr (nat ses))))"

definition G_handle_join :: "std_lib \<Rightarrow> string \<Rightarrow> string \<Rightarrow> groups_state \<Rightarrow> groups_state result option" where
  "G_handle_join L private_group_name group_name s =
     (if Gstate s \<notin> {GOP, GTRANS} then Some (Inl (Alarm_exit ''G_handle_join''))
      else case G_private_to_names private_group_name of
        None \<Rightarrow> Some (Inl (Undefined ''G_handle_join''))
      | Some (private_name, proc_name) \<Rightarrow>
          (case Conf_proc_by_name_in_conf (gr_Config s) proc_name of
             None \<Rightarrow> Some (Inr s)
           | Some (_, new_p) \<Rightarrow>
               ro_bind (Some (ensure_group L group_name s)) (\<lambda>(g, s).
                 let (d, g) = ensure_daemon L s (pr_id new_p) g;
                     s = set_group g s
                 in if G_get_member L d (cstr private_group_name) \<noteq> None then Some (Inr s)
                    else let mbr = strncpy (cstr private_group_name) MAX_GROUP_NAME;
                             d = d\<lparr> MembersList := skl_put (lib_members L) G_compare_nameptr (MembersList d) mbr \<rparr>;
                             g = bump_index (set_daemon d g)\<lparr> g_num_members := g_num_members g + 1 \<rparr>
                         in ro_bind (if dm_proc_id d = pr_id (gr_My s) then ro_bind (local_ses private_name (sess s)) (\<lambda>ses. Some (Inr (s_mbox (ses_of (sess s) ses))))
                                     else Some (Inr (- 1)))
                              (\<lambda>new_mbox.
                                let g = (if dm_proc_id d = pr_id (gr_My s) then g\<lparr> mboxes := arr_push L (mboxes g) new_mbox \<rparr> else g);
                                    g = g\<lparr> g_changed := g_changed g \<or> Is_partitioned_daemon d \<rparr>
                                in notify_change L g CAUSED_BY_JOIN mbr (Some mbr) new_mbox (set_group g s)))))"

section \<open>Leaving\<close>

text \<open>
  What \<open>G_handle_leave\<close> and \<open>G_handle_kill\<close> do with a member that was found in the daemon \<open>d\<close> of the
  group \<open>g\<close>: it is taken out, with its daemon and its group when they are empty, and the others are
  told.
\<close>

definition extract_member :: "std_lib \<Rightarrow> 32 word \<Rightarrow> daemon_members \<Rightarrow> string \<Rightarrow> group \<Rightarrow> groups_state \<Rightarrow> groups_state result option" where
  "extract_member L caused d mbr g s =
     (let d = d\<lparr> MembersList := skl_erase (lib_members L) G_compare_nameptr (MembersList d) (cstr mbr) \<rparr>;
          g = (set_daemon d g)\<lparr> g_num_members := g_num_members g - 1 \<rparr>
      in ro_bind (Some (if MembersList d = [] then G_remove_daemon L s d g else Inr g)) (\<lambda>g.
           let s = set_group g s
           in if g_num_members g = 0 then Some (G_remove_group L g s)
              else let g = bump_index g
                   in notify_change L g caused mbr None (- 1) (set_group g s)))"

definition G_handle_leave :: "std_lib \<Rightarrow> string \<Rightarrow> string \<Rightarrow> groups_state \<Rightarrow> groups_state result option" where
  "G_handle_leave L private_group_name group_name s =
     (if Gstate s \<notin> {GOP, GTRANS} then Some (Inl (Alarm_exit ''G_handle_leave''))
      else case G_private_to_names private_group_name of
        None \<Rightarrow> Some (Inl (Undefined ''G_handle_leave''))
      | Some (private_name, proc_name) \<Rightarrow>
          (case Conf_proc_by_name_in_conf (gr_Config s) proc_name of
             None \<Rightarrow> Some (Inr s)
           | Some (_, p) \<Rightarrow>
               (case G_get_group L group_name s of
                  None \<Rightarrow> Some (Inr s)
                | Some g \<Rightarrow>
                    (case G_get_daemon L s g (pr_id p) of
                       None \<Rightarrow> Some (Inr s)
                     | Some d \<Rightarrow>
                         (case G_get_member L d (cstr private_group_name) of
                            None \<Rightarrow> Some (Inr s)
                          | Some mbr \<Rightarrow>
                              if pr_id p = pr_id (gr_My s) then
                                ro_bind (local_ses private_name (sess s)) (\<lambda>ses.
                                  ro_bind (G_send_self_leave g ses s) (\<lambda>s.
                                    ro_bind (Some (G_remove_mailbox L (s_mbox (ses_of (sess s) ses)) g)) (\<lambda>g.
                                      extract_member L CAUSED_BY_LEAVE d mbr g s)))
                              else extract_member L CAUSED_BY_LEAVE d mbr g s)))))"

section \<open>The end of a client\<close>

text \<open>The body of the loop over the groups; \<open>ses\<close> is the session of a local client, or \<open>- 1\<close>.\<close>

definition kill_in_group :: "std_lib \<Rightarrow> string \<Rightarrow> proc \<Rightarrow> int \<Rightarrow> string \<Rightarrow> groups_state \<Rightarrow> groups_state result option" where
  "kill_in_group L private_group_name p ses n s =
     (case cur_group n s of
        None \<Rightarrow> Some (Inr s)
      | Some g \<Rightarrow>
          (case G_get_daemon L s g (pr_id p) of
             None \<Rightarrow> Some (Inr s)
           | Some d \<Rightarrow>
               (case G_get_member L d (cstr private_group_name) of
                  None \<Rightarrow> Some (Inr s)
                | Some mbr \<Rightarrow>
                    if pr_id p = pr_id (gr_My s) then
                      if \<not> valid_ses ses (sess s) then Some (Inl (Undefined ''G_handle_kill''))
                      else ro_bind (Some (G_remove_mailbox L (s_mbox (ses_of (sess s) (nat ses))) g)) (\<lambda>g.
                             extract_member L CAUSED_BY_DISCONNECT d mbr g s)
                    else extract_member L CAUSED_BY_DISCONNECT d mbr g s)))"

text \<open>The iterator is advanced before a group can be erased, so the loop goes over the groups there were.\<close>

definition G_handle_kill :: "std_lib \<Rightarrow> string \<Rightarrow> groups_state \<Rightarrow> groups_state result option" where
  "G_handle_kill L private_group_name s =
     (if Gstate s \<notin> {GOP, GTRANS} then Some (Inl (Alarm_exit ''G_handle_kill''))
      else case G_private_to_names private_group_name of
        None \<Rightarrow> Some (Inl (Undefined ''G_handle_kill''))
      | Some (private_name, proc_name) \<Rightarrow>
          (case Conf_proc_by_name_in_conf (gr_Config s) proc_name of
             None \<Rightarrow> Some (Inr s)
           | Some (_, p) \<Rightarrow>
               (case (if pr_id p = pr_id (gr_My s) then Sess_get_session private_name (table (sess s)) else Some (- 1)) of
                  None \<Rightarrow> None
                | Some ses \<Rightarrow> ro_fold (kill_in_group L private_group_name p ses) (map g_name (GroupsList s)) s)))"

section \<open>The targets of a message\<close>

text \<open>
  \<open>G_analize_groups\<close>: the mailboxes behind one name, the collection of those behind all of them
  without repetition, and their sessions. A group is looked at only in the states in which its
  membership is known.
\<close>

definition target_mboxes :: "std_lib \<Rightarrow> groups_state \<Rightarrow> string \<Rightarrow> int list result option" where
  "target_mboxes L s n =
     (if take 1 n \<noteq> [CHR 0x23] then
        (case G_get_group L n s of
           None \<Rightarrow> Some (Inr [])
         | Some g \<Rightarrow> Some (guard_res (Gstate s \<notin> {GOP, GTRANS}) (Alarm_exit ''G_analize_groups'') (Inr (mboxes g))))
      else (case G_private_to_names (strncpy n MAX_GROUP_NAME) of
              None \<Rightarrow> Some (Inr [])
            | Some (private_name, proc_name) \<Rightarrow>
                if pr_name (gr_My s) \<noteq> proc_name then Some (Inr [])
                else (case Sess_get_session private_name (table (sess s)) of
                        None \<Rightarrow> None
                      | Some ses \<Rightarrow> Some (Inr (if ses < 0 then [] else [s_mbox (ses_of (sess s) (nat ses))])))))"

definition collect_mboxes :: "std_lib \<Rightarrow> groups_state \<Rightarrow> string list \<Rightarrow> int list result option" where
  "collect_mboxes L s ns =
     ro_fold (\<lambda>n acc. ro_bind (target_mboxes L s n) (\<lambda>lit. Some (Inr (acc @ filter (\<lambda>m. m \<notin> set acc) lit)))) ns []"

fun sessions_of :: "int list \<Rightarrow> sess_table \<Rightarrow> int list option" where
  "sessions_of [] t = Some []"
| "sessions_of (b # bs) t =
     (case Sess_get_session_index b t of
        None \<Rightarrow> None
      | Some i \<Rightarrow> map_option (\<lambda>is. i # is) (sessions_of bs t))"

definition G_analize_groups :: "std_lib \<Rightarrow> string list \<Rightarrow> groups_state \<Rightarrow> int list result option" where
  "G_analize_groups L ns s =
     ro_bind (collect_mboxes L s ns) (\<lambda>bs. map_option Inr (sessions_of bs (table (sess s))))"

end
