(* ===== verification/Group_Exchange.thy ===== *)
theory Group_Exchange
  imports Group_Clients
begin

text \<open>
  How \<open>groups.c\<close> follows the changes of the ring: the transitional and the regular memberships, and
  the GROUPS messages in which the daemons tell each other their groups afterwards. The daemons of
  a synced set know the same; its first daemon speaks for it.
\<close>

section \<open>Synced sets\<close>

text \<open>The merge of two sets sorted by the order of the configuration; they must not meet.\<close>

fun merge_synced :: "configuration \<Rightarrow> proc_id list \<Rightarrow> proc_id list \<Rightarrow> proc_id list result" where
  "merge_synced c [] [] = Inr []"
| "merge_synced c (x # xs) [] =
     guard_res (Conf_proc_ref_by_id_in_conf c x = - 1) (Alarm_exit ''G_add_to_synced_set'')
       (bind_res (merge_synced c xs []) (\<lambda>zs. Inr (x # zs)))"
| "merge_synced c [] (y # ys) =
     guard_res (Conf_proc_ref_by_id_in_conf c y = - 1) (Alarm_exit ''G_add_to_synced_set'')
       (bind_res (merge_synced c [] ys) (\<lambda>zs. Inr (y # zs)))"
| "merge_synced c (x # xs) (y # ys) =
     (let l = Conf_proc_ref_by_id_in_conf c x;
          r = Conf_proc_ref_by_id_in_conf c y
      in guard_res (l = - 1 \<or> r = - 1) (Alarm_exit ''G_add_to_synced_set'')
           (if l < r then bind_res (merge_synced c xs (y # ys)) (\<lambda>zs. Inr (x # zs))
            else if r < l then bind_res (merge_synced c (x # xs) ys) (\<lambda>zs. Inr (y # zs))
            else Inl (Alarm_exit ''G_add_to_synced_set'')))"

text \<open>The argument is uninitialised, \<open>None\<close>, when no first message was among those of a representative.\<close>

definition G_add_to_synced_set :: "proc_id list option \<Rightarrow> groups_state \<Rightarrow> groups_state result" where
  "G_add_to_synced_set sset s =
     (case sset of
        None \<Rightarrow> Inl (Undefined ''G_add_to_synced_set'')
      | Some ys \<Rightarrow>
          bind_res (merge_synced (gr_Config s) (MySyncedSet s) ys) (\<lambda>zs.
            guard_res (MAX_PROCS_RING < int (length zs)) (Undefined ''G_add_to_synced_set'')
              (Inr (s\<lparr> MySyncedSet := zs \<rparr>))))"

definition G_update_synced_set_status :: "configuration \<Rightarrow> proc_id list \<Rightarrow> proc_id list \<times> bool" where
  "G_update_synced_set_status membership ids =
     (let ids' = filter (\<lambda>i. Conf_id_in_conf membership i \<ge> 0) ids in (ids', length ids' \<noteq> length ids))"

text \<open>The first entry of an empty set is what the array still has there; it is taken not to be this daemon.\<close>

definition Is_synced_set_leader :: "proc_id \<Rightarrow> groups_state \<Rightarrow> bool" where
  "Is_synced_set_leader i s \<longleftrightarrow> (case MySyncedSet s of [] \<Rightarrow> False | x # _ \<Rightarrow> i = x)"

section \<open>Daemons and groups that are gone\<close>

definition G_eliminate_partitioned_daemons_status :: "std_lib \<Rightarrow> groups_state \<Rightarrow> group \<Rightarrow> (group \<times> bool) result" where
  "G_eliminate_partitioned_daemons_status L s g =
     fold_res (\<lambda>d (g, changed).
       if (if Gstate s = GGT then Conf_id_in_conf (gr_Trans_memb s) (dm_proc_id d) = - 1 else Is_partitioned_daemon d)
       then bind_res (G_remove_daemon L s d g) (\<lambda>g. Inr (g, True))
       else Inr (g, changed)) (DaemonsList g) (g, False)"

definition G_check_if_changed_by_cascade :: "groups_state \<Rightarrow> group \<Rightarrow> bool" where
  "G_check_if_changed_by_cascade s g \<longleftrightarrow>
     (\<exists>d \<in> set (DaemonsList g). Conf_id_in_conf (gr_Trans_memb s) (dm_proc_id d) = - 1)"

definition G_update_daemon_memb_ids :: "group \<Rightarrow> group" where
  "G_update_daemon_memb_ids g =
     g\<lparr> DaemonsList := map (\<lambda>d. if Is_partitioned_daemon d then d else d\<lparr> dm_memb_id := gid_memb_id (grp_id g) \<rparr>) (DaemonsList g) \<rparr>"

text \<open>A loop over the groups, whose body may erase the group it is at.\<close>

definition each_group :: "(group \<Rightarrow> groups_state \<Rightarrow> groups_state result option) \<Rightarrow> groups_state \<Rightarrow> groups_state result option" where
  "each_group f s =
     ro_fold (\<lambda>n s. case cur_group n s of None \<Rightarrow> Some (Inr s) | Some g \<Rightarrow> f g s) (map g_name (GroupsList s)) s"

abbreviation set_gid :: "membership_id \<Rightarrow> group \<Rightarrow> group" where
  "set_gid m g \<equiv> g\<lparr> grp_id := \<lparr> gid_memb_id = m, gid_index = 1 \<rparr> \<rparr>"

section \<open>The transitional membership\<close>

definition trans_group :: "group \<Rightarrow> groups_state \<Rightarrow> groups_state result option" where
  "trans_group g s =
     (let gone = (\<lambda>d. Conf_id_in_conf (gr_Trans_memb s) (dm_proc_id d) = - 1);
          g' = g\<lparr> DaemonsList := map (\<lambda>d. if gone d then d\<lparr> dm_memb_id := unknown_memb_id \<rparr> else d) (DaemonsList g) \<rparr>
      in if \<exists>d \<in> set (DaemonsList g). gone d
         then ro_bind (if mboxes g = [] then Some (Inr s) else G_send_trans_memb g' s) (\<lambda>s.
                Some (Inr (set_group (G_update_daemon_memb_ids ((set_gid (gr_Trans_memb_id s) g')\<lparr> g_changed := True \<rparr>)) s)))
         else Some (Inr s))"

definition G_handle_trans_memb :: "configuration \<Rightarrow> membership_id \<Rightarrow> groups_state \<Rightarrow> groups_state result option" where
  "G_handle_trans_memb trans_memb trans_memb_id s =
     (case Gstate s of
        GOP \<Rightarrow>
          ro_bind (each_group trans_group (s\<lparr> gr_Trans_memb := trans_memb, gr_Trans_memb_id := trans_memb_id \<rparr>)) (\<lambda>s.
            Some (Inr (s\<lparr> Gstate := GTRANS, MySyncedSet := fst (G_update_synced_set_status (gr_Trans_memb s) (MySyncedSet s)) \<rparr>)))
      | GGATHER \<Rightarrow>
          ro_bind (each_group (\<lambda>g s. Some (Inr (if G_check_if_changed_by_cascade s g then set_group (g\<lparr> g_changed := True \<rparr>) s else s)))
                     (s\<lparr> gr_Trans_memb := trans_memb, gr_Trans_memb_id := trans_memb_id \<rparr>)) (\<lambda>s.
            Some (Inr (s\<lparr> Gstate := GGT \<rparr>)))
      | _ \<Rightarrow> Some (Inl (Alarm_exit ''G_handle_trans_memb'')))"

section \<open>Writing GROUPS messages\<close>

definition put_int16u :: "16 word \<Rightarrow> byte list" where
  "put_int16u w = [ucast w, ucast (drop_bit 8 w)]"

definition put_memb_id :: "membership_id \<Rightarrow> byte list" where
  "put_memb_id m = put32 (m_proc_id m) @ put32 (word_of_int (m_time m))"

abbreviation (input) GROUPS_BUF_SIZE :: int where "GROUPS_BUF_SIZE \<equiv> 100000"
abbreviation (input) GROUPS_BUF_GROUP_INFO_SIZE :: int where "GROUPS_BUF_GROUP_INFO_SIZE \<equiv> int MAX_GROUP_NAME + 12 + 2 + 2"
abbreviation (input) GROUPS_BUF_DAEMON_INFO_SIZE :: int where "GROUPS_BUF_DAEMON_INFO_SIZE \<equiv> 4 + 8 + 2"

text \<open>
  The daemons of a group that fit behind \<open>n\<close> bytes: their number, their bytes, and those left. The
  identifier written for a daemon is the group's.
\<close>

definition put_daemon :: "membership_id \<Rightarrow> daemon_members \<Rightarrow> byte list" where
  "put_daemon m d = put32 (dm_proc_id d) @ put_memb_id m @ put_int16u (of_nat (length (MembersList d))) @ names_bytes (MembersList d)"

fun fit_daemons :: "int \<Rightarrow> membership_id \<Rightarrow> daemon_members list \<Rightarrow> nat \<times> byte list \<times> daemon_members list" where
  "fit_daemons n m [] = (0, [], [])"
| "fit_daemons n m (d # ds) =
     (if GROUPS_BUF_DAEMON_INFO_SIZE + int (length (MembersList d)) * int MAX_GROUP_NAME + sizeof_message_header > GROUPS_BUF_SIZE - n
      then (0, [], d # ds)
      else let b = put_daemon m d;
               (c, bs, rest) = fit_daemons (n + int (length b)) m ds
           in (Suc c, b @ bs, rest))"

text \<open>The groups that fit; the iterators are the groups left, and the daemons left of the first of them.\<close>

definition put_group_info :: "group \<Rightarrow> nat \<Rightarrow> byte list" where
  "put_group_info g c = bytes_of (strncpy (g_name g) MAX_GROUP_NAME) @ put_group_id (grp_id g) @
     put_int16u (if g_changed g then 1 else 0) @ put_int16u (of_nat c)"

fun fit_groups :: "int \<Rightarrow> group list \<Rightarrow> daemon_members list \<Rightarrow> byte list \<times> group list \<times> daemon_members list" where
  "fit_groups n [] dit = ([], [], dit)"
| "fit_groups n (g # gs) dit =
     (if GROUPS_BUF_GROUP_INFO_SIZE + sizeof_message_header > GROUPS_BUF_SIZE - n then ([], g # gs, dit)
      else case fit_daemons (n + GROUPS_BUF_GROUP_INFO_SIZE) (gid_memb_id (grp_id g)) dit of
             (c, ds, rest) \<Rightarrow>
               let b = put_group_info g c @ ds
               in if rest \<noteq> [] then (b, g # gs, rest)
                  else (case fit_groups (n + int (length b)) gs (case gs of [] \<Rightarrow> [] | g' # _ \<Rightarrow> DaemonsList g') of
                          (bs, git, dit) \<Rightarrow> (b @ bs, git, dit)))"

definition put_preamble :: "bool \<Rightarrow> groups_state \<Rightarrow> byte list" where
  "put_preamble first_time s = put_memb_id (gr_Reg_memb_id s) @ [if first_time then 1 else 0] @
     (if first_time then put32 (of_nat (length (MySyncedSet s))) @ concat (map put32 (MySyncedSet s)) else [])"

definition G_build_groups_buf ::
    "bool \<Rightarrow> group list \<Rightarrow> daemon_members list \<Rightarrow> groups_state \<Rightarrow> byte list \<times> group list \<times> daemon_members list" where
  "G_build_groups_buf first_time git dit s =
     (let pre = put_preamble first_time s;
          (b, git, dit) = fit_groups (int (length pre)) git dit
      in (pre @ b, git, dit))"

text \<open>
  The buffers, the newest first. A daemon with too many members for a buffer of its own makes the
  loop go on for ever.
\<close>

partial_function (option) build_bufs ::
    "bool \<Rightarrow> group list \<Rightarrow> daemon_members list \<Rightarrow> groups_state \<Rightarrow> byte list list \<Rightarrow> byte list list option" where
  "build_bufs first_time git dit s bufs =
     (case G_build_groups_buf first_time git dit s of
        (b, git, dit) \<Rightarrow> if git = [] then Some (b # bufs) else build_bufs False git dit s (b # bufs))"

definition G_build_new_groups_bufs :: "groups_state \<Rightarrow> groups_state result option" where
  "G_build_new_groups_bufs s =
     map_option (\<lambda>bufs. Inr (s\<lparr> Groups_bufs := bufs \<rparr>))
       (build_bufs True (GroupsList s) (case GroupsList s of [] \<Rightarrow> [] | g # _ \<Rightarrow> DaemonsList g) s (Groups_bufs s))"

definition G_stamp_groups_bufs :: "groups_state \<Rightarrow> groups_state" where
  "G_stamp_groups_bufs s = s\<lparr> Groups_bufs := map (write_at 0 (put_memb_id (gr_Reg_memb_id s))) (Groups_bufs s) \<rparr>"

definition G_build_groups_msg_hdr :: "groups_state \<Rightarrow> int \<Rightarrow> message_header" where
  "G_build_groups_msg_hdr s groups_bytes =
     \<lparr> mh_type = Set_endian GROUPS_MESS,
       mh_private_group_name = take (MAX_GROUP_NAME - 4) (strncpy (pr_name (gr_My s)) MAX_GROUP_NAME) @
         chars_of (put32 (of_nat (length (MySyncedSet s)))),
       mh_num_groups = 0, mh_hint = Set_endian 0, mh_data_len = groups_bytes \<rparr>"

definition groups_message :: "groups_state \<Rightarrow> bool \<Rightarrow> byte list \<Rightarrow> scatter result" where
  "groups_message s is_last b =
     (let h = G_build_groups_msg_hdr s (int (length b));
          h = h\<lparr> mh_type := mh_type h OR (if is_last then AGREED_MESS else RELIABLE_MESS) \<rparr>
      in Message_Buffer_to_Message_Fragments (sizeof_body (sess s)) (set_header h (Message_new_message (sizeof_body (sess s)))) b)"

fun send_bufs :: "byte list list \<Rightarrow> groups_state \<Rightarrow> groups_state result" where
  "send_bufs [] s = Inr s"
| "send_bufs (b # bs) s =
     bind_res (groups_message s (bs = []) b) (\<lambda>m.
       case Prot_Create_Down_Link m (Message_get_packet_type (mh_type (Message_get_message_header m))) of
         None \<Rightarrow> Inl (Undefined ''G_send_groups_messages'')
       | Some l \<Rightarrow> send_bufs bs (g_emit [Prot_new_message_call l] s))"

definition G_send_groups_messages :: "groups_state \<Rightarrow> groups_state result" where
  "G_send_groups_messages s = send_bufs (Groups_bufs s) s"

end
