(* ===== verification/Group_Gather.thy ===== *)
theory Group_Gather
  imports Group_Exchange Session_Accept
begin

text \<open>
  Reading the GROUPS messages of other synced sets (\<open>groups.c\<close>), the regular membership, and the
  delivery of messages by \<open>Sess_deliver_message\<close> of \<open>session.c\<close>, which is where messages for the
  groups come from.
\<close>

section \<open>Reading GROUPS messages\<close>

text \<open>
  A reader takes bytes from the front. The code does not check that they are there, and would
  go on with what an earlier message left in \<open>Temp_buf\<close>; that is \<open>Undefined\<close> here.
\<close>

definition take_bytes :: "nat \<Rightarrow> byte list \<Rightarrow> (byte list \<times> byte list) result" where
  "take_bytes n b = guard_res (length b < n) (Undefined ''G_mess_to_groups'') (Inr (take n b, drop n b))"

definition get_int16u :: "byte list \<Rightarrow> 16 word" where
  "get_int16u b = ucast (b ! 0) OR push_bit 8 (ucast (b ! 1))"

text \<open>\<open>same\<close> says whether the sender has this daemon's byte order.\<close>

definition rd32 :: "bool \<Rightarrow> byte list \<Rightarrow> 32 word" where
  "rd32 same b = (if same then get32 b else Flip_int32 (get32 b))"

definition rd16 :: "bool \<Rightarrow> byte list \<Rightarrow> nat" where
  "rd16 same b = unat (if same then get_int16u b else Flip_int16 (get_int16u b))"

definition get_memb_id :: "bool \<Rightarrow> byte list \<Rightarrow> membership_id" where
  "get_memb_id same b = \<lparr> m_proc_id = rd32 same (take 4 b), m_time = sint (rd32 same (take 4 (drop 4 b))) \<rparr>"

definition get_group_id :: "bool \<Rightarrow> byte list \<Rightarrow> group_id" where
  "get_group_id same b = \<lparr> gid_memb_id = get_memb_id same b, gid_index = sint (rd32 same (take 4 (drop 8 b))) \<rparr>"

text \<open>The members of a daemon, put into the list one by one.\<close>

fun read_members :: "std_lib \<Rightarrow> nat \<Rightarrow> byte list \<Rightarrow> string list \<Rightarrow> (string list \<times> byte list) result" where
  "read_members L 0 b ms = Inr (ms, b)"
| "read_members L (Suc j) b ms =
     bind_res (take_bytes MAX_GROUP_NAME b) (\<lambda>(n, b).
       read_members L j b (skl_put (lib_members L) G_compare_nameptr ms (chars_of n)))"

text \<open>A daemon is put into its group's list before its members are read.\<close>

fun read_daemons :: "std_lib \<Rightarrow> groups_state \<Rightarrow> bool \<Rightarrow> nat \<Rightarrow> byte list \<Rightarrow> group \<Rightarrow> (group \<times> byte list) result" where
  "read_daemons L s same 0 b g = Inr (g, b)"
| "read_daemons L s same (Suc j) b g =
     bind_res (take_bytes 14 b) (\<lambda>(h, b).
       let i = rd32 same (take 4 h);
           m = get_memb_id same (drop 4 h);
           num_memb = rd16 same (drop 12 h)
       in bind_res (read_members L num_memb b []) (\<lambda>(ms, b).
            read_daemons L s same j b
              (g\<lparr> DaemonsList := skl_put (lib_daemons L) (cmp_daemons s) (DaemonsList g)
                    \<lparr> dm_proc_id = i, dm_memb_id = m, MembersList = ms \<rparr>,
                  g_changed := g_changed g \<or> \<not> Memb_is_equal m (gid_memb_id (grp_id g)),
                  g_num_members := g_num_members g + int num_memb \<rparr>)))"

definition read_group_info :: "std_lib \<Rightarrow> bool \<Rightarrow> byte list \<Rightarrow> groups_state \<Rightarrow> (group \<times> groups_state) result" where
  "read_group_info L same b s =
     (let n = cstr (chars_of (take MAX_GROUP_NAME b))
      in case G_get_group L n s of
           Some g \<Rightarrow> Inr (g, s)
         | None \<Rightarrow>
             guard_res (MAX_GROUP_NAME \<le> length n) (Undefined ''G_mess_to_groups'')
               (let g = (new_group n unknown_memb_id)\<lparr> grp_id := get_group_id same (drop MAX_GROUP_NAME b) \<rparr>
                in Inr (g, add_group L g s)))"

function read_groups :: "std_lib \<Rightarrow> bool \<Rightarrow> byte list \<Rightarrow> groups_state \<Rightarrow> groups_state result" where
  "read_groups L same b s =
     (if b = [] then Inr s
      else (case take_bytes 48 b of
              Inl e \<Rightarrow> Inl e
            | Inr (h, b') \<Rightarrow>
                (case read_group_info L same h s of
                   Inl e \<Rightarrow> Inl e
                 | Inr (g, s) \<Rightarrow>
                     (case read_daemons L s same (rd16 same (drop 46 h)) b'
                             (g\<lparr> g_changed := g_changed g \<or> get_int16u (drop 44 h) \<noteq> 0 \<rparr>) of
                        Inl e \<Rightarrow> Inl e
                      | Inr (g, b'') \<Rightarrow> if length b \<le> length b'' then Inl (Undefined ''G_mess_to_groups'')
                                       else read_groups L same b'' (set_group g s)))))"
  by pat_completeness auto
termination
  by (relation "measure (\<lambda>(L, same, b, s). length b)") auto

declare read_groups.simps [simp del]

text \<open>The synced set of a first message; \<open>Temp_buf\<close> has 100000 bytes, a synced set 128 entries.\<close>

definition read_synced :: "bool \<Rightarrow> byte list \<Rightarrow> (proc_id list \<times> byte list) result" where
  "read_synced same b =
     bind_res (take_bytes 4 b) (\<lambda>(h, b).
       let n = unat (rd32 same h)
       in guard_res (128 < n) (Undefined ''G_mess_to_groups'')
            (bind_res (take_bytes (4 * n) b) (\<lambda>(x, b).
               Inr (map (\<lambda>i. rd32 same (take 4 (drop (4 * i) x))) [0..<n], b))))"

definition G_mess_to_groups :: "std_lib \<Rightarrow> scatter \<Rightarrow> proc_id list option \<Rightarrow> groups_state \<Rightarrow> (proc_id list option \<times> groups_state) result" where
  "G_mess_to_groups L m sset s =
     (let b = message_bytes m;
          same = Same_endian (mh_type (Message_get_message_header m))
      in guard_res (100000 < length b) (Undefined ''G_mess_to_groups'')
           (bind_res (take_bytes 57 b) (\<lambda>(h, b).
              bind_res (if h ! 56 = 1 then map_sum id (\<lambda>(x, b). (Some x, b)) (read_synced same b) else Inr (sset, b)) (\<lambda>(sset, b).
                bind_res (read_groups L same b s) (\<lambda>s. Inr (sset, s))))))"

text \<open>The messages of one representative. The synced set is a variable that keeps its value from one to the next.\<close>

definition read_link :: "std_lib \<Rightarrow> groups_message_link \<Rightarrow> proc_id list option \<times> groups_state \<Rightarrow> (proc_id list option \<times> groups_state) result" where
  "read_link L l x =
     bind_res (fold_res (\<lambda>m (sset, s). G_mess_to_groups L m sset s) (gm_messages l) x) (\<lambda>(sset, s).
       bind_res (G_add_to_synced_set sset s) (\<lambda>s. Inr (sset, s)))"

section \<open>The end of the exchange\<close>

definition G_shift_to_GOP :: "groups_state \<Rightarrow> groups_state" where
  "G_shift_to_GOP s = g_emit [Set_delivery_threshold UNRELIABLE_TYPE] (s\<lparr> Gstate := GOP \<rparr>)"

definition set_threshold :: "int \<Rightarrow> groups_state \<Rightarrow> groups_state" where
  "set_threshold t s = s\<lparr> sess := Sess_set_active_threshold ((sess s)\<lparr> Session_threshold := t \<rparr>) \<rparr>"

definition notify_network :: "std_lib \<Rightarrow> group \<Rightarrow> groups_state \<Rightarrow> groups_state result option" where
  "notify_network L g s =
     (if \<not> g_changed g then Some (Inr s)
      else let g = (set_gid (gr_Reg_memb_id s) g)\<lparr> g_changed := False \<rparr>
           in ro_bind (if mboxes g = [] then Some (Inr s) else G_send_heavyweight_memb L g s) (\<lambda>s.
                Some (Inr (set_group (G_update_daemon_memb_ids g) s))))"

definition G_compute_and_notify :: "std_lib \<Rightarrow> groups_state \<Rightarrow> groups_state result option" where
  "G_compute_and_notify L s =
     ro_bind (Some (fold_res (read_link L) (Gathered s) (None, s))) (\<lambda>(_, s).
       ro_bind (each_group (notify_network L) (s\<lparr> Gathered := [] \<rparr>)) (\<lambda>s.
         Some (Inr (s\<lparr> Gathered_complete := False, Num_mess_gathered := 0, Num_daemons_gathered := 0,
           Groups_bufs := [], Groups_bufs_fresh := False \<rparr>))))"

text \<open>The message goes to the front of the list of its representative's messages.\<close>

definition gather_message :: "proc_id \<Rightarrow> scatter \<Rightarrow> bool \<Rightarrow> groups_message_link list \<Rightarrow> groups_message_link list" where
  "gather_message i m is_last ls =
     (if i \<in> set (map gm_rep_proc_id ls)
      then map (\<lambda>l. if gm_rep_proc_id l = i then l\<lparr> gm_messages := m # gm_messages l, gm_complete := gm_complete l \<or> is_last \<rparr> else l) ls
      else \<lparr> gm_rep_proc_id = i, gm_complete = is_last, gm_messages = [m] \<rparr> # ls)"

definition finish_gather :: "std_lib \<Rightarrow> groups_state \<Rightarrow> groups_state result option" where
  "finish_gather L s =
     (if Num_daemons_gathered s \<noteq> Conf_num_procs (gr_Reg_memb s) then Some (Inr s)
      else ro_bind (G_compute_and_notify L (set_threshold LOW_PRIORITY (g_emit [Set_down_queue NORMAL_DOWNQUEUE] s))) (\<lambda>s.
             if Gstate s = GGATHER then Some (Inr (G_shift_to_GOP s))
             else G_handle_trans_memb (gr_Trans_memb s) (gr_Trans_memb_id s) (G_shift_to_GOP s)))"

definition G_handle_groups :: "std_lib \<Rightarrow> scatter \<Rightarrow> groups_state \<Rightarrow> groups_state result option" where
  "G_handle_groups L m s =
     (if Gstate s \<notin> {GGATHER, GGT} then Some (Inl (Alarm_exit ''G_handle_groups''))
      else let h = Message_get_message_header m;
               same = Same_endian (mh_type h);
               memb_id = get_memb_id same (drop (nat sizeof_message_header) (se_buf (hd m)))
           in if \<not> Memb_is_equal memb_id (gr_Reg_memb_id s) then Some (Inr s)
              else case Conf_proc_by_name_in_conf (gr_Config s) (cstr (mh_private_group_name h)) of
                None \<Rightarrow> Some (Inr s)
              | Some (_, p) \<Rightarrow>
                  let agreed = has_mess (mh_type h) AGREED_MESS;
                      num = rd32 same (bytes_of (drop (MAX_GROUP_NAME - 4) (mh_private_group_name h)));
                      s = (if Is_synced_set_leader (pr_id p) s then s\<lparr> Gathered_complete := Gathered_complete s \<or> agreed \<rparr>
                           else s\<lparr> Gathered := gather_message (pr_id p) m agreed (Gathered s) \<rparr>);
                      s = s\<lparr> Num_mess_gathered := Num_mess_gathered s + 1,
                             Num_daemons_gathered := Num_daemons_gathered s + (if agreed then sint num else 0) \<rparr>
                  in finish_gather L s)"

section \<open>The regular membership\<close>

definition drop_partitioned :: "std_lib \<Rightarrow> group \<Rightarrow> groups_state \<Rightarrow> groups_state result option" where
  "drop_partitioned L g s =
     (if \<not> g_changed g then Some (Inr s)
      else ro_bind (Some (G_eliminate_partitioned_daemons_status L s g)) (\<lambda>(g, _).
             if g_num_members g = 0 then Some (G_remove_group L g (set_group g s)) else Some (Inr (set_group g s))))"

definition reg_subtract :: "std_lib \<Rightarrow> group \<Rightarrow> groups_state \<Rightarrow> groups_state result option" where
  "reg_subtract L g s =
     (if \<not> g_changed g then Some (Inr s)
      else ro_bind (Some (G_eliminate_partitioned_daemons_status L s g)) (\<lambda>(g, _).
             if g_num_members g = 0 then Some (G_remove_group L g (set_group g s))
             else let g = G_update_daemon_memb_ids ((set_gid (gr_Reg_memb_id s) g)\<lparr> g_changed := False \<rparr>);
                      s = set_group g s
                  in if mboxes g = [] then Some (Inr s) else G_send_heavyweight_memb L g s))"

definition reg_cascade :: "std_lib \<Rightarrow> group \<Rightarrow> groups_state \<Rightarrow> groups_state result option" where
  "reg_cascade L g s =
     ro_bind (Some (G_eliminate_partitioned_daemons_status L s g)) (\<lambda>(g, changed).
       if \<not> changed then Some (Inr (set_group g s))
       else let s = s\<lparr> Groups_bufs_fresh := False \<rparr>
            in if g_num_members g = 0 then Some (G_remove_group L g (set_group g s))
               else Some (Inr (set_group (g\<lparr> g_changed := True \<rparr>) s)))"

definition send_new_bufs :: "groups_state \<Rightarrow> groups_state result option" where
  "send_new_bufs s =
     ro_bind (G_build_new_groups_bufs s) (\<lambda>s. Some (G_send_groups_messages (s\<lparr> Groups_bufs_fresh := True \<rparr>)))"

text \<open>What was gathered before a cascading change is used when all of it is there.\<close>

definition read_gathered :: "std_lib \<Rightarrow> groups_state \<Rightarrow> groups_state result" where
  "read_gathered L s =
     (let complete = (\<lambda>l. Gathered_complete s \<and> gm_complete l)
      in bind_res (fold_res (\<lambda>l x. if complete l then read_link L l x else Inr x) (Gathered s) (None, s)) (\<lambda>(_, s').
           Inr (s'\<lparr> Gathered := [],
                    Groups_bufs_fresh := Groups_bufs_fresh s \<and> \<not> (\<exists>l \<in> set (Gathered s). complete l \<and> gm_messages l \<noteq> []) \<rparr>)))"

definition G_handle_reg_memb :: "std_lib \<Rightarrow> configuration \<Rightarrow> membership_id \<Rightarrow> groups_state \<Rightarrow> groups_state result option" where
  "G_handle_reg_memb L reg_memb reg_memb_id s =
     (let s' = s\<lparr> gr_Reg_memb := reg_memb, gr_Reg_memb_id := reg_memb_id \<rparr>
      in case Gstate s of
           GTRANS \<Rightarrow>
             if Conf_num_procs (gr_Trans_memb s) = Conf_num_procs reg_memb
             then ro_bind (each_group (reg_subtract L) s') (\<lambda>s. Some (Inr (G_shift_to_GOP s)))
             else ro_bind (each_group (drop_partitioned L) s') (\<lambda>s.
                    let s = g_emit [Set_down_queue GROUPS_DOWNQUEUE, Set_delivery_threshold AGREED_TYPE] (set_threshold MEDIUM_LEVEL s)
                    in ro_bind (if Is_synced_set_leader (pr_id (gr_My s)) s then send_new_bufs s else Some (Inr s)) (\<lambda>s.
                         Some (Inr (s\<lparr> Gstate := GGATHER \<rparr>))))
         | GGT \<Rightarrow>
             ro_bind (Some (read_gathered L s')) (\<lambda>s.
               ro_bind (each_group (reg_cascade L) s) (\<lambda>s.
                 let (ids, changed) = G_update_synced_set_status (gr_Trans_memb s) (MySyncedSet s);
                     s = s\<lparr> MySyncedSet := ids, Groups_bufs_fresh := Groups_bufs_fresh s \<and> \<not> changed,
                            Gathered_complete := False, Num_mess_gathered := 0, Num_daemons_gathered := 0 \<rparr>
                 in ro_bind (if \<not> Is_synced_set_leader (pr_id (gr_My s)) s then Some (Inr s)
                             else if Groups_bufs_fresh s then Some (G_send_groups_messages (G_stamp_groups_bufs s))
                             else send_new_bufs (s\<lparr> Groups_bufs := [] \<rparr>)) (\<lambda>s.
                      Some (Inr (s\<lparr> Gstate := GGATHER \<rparr>)))))
         | _ \<Rightarrow> Some (Inl (Alarm_exit ''G_handle_reg_memb'')))"

section \<open>Start and reload\<close>

definition G_init :: "groups_state \<Rightarrow> groups_state result" where
  "G_init s =
     bind_res (Conf_config_copy (gr_Config s)) (\<lambda>c.
       Inr (G_shift_to_GOP (s\<lparr> Num_groups := 0, MySyncedSet := [pr_id (gr_My s)], GroupsList := [], Groups_bufs := [],
         Groups_bufs_fresh := False, Num_mess_gathered := 0, Num_daemons_gathered := 0, Gathered_complete := False,
         Gathered := [], Cn_active := c \<rparr>)))"

text \<open>
  The daemons of every group are put into a list with the new order, then that list's elements into
  the group's new list. \<open>Config\<close> has been loaded anew before.
\<close>

definition G_signal_conf_reload :: "std_lib \<Rightarrow> groups_state \<Rightarrow> groups_state result" where
  "G_signal_conf_reload L s =
     (let resort = (\<lambda>c ds. fold (\<lambda>d ts. skl_put (lib_daemons L) (G_compare_proc_ids_by_conf_internal c) ts d) ds []);
          interim = map (\<lambda>g. resort (gr_Config s) (DaemonsList g)) (GroupsList s)
      in bind_res (Conf_config_copy (gr_Config s)) (\<lambda>c.
           Inr (s\<lparr> Cn_active := c,
                   GroupsList := map (\<lambda>(g, ds). g\<lparr> DaemonsList := resort c ds \<rparr>) (zip (GroupsList s) interim) \<rparr>)))"

section \<open>Delivery to the sessions\<close>

definition lift_sess :: "sess_state result option \<Rightarrow> groups_state \<Rightarrow> groups_state result option" where
  "lift_sess r s = ro_bind r (\<lambda>ss. Some (Inr (s\<lparr> sess := ss \<rparr>)))"

definition Sess_handle_kill :: "std_lib \<Rightarrow> scatter \<Rightarrow> groups_state \<Rightarrow> groups_state result option" where
  "Sess_handle_kill L m s =
     (let pg = mh_private_group_name (Message_get_message_header m)
      in case G_private_to_names pg of
           None \<Rightarrow> Some (Inl (Alarm_exit ''Sess_handle_kill''))
         | Some (private_name, proc_name) \<Rightarrow>
             ro_bind (G_handle_kill L pg s) (\<lambda>s. lift_sess (Sess_end_session private_name proc_name (sess s)) s))"

definition deliver_regular :: "std_lib \<Rightarrow> scatter \<Rightarrow> groups_state \<Rightarrow> groups_state result option" where
  "deliver_regular L m s =
     (let h = Message_get_message_header m;
          h = h\<lparr> mh_type := Set_endian (mh_type h) \<rparr>;
          m = set_header h m
      in ro_bind (if has_mess (mh_type h) REJECT_MESS
                  then (case G_private_to_names (mh_private_group_name h) of
                          None \<Rightarrow> Some (Inl (Undefined ''Sess_deliver_message''))
                        | Some (private_name, _) \<Rightarrow> map_option (\<lambda>i. Inr [i]) (Sess_get_session private_name (table (sess s))))
                  else ro_bind (Some (Message_get_groups_array m)) (\<lambda>b. G_analize_groups L (groups_of b (mh_num_groups h)) s)) (\<lambda>targets.
           lift_sess (deliver_to m targets (sess s)) s))"

definition Sess_deliver_message :: "std_lib \<Rightarrow> scatter \<Rightarrow> groups_state \<Rightarrow> groups_state result option" where
  "Sess_deliver_message L m s =
     (let m = Message_endian_correct_message_header m;
          h = Message_get_message_header m;
          t = mh_type h
      in if has_mess t JOIN_MESS then
           ro_bind (Some (Message_get_first_group m)) (\<lambda>g. G_handle_join L (mh_private_group_name h) g s)
         else if has_mess t LEAVE_MESS then
           ro_bind (Some (Message_get_first_group m)) (\<lambda>g. G_handle_leave L (mh_private_group_name h) g s)
         else if has_mess t KILL_MESS then Sess_handle_kill L m s
         else if has_mess t GROUPS_MESS then G_handle_groups L m s
         else deliver_regular L m s)"

end
