(* ===== verification/Group_Order.thy ===== *)
theory Group_Order
  imports Group_Gather
begin

text \<open>
  The orders of \<open>groups.c\<close> are orders, and what follows for the containers from what the library
  promises: finding, adding and removing an element of a sorted list by its key.
\<close>

section \<open>Orders\<close>

lemma cmp_okD:
  assumes "cmp_ok cmp"
  shows "cmp a a = 0" and "cmp a b < 0 \<longleftrightarrow> 0 < cmp b a" and "cmp a b < 0 \<Longrightarrow> cmp b c < 0 \<Longrightarrow> cmp a c < 0"
    and "cmp a b = 0 \<Longrightarrow> cmp a c = cmp b c" and "cmp a b = 0 \<longleftrightarrow> cmp b a = 0"
proof -
  show "cmp a a = 0" and n: "cmp a b < 0 \<longleftrightarrow> 0 < cmp b a" and "cmp a b < 0 \<Longrightarrow> cmp b c < 0 \<Longrightarrow> cmp a c < 0"
    and "cmp a b = 0 \<Longrightarrow> cmp a c = cmp b c"
    using assms unfolding cmp_ok_def by blast+
  have "cmp b a < 0 \<longleftrightarrow> 0 < cmp a b" using assms unfolding cmp_ok_def by blast
  with n show "cmp a b = 0 \<longleftrightarrow> cmp b a = 0" by linarith
qed

lemma cmp_ok_strncmp: "cmp_ok (strncmp n)"
  by (auto simp: cmp_ok_def strncmp_def split: if_splits)

lemma cmp_ok_nameptr [simp]: "cmp_ok G_compare_nameptr"
proof -
  have "G_compare_nameptr = strncmp 32" by (simp add: fun_eq_iff G_compare_nameptr_def)
  then show ?thesis using cmp_ok_strncmp [of 32] by (simp only:)
qed

lemma nameptr_0 [simp]: "length a < 32 \<Longrightarrow> length b < 32 \<Longrightarrow> G_compare_nameptr a b = 0 \<longleftrightarrow> a = b"
  by (auto simp: G_compare_nameptr_def strncmp_def)

text \<open>The order of daemons is that of these numbers.\<close>

definition conf_rank :: "configuration \<Rightarrow> proc_id \<Rightarrow> int" where
  "conf_rank c i = (let r = Conf_proc_ref_by_id_in_conf c i in if r < 0 then int (length (allprocs c)) + uint i else r)"

lemma Conf_ref_cases:
  "Conf_proc_ref_by_id_in_conf c i = - 1 \<or>
   (0 \<le> Conf_proc_ref_by_id_in_conf c i \<and> Conf_proc_ref_by_id_in_conf c i < int (length (allprocs c)) \<and>
    pr_id (allprocs c ! nat (Conf_proc_ref_by_id_in_conf c i)) = i)"
  using find_index_range [of "\<lambda>p. pr_id p = i" "allprocs c"] find_index_sound(2) [of "\<lambda>p. pr_id p = i" "allprocs c"]
  by (auto simp: Conf_proc_ref_by_id_in_conf_def simp del: find_index_ge)

lemma Conf_ref_range:
  "Conf_proc_ref_by_id_in_conf c i = - 1 \<or> 0 \<le> Conf_proc_ref_by_id_in_conf c i \<and> Conf_proc_ref_by_id_in_conf c i < int (length (allprocs c))"
  using Conf_ref_cases [of c i] by blast

lemma conf_rank_inj: "conf_rank c a = conf_rank c b \<longleftrightarrow> a = b"
proof
  assume eq: "conf_rank c a = conf_rank c b"
  have out: "int (length (allprocs c)) \<le> int (length (allprocs c)) + uint i" for i :: proc_id by simp
  show "a = b"
  proof (cases "Conf_proc_ref_by_id_in_conf c a < 0 \<longleftrightarrow> Conf_proc_ref_by_id_in_conf c b < 0")
    case True
    show ?thesis
    proof (cases "Conf_proc_ref_by_id_in_conf c a < 0")
      case n: True
      then have "uint a = uint b" using eq True unfolding conf_rank_def Let_def by simp
      then show ?thesis by (rule word_uint_eqI)
    next
      case n: False
      then have r: "Conf_proc_ref_by_id_in_conf c a = Conf_proc_ref_by_id_in_conf c b"
        using eq True unfolding conf_rank_def Let_def by simp
      have id: "pr_id (allprocs c ! nat (Conf_proc_ref_by_id_in_conf c i)) = i" if "\<not> Conf_proc_ref_by_id_in_conf c i < 0" for i
        using Conf_ref_cases [of c i] that by (metis neg_less_0_iff_less zero_less_one)
      have "a = pr_id (allprocs c ! nat (Conf_proc_ref_by_id_in_conf c b))" unfolding r [symmetric] by (rule id [OF n, symmetric])
      also have "\<dots> = b" by (rule id) (use n r in metis)
      finally show ?thesis .
    qed
  next
    case False
    have "conf_rank c i < int (length (allprocs c)) \<longleftrightarrow> \<not> Conf_proc_ref_by_id_in_conf c i < 0" for i
      using Conf_ref_range [of c i] out [of i] unfolding conf_rank_def Let_def by (simp split: if_split) linarith
    then show ?thesis using False eq by metis
  qed
qed simp

lemma cmp_daemons_rank:
  "G_compare_proc_ids_by_conf_internal c a b < 0 \<longleftrightarrow> conf_rank c a < conf_rank c b"
  "0 < G_compare_proc_ids_by_conf_internal c a b \<longleftrightarrow> conf_rank c b < conf_rank c a"
  "G_compare_proc_ids_by_conf_internal c a b = 0 \<longleftrightarrow> a = b"
proof -
  obtain x y where xy: "uint a = x" "uint b = y" "0 \<le> x" "0 \<le> y" by simp
  define l r where "l = Conf_proc_ref_by_id_in_conf c a" and "r = Conf_proc_ref_by_id_in_conf c b"
  have lr: "l = - 1 \<or> 0 \<le> l \<and> l < int (length (allprocs c))" "r = - 1 \<or> 0 \<le> r \<and> r < int (length (allprocs c))"
    unfolding l_def r_def by (rule Conf_ref_range)+
  have eq: "a = b \<longleftrightarrow> x = y" and less: "a < b \<longleftrightarrow> x < y" using xy by (auto simp: word_less_def intro: word_uint_eqI)
  show l: "G_compare_proc_ids_by_conf_internal c a b < 0 \<longleftrightarrow> conf_rank c a < conf_rank c b"
    unfolding G_compare_proc_ids_by_conf_internal_def conf_rank_def Let_def l_def [symmetric] r_def [symmetric] eq less xy(1,2)
    using lr xy(3,4) by auto
  show g: "0 < G_compare_proc_ids_by_conf_internal c a b \<longleftrightarrow> conf_rank c b < conf_rank c a"
    unfolding G_compare_proc_ids_by_conf_internal_def conf_rank_def Let_def l_def [symmetric] r_def [symmetric] eq less xy(1,2)
    using lr xy(3,4) by auto
  show "G_compare_proc_ids_by_conf_internal c a b = 0 \<longleftrightarrow> a = b"
    using l g conf_rank_inj [of c a b] by (metis less_irrefl linorder_cases)
qed

lemma cmp_ok_daemons [simp]: "cmp_ok (G_compare_proc_ids_by_conf_internal c)"
proof -
  have "G_compare_proc_ids_by_conf_internal c a b = 0 \<Longrightarrow>
      G_compare_proc_ids_by_conf_internal c a d = G_compare_proc_ids_by_conf_internal c b d" for a b d
    by (simp add: cmp_daemons_rank(3))
  then show ?thesis by (auto simp: cmp_ok_def cmp_daemons_rank(1,2) cmp_daemons_rank(3) [of c a a for a])
qed

section \<open>Sorted lists\<close>

lemma skl_okD:
  assumes "skl_ok key ops" and "cmp_ok cmp" and "skl_sorted key cmp xs"
  shows "skl_find ops cmp xs k = find (\<lambda>x. cmp (key x) k = 0) xs"
    and "skl_erase ops cmp xs k = filter (\<lambda>x. cmp (key x) k \<noteq> 0) xs"
    and "(\<And>x. x \<in> set xs \<Longrightarrow> cmp (key x) (key e) \<noteq> 0) \<Longrightarrow>
      skl_put ops cmp xs e = filter (\<lambda>x. cmp (key x) (key e) < 0) xs @ e # filter (\<lambda>x. 0 < cmp (key x) (key e)) xs"
  using assms unfolding skl_ok_def by blast+

lemma skl_sorted_filter: "skl_sorted key cmp xs \<Longrightarrow> skl_sorted key cmp (filter P xs)"
  by (simp add: skl_sorted_def sorted_wrt_filter)

lemma skl_sorted_map:
  "(\<And>x. x \<in> set xs \<Longrightarrow> key (f x) = key x) \<Longrightarrow> skl_sorted key cmp (map f xs) = skl_sorted key cmp xs"
  unfolding skl_sorted_def sorted_wrt_map by (induction xs) auto

lemma skl_sorted_distinct:
  assumes "cmp_ok cmp" and "skl_sorted key cmp xs"
  shows "distinct (map key xs)"
proof -
  have "sorted_wrt (\<lambda>a b. cmp a b < 0) (map key xs)" using assms(2) by (simp add: skl_sorted_def sorted_wrt_map)
  then show ?thesis
  proof (induction "map key xs" arbitrary: xs)
    case (Cons k ks)
    then show ?case using cmp_okD(1) [OF assms(1), of k] by (cases xs) auto
  qed simp
qed

lemma skl_put_sorted:
  assumes c: "cmp_ok cmp" and s: "skl_sorted key cmp xs"
  shows "skl_sorted key cmp (filter (\<lambda>x. cmp (key x) (key e) < 0) xs @ e # filter (\<lambda>x. 0 < cmp (key x) (key e)) xs)"
proof -
  have "cmp (key x) (key y) < 0" if "cmp (key x) (key e) < 0" "0 < cmp (key y) (key e)" for x y
    using cmp_okD(2) [OF c, of "key e" "key y"] cmp_okD(3) [OF c, of "key x" "key e" "key y"] that by simp
  then show ?thesis
    using s cmp_okD(2) [OF c] by (auto simp: skl_sorted_def sorted_wrt_append sorted_wrt_filter)
qed

lemma skl_put_mset:
  fixes cmp :: "'k \<Rightarrow> 'k \<Rightarrow> int"
  assumes "\<And>x. x \<in> set xs \<Longrightarrow> cmp (key x) (key e) \<noteq> 0"
  shows "mset (filter (\<lambda>x. cmp (key x) (key e) < 0) xs @ e # filter (\<lambda>x. 0 < cmp (key x) (key e)) xs) = add_mset e (mset xs)"
  using assms
proof (induction xs)
  case (Cons x xs)
  have "cmp (key x) (key e) \<noteq> 0" using Cons.prems by simp
  then have "cmp (key x) (key e) < 0 \<or> 0 < cmp (key x) (key e)" by linarith
  then show ?case using Cons by auto
qed simp

text \<open>Adding an element whose key is new, as a whole.\<close>

lemma skl_put_new:
  assumes "skl_ok key ops" and "cmp_ok cmp" and "skl_sorted key cmp xs" and "\<And>x. x \<in> set xs \<Longrightarrow> cmp (key x) (key e) \<noteq> 0"
  shows "skl_sorted key cmp (skl_put ops cmp xs e)" and "mset (skl_put ops cmp xs e) = add_mset e (mset xs)"
    and "set (skl_put ops cmp xs e) = insert e (set xs)"
proof -
  have p: "skl_put ops cmp xs e = filter (\<lambda>x. cmp (key x) (key e) < 0) xs @ e # filter (\<lambda>x. 0 < cmp (key x) (key e)) xs"
    using skl_okD(3) [OF assms(1-3)] assms(4) by blast
  show "skl_sorted key cmp (skl_put ops cmp xs e)" unfolding p by (rule skl_put_sorted [OF assms(2,3)])
  show m: "mset (skl_put ops cmp xs e) = add_mset e (mset xs)" unfolding p using assms(4) by (rule skl_put_mset)
  show "set (skl_put ops cmp xs e) = insert e (set xs)" using arg_cong [OF m, of set_mset] by simp
qed

lemma find_Some_iff':
  assumes "distinct (map key xs)"
  shows "find (\<lambda>x. key x = k) xs = Some e \<longleftrightarrow> e \<in> set xs \<and> key e = k"
  using assms by (induction xs) (auto simp: image_iff)

end
