(* ===== verification/Group_Buffers.thy ===== *)
theory Group_Buffers
  imports Group_Order Session_Framing
begin

text \<open>
  When the loop that builds the GROUPS messages ends: every buffer after the first has room for a
  daemon with fewer than \<open>MAX_LOCAL_GROUP_MEMBERS\<close> members, and none has room for one with as many.
\<close>

section \<open>Sizes\<close>

lemma length_names_bytes [simp]: "length (names_bytes ns) = 32 * length ns"
  by (induction ns) (simp_all add: names_bytes_def bytes_of_def strncpy_def)

lemma length_put_int16u [simp]: "length (put_int16u w) = 2"
  by (simp add: put_int16u_def)

lemma length_put_memb_id [simp]: "length (put_memb_id m) = 8"
  by (simp add: put_memb_id_def)

lemma length_put_group_id [simp]: "length (put_group_id g) = 12"
  by (simp add: put_group_id_def)

lemma length_put_daemon [simp]: "length (put_daemon m d) = 14 + 32 * length (MembersList d)"
  by (simp add: put_daemon_def)

lemma length_put_group_info [simp]: "length (put_group_info g c) = 48"
  by (simp add: put_group_info_def strncpy_def bytes_of_def)

lemma length_put_preamble: "9 \<le> length (put_preamble first_time s)" "length (put_preamble False s) = 9"
  by (simp_all add: put_preamble_def)

definition big :: "daemon_members \<Rightarrow> bool" where
  "big d \<longleftrightarrow> MAX_LOCAL_GROUP_MEMBERS \<le> int (length (MembersList d))"

lemma big_iff: "big d \<longleftrightarrow> 3122 \<le> length (MembersList d)"
proof -
  have "MAX_LOCAL_GROUP_MEMBERS = 3122" by (simp add: MAX_LOCAL_GROUP_MEMBERS_def)
  then show ?thesis unfolding big_def by linarith
qed

section \<open>A daemon that does not fit\<close>

text \<open>The daemons that the iterators have still to go through.\<close>

definition ahead :: "group list \<Rightarrow> daemon_members list \<Rightarrow> daemon_members list" where
  "ahead git dit = (case git of [] \<Rightarrow> [] | g # gs \<Rightarrow> dit @ concat (map DaemonsList gs))"

lemma ahead_simps [simp]: "ahead [] dit = []" "ahead (g # gs) dit = dit @ concat (map DaemonsList gs)"
  by (simp_all add: ahead_def)

lemma ahead_next: "ahead gs (case gs of [] \<Rightarrow> [] | g' # _ \<Rightarrow> DaemonsList g') = concat (map DaemonsList gs)"
  by (cases gs) simp_all

lemma fit_daemons_split:
  assumes "fit_daemons n m ds = (c, bs, rest)"
  shows "c \<le> length ds \<and> rest = drop c ds \<and> bs = concat (map (put_daemon m) (take c ds))"
  using assms
  by (induction n m ds arbitrary: c bs rest rule: fit_daemons.induct) (auto simp: Let_def split: if_splits prod.splits)

lemma fit_daemons_big:
  assumes "fit_daemons n m ds = (c, bs, rest)" and "d \<in> set ds" and "big d" and "57 \<le> n"
  shows "d \<in> set rest"
  using assms
proof (induction n m ds arbitrary: c bs rest rule: fit_daemons.induct)
  case (2 n m e ds)
  show ?case
  proof (cases "d = e \<or> c = 0")
    case True
    then show ?thesis using 2 by (auto simp: big_iff Let_def split: if_splits prod.splits)
  next
    case False
    then show ?thesis using 2 by (auto simp: Let_def split: if_splits prod.splits)
  qed
qed simp

lemma fit_groups_big:
  assumes "fit_groups n git dit = (bs, git', dit')" and "d \<in> set (ahead git dit)" and "big d" and "9 \<le> n"
  shows "git' \<noteq> [] \<and> d \<in> set (ahead git' dit')"
  using assms
proof (induction n git dit arbitrary: bs git' dit' rule: fit_groups.induct)
  case (2 n g gs dit)
  obtain c ds rest where f: "fit_daemons (n + 48) (gid_memb_id (grp_id g)) dit = (c, ds, rest)" by (metis surj_pair)
  show ?case
  proof (cases "d \<in> set dit")
    case True
    then have "d \<in> set rest" using fit_daemons_big [OF f] 2(3-) by simp
    then show ?thesis using 2(2,3) f True by (auto simp: Let_def split: if_splits)
  next
    case False
    then show ?thesis using 2 f by (auto simp: Let_def ahead_next split: if_splits prod.splits)
  qed
qed simp

lemma build_bufs_big:
  assumes "build_bufs first_time git dit s bufs = Some r" and "d \<in> set (ahead git dit)"
  shows "\<not> big d"
proof
  assume b: "big d"
  have "d \<notin> set (ahead git dit)"
    using assms(1)
  proof (induction rule: build_bufs.raw_induct [rotated, consumes 1, where P = "\<lambda>f git dit s bufs r. d \<notin> set (ahead git dit)"])
    case (1 f first_time git dit s bufs r)
    obtain x git' dit' where f: "fit_groups (int (length (put_preamble first_time s))) git dit = (x, git', dit')" by (metis surj_pair)
    show ?case
    proof
      assume "d \<in> set (ahead git dit)"
      from fit_groups_big [OF f this b] length_put_preamble(1) [of first_time s]
      have "git' \<noteq> []" "d \<in> set (ahead git' dit')" by auto
      then show False using 1 f by (auto simp: G_build_groups_buf_def Let_def)
    qed
  qed
  with assms(2) show False by contradiction
qed

section \<open>Progress\<close>

text \<open>What is left to do: the groups and the daemons ahead.\<close>

definition work :: "group list \<Rightarrow> daemon_members list \<Rightarrow> nat" where
  "work git dit = length git + length (ahead git dit)"

lemma fit_groups_work:
  assumes "fit_groups n git dit = (bs, git', dit')"
  shows "work git' dit' \<le> work git dit \<and> set (ahead git' dit') \<subseteq> set (ahead git dit)"
  using assms
proof (induction git arbitrary: n dit bs git' dit')
  case (Cons g gs)
  obtain c ds rest where f: "fit_daemons (n + 48) (gid_memb_id (grp_id g)) dit = (c, ds, rest)" by (metis surj_pair)
  note sp = fit_daemons_split [OF f]
  obtain bs2 git2 dit2 where r: "fit_groups (n + int (length (put_group_info g c @ ds))) gs
      (case gs of [] \<Rightarrow> [] | g' # _ \<Rightarrow> DaemonsList g') = (bs2, git2, dit2)" by (metis surj_pair)
  show ?case
  proof (cases "96 > 100000 - n \<or> rest \<noteq> []")
    case True
    then have "git' = g # gs \<and> (dit' = dit \<or> dit' = rest)" using Cons.prems f by (auto simp: Let_def split: if_splits)
    then show ?thesis using sp by (auto simp: work_def dest: in_set_dropD)
  next
    case False
    then have "git' = git2" "dit' = dit2" using Cons.prems f r by (auto simp: Let_def)
    moreover have "work git2 dit2 \<le> work gs (case gs of [] \<Rightarrow> [] | g' # _ \<Rightarrow> DaemonsList g') \<and>
        set (ahead git2 dit2) \<subseteq> set (ahead gs (case gs of [] \<Rightarrow> [] | g' # _ \<Rightarrow> DaemonsList g'))"
      using Cons.IH [OF r] by blast
    ultimately show ?thesis by (auto simp: work_def ahead_next)
  qed
qed (simp add: work_def)

lemma fit_groups_progress:
  assumes "fit_groups 9 (g # gs) dit = (bs, git', dit')" and "\<forall>d \<in> set dit. \<not> big d"
  shows "work git' dit' < work (g # gs) dit"
proof -
  obtain c ds rest where f: "fit_daemons 57 (gid_memb_id (grp_id g)) dit = (c, ds, rest)" by (metis surj_pair)
  note sp = fit_daemons_split [OF f]
  show ?thesis
  proof (cases "rest = []")
    case True
    let ?dit = "case gs of [] \<Rightarrow> [] | g' # _ \<Rightarrow> DaemonsList g'"
    obtain bs2 where "fit_groups (9 + int (length (put_group_info g c @ ds))) gs ?dit = (bs2, git', dit')"
      using assms(1) f True by (auto simp: Let_def split: prod.splits)
    then have "work git' dit' \<le> work gs ?dit" using fit_groups_work by blast
    then show ?thesis by (simp add: work_def ahead_next)
  next
    case False
    then have "git' = g # gs" "dit' = rest" using assms(1) f by (auto simp: Let_def)
    moreover have "0 < c"
    proof (cases dit)
      case (Cons d ds')
      then have "\<not> 14 + int (length (MembersList d)) * 32 + 48 > 100000 - 57" using assms(2) by (simp add: big_iff)
      then show ?thesis using f Cons by (auto simp: Let_def split: prod.splits if_splits)
    qed (use False sp in simp)
    ultimately show ?thesis using False sp by (auto simp: work_def)
  qed
qed

lemma build_bufs_later:
  assumes "git \<noteq> []" and "\<forall>d \<in> set (ahead git dit). \<not> big d"
  shows "\<exists>r. build_bufs False git dit s bufs = Some r"
  using assms
proof (induction "work git dit" arbitrary: git dit bufs rule: less_induct)
  case less
  obtain g gs where g: "git = g # gs" using less.prems(1) by (cases git) auto
  obtain x git' dit' where f: "fit_groups 9 git dit = (x, git', dit')" by (metis surj_pair)
  have w: "work git' dit' < work git dit" using fit_groups_progress f less.prems(2) g by simp
  have n: "\<forall>d \<in> set (ahead git' dit'). \<not> big d" using fit_groups_work [OF f] less.prems(2) by blast
  have b: "G_build_groups_buf False git dit s = (put_preamble False s @ x, git', dit')"
    using f by (simp add: G_build_groups_buf_def length_put_preamble(2))
  show ?case
  proof (cases "git' = []")
    case True
    then show ?thesis by (subst build_bufs.simps) (simp add: b)
  next
    case False
    then show ?thesis using less.hyps [OF w False n] by (subst build_bufs.simps) (simp add: b)
  qed
qed

lemma build_bufs_first:
  assumes "\<forall>d \<in> set (ahead git dit). \<not> big d"
  shows "\<exists>r. build_bufs True git dit s bufs = Some r"
proof -
  obtain x git' dit' where f: "fit_groups (int (length (put_preamble True s))) git dit = (x, git', dit')" by (metis surj_pair)
  have b: "G_build_groups_buf True git dit s = (put_preamble True s @ x, git', dit')" using f by (simp add: G_build_groups_buf_def)
  have n: "\<forall>d \<in> set (ahead git' dit'). \<not> big d" using fit_groups_work [OF f] assms by blast
  show ?thesis
  proof (cases "git' = []")
    case False
    then show ?thesis using build_bufs_later [OF False n] by (subst build_bufs.simps) (simp add: b)
  qed (subst build_bufs.simps, simp add: b)
qed

lemma build_bufs_iff:
  "(\<exists>s'. G_build_new_groups_bufs s = Some (Inr s')) \<longleftrightarrow>
   (\<forall>g \<in> set (GroupsList s). \<forall>d \<in> set (DaemonsList g). int (length (MembersList d)) < MAX_LOCAL_GROUP_MEMBERS)"
proof -
  let ?dit = "case GroupsList s of [] \<Rightarrow> [] | g # _ \<Rightarrow> DaemonsList g"
  have "(\<exists>s'. G_build_new_groups_bufs s = Some (Inr s')) \<longleftrightarrow> (\<exists>r. build_bufs True (GroupsList s) ?dit s (Groups_bufs s) = Some r)"
    unfolding G_build_new_groups_bufs_def by (auto simp: map_option_case split: option.splits)
  also have "\<dots> \<longleftrightarrow> (\<forall>d \<in> set (ahead (GroupsList s) ?dit). \<not> big d)"
    using build_bufs_first [of "GroupsList s" ?dit] build_bufs_big by blast
  also have "\<dots> \<longleftrightarrow> (\<forall>g \<in> set (GroupsList s). \<forall>d \<in> set (DaemonsList g). int (length (MembersList d)) < MAX_LOCAL_GROUP_MEMBERS)"
    by (auto simp: ahead_next big_def not_le)
  finally show ?thesis .
qed

end
