(* ===== verification/Group_Messages.thy ===== *)
theory Group_Messages
  imports Group_Buffers Session_Stream
begin

text \<open>
  The bytes of messages built from a buffer: they are the header and the buffer, cut into elements.
\<close>

lemma concat_split_bytes: "length buf \<le> k * bs \<Longrightarrow> concat (split_bytes k bs buf) = buf"
proof (induction k arbitrary: buf)
  case (Suc k)
  have "length (drop bs buf) \<le> k * bs" using Suc.prems by simp
  then show ?case using Suc.IH [of "drop bs buf"] by simp
qed simp

lemma split_bytes_length: "c \<in> set (split_bytes k bs buf) \<Longrightarrow> length c \<le> bs"
  by (induction k arbitrary: buf) auto

lemma element_of_chunk: "length c \<le> n \<Longrightarrow> element_bytes \<lparr> se_buf = c @ replicate (n - length c) 0, se_len = int (length c) \<rparr> = c"
  by (simp add: element_bytes_def)

definition fits_message :: "int \<Rightarrow> byte list \<Rightarrow> bool" where
  "fits_message bs buf \<longleftrightarrow> 48 < bs \<and> int (length buf) + 48 \<le> 100 * bs"

lemma fragments_bytes:
  assumes fit: "fits_message bs buf"
  shows "\<exists>m. Message_Buffer_to_Message_Fragments bs (set_header h (Message_new_message bs)) buf = Inr m \<and>
    message_bytes m = put_header h @ buf \<and> m \<noteq> [] \<and> (\<exists>r. se_buf (hd m) = put_header h @ take (nat bs - 48) buf @ r) \<and>
    48 \<le> se_len (hd m) \<and> (\<forall>e \<in> set m. element_ok e)"
proof -
  define n where "n = nat bs"
  have bs: "bs = int n" "48 < n" "length buf + 48 \<le> 100 * n" using fit by (auto simp: fits_message_def n_def)
  define q where "q = (length buf + 47) div n"
  define t where "t = take (n - 48) buf"
  define cs where "cs = split_bytes q n (drop (n - 48) buf)"
  have q: "(int (length buf) + sizeof_message_header - 1) div bs + 1 = int q + 1"
  proof -
    have "int (length buf) + sizeof_message_header - 1 = int (length buf + 47)" by simp
    then show ?thesis unfolding q_def bs(1) zdiv_int by (simp only:)
  qed
  have "q < 100" unfolding q_def using bs(2,3) by (intro div_less_iff_less_mult [THEN iffD2]) auto
  then have num: "\<not> MAX_SCATTER_ELEMENTS < (int (length buf) + sizeof_message_header - 1) div bs + 1" unfolding q by simp
  have e: "set_header h (Message_new_message bs) = [\<lparr> se_buf = put_header h @ replicate (n - 48) 0, se_len = 48 \<rparr>]"
    by (simp add: set_header_def Message_new_message_def write_at_def bs(1))
  let ?e = "\<lparr> se_buf = put_header h @ t @ replicate (n - 48 - length t) 0, se_len = 48 + int (length t) \<rparr>"
  let ?c = "\<lambda>c. \<lparr> se_buf = c @ replicate (n - length c) 0, se_len = int (length c) \<rparr>"
  have m: "Message_Buffer_to_Message_Fragments bs (set_header h (Message_new_message bs)) buf = Inr (?e # map ?c cs)"
    unfolding e Message_Buffer_to_Message_Fragments_def using num q bs(2)
    by (simp add: Let_def write_at_def t_def cs_def guard_res_def bs(1) nat_diff_distrib nat_add_distrib)
  have "length (drop (n - 48) buf) \<le> q * n"
  proof -
    have "length buf + 47 < n + q * n" unfolding q_def using bs(2) dividend_less_div_times [of n "length buf + 47"] by simp
    then show ?thesis by simp
  qed
  then have cat: "t @ concat cs = buf" unfolding cs_def t_def by (simp add: concat_split_bytes)
  have cl: "length c \<le> n" if "c \<in> set cs" for c using that split_bytes_length unfolding cs_def by blast
  have "element_bytes ?e = put_header h @ t" by (simp add: element_bytes_def nat_add_distrib)
  moreover have "map (element_bytes \<circ> ?c) cs = cs" by (rule map_idI) (simp add: element_of_chunk cl)
  ultimately have mb: "message_bytes (?e # map ?c cs) = put_header h @ buf" using cat by (simp add: message_bytes_def)
  have "length t \<le> n - 48" by (simp add: t_def)
  then have "element_ok ?e" "\<forall>e \<in> set (map ?c cs). element_ok e" using cl by (auto simp: element_ok_def)
  then show ?thesis using m mb by (intro exI [of _ "?e # map ?c cs"]) (auto simp: t_def n_def)
qed

text \<open>The header that a message built in this way has.\<close>

lemma fragments_header:
  assumes "fits_message bs buf" and "header_ok h"
    and "Message_Buffer_to_Message_Fragments bs (set_header h (Message_new_message bs)) buf = Inr m"
  shows "Message_get_message_header m = h" and "message_bytes m = put_header h @ buf"
    and "\<not> has_mess (mh_type h) REJECT_MESS \<Longrightarrow> message_ok m"
proof -
  obtain r where r: "message_bytes m = put_header h @ buf" "m \<noteq> []" "se_buf (hd m) = put_header h @ take (nat bs - 48) buf @ r" "48 \<le> se_len (hd m)"
      "\<forall>e \<in> set m. element_ok e"
    using fragments_bytes [OF assms(1), of h] assms(3) by auto
  show h: "Message_get_message_header m = h" using get_put_header [OF assms(2)] r(3) by (simp add: Message_get_message_header_def)
  show "message_bytes m = put_header h @ buf" by (rule r(1))
  show "message_ok m" if "\<not> has_mess (mh_type h) REJECT_MESS" using r that by (simp add: message_ok_def h)
qed

end
