(* ===== verification/Group_Roundtrip.thy ===== *)
theory Group_Roundtrip
  imports Group_Messages
begin

text \<open>
  What a representative writes into its GROUPS messages, another daemon reads out of them: the groups
  with their identifiers, daemons and members.
\<close>

section \<open>Reading what was written\<close>

lemma int16u_put [simp]: "get_int16u (put_int16u w @ r) = w"
proof (rule bit_word_eqI)
  fix n assume "n < LENGTH(16)"
  then show "bit (get_int16u (put_int16u w @ r)) n = bit w n"
    by (cases "n < 8") (auto simp: get_int16u_def put_int16u_def bit_simps)
qed

lemma int16u_put' [simp]: "get_int16u (put_int16u w) = w"
  using int16u_put [of w "[]"] by simp

definition memb_id_ok :: "membership_id \<Rightarrow> bool" where
  "memb_id_ok m \<longleftrightarrow> int32_range (m_time m)"

definition gid_ok :: "group_id \<Rightarrow> bool" where
  "gid_ok g \<longleftrightarrow> memb_id_ok (gid_memb_id g) \<and> int32_range (gid_index g)"

lemma get_memb_id_put: "memb_id_ok m \<Longrightarrow> get_memb_id True (put_memb_id m @ r) = m"
  by (simp add: get_memb_id_def put_memb_id_def rd32_def memb_id_ok_def sint_word_of_int32)

lemma get_group_id_put: "gid_ok g \<Longrightarrow> get_group_id True (put_group_id g @ r) = g"
  by (simp add: get_group_id_def get_memb_id_def put_group_id_def rd32_def gid_ok_def memb_id_ok_def sint_word_of_int32)

lemma take_bytes_append: "length a = n \<Longrightarrow> take_bytes n (a @ b) = Inr (a, b)"
  by (simp add: take_bytes_def)

lemma fold_put_sorted:
  assumes "skl_ok key ops" and "cmp_ok cmp" and "skl_sorted key cmp (acc @ xs)"
  shows "fold (\<lambda>x acc. skl_put ops cmp acc x) xs acc = acc @ xs"
  using assms(3)
proof (induction xs arbitrary: acc)
  case (Cons x xs)
  have lt: "\<forall>a \<in> set acc. cmp (key a) (key x) < 0" and s: "skl_sorted key cmp acc"
    using Cons.prems by (auto simp: skl_sorted_def sorted_wrt_append)
  have "skl_put ops cmp acc x = filter (\<lambda>y. cmp (key y) (key x) < 0) acc @ x # filter (\<lambda>y. 0 < cmp (key y) (key x)) acc"
    using skl_okD(3) [OF assms(1,2) s, of x] lt by force
  moreover have "filter (\<lambda>y. cmp (key y) (key x) < 0) acc = acc" "filter (\<lambda>y. 0 < cmp (key y) (key x)) acc = []"
    using lt by (auto simp: filter_id_conv filter_empty_conv)
  ultimately show ?case using Cons.IH [of "acc @ [x]"] Cons.prems by simp
qed simp

definition members_ok :: "string list \<Rightarrow> bool" where
  "members_ok ms \<longleftrightarrow> skl_sorted cstr G_compare_nameptr ms \<and> (\<forall>m \<in> set ms. length m = 32) \<and> length ms < 2 ^ 16"

lemma read_members_put:
  assumes "\<forall>m \<in> set ms. length m = 32"
  shows "read_members L (length ms) (names_bytes ms @ b) acc =
    Inr (fold (\<lambda>m acc. skl_put (lib_members L) G_compare_nameptr acc m) ms acc, b)"
  using assms
proof (induction ms arbitrary: acc)
  case (Cons m ms)
  have "take_bytes 32 (names_bytes (m # ms) @ b) = Inr (bytes_of m, names_bytes ms @ b)"
    using Cons.prems by (simp add: names_bytes_def strncpy_full take_bytes_append)
  then show ?case using Cons by simp
qed (simp add: names_bytes_def)

lemma read_members_back:
  assumes "lib_ok L" and "members_ok ms"
  shows "read_members L (length ms) (names_bytes ms @ b) [] = Inr (ms, b)"
proof -
  have k: "skl_ok cstr (lib_members L)" using assms(1) by (simp add: lib_ok_def)
  show ?thesis
    using assms(2) read_members_put [of ms L b "[]"] fold_put_sorted [OF k cmp_ok_nameptr, of "[]" ms] by (simp add: members_ok_def)
qed

section \<open>Daemons\<close>

abbreviation stamped :: "membership_id \<Rightarrow> daemon_members \<Rightarrow> daemon_members" where
  "stamped m d \<equiv> d\<lparr> dm_memb_id := m \<rparr>"

definition num_members_of :: "daemon_members list \<Rightarrow> int" where
  "num_members_of ds = sum_list (map (\<lambda>d. int (length (MembersList d))) ds)"

lemma num_members_of_simps [simp]: "num_members_of [] = 0" "num_members_of (d # ds) = int (length (MembersList d)) + num_members_of ds"
    "num_members_of (ds @ es) = num_members_of ds + num_members_of es"
  by (simp_all add: num_members_of_def)

lemma unat_of_nat16: "n < 2 ^ 16 \<Longrightarrow> unat (of_nat n :: 16 word) = n"
  by (simp add: unat_of_nat take_bit_nat_eq_self)

lemma read_daemon_header:
  assumes "memb_id_ok m" and "length (MembersList d) < 2 ^ 16"
  defines "h \<equiv> put32 (dm_proc_id d) @ put_memb_id m @ put_int16u (of_nat (length (MembersList d)))"
  shows "rd32 True (take 4 h) = dm_proc_id d" and "get_memb_id True (drop 4 h) = m" and "rd16 True (drop 12 h) = length (MembersList d)"
    and "length h = 14" and "put_daemon m d = h @ names_bytes (MembersList d)"
proof -
  have "drop 12 h = put_int16u (of_nat (length (MembersList d)))" by (simp add: h_def)
  then show "rd16 True (drop 12 h) = length (MembersList d)" using assms(2) by (simp add: rd16_def unat_of_nat16)
qed (use assms get_memb_id_put [of m] in \<open>simp_all add: h_def rd32_def put_daemon_def\<close>)

text \<open>What a group is after daemons with the identifier \<open>m\<close> have been read into it.\<close>

definition take_daemons :: "std_lib \<Rightarrow> groups_state \<Rightarrow> membership_id \<Rightarrow> daemon_members list \<Rightarrow> group \<Rightarrow> group" where
  "take_daemons L s m ds g =
     g\<lparr> DaemonsList := fold (\<lambda>d acc. skl_put (lib_daemons L) (cmp_daemons s) acc (stamped m d)) ds (DaemonsList g),
        g_changed := g_changed g \<or> ds \<noteq> [] \<and> m \<noteq> gid_memb_id (grp_id g),
        g_num_members := g_num_members g + num_members_of ds \<rparr>"

lemma read_daemons_put:
  assumes L: "lib_ok L" and m: "memb_id_ok m" and ds: "\<forall>d \<in> set ds. members_ok (MembersList d)"
  shows "read_daemons L s True (length ds) (concat (map (put_daemon m) ds) @ b) g = Inr (take_daemons L s m ds g, b)"
  using ds
proof (induction ds arbitrary: g)
  case (Cons d ds)
  have mo: "members_ok (MembersList d)" "length (MembersList d) < 2 ^ 16" using Cons.prems by (auto simp: members_ok_def)
  define h where "h = put32 (dm_proc_id d) @ put_memb_id m @ put_int16u (of_nat (length (MembersList d)))"
  note hd = read_daemon_header [OF m mo(2), folded h_def]
  let ?rest = "concat (map (put_daemon m) ds) @ b"
  have tb: "take_bytes 14 (concat (map (put_daemon m) (d # ds)) @ b) = Inr (h, names_bytes (MembersList d) @ ?rest)"
    by (simp add: hd(5) take_bytes_append [OF hd(4)])
  have d: "\<lparr> dm_proc_id = dm_proc_id d, dm_memb_id = m, MembersList = MembersList d \<rparr> = stamped m d" by simp
  let ?g = "take_daemons L s m [d] g"
  have "read_daemons L s True (length (d # ds)) (concat (map (put_daemon m) (d # ds)) @ b) g = read_daemons L s True (length ds) ?rest ?g"
    using tb by (simp add: hd(1-3) Let_def read_members_back [OF L mo(1)] take_daemons_def Memb_is_equal_iff d del: concat.simps list.map)
  also have "\<dots> = Inr (take_daemons L s m ds ?g, b)" using Cons by simp
  also have "take_daemons L s m ds ?g = take_daemons L s m (d # ds) g" by (auto simp: take_daemons_def)
  finally show ?case .
qed (simp add: take_daemons_def)

section \<open>Groups\<close>

text \<open>
  What reading a part of a group, some of its daemons, does to the list of groups: the group is
  created with the identifier that was sent when there is none with its name.
\<close>

definition name_ok :: "string \<Rightarrow> bool" where
  "name_ok n \<longleftrightarrow> length n < 32 \<and> list_all (\<lambda>c. c \<noteq> CHR 0x00) n"

definition absorb :: "std_lib \<Rightarrow> group \<Rightarrow> daemon_members list \<Rightarrow> groups_state \<Rightarrow> groups_state" where
  "absorb L g ds r =
     (let (g0, r) = (case G_get_group L (g_name g) r of
                       Some g0 \<Rightarrow> (g0, r)
                     | None \<Rightarrow> let g0 = (new_group (g_name g) unknown_memb_id)\<lparr> grp_id := grp_id g \<rparr> in (g0, add_group L g0 r))
      in set_group (take_daemons L r (gid_memb_id (grp_id g)) ds (g0\<lparr> g_changed := g_changed g0 \<or> g_changed g \<rparr>)) r)"

definition piece_bytes :: "group \<times> daemon_members list \<Rightarrow> byte list" where
  "piece_bytes p = put_group_info (fst p) (length (snd p)) @ concat (map (put_daemon (gid_memb_id (grp_id (fst p)))) (snd p))"

definition piece_ok :: "group \<times> daemon_members list \<Rightarrow> bool" where
  "piece_ok p \<longleftrightarrow> name_ok (g_name (fst p)) \<and> gid_ok (grp_id (fst p)) \<and> length (snd p) < 2 ^ 16 \<and> (\<forall>d \<in> set (snd p). members_ok (MembersList d))"

lemma group_info_fields:
  assumes "name_ok (g_name g)" and "gid_ok (grp_id g)" and "c < 2 ^ 16"
  defines "h \<equiv> put_group_info g c"
  shows "cstr (chars_of (take 32 h)) = g_name g" and "get_group_id True (drop 32 h) = grp_id g"
    and "get_int16u (drop 44 h) \<noteq> 0 \<longleftrightarrow> g_changed g" and "rd16 True (drop 46 h) = c"
proof -
  have n: "length (bytes_of (strncpy (g_name g) 32)) = 32" by (simp add: bytes_of_def strncpy_def)
  show "cstr (chars_of (take 32 h)) = g_name g"
    using assms(1) n cstr_strncpy [of "g_name g" 32] by (simp add: h_def put_group_info_def name_ok_def)
  show "get_group_id True (drop 32 h) = grp_id g"
    using n by (simp add: h_def put_group_info_def get_group_id_put [OF assms(2)])
  have d: "drop 44 h = put_int16u (if g_changed g then 1 else 0) @ put_int16u (of_nat c)" "drop 46 h = put_int16u (of_nat c)"
    using n by (simp_all add: h_def put_group_info_def)
  show "get_int16u (drop 44 h) \<noteq> 0 \<longleftrightarrow> g_changed g" unfolding d by simp
  show "rd16 True (drop 46 h) = c" unfolding d using assms(3) by (simp add: rd16_def unat_of_nat16)
qed

lemma read_piece:
  assumes L: "lib_ok L" and p: "piece_ok p"
  shows "read_groups L True (piece_bytes p @ b) r = read_groups L True b (absorb L (fst p) (snd p) r)"
proof -
  obtain g ds where p': "p = (g, ds)" by (cases p)
  have ok: "name_ok (g_name g)" "gid_ok (grp_id g)" "length ds < 2 ^ 16" "\<forall>d \<in> set ds. members_ok (MembersList d)"
    using p by (auto simp: piece_ok_def p')
  let ?h = "put_group_info g (length ds)"
  let ?b = "concat (map (put_daemon (gid_memb_id (grp_id g))) ds) @ b"
  note f = group_info_fields [OF ok(1-3)]
  have m: "memb_id_ok (gid_memb_id (grp_id g))" using ok(2) by (simp add: gid_ok_def)
  have tb: "take_bytes 48 (piece_bytes (g, ds) @ b) = Inr (?h, ?b)" by (simp add: piece_bytes_def take_bytes_append)
  have i: "read_group_info L True ?h r = Inr (case G_get_group L (g_name g) r of
      Some g0 \<Rightarrow> (g0, r)
    | None \<Rightarrow> let g0 = (new_group (g_name g) unknown_memb_id)\<lparr> grp_id := grp_id g \<rparr> in (g0, add_group L g0 r))"
    using ok(1) f by (simp add: read_group_info_def Let_def name_ok_def split: option.splits)
  have len: "\<not> length (piece_bytes (g, ds) @ b) \<le> length b" by (simp add: piece_bytes_def)
  then have ne: "piece_bytes (g, ds) @ b \<noteq> []" by auto
  show ?thesis unfolding p'
    by (subst read_groups.simps)
      (simp only: ne len tb i f(3,4) read_daemons_put [OF L m ok(4)] absorb_def Let_def if_False sum.case prod.case fst_conv snd_conv split: option.splits prod.splits, simp)
qed

lemma read_pieces:
  assumes "lib_ok L" and "\<forall>p \<in> set ps. piece_ok p"
  shows "read_groups L True (concat (map piece_bytes ps)) r = Inr (fold (\<lambda>p. absorb L (fst p) (snd p)) ps r)"
  using assms(2)
proof (induction ps arbitrary: r)
  case Nil
  show ?case by (simp add: read_groups.simps [of L True "[]"])
qed (simp add: read_piece [OF assms(1)])

end
