(* ===== verification/Group_Merge.thy ===== *)
theory Group_Merge
  imports Group_Roundtrip
begin

text \<open>
  What the groups of a daemon are after it has read the groups of another synced set: those of
  both. The daemons of the two sets are different, so that their lists can be joined.
\<close>

section \<open>The groups of a state\<close>

text \<open>
  Groups are sorted by their names, the daemons of a group by the configuration; a daemon's number
  of members is part of its group's. \<open>known_daemons\<close> is what the lists say.
\<close>

definition group_ok :: "configuration \<Rightarrow> group \<Rightarrow> bool" where
  "group_ok c g \<longleftrightarrow> length (g_name g) < 32 \<and> skl_sorted dm_proc_id (G_compare_proc_ids_by_conf_internal c) (DaemonsList g) \<and>
     g_num_members g = num_members_of (DaemonsList g)"

definition lists_ok :: "groups_state \<Rightarrow> bool" where
  "lists_ok r \<longleftrightarrow> skl_sorted g_name G_compare_nameptr (GroupsList r) \<and> (\<forall>g \<in> set (GroupsList r). group_ok (Cn_active r) g) \<and>
     Num_groups r = int (length (GroupsList r))"

definition known_daemons :: "groups_state \<Rightarrow> (string \<times> daemon_members) set" where
  "known_daemons r = (\<Union>g \<in> set (GroupsList r). Pair (g_name g) ` set (DaemonsList g))"

lemma knownI: "g \<in> set (GroupsList r) \<Longrightarrow> d \<in> set (DaemonsList g) \<Longrightarrow> (g_name g, d) \<in> known_daemons r"
  unfolding known_daemons_def by (rule UN_I, assumption, rule imageI)

definition gid_of :: "groups_state \<Rightarrow> string \<Rightarrow> membership_id option" where
  "gid_of r n = map_option (\<lambda>g. gid_memb_id (grp_id g)) (cur_group n r)"

definition is_changed :: "groups_state \<Rightarrow> string \<Rightarrow> bool" where
  "is_changed r n \<longleftrightarrow> (\<exists>g \<in> set (GroupsList r). g_name g = n \<and> g_changed g)"

section \<open>Sorted lists of groups\<close>

lemma lists_distinct: "lists_ok r \<Longrightarrow> distinct (map g_name (GroupsList r))"
  using skl_sorted_distinct [OF cmp_ok_nameptr] unfolding lists_ok_def by blast

lemma cur_group_Some: "lists_ok r \<Longrightarrow> cur_group n r = Some g \<longleftrightarrow> g \<in> set (GroupsList r) \<and> g_name g = n"
  unfolding cur_group_def using find_Some_iff' [OF lists_distinct] by blast

lemma find_cong_on: "(\<And>x. x \<in> set xs \<Longrightarrow> P x = Q x) \<Longrightarrow> find P xs = find Q xs"
  by (induction xs) auto

lemma G_get_group_cur:
  assumes "lib_ok L" and "lists_ok r" and "length n < 32"
  shows "G_get_group L n r = cur_group n r"
proof -
  have k: "skl_ok g_name (lib_groups L)" "skl_sorted g_name G_compare_nameptr (GroupsList r)" using assms by (auto simp: lib_ok_def lists_ok_def)
  have "\<And>g. g \<in> set (GroupsList r) \<Longrightarrow> length (g_name g) < 32" using assms(2) by (auto simp: lists_ok_def group_ok_def)
  then show ?thesis
    unfolding G_get_group_def cur_group_def skl_okD(1) [OF k(1) cmp_ok_nameptr k(2)] using assms(3) by (intro find_cong_on) simp
qed

lemma set_group_set:
  assumes "distinct (map g_name (GroupsList r))" and "g0 \<in> set (GroupsList r)" and "g_name g = g_name g0"
  shows "set (GroupsList (set_group g r)) = insert g (set (GroupsList r) - {g0})"
proof -
  have "g_name x = g_name g0 \<longleftrightarrow> x = g0" if "x \<in> set (GroupsList r)" for x
    using assms(1,2) that by (auto simp: distinct_map inj_on_def)
  then show ?thesis using assms(2,3) by (auto simp: set_group_def)
qed

lemma set_group_ok:
  assumes r: "lists_ok r" and g0: "g0 \<in> set (GroupsList r)" and n: "g_name g = g_name g0" and g: "group_ok (Cn_active r) g"
  shows "lists_ok (set_group g r)"
proof -
  have k: "g_name (if g_name x = g_name g then g else x) = g_name x" for x by simp
  have "skl_sorted g_name G_compare_nameptr (GroupsList (set_group g r))"
    unfolding set_group_def using r skl_sorted_map [of "GroupsList r" g_name "\<lambda>x. if g_name x = g_name g then g else x" G_compare_nameptr]
    by (simp add: lists_ok_def)
  moreover have "\<forall>x \<in> set (GroupsList (set_group g r)). group_ok (Cn_active r) x"
    unfolding set_group_set [OF lists_distinct [OF r] g0 n] using r g by (auto simp: lists_ok_def)
  ultimately show ?thesis using r by (simp add: lists_ok_def set_group_def)
qed

lemma add_group_ok:
  assumes L: "lib_ok L" and r: "lists_ok r" and g: "group_ok (Cn_active r) g" and new: "cur_group (g_name g) r = None"
  shows "lists_ok (add_group L g r)" and "set (GroupsList (add_group L g r)) = insert g (set (GroupsList r))"
proof -
  have k: "skl_ok g_name (lib_groups L)" "skl_sorted g_name G_compare_nameptr (GroupsList r)" using L r by (auto simp: lib_ok_def lists_ok_def)
  have ne: "G_compare_nameptr (g_name x) (g_name g) \<noteq> 0" if "x \<in> set (GroupsList r)" for x
    using that r g new by (auto simp: lists_ok_def group_ok_def cur_group_def find_None_iff)
  note p = skl_put_new [OF k(1) cmp_ok_nameptr k(2), where e = g, OF ne]
  show s: "set (GroupsList (add_group L g r)) = insert g (set (GroupsList r))" by (simp add: add_group_def p(3))
  have "length (GroupsList (add_group L g r)) = Suc (length (GroupsList r))"
    using arg_cong [OF p(2), of size] by (simp add: add_group_def)
  then show "lists_ok (add_group L g r)" using s p(1) r g by (auto simp: lists_ok_def add_group_def)
qed

section \<open>Reading a part of a group\<close>

lemma num_members_of_mset: "mset xs = mset ys \<Longrightarrow> num_members_of xs = num_members_of ys"
  unfolding num_members_of_def by (metis mset_map sum_mset_sum_list)

lemma fold_put_daemons:
  assumes L: "lib_ok L" and s: "skl_sorted dm_proc_id cmp acc" and c: "cmp = G_compare_proc_ids_by_conf_internal cn"
    and d: "distinct (map dm_proc_id (acc @ ds))"
  shows "skl_sorted dm_proc_id cmp (fold (\<lambda>d acc. skl_put (lib_daemons L) cmp acc (stamped m d)) ds acc) \<and>
    mset (fold (\<lambda>d acc. skl_put (lib_daemons L) cmp acc (stamped m d)) ds acc) = mset acc + mset (map (stamped m) ds)"
  using s d
proof (induction ds arbitrary: acc)
  case (Cons d ds)
  have k: "skl_ok dm_proc_id (lib_daemons L)" using L by (simp add: lib_ok_def)
  have ne: "cmp (dm_proc_id x) (dm_proc_id (stamped m d)) \<noteq> 0" if "x \<in> set acc" for x
    unfolding c using Cons.prems(2) that by (simp add: cmp_daemons_rank(3)) (metis image_eqI)
  have cok: "cmp_ok cmp" unfolding c by (rule cmp_ok_daemons)
  note p = skl_put_new [OF k cok Cons.prems(1), where e = "stamped m d", OF ne]
  have "mset (map dm_proc_id (skl_put (lib_daemons L) cmp acc (stamped m d) @ ds)) = mset (map dm_proc_id (acc @ d # ds))"
    using arg_cong [OF p(2), of "image_mset dm_proc_id"] by simp
  then have "distinct (map dm_proc_id (skl_put (lib_daemons L) cmp acc (stamped m d) @ ds))"
    using Cons.prems(2) mset_eq_imp_distinct_iff by metis
  from Cons.IH [OF p(1) this] show ?case using p(2) by simp
qed simp

lemma take_daemons_ok:
  assumes L: "lib_ok L" and g: "group_ok (Cn_active s) g" and d: "distinct (map dm_proc_id (DaemonsList g @ ds))"
  shows "group_ok (Cn_active s) (take_daemons L s m ds g)"
    and "set (DaemonsList (take_daemons L s m ds g)) = set (DaemonsList g) \<union> stamped m ` set ds"
proof -
  have s: "skl_sorted dm_proc_id (cmp_daemons s) (DaemonsList g)" using g by (simp add: group_ok_def)
  note f = fold_put_daemons [OF L s refl d, of m]
  have "num_members_of (map (stamped m) ds) = num_members_of ds" by (simp add: num_members_of_def comp_def)
  then have "num_members_of (DaemonsList (take_daemons L s m ds g)) = num_members_of (DaemonsList g) + num_members_of ds"
    using num_members_of_mset [of _ "DaemonsList g @ map (stamped m) ds"] f by (simp add: take_daemons_def)
  then show "group_ok (Cn_active s) (take_daemons L s m ds g)" using g f by (simp add: group_ok_def take_daemons_def)
  show "set (DaemonsList (take_daemons L s m ds g)) = set (DaemonsList g) \<union> stamped m ` set ds"
    using arg_cong [OF conjunct2 [OF f], of set_mset] by (simp add: take_daemons_def)
qed

text \<open>Replacing a group by one of the same name.\<close>

lemma gid_of_Some: "lists_ok r \<Longrightarrow> gid_of r n = Some m \<longleftrightarrow> (\<exists>g \<in> set (GroupsList r). g_name g = n \<and> gid_memb_id (grp_id g) = m)"
  by (auto simp: gid_of_def cur_group_Some)

lemma gid_of_None: "gid_of r n = None \<longleftrightarrow> n \<notin> g_name ` set (GroupsList r)"
  by (auto simp: gid_of_def cur_group_def find_None_iff)

lemma gid_of_cong:
  assumes "lists_ok r" and "lists_ok r'" and "\<And>m. (\<exists>g \<in> set (GroupsList r). g_name g = n \<and> gid_memb_id (grp_id g) = m) \<longleftrightarrow>
    (\<exists>g \<in> set (GroupsList r'). g_name g = n \<and> gid_memb_id (grp_id g) = m)"
  shows "gid_of r n = gid_of r' n"
  using gid_of_Some [OF assms(1), of n] gid_of_Some [OF assms(2), of n] assms(3) by (metis not_Some_eq)

lemma take_daemons_simps [simp]:
  "g_name (take_daemons L s m ds g) = g_name g" "grp_id (take_daemons L s m ds g) = grp_id g" "mboxes (take_daemons L s m ds g) = mboxes g"
  "g_changed (take_daemons L s m ds g) \<longleftrightarrow> g_changed g \<or> ds \<noteq> [] \<and> m \<noteq> gid_memb_id (grp_id g)"
  by (simp_all add: take_daemons_def)

definition present_group :: "std_lib \<Rightarrow> group \<Rightarrow> groups_state \<Rightarrow> group \<times> groups_state" where
  "present_group L g r =
     (case G_get_group L (g_name g) r of
        Some g0 \<Rightarrow> (g0, r)
      | None \<Rightarrow> let g0 = (new_group (g_name g) unknown_memb_id)\<lparr> grp_id := grp_id g \<rparr> in (g0, add_group L g0 r))"

lemma absorb_present:
  "absorb L g ds r = (case present_group L g r of (g0, r) \<Rightarrow>
     set_group (take_daemons L r (gid_memb_id (grp_id g)) ds (g0\<lparr> g_changed := g_changed g0 \<or> g_changed g \<rparr>)) r)"
  by (simp add: absorb_def present_group_def)

text \<open>Nothing but the list of groups differs.\<close>

definition lists_only :: "groups_state \<Rightarrow> groups_state \<Rightarrow> bool" where
  "lists_only r r' \<longleftrightarrow> (\<exists>gs n. r' = r\<lparr> GroupsList := gs, Num_groups := n \<rparr>)"

lemma lists_onlyI: "lists_only r (r\<lparr> GroupsList := gs, Num_groups := n \<rparr>)"
  unfolding lists_only_def by (rule exI, rule exI, rule refl)

lemma lists_only_trans:
  assumes "lists_only r r'" and "lists_only r' r''"
  shows "lists_only r r''"
proof -
  obtain gs n gs' n' where "r' = r\<lparr> GroupsList := gs, Num_groups := n \<rparr>" "r'' = r'\<lparr> GroupsList := gs', Num_groups := n' \<rparr>"
    using assms unfolding lists_only_def by blast
  then have "r'' = r\<lparr> GroupsList := gs', Num_groups := n' \<rparr>" by simp
  then show ?thesis by (simp only: lists_onlyI)
qed

lemma lists_only_refl [simp]: "lists_only r r"
  using lists_onlyI [of r "Num_groups r" "GroupsList r"] by simp

lemma lists_only_set_group [simp]: "lists_only r (set_group g r)"
  using lists_onlyI [of r "Num_groups r"] by (simp add: set_group_def)

lemma present_ok:
  assumes L: "lib_ok L" and r: "lists_ok r" and n: "length (g_name g) < 32" and p: "present_group L g r = (g0, r1)"
  shows "lists_ok r1 \<and> g0 \<in> set (GroupsList r1) \<and> g_name g0 = g_name g \<and> known_daemons r1 = known_daemons r \<and> is_changed r1 = is_changed r \<and>
    gid_of r1 = (case gid_of r (g_name g) of None \<Rightarrow> (gid_of r)(g_name g \<mapsto> gid_memb_id (grp_id g)) | Some m \<Rightarrow> gid_of r) \<and>
    lists_only r r1"
proof -
  note find = G_get_group_cur [OF L r n]
  define x where "x = (new_group (g_name g) unknown_memb_id)\<lparr> grp_id := grp_id g \<rparr>"
  have x: "g_name x = g_name g" "grp_id x = grp_id g" "DaemonsList x = []" "\<not> g_changed x" "g_num_members x = 0"
    by (simp_all add: x_def new_group_def)
  show ?thesis
  proof (cases "cur_group (g_name g) r")
    case None
    then have p': "g0 = x" "r1 = add_group L x r" using p by (auto simp: present_group_def find Let_def x_def)
    have gok: "group_ok (Cn_active r) x" using n by (simp add: group_ok_def x skl_sorted_def)
    have new: "cur_group (g_name x) r = None" using None by (simp add: x)
    note a = add_group_ok [OF L r gok new]
    have k: "gid_of r1 k = (if k = g_name g then Some (gid_memb_id (grp_id g)) else gid_of r k)" for k
    proof (cases "k = g_name g")
      case True
      then show ?thesis unfolding p'(2) using gid_of_Some [OF a(1), of k "gid_memb_id (grp_id g)"] a(2) x(1,2) by simp
    next
      case False
      then have "gid_of r1 k = gid_of r k" unfolding p'(2) by (intro gid_of_cong a(1) r) (auto simp: a(2) x)
      with False show ?thesis by simp
    qed
    have "gid_of r (g_name g) = None" using None by (simp add: gid_of_def)
    moreover have "known_daemons r1 = known_daemons r" "is_changed r1 = is_changed r" using a(2) x by (auto simp: p' known_daemons_def is_changed_def fun_eq_iff)
    moreover have "lists_only r r1" by (simp add: p' add_group_def lists_onlyI)
    ultimately show ?thesis using a k x(1) by (auto simp: p' fun_eq_iff)
  next
    case (Some y)
    then have p': "g0 = y" "r1 = r" using p by (auto simp: present_group_def find)
    have "gid_of r (g_name g) \<noteq> None" using Some by (simp add: gid_of_def)
    then show ?thesis using Some r cur_group_Some [OF r] by (auto simp: p')
  qed
qed

text \<open>What reading a part of a group does, in terms of the daemons known.\<close>

lemma replace_group:
  assumes r: "lists_ok r" and g0: "g0 \<in> set (GroupsList r)" and g: "g_name g = g_name g0" "grp_id g = grp_id g0" "group_ok (Cn_active r) g"
    and ds: "set (DaemonsList g) = set (DaemonsList g0) \<union> D"
  shows "lists_ok (set_group g r) \<and> known_daemons (set_group g r) = known_daemons r \<union> Pair (g_name g) ` D \<and> gid_of (set_group g r) = gid_of r \<and>
    (is_changed r (g_name g) \<longleftrightarrow> g_changed g0) \<and>
    is_changed (set_group g r) = (\<lambda>n. if n = g_name g then g_changed g else is_changed r n)"
proof -
  note s = set_group_set [OF lists_distinct [OF r] g0 g(1)]
  have ok: "lists_ok (set_group g r)" by (rule set_group_ok [OF r g0 g(1,3)])
  have u: "x = g0" if "x \<in> set (GroupsList r)" "g_name x = g_name g0" for x
    using lists_distinct [OF r] g0 that by (auto simp: distinct_map inj_on_def)
  have "gid_of (set_group g r) = gid_of r"
  proof
    fix n
    show "gid_of (set_group g r) n = gid_of r n" by (intro gid_of_cong ok r) (use s g(1,2) g0 in auto)
  qed
  moreover have "known_daemons (set_group g r) = known_daemons r \<union> Pair (g_name g) ` D"
  proof -
    have "set (GroupsList r) = insert g0 (set (GroupsList r) - {g0})" using g0 by blast
    from arg_cong [OF this, of "\<lambda>A. \<Union>x \<in> A. Pair (g_name x) ` set (DaemonsList x)"]
    have "known_daemons r = Pair (g_name g0) ` set (DaemonsList g0) \<union> (\<Union>x \<in> set (GroupsList r) - {g0}. Pair (g_name x) ` set (DaemonsList x))"
      unfolding known_daemons_def UN_insert .
    moreover have "known_daemons (set_group g r) = Pair (g_name g0) ` set (DaemonsList g) \<union> (\<Union>x \<in> set (GroupsList r) - {g0}. Pair (g_name x) ` set (DaemonsList x))"
      unfolding known_daemons_def s UN_insert g(1) ..
    ultimately show ?thesis by (simp only: ds g(1) image_Un Un_ac)
  qed
  moreover have "is_changed (set_group g r) = (\<lambda>n. if n = g_name g then g_changed g else is_changed r n)"
    using g0 g(1) u by (auto simp: is_changed_def s fun_eq_iff)
  moreover have "is_changed r (g_name g) \<longleftrightarrow> g_changed g0" using g0 g(1) u by (auto simp: is_changed_def)
  ultimately show ?thesis using ok by blast
qed

definition unmet :: "groups_state \<Rightarrow> group \<times> daemon_members list \<Rightarrow> bool" where
  "unmet r p \<longleftrightarrow> (\<forall>d \<in> set (snd p). \<forall>e. (g_name (fst p), e) \<in> known_daemons r \<longrightarrow> dm_proc_id e \<noteq> dm_proc_id d)"

definition piece_known :: "group \<times> daemon_members list \<Rightarrow> (string \<times> daemon_members) set" where
  "piece_known p = Pair (g_name (fst p)) ` stamped (gid_memb_id (grp_id (fst p))) ` set (snd p)"

lemma absorb_ok:
  assumes L: "lib_ok L" and r: "lists_ok r" and n: "length (g_name g) < 32" and d: "distinct (map dm_proc_id ds)" and f: "unmet r (g, ds)"
  defines "m \<equiv> gid_memb_id (grp_id g)" and "r' \<equiv> absorb L g ds r"
  shows "lists_ok r' \<and> known_daemons r' = known_daemons r \<union> piece_known (g, ds) \<and>
    gid_of r' = (case gid_of r (g_name g) of None \<Rightarrow> (gid_of r)(g_name g \<mapsto> m) | Some m \<Rightarrow> gid_of r) \<and>
    (\<forall>k. is_changed r' k \<longleftrightarrow> is_changed r k \<or> k = g_name g \<and> (g_changed g \<or> ds \<noteq> [] \<and> gid_of r k \<notin> {None, Some m})) \<and>
    lists_only r r'"
proof -
  obtain g0 r1 where p: "present_group L g r = (g0, r1)" by fastforce
  from present_ok [OF L r n p, folded m_def] have p1: "lists_ok r1" "g0 \<in> set (GroupsList r1)" "g_name g0 = g_name g" "known_daemons r1 = known_daemons r" "is_changed r1 = is_changed r"
    and p2: "gid_of r1 = (case gid_of r (g_name g) of None \<Rightarrow> (gid_of r)(g_name g \<mapsto> m) | Some m \<Rightarrow> gid_of r)"
    and p3: "lists_only r r1" by - (elim conjE, assumption)+
  define g1 where "g1 = g0\<lparr> g_changed := g_changed g0 \<or> g_changed g \<rparr>"
  define g2 where "g2 = take_daemons L r1 m ds g1"
  have r': "r' = set_group g2 r1" unfolding r'_def absorb_present p g2_def g1_def m_def by simp
  have ok1: "group_ok (Cn_active r1) g1" using p1(1,2) by (simp add: g1_def lists_ok_def group_ok_def)
  have "distinct (map dm_proc_id (DaemonsList g0))"
    using skl_sorted_distinct [OF cmp_ok_daemons, of dm_proc_id "Cn_active r1" "DaemonsList g1"] ok1 by (simp add: group_ok_def g1_def)
  moreover have "dm_proc_id e \<noteq> dm_proc_id x" if "e \<in> set (DaemonsList g0)" "x \<in> set ds" for e x
  proof -
    have "(g_name g, e) \<in> known_daemons r" using knownI [OF p1(2) that(1)] by (simp only: p1(3,4))
    then show ?thesis using f that(2) by (simp add: unmet_def)
  qed
  ultimately have dist: "distinct (map dm_proc_id (DaemonsList g1 @ ds))" using d by (force simp: g1_def)
  note t = take_daemons_ok [OF L ok1 dist, of m, folded g2_def]
  have g2: "g_name g2 = g_name g0" "grp_id g2 = grp_id g0" "g_changed g2 \<longleftrightarrow> (g_changed g0 \<or> g_changed g) \<or> ds \<noteq> [] \<and> m \<noteq> gid_memb_id (grp_id g0)"
    by (simp_all add: g2_def g1_def)
  have t2: "set (DaemonsList g2) = set (DaemonsList g0) \<union> stamped m ` set ds" using t(2) by (simp add: g1_def)
  note rg = replace_group [OF p1(1,2) g2(1,2) t(1) t2, folded r']
  have gid: "gid_of r1 (g_name g) = Some (gid_memb_id (grp_id g0))" using gid_of_Some [OF p1(1)] p1(2,3) by blast
  have "m \<noteq> gid_memb_id (grp_id g0) \<longleftrightarrow> gid_of r (g_name g) \<notin> {None, Some m}"
    using gid unfolding p2 by (cases "gid_of r (g_name g)") auto
  then have "\<forall>k. is_changed r' k \<longleftrightarrow> is_changed r k \<or> k = g_name g \<and> (g_changed g \<or> ds \<noteq> [] \<and> gid_of r k \<notin> {None, Some m})"
    using rg g2(1,3) p1(3,5) by auto
  moreover have "lists_only r r'" unfolding r' by (rule lists_only_trans [OF p3 lists_only_set_group])
  moreover have "known_daemons r' = known_daemons r \<union> piece_known (g, ds)"
    using rg p1(3,4) g2(1) by (simp add: piece_known_def m_def)
  ultimately show ?thesis using rg p2 by simp
qed

section \<open>Reading all parts\<close>

definition piece_keys :: "group \<times> daemon_members list \<Rightarrow> (string \<times> proc_id) list" where
  "piece_keys p = map (\<lambda>d. (g_name (fst p), dm_proc_id d)) (snd p)"

abbreviation piece_gid :: "group \<times> daemon_members list \<Rightarrow> membership_id" where
  "piece_gid p \<equiv> gid_memb_id (grp_id (fst p))"

abbreviation absorb_all :: "std_lib \<Rightarrow> (group \<times> daemon_members list) list \<Rightarrow> groups_state \<Rightarrow> groups_state" where
  "absorb_all L ps r \<equiv> fold (\<lambda>p. absorb L (fst p) (snd p)) ps r"

lemma unmet_keys: "unmet r p \<longleftrightarrow> set (piece_keys p) \<inter> map_prod id dm_proc_id ` known_daemons r = {}"
  by (force simp: unmet_def piece_keys_def)

lemma piece_known_keys: "map_prod id dm_proc_id ` piece_known p = set (piece_keys p)"
  by (force simp: piece_known_def piece_keys_def image_image)

lemma absorb_all_ok:
  assumes "lib_ok L" and "lists_ok r" and "\<forall>p \<in> set ps. length (g_name (fst p)) < 32" and "distinct (concat (map piece_keys ps))"
    and "\<forall>p \<in> set ps. unmet r p" and "\<forall>p \<in> set ps. \<forall>q \<in> set ps. g_name (fst p) = g_name (fst q) \<longrightarrow> piece_gid p = piece_gid q"
  shows "lists_ok (absorb_all L ps r) \<and> known_daemons (absorb_all L ps r) = known_daemons r \<union> (\<Union>p \<in> set ps. piece_known p) \<and> lists_only r (absorb_all L ps r) \<and>
    (\<forall>k m. gid_of (absorb_all L ps r) k = Some m \<longleftrightarrow>
       gid_of r k = Some m \<or> gid_of r k = None \<and> (\<exists>p \<in> set ps. g_name (fst p) = k \<and> piece_gid p = m)) \<and>
    (\<forall>k. is_changed (absorb_all L ps r) k \<longleftrightarrow> is_changed r k \<or>
       (\<exists>p \<in> set ps. g_name (fst p) = k \<and> (g_changed (fst p) \<or> snd p \<noteq> [] \<and> gid_of r k \<notin> {None, Some (piece_gid p)})))"
  using assms(2-)
proof (induction ps arbitrary: r)
  case (Cons p ps)
  let ?r = "absorb L (fst p) (snd p) r"
  have d: "distinct (map dm_proc_id (snd p))" using Cons.prems(3) by (auto simp: piece_keys_def distinct_map inj_on_def)
  have n: "length (g_name (fst p)) < 32" and f: "unmet r (fst p, snd p)" using Cons.prems(2,4) by auto
  note a = absorb_ok [OF assms(1) Cons.prems(1) n d f]
  have a1: "lists_ok ?r" and a2: "known_daemons ?r = known_daemons r \<union> piece_known p" and a5: "lists_only r ?r"
    and a3: "gid_of ?r = (case gid_of r (g_name (fst p)) of None \<Rightarrow> (gid_of r)(g_name (fst p) \<mapsto> piece_gid p) | Some m \<Rightarrow> gid_of r)"
    and a4: "\<forall>k. is_changed ?r k \<longleftrightarrow> is_changed r k \<or> k = g_name (fst p) \<and> (g_changed (fst p) \<or> snd p \<noteq> [] \<and> gid_of r k \<notin> {None, Some (piece_gid p)})"
    using a by simp_all
  have fr: "\<forall>q \<in> set ps. unmet ?r q"
  proof
    fix q assume q: "q \<in> set ps"
    then have "set (piece_keys q) \<inter> set (piece_keys p) = {}" using Cons.prems(3) by auto
    moreover have "unmet r q" using Cons.prems(4) q by simp
    ultimately show "unmet ?r q" unfolding unmet_keys a2 image_Un piece_known_keys by blast
  qed
  have n': "\<forall>p \<in> set ps. length (g_name (fst p)) < 32" and d': "distinct (concat (map piece_keys ps))"
    using Cons.prems(2,3) by simp_all
  have s': "\<forall>p \<in> set ps. \<forall>q \<in> set ps. g_name (fst p) = g_name (fst q) \<longrightarrow> piece_gid p = piece_gid q"
    using Cons.prems(5) by (meson list.set_intros(2))
  note ih = Cons.IH [OF a1 n' d' fr s']
  note ihg = ih [THEN conjunct2, THEN conjunct2, THEN conjunct2, THEN conjunct1, rule_format]
  note ihc = ih [THEN conjunct2, THEN conjunct2, THEN conjunct2, THEN conjunct2, rule_format]
  have gid: "gid_of ?r k = (if k = g_name (fst p) \<and> gid_of r k = None then Some (piece_gid p) else gid_of r k)" for k
    unfolding a3 by (auto split: option.splits)
  have same: "piece_gid q = piece_gid p" if "q \<in> set ps" "g_name (fst q) = g_name (fst p)" for q
    using Cons.prems(5) that by (meson list.set_intros)
  have "\<forall>k m. gid_of (absorb_all L (p # ps) r) k = Some m \<longleftrightarrow>
       gid_of r k = Some m \<or> gid_of r k = None \<and> (\<exists>q \<in> set (p # ps). g_name (fst q) = k \<and> piece_gid q = m)"
  proof (intro allI)
    fix k m
    show "gid_of (absorb_all L (p # ps) r) k = Some m \<longleftrightarrow>
       gid_of r k = Some m \<or> gid_of r k = None \<and> (\<exists>q \<in> set (p # ps). g_name (fst q) = k \<and> piece_gid q = m)"
      using ihg [of k m] same by (cases "k = g_name (fst p)"; cases "gid_of r k") (auto simp: gid)
  qed
  moreover have "\<forall>k. is_changed (absorb_all L (p # ps) r) k \<longleftrightarrow> is_changed r k \<or>
       (\<exists>q \<in> set (p # ps). g_name (fst q) = k \<and> (g_changed (fst q) \<or> snd q \<noteq> [] \<and> gid_of r k \<notin> {None, Some (piece_gid q)}))"
  proof
    fix k
    show "is_changed (absorb_all L (p # ps) r) k \<longleftrightarrow> is_changed r k \<or>
       (\<exists>q \<in> set (p # ps). g_name (fst q) = k \<and> (g_changed (fst q) \<or> snd q \<noteq> [] \<and> gid_of r k \<notin> {None, Some (piece_gid q)}))"
      using ihc [of k] spec [OF a4, of k] same by (cases "k = g_name (fst p)"; cases "gid_of r k") (auto simp: gid)
  qed
  moreover have "lists_only r (absorb_all L (p # ps) r)" using lists_only_trans [OF a5] ih by simp
  moreover have "known_daemons (absorb_all L (p # ps) r) = known_daemons r \<union> (\<Union>p \<in> set (p # ps). piece_known p)" using ih a2 by (simp add: Un_assoc)
  ultimately show ?case using ih by simp
qed simp

end
