(* ===== verification/Group_Pieces.thy ===== *)
theory Group_Pieces
  imports Group_Merge
begin

text \<open>
  The buffers that \<open>G_build_new_groups_bufs\<close> writes consist of parts of groups, which together are
  all the groups of the daemon.
\<close>

section \<open>The parts in a buffer\<close>

type_synonym piece = "group \<times> daemon_members list"

abbreviation enc :: "piece list \<Rightarrow> byte list" where
  "enc ps \<equiv> concat (map piece_bytes ps)"

definition piece_tags :: "piece \<Rightarrow> (group \<times> daemon_members) list" where
  "piece_tags p = map (Pair (fst p)) (snd p)"

definition tagged :: "group list \<Rightarrow> daemon_members list \<Rightarrow> (group \<times> daemon_members) list" where
  "tagged git dit = (case git of [] \<Rightarrow> [] | g # gs \<Rightarrow> piece_tags (g, dit) @ concat (map (\<lambda>g. piece_tags (g, DaemonsList g)) gs))"

abbreviation first_daemons :: "group list \<Rightarrow> daemon_members list" where
  "first_daemons gs \<equiv> (case gs of [] \<Rightarrow> [] | g # _ \<Rightarrow> DaemonsList g)"

lemma tagged_simps [simp]: "tagged [] dit = []" "tagged (g # gs) dit = piece_tags (g, dit) @ concat (map (\<lambda>g. piece_tags (g, DaemonsList g)) gs)"
  by (simp_all add: tagged_def)

lemma tagged_first: "tagged gs (first_daemons gs) = concat (map (\<lambda>g. piece_tags (g, DaemonsList g)) gs)"
  by (cases gs) simp_all

text \<open>The largest buffer leaves room for the header of the message.\<close>

lemma fit_daemons_length:
  assumes "fit_daemons n m ds = (c, bs, rest)" and "n \<le> 99952"
  shows "n + int (length bs) \<le> 99952"
  using assms
  by (induction n m ds arbitrary: c bs rest rule: fit_daemons.induct) (auto simp: Let_def split: if_splits prod.splits)

lemma piece_bytes_length: "48 + 14 * length (snd p) \<le> length (piece_bytes p)"
proof -
  have "14 * length ds \<le> length (concat (map (put_daemon m) ds))" for m ds by (induction ds) auto
  then show ?thesis by (simp add: piece_bytes_def)
qed

lemma enc_length: "p \<in> set ps \<Longrightarrow> length (piece_bytes p) \<le> length (enc ps)"
  by (induction ps) auto

lemma fit_groups_pieces:
  assumes "fit_groups n git dit = (bs, git', dit')" and "n \<le> 99952"
  shows "n + int (length bs) \<le> 99952 \<and> set git' \<subseteq> set git \<and>
    (\<exists>ps. bs = enc ps \<and> concat (map piece_tags ps) @ tagged git' dit' = tagged git dit \<and> fst ` set ps \<subseteq> set git \<and> set git \<subseteq> fst ` set ps \<union> set git')"
  using assms
proof (induction git arbitrary: n dit bs git' dit')
  case (Cons g gs)
  obtain c ds rest where f: "fit_daemons (n + 48) (gid_memb_id (grp_id g)) dit = (c, ds, rest)" by (metis surj_pair)
  note sp = fit_daemons_split [OF f]
  let ?p = "(g, take c dit)" and ?b = "put_group_info g c @ ds"
  have pb: "piece_bytes ?p = ?b" and td: "piece_tags ?p @ piece_tags (g, rest) = piece_tags (g, dit)"
    using sp by (auto simp: piece_bytes_def piece_tags_def min_absorb2 simp flip: map_append)
  show ?case
  proof (cases "96 > 100000 - n")
    case True
    then have "bs = []" "git' = g # gs" "dit' = dit" using Cons.prems(1) by auto
    then show ?thesis using Cons.prems(2) by (auto intro: exI [of _ "[]"])
  next
    case n: False
    have len: "n + int (length ?b) \<le> 99952" using fit_daemons_length [OF f] n by simp
    show ?thesis
    proof (cases "rest = []")
      case True
      obtain bs2 where r: "fit_groups (n + int (length ?b)) gs (first_daemons gs) = (bs2, git', dit')" and bs: "bs = ?b @ bs2"
        using Cons.prems(1) f n True by (auto simp: Let_def split: prod.splits)
      from Cons.IH [OF r len] obtain ps where ps: "bs2 = enc ps" "concat (map piece_tags ps) @ tagged git' dit' = tagged gs (first_daemons gs)"
          "fst ` set ps \<subseteq> set gs" "set gs \<subseteq> fst ` set ps \<union> set git'" "n + int (length ?b) + int (length bs2) \<le> 99952" "set git' \<subseteq> set gs"
        by blast
      have "concat (map piece_tags (?p # ps)) @ tagged git' dit' = tagged (g # gs) dit"
        using td True ps(2) by (simp add: tagged_first piece_tags_def)
      then show ?thesis using ps bs pb by (intro conjI exI [of _ "?p # ps"]) auto
    next
      case False
      then have "bs = ?b" "git' = g # gs" "dit' = rest" using Cons.prems(1) f n by (auto simp: Let_def)
      then show ?thesis using td pb len by (intro conjI exI [of _ "[?p]"]) auto
    qed
  qed
qed (auto intro: exI [of _ "[]"])

section \<open>All buffers\<close>

text \<open>The buffers of some lists of parts, the oldest first.\<close>

fun bufs_of :: "bool \<Rightarrow> groups_state \<Rightarrow> piece list list \<Rightarrow> byte list list" where
  "bufs_of first_time s [] = []"
| "bufs_of first_time s (ps # pss) = (put_preamble first_time s @ enc ps) # bufs_of False s pss"

definition covers :: "piece list \<Rightarrow> group list \<Rightarrow> daemon_members list \<Rightarrow> bool" where
  "covers ps git dit \<longleftrightarrow> concat (map piece_tags ps) = tagged git dit \<and> fst ` set ps = set git"

definition built :: "bool \<Rightarrow> group list \<Rightarrow> daemon_members list \<Rightarrow> groups_state \<Rightarrow> byte list list \<Rightarrow> byte list list \<Rightarrow> bool" where
  "built first_time git dit s bufs r \<longleftrightarrow>
     (\<exists>pss. r = rev (bufs_of first_time s pss) @ bufs \<and> pss \<noteq> [] \<and> covers (concat pss) git dit \<and>
        (\<forall>b \<in> set (bufs_of first_time s pss). length b \<le> 99952))"

lemma build_bufs_pieces:
  assumes "build_bufs first_time git dit s bufs = Some r"
  shows "length (put_preamble first_time s) \<le> 99952 \<longrightarrow> built first_time git dit s bufs r"
  using assms
proof (induction rule: build_bufs.raw_induct [rotated, consumes 1,
    where P = "\<lambda>first_time git dit s bufs r. length (put_preamble first_time s) \<le> 99952 \<longrightarrow> built first_time git dit s bufs r"])
  case (1 f first_time git dit s bufs r)
  obtain x git' dit' where f: "fit_groups (int (length (put_preamble first_time s))) git dit = (x, git', dit')" by (metis surj_pair)
  show ?case
  proof
    assume "length (put_preamble first_time s) \<le> 99952"
    then have "int (length (put_preamble first_time s)) \<le> 99952" by simp
    from fit_groups_pieces [OF f this] obtain ps where ps: "x = enc ps" "concat (map piece_tags ps) @ tagged git' dit' = tagged git dit"
        "fst ` set ps \<subseteq> set git" "set git \<subseteq> fst ` set ps \<union> set git'" "length (put_preamble first_time s @ x) \<le> 99952" "set git' \<subseteq> set git"
      by auto
    show "built first_time git dit s bufs r"
    proof (cases "git' = []")
      case True
      then have "r = (put_preamble first_time s @ x) # bufs" using 1(2) f by (simp add: G_build_groups_buf_def Let_def)
      moreover have "fst ` set ps = set git" using True ps(3,4) by auto
      ultimately show ?thesis using True ps(1,2,5) unfolding built_def covers_def by (intro exI [of _ "[ps]"]) simp
    next
      case False
      then have "f False git' dit' s ((put_preamble first_time s @ x) # bufs) = Some r" using 1(2) f by (simp add: G_build_groups_buf_def Let_def)
      from 1(1) [OF this] obtain pss where pss: "r = rev (bufs_of False s pss) @ (put_preamble first_time s @ x) # bufs" "covers (concat pss) git' dit'"
          "\<forall>b \<in> set (bufs_of False s pss). length b \<le> 99952"
        by (auto simp: length_put_preamble(2) built_def)
      then show ?thesis using ps unfolding built_def by (intro exI [of _ "ps # pss"]) (auto simp: covers_def image_Un)
    qed
  qed
qed

section \<open>Messages\<close>

text \<open>What a daemon must have of its own to speak for its synced set.\<close>

definition speaker_ok :: "groups_state \<Rightarrow> bool" where
  "speaker_ok s \<longleftrightarrow> lists_ok s \<and>
     (\<forall>g \<in> set (GroupsList s). name_ok (g_name g) \<and> gid_ok (grp_id g) \<and>
        (\<forall>d \<in> set (DaemonsList g). members_ok (MembersList d) \<and> int (length (MembersList d)) < MAX_LOCAL_GROUP_MEMBERS)) \<and>
     length (MySyncedSet s) \<le> 128 \<and> 1001 \<le> sizeof_body (sess s)"

lemma groups_header:
  shows "header_ok (G_build_groups_msg_hdr s (int n)) \<longleftrightarrow> int32_range (int n)"
    and "Same_endian (Set_endian GROUPS_MESS OR AGREED_MESS)" and "Same_endian (Set_endian GROUPS_MESS OR RELIABLE_MESS)"
  by (auto simp: header_ok_def G_build_groups_msg_hdr_def strncpy_def chars_of_def)
    (use Same_endian_Set_endian [of GROUPS_MESS] in \<open>simp_all add: Same_endian_bits bit_or_iff\<close>)

lemma length_put_ids [simp]: "length (concat (map put32 xs)) = 4 * length xs"
  by (induction xs) simp_all

lemma read_synced_put:
  assumes "length is \<le> 128"
  shows "read_synced True (put32 (of_nat (length is)) @ concat (map put32 is) @ b) = Inr (is, b)"
proof -
  have u: "unat (of_nat (length is) :: 32 word) = length is" using assms by (simp add: unat_of_nat take_bit_nat_eq_self)
  have "take 4 (drop (4 * i) (concat (map put32 is))) = put32 (is ! i)" if "i < length is" for i
    using that
  proof (induction "is" arbitrary: i)
    case (Cons a xs)
    then show ?case by (cases i) simp_all
  qed simp
  then have "map (\<lambda>i. rd32 True (take 4 (drop (4 * i) (concat (map put32 is))))) [0..<length is] = is"
    by (intro nth_equalityI) (auto simp: rd32_def)
  then show ?thesis using assms u by (simp add: read_synced_def take_bytes_append rd32_def Let_def guard_res_def)
qed

lemma groups_message_read:
  assumes L: "lib_ok L" and bs: "1001 \<le> sizeof_body (sess s)" and ss: "length (MySyncedSet s) \<le> 128"
    and b: "b = put_preamble first_time s @ enc ps" "length b \<le> 99952" and ps: "\<forall>p \<in> set ps. piece_ok p"
  shows "\<exists>m. groups_message s is_last b = Inr m \<and>
    mh_type (Message_get_message_header m) = Set_endian GROUPS_MESS OR (if is_last then AGREED_MESS else RELIABLE_MESS) \<and>
    G_mess_to_groups L m sset r = Inr (if first_time then Some (MySyncedSet s) else sset, absorb_all L ps r)"
proof -
  define t where "t = Set_endian GROUPS_MESS OR (if is_last then AGREED_MESS else RELIABLE_MESS)"
  define h where "h = (G_build_groups_msg_hdr s (int (length b)))\<lparr> mh_type := t \<rparr>"
  have fit: "fits_message (sizeof_body (sess s)) b" using bs b(2) by (simp add: fits_message_def)
  have hok: "header_ok h" using b(2) groups_header(1) [of s "length b"] by (simp add: h_def header_ok_def)
  have msg: "groups_message s is_last b = Message_Buffer_to_Message_Fragments (sizeof_body (sess s)) (set_header h (Message_new_message (sizeof_body (sess s)))) b"
    by (simp add: groups_message_def Let_def h_def t_def G_build_groups_msg_hdr_def)
  obtain m where m: "groups_message s is_last b = Inr m" using fragments_bytes [OF fit, of h] msg by auto
  note fr = fragments_header [OF fit hok m [unfolded msg]]
  have e: "Same_endian (mh_type h)" using groups_header(2,3) by (simp add: h_def t_def)
  let ?pre = "if first_time then put32 (of_nat (length (MySyncedSet s))) @ concat (map put32 (MySyncedSet s)) else []"
  have "take_bytes 57 (message_bytes m) = Inr (put_header h @ put_memb_id (gr_Reg_memb_id s) @ [if first_time then 1 else 0], ?pre @ enc ps)"
    unfolding fr(2) b(1) put_preamble_def using take_bytes_append [of "put_header h @ put_memb_id (gr_Reg_memb_id s) @ [if first_time then 1 else 0]" 57 "?pre @ enc ps"] by simp
  moreover have "(put_header h @ put_memb_id (gr_Reg_memb_id s) @ [if first_time then 1 else 0]) ! 56 = (if first_time then 1 else (0 :: byte))"
    by (simp add: nth_append)
  moreover have "length (message_bytes m) \<le> 100000" using b(2) by (simp add: fr(2))
  ultimately have "G_mess_to_groups L m sset r = Inr (if first_time then Some (MySyncedSet s) else sset, absorb_all L ps r)"
    using e read_synced_put [OF ss, of "enc ps"] read_pieces [OF L ps] by (simp add: G_mess_to_groups_def Let_def fr(1) guard_res_def)
  then show ?thesis using m fr(1) by (simp add: h_def t_def)
qed

text \<open>The parts in the buffers of a speaker can be sent and read.\<close>

lemma bufs_of_mem: "b \<in> set (bufs_of first_time s pss) \<Longrightarrow> \<exists>ft ps. ps \<in> set pss \<and> b = put_preamble ft s @ enc ps"
  by (induction pss arbitrary: first_time) fastforce+

lemma bufs_of_enc: "ps \<in> set pss \<Longrightarrow> \<exists>b \<in> set (bufs_of first_time s pss). length (enc ps) \<le> length b"
  by (induction pss arbitrary: first_time) fastforce+

lemma pieces_ok:
  assumes s: "speaker_ok s" and len: "\<forall>b \<in> set (bufs_of first_time s pss). length b \<le> 99952"
    and p: "p \<in> set (concat pss)" "fst p \<in> set (GroupsList s)" "set (snd p) \<subseteq> set (DaemonsList (fst p))"
  shows "piece_ok p"
proof -
  obtain ps where ps: "p \<in> set ps" "ps \<in> set pss" using p(1) by auto
  obtain b where "b \<in> set (bufs_of first_time s pss)" "length (enc ps) \<le> length b" using bufs_of_enc [OF ps(2)] by blast
  then have "14 * length (snd p) \<le> 99952" using len piece_bytes_length [of p] enc_length [OF ps(1)] by fastforce
  then show ?thesis using s p(2,3) by (auto simp: piece_ok_def speaker_ok_def)
qed

end
