(* ===== verification/Group_Union.thy ===== *)
theory Group_Union
  imports Group_Pieces
begin

text \<open>
  The exchange of groups between two synced sets, from the lists of the daemon that speaks for one of
  them to the lists of a daemon of the other.
\<close>

section \<open>Sending\<close>

definition groups_call :: "scatter \<Rightarrow> sess_effect" where
  "groups_call m = Prot_new_message_call
     \<lparr> dl_type = Message_get_packet_type (mh_type (Message_get_message_header m)), dl_mess = m \<rparr>"

abbreviation is_agreed :: "scatter \<Rightarrow> bool" where
  "is_agreed m \<equiv> has_mess (mh_type (Message_get_message_header m)) AGREED_MESS"

lemma groups_message_emit [simp]: "groups_message (g_emit es s) is_last b = groups_message s is_last b"
  by (simp add: groups_message_def G_build_groups_msg_hdr_def g_emit_def s_emit_def)

lemma groups_message_bufs [simp]: "groups_message (s\<lparr> Groups_bufs := x, Groups_bufs_fresh := y \<rparr>) is_last b = groups_message s is_last b"
  by (simp add: groups_message_def G_build_groups_msg_hdr_def)

lemma g_emit_emit: "g_emit fs (g_emit es s) = g_emit (es @ fs) s" "g_emit [] s = s"
  by (simp_all add: g_emit_def s_emit_def)

lemma groups_types:
  "has_mess (Set_endian GROUPS_MESS OR AGREED_MESS) AGREED_MESS" "\<not> has_mess (Set_endian GROUPS_MESS OR RELIABLE_MESS) AGREED_MESS"
  "Message_get_packet_type (Set_endian GROUPS_MESS OR AGREED_MESS) \<noteq> - 1" "Message_get_packet_type (Set_endian GROUPS_MESS OR RELIABLE_MESS) \<noteq> - 1"
  by code_simp+

definition sendable :: "groups_state \<Rightarrow> byte list \<Rightarrow> bool" where
  "sendable s b \<longleftrightarrow> (\<forall>is_last. \<exists>m. groups_message s is_last b = Inr m \<and>
     mh_type (Message_get_message_header m) = Set_endian GROUPS_MESS OR (if is_last then AGREED_MESS else RELIABLE_MESS))"

definition messages_of :: "groups_state \<Rightarrow> byte list list \<Rightarrow> scatter list \<Rightarrow> bool" where
  "messages_of s bs ms \<longleftrightarrow> list_all2 (\<lambda>b m. \<exists>is_last. groups_message s is_last b = Inr m) bs ms"

lemma send_bufs_messages:
  assumes "\<forall>b \<in> set bs. sendable s b"
  shows "\<exists>ms. messages_of s bs ms \<and> send_bufs bs s = Inr (g_emit (map groups_call ms) s) \<and> map is_agreed ms = map (\<lambda>i. Suc i = length bs) [0..<length bs]"
  using assms
proof (induction bs arbitrary: s)
  case Nil
  show ?case by (simp add: messages_of_def g_emit_emit(2))
next
  case (Cons b bs)
  have "sendable s b" using Cons.prems by simp
  from this [unfolded sendable_def, THEN spec, of "bs = []"] obtain m where m: "groups_message s (bs = []) b = Inr m"
      "mh_type (Message_get_message_header m) = Set_endian GROUPS_MESS OR (if bs = [] then AGREED_MESS else RELIABLE_MESS)"
    by blast
  have "Message_get_packet_type (mh_type (Message_get_message_header m)) \<noteq> - 1" unfolding m(2) using groups_types(3,4) by (simp split: if_split)
  then have st: "send_bufs (b # bs) s = send_bufs bs (g_emit [groups_call m] s)"
    using m(1) by (simp add: Prot_Create_Down_Link_def groups_call_def)
  have "\<forall>b \<in> set bs. sendable (g_emit [groups_call m] s) b" using Cons.prems by (simp add: sendable_def)
  from Cons.IH [OF this] obtain ms where ms: "messages_of s bs ms" "send_bufs bs (g_emit [groups_call m] s) = Inr (g_emit (map groups_call ms) (g_emit [groups_call m] s))"
      "map is_agreed ms = map (\<lambda>i. Suc i = length bs) [0..<length bs]"
    by (auto simp: messages_of_def)
  have "messages_of s (b # bs) (m # ms)" using ms(1) m(1) by (auto simp: messages_of_def)
  moreover have "is_agreed m \<longleftrightarrow> bs = []" unfolding m(2) using groups_types(1,2) by (simp split: if_split)
  then have "map is_agreed (m # ms) = map (\<lambda>i. Suc i = length (b # bs)) [0..<length (b # bs)]"
    using ms(3) by (simp add: upt_conv_Cons map_Suc_upt [symmetric] del: upt_Suc)
  ultimately show ?case using st ms(2) by (intro exI [of _ "m # ms"]) (simp add: g_emit_emit(1))
qed

section \<open>Reading\<close>

lemma read_messages:
  assumes L: "lib_ok L" and bs: "1001 \<le> sizeof_body (sess s)" and ss: "length (MySyncedSet s) \<le> 128"
    and len: "\<forall>b \<in> set (bufs_of first_time s pss). length b \<le> 99952" and ps: "\<forall>p \<in> set (concat pss). piece_ok p"
    and ms: "messages_of s (bufs_of first_time s pss) ms"
  shows "fold_res (\<lambda>m (sset, r). G_mess_to_groups L m sset r) ms (sset, r) =
    Inr (if first_time \<and> pss \<noteq> [] then Some (MySyncedSet s) else sset, absorb_all L (concat pss) r)"
  using len ps ms
proof (induction pss arbitrary: first_time ms sset r)
  case (Cons ps pss)
  let ?b = "put_preamble first_time s @ enc ps"
  obtain m ms' il where m: "ms = m # ms'" "groups_message s il ?b = Inr m" "messages_of s (bufs_of False s pss) ms'"
    using Cons.prems(3) by (cases ms) (auto simp: messages_of_def)
  have "length ?b \<le> 99952" "\<forall>p \<in> set ps. piece_ok p" using Cons.prems(1,2) by auto
  from groups_message_read [OF L bs ss refl this, where is_last = il and sset = sset and r = r] m(2)
  have "G_mess_to_groups L m sset r = Inr (if first_time then Some (MySyncedSet s) else sset, absorb_all L ps r)" by auto
  moreover have "\<forall>b \<in> set (bufs_of False s pss). length b \<le> 99952" "\<forall>p \<in> set (concat pss). piece_ok p" using Cons.prems(1,2) by auto
  note Cons.IH [OF this m(3)]
  ultimately show ?case by (simp add: m(1))
qed (simp add: messages_of_def)

section \<open>The parts are the groups\<close>

text \<open>What a speaker says: its groups and their daemons, with the identifier of the group.\<close>

definition told :: "groups_state \<Rightarrow> (string \<times> daemon_members) set" where
  "told s = (\<Union>g \<in> set (GroupsList s). Pair (g_name g) ` stamped (gid_memb_id (grp_id g)) ` set (DaemonsList g))"

lemma pieces_keys: "concat (map piece_keys ps) = map (\<lambda>x. (g_name (fst x), dm_proc_id (snd x))) (concat (map piece_tags ps))"
  by (induction ps) (simp_all add: piece_keys_def piece_tags_def)

lemma pieces_known: "(\<Union>p \<in> set ps. piece_known p) = (\<lambda>(g, d). (g_name g, stamped (gid_memb_id (grp_id g)) d)) ` set (concat (map piece_tags ps))"
  by (simp add: piece_known_def piece_tags_def image_UN image_image)

lemma keys_distinct:
  assumes "distinct (map g_name gs)" and "\<forall>g \<in> set gs. distinct (map dm_proc_id (DaemonsList g))"
  shows "distinct (map (\<lambda>x. (g_name (fst x), dm_proc_id (snd x))) (concat (map (\<lambda>g. piece_tags (g, DaemonsList g)) gs)))"
  using assms
proof (induction gs)
  case (Cons g gs)
  have "distinct (map (\<lambda>x. (g_name (fst x), dm_proc_id (snd x))) (piece_tags (g, DaemonsList g)))"
    using Cons.prems(2) by (auto simp: piece_tags_def distinct_map inj_on_def)
  moreover have "g_name g \<notin> g_name ` set gs" using Cons.prems(1) by simp
  ultimately show ?case using Cons by (auto simp: piece_tags_def)
qed simp

lemma covers_told:
  assumes "covers ps (GroupsList s) (first_daemons (GroupsList s))" and "speaker_ok s"
  shows "distinct (concat (map piece_keys ps))" and "(\<Union>p \<in> set ps. piece_known p) = told s" and "fst ` set ps = set (GroupsList s)"
    and "p \<in> set ps \<Longrightarrow> set (snd p) \<subseteq> set (DaemonsList (fst p))"
proof -
  have c: "concat (map piece_tags ps) = concat (map (\<lambda>g. piece_tags (g, DaemonsList g)) (GroupsList s))" and f: "fst ` set ps = set (GroupsList s)"
    using assms(1) by (simp_all add: covers_def tagged_first)
  have ok: "lists_ok s" using assms(2) by (simp add: speaker_ok_def)
  then have "\<forall>g \<in> set (GroupsList s). distinct (map dm_proc_id (DaemonsList g))"
    using skl_sorted_distinct [OF cmp_ok_daemons] unfolding lists_ok_def group_ok_def by blast
  then show "distinct (concat (map piece_keys ps))" unfolding pieces_keys c by (rule keys_distinct [OF lists_distinct [OF ok]])
  show "(\<Union>p \<in> set ps. piece_known p) = told s" unfolding pieces_known c by (simp add: told_def piece_tags_def image_UN image_image)
  show "fst ` set ps = set (GroupsList s)" by (rule f)
  assume p: "p \<in> set ps"
  show "set (snd p) \<subseteq> set (DaemonsList (fst p))"
  proof
    fix x assume "x \<in> set (snd p)"
    then have "(fst p, x) \<in> set (concat (map piece_tags ps))" using p by (auto simp: piece_tags_def)
    then show "x \<in> set (DaemonsList (fst p))" unfolding c by (auto simp: piece_tags_def)
  qed
qed

section \<open>The exchange\<close>

lemma speaker_absorbed:
  assumes L: "lib_ok L" and s: "speaker_ok s" and r: "lists_ok r"
    and other: "\<forall>x \<in> known_daemons s. \<forall>y \<in> known_daemons r. dm_proc_id (snd x) \<noteq> dm_proc_id (snd y)"
    and cov: "covers ps (GroupsList s) (first_daemons (GroupsList s))" and pok: "\<forall>p \<in> set ps. piece_ok p"
  shows "lists_ok (absorb_all L ps r) \<and> lists_only r (absorb_all L ps r) \<and> known_daemons (absorb_all L ps r) = known_daemons r \<union> told s \<and>
    (\<forall>n m. gid_of (absorb_all L ps r) n = Some m \<longleftrightarrow> gid_of r n = Some m \<or> gid_of r n = None \<and> gid_of s n = Some m) \<and>
    (\<forall>g \<in> set (GroupsList s). DaemonsList g \<noteq> [] \<longrightarrow>
       (is_changed (absorb_all L ps r) (g_name g) \<longleftrightarrow> is_changed r (g_name g) \<or> g_changed g \<or> gid_of r (g_name g) \<notin> {None, gid_of s (g_name g)}))"
proof -
  note ct = covers_told [OF cov s]
  have ok: "lists_ok s" using s by (simp add: speaker_ok_def)
  have uniq: "g = h" if "g \<in> set (GroupsList s)" "h \<in> set (GroupsList s)" "g_name g = g_name h" for g h
    using that lists_distinct [OF ok] by (auto simp: distinct_map inj_on_def)
  have mem: "p \<in> set ps \<Longrightarrow> fst p \<in> set (GroupsList s)" for p unfolding ct(3) [symmetric] by (rule imageI)
  have a1: "\<forall>p \<in> set ps. length (g_name (fst p)) < 32" using pok by (auto simp: piece_ok_def name_ok_def)
  have a2: "\<forall>p \<in> set ps. unmet r p"
  proof
    fix p assume p: "p \<in> set ps"
    have "(g_name (fst p), d) \<in> known_daemons s" if "d \<in> set (snd p)" for d using knownI [OF mem [OF p]] ct(4) [OF p] that by blast
    then show "unmet r p" unfolding unmet_def using other by fastforce
  qed
  have a3: "\<forall>p \<in> set ps. \<forall>q \<in> set ps. g_name (fst p) = g_name (fst q) \<longrightarrow> piece_gid p = piece_gid q" using uniq mem by metis
  note ab = absorb_all_ok [OF L r a1 ct(1) a2 a3]
  have gid: "gid_of s n = Some m \<longleftrightarrow> (\<exists>p \<in> set ps. g_name (fst p) = n \<and> piece_gid p = m)" for n m
    unfolding gid_of_Some [OF ok] ct(3) [symmetric] by blast
  have "is_changed (absorb_all L ps r) (g_name g) \<longleftrightarrow> is_changed r (g_name g) \<or> g_changed g \<or> gid_of r (g_name g) \<notin> {None, gid_of s (g_name g)}"
    if g: "g \<in> set (GroupsList s)" "DaemonsList g \<noteq> []" for g
  proof -
    have gs: "gid_of s (g_name g) = Some (gid_memb_id (grp_id g))" using gid_of_Some [OF ok] g(1) by blast
    obtain p where p: "p \<in> set ps" "fst p = g" "snd p \<noteq> []"
    proof -
      obtain d where "d \<in> set (DaemonsList g)" using g(2) by (cases "DaemonsList g") auto
      then have "(g, d) \<in> set (concat (map (\<lambda>g. piece_tags (g, DaemonsList g)) (GroupsList s)))" using g(1) by (auto simp: piece_tags_def)
      then have "(g, d) \<in> set (concat (map piece_tags ps))" using cov by (simp add: covers_def tagged_first)
      then show ?thesis using that by (fastforce simp: piece_tags_def)
    qed
    have only: "fst q = g" if "q \<in> set ps" "g_name (fst q) = g_name g" for q using uniq [OF mem [OF that(1)] g(1)] that(2) by blast
    have "(\<exists>q \<in> set ps. g_name (fst q) = g_name g \<and> (g_changed (fst q) \<or> snd q \<noteq> [] \<and> gid_of r (g_name g) \<notin> {None, Some (piece_gid q)})) \<longleftrightarrow>
        g_changed g \<or> gid_of r (g_name g) \<notin> {None, Some (gid_memb_id (grp_id g))}"
      using p only by metis
    then show ?thesis unfolding gs ab [THEN conjunct2, THEN conjunct2, THEN conjunct2, THEN conjunct2, rule_format] by blast
  qed
  then show ?thesis using ab ct(2) gid by simp
qed

lemma exchange_ok:
  assumes L: "lib_ok L" and s: "speaker_ok s" "Groups_bufs s = []" and r: "lists_ok r"
    and other: "\<forall>x \<in> known_daemons s. \<forall>y \<in> known_daemons r. dm_proc_id (snd x) \<noteq> dm_proc_id (snd y)"
    and zs: "merge_synced (gr_Config r) (MySyncedSet r) (MySyncedSet s) = Inr zs" "length zs \<le> 128"
  shows "\<exists>ms s' r'. send_new_bufs s = Some (Inr s') \<and> s_out (sess s') = s_out (sess s) @ map groups_call ms \<and>
    map is_agreed ms = map (\<lambda>i. Suc i = length ms) [0..<length ms] \<and>
    read_link L \<lparr> gm_rep_proc_id = i, gm_complete = True, gm_messages = rev ms \<rparr> (sset, r) = Inr (Some (MySyncedSet s), r') \<and>
    lists_ok r' \<and> MySyncedSet r' = zs \<and> known_daemons r' = known_daemons r \<union> told s \<and>
    (\<forall>n m. gid_of r' n = Some m \<longleftrightarrow> gid_of r n = Some m \<or> gid_of r n = None \<and> gid_of s n = Some m) \<and>
    (\<forall>g \<in> set (GroupsList s). DaemonsList g \<noteq> [] \<longrightarrow>
       (is_changed r' (g_name g) \<longleftrightarrow> is_changed r (g_name g) \<or> g_changed g \<or> gid_of r (g_name g) \<notin> {None, gid_of s (g_name g)}))"
proof -
  obtain s1 where s1: "G_build_new_groups_bufs s = Some (Inr s1)" using s(1) build_bufs_iff [of s] by (auto simp: speaker_ok_def)
  then obtain bufs where bufs: "build_bufs True (GroupsList s) (first_daemons (GroupsList s)) s [] = Some bufs" "s1 = s\<lparr> Groups_bufs := bufs \<rparr>"
    using s(2) by (auto simp: G_build_new_groups_bufs_def)
  have "length (put_preamble True s) \<le> 99952" using s(1) by (simp add: put_preamble_def speaker_ok_def)
  then obtain pss where pss: "bufs = rev (bufs_of True s pss)" "pss \<noteq> []" "covers (concat pss) (GroupsList s) (first_daemons (GroupsList s))"
      "\<forall>b \<in> set (bufs_of True s pss). length b \<le> 99952"
    using build_bufs_pieces [OF bufs(1)] by (auto simp: built_def)
  let ?ps = "concat pss"
  note ct = covers_told [OF pss(3) s(1)]
  have pok: "\<forall>p \<in> set ?ps. piece_ok p" using pieces_ok [OF s(1) pss(4)] ct(3,4) by blast
  have bs: "1001 \<le> sizeof_body (sess s)" "length (MySyncedSet s) \<le> 128" using s(1) by (simp_all add: speaker_ok_def)
  define s2 where "s2 = s\<lparr> Groups_bufs := bufs, Groups_bufs_fresh := True \<rparr>"
  have snd: "send_new_bufs s = Some (send_bufs bufs s2)" using s1 by (simp add: send_new_bufs_def bufs(2) G_send_groups_messages_def s2_def)
  have "\<forall>b \<in> set bufs. sendable s2 b"
  proof
    fix b assume "b \<in> set bufs"
    then have b: "b \<in> set (bufs_of True s pss)" by (simp add: pss(1))
    then obtain ft ps where ps: "ps \<in> set pss" "b = put_preamble ft s @ enc ps" using bufs_of_mem by blast
    have "\<forall>p \<in> set ps. piece_ok p" using pok ps(1) by auto
    note m = groups_message_read [OF L bs ps(2) pss(4) [rule_format, OF b] this]
    show "sendable s2 b" unfolding sendable_def s2_def groups_message_bufs
    proof
      fix is_last
      from m [where is_last = is_last and sset = None and r = r]
      show "\<exists>m. groups_message s is_last b = Inr m \<and>
          mh_type (Message_get_message_header m) = Set_endian GROUPS_MESS OR (if is_last then AGREED_MESS else RELIABLE_MESS)"
        by (elim exE conjE) (intro exI conjI)
    qed
  qed
  from send_bufs_messages [OF this] obtain ms where ms: "messages_of s bufs ms" "send_bufs bufs s2 = Inr (g_emit (map groups_call ms) s2)"
      "map is_agreed ms = map (\<lambda>i. Suc i = length bufs) [0..<length bufs]"
    by (auto simp: messages_of_def s2_def)
  have len: "length ms = length bufs" using ms(1) by (simp add: messages_of_def list_all2_lengthD)
  have "messages_of s (bufs_of True s pss) (rev ms)" 
    using ms(1) list_all2_rev [of _ "bufs_of True s pss" "rev ms"] by (simp add: messages_of_def pss(1))
  note rd = read_messages [OF L bs pss(4) pok this, of sset r]
  let ?r = "absorb_all L ?ps r"
  note ab = speaker_absorbed [OF L s(1) r other pss(3) pok]
  obtain gs n where only: "?r = r\<lparr> GroupsList := gs, Num_groups := n \<rparr>" using ab by (auto simp: lists_only_def)
  have add: "G_add_to_synced_set (Some (MySyncedSet s)) ?r = Inr (?r\<lparr> MySyncedSet := zs \<rparr>)"
    using zs by (simp add: G_add_to_synced_set_def only)
  have rl: "read_link L \<lparr> gm_rep_proc_id = i, gm_complete = True, gm_messages = rev ms \<rparr> (sset, r) = Inr (Some (MySyncedSet s), ?r\<lparr> MySyncedSet := zs \<rparr>)"
    unfolding read_link_def using rd pss(2) add by simp
  have out: "s_out (sess (g_emit (map groups_call ms) s2)) = s_out (sess s) @ map groups_call ms" by (simp add: g_emit_def s_emit_def s2_def)
  have frame: "lists_ok (?r\<lparr> MySyncedSet := zs \<rparr>) = lists_ok ?r" "known_daemons (?r\<lparr> MySyncedSet := zs \<rparr>) = known_daemons ?r"
      "gid_of (?r\<lparr> MySyncedSet := zs \<rparr>) = gid_of ?r" "is_changed (?r\<lparr> MySyncedSet := zs \<rparr>) = is_changed ?r"
    by (simp_all add: lists_ok_def known_daemons_def gid_of_def cur_group_def is_changed_def fun_eq_iff)
  show ?thesis
    using snd ms(2,3) rl out ab len frame
    by (intro exI [of _ ms] exI [of _ "g_emit (map groups_call ms) s2"] exI [of _ "?r\<lparr> MySyncedSet := zs \<rparr>"]) simp
qed

end
