(* ===== verification/Group_Forged.thy ===== *)
theory Group_Forged
  imports Group_Gather Session_Oversize
begin

text \<open>
  A message of a client that every daemon takes for one of the exchange of groups: the type of a
  regular message with the bit of GROUPS messages.
\<close>

definition forged_header :: "string \<Rightarrow> string \<Rightarrow> message_header" where
  "forged_header user daemon_name = (data_header user daemon_name 0)\<lparr> mh_type := Set_endian (AGREED_MESS OR GROUPS_MESS) \<rparr>"

lemma forged_type: "mh_type (forged_header u p) = Set_endian (AGREED_MESS OR GROUPS_MESS)"
  by (simp add: forged_header_def)

lemma forged_bits:
  fixes t :: "32 word"
  assumes "t = Set_endian (AGREED_MESS OR GROUPS_MESS)"
  shows "count_bits_set t 0 6 = 1" "count_bits_set t 16 19 = 0" "Same_endian t" "Set_endian t = t" "\<not> has_mess t LEAVE_MESS" "\<not> has_mess t JOIN_MESS"
    "\<not> has_mess t KILL_MESS" "has_mess t GROUPS_MESS" "\<not> Is_only_regular_mess t" "Message_get_packet_type t = AGREED_TYPE"
  unfolding assms by code_simp+

lemma forged_canon: "native_header (forged_header u p) = forged_header u p" "header_ok (forged_header u p)"
proof -
  show "native_header (forged_header u p) = forged_header u p"
    using forged_bits(3,4) [OF forged_type [of u p]] by (simp add: native_header_def Let_def)
  show "header_ok (forged_header u p)" using data_header_canon(2) [of 0 u p] by (simp add: header_ok_def forged_header_def)
qed

lemma terminate_forged: "private_name_ok u \<Longrightarrow> proc_name_ok p \<Longrightarrow> terminate_name (forged_header u p) = forged_header u p"
  using terminate_data_header [of u p 0] by (simp add: terminate_name_def forged_header_def data_header_def)

lemma forged_valid:
  assumes "private_name_ok u" and "proc_name_ok p" and "48 < bs"
  shows "Sess_validate_read_header bs u p (forged_header u p)"
proof -
  have "G_private_to_names (mh_private_group_name (terminate_name (forged_header u p))) = Some (u, p)"
    using G_private_to_names_legal [OF assms(1,2)] terminate_forged [OF assms(1,2)] by (simp add: data_header_def forged_header_def)
  then show ?thesis using assms(3) forged_bits(1,2) [OF forged_type [of u p]]
    by (simp add: Sess_validate_read_header_def Let_def) (simp add: data_header_def forged_header_def MAX_MESSAGE_BODY_LEN_def)
qed

section \<open>Reading it\<close>

lemma read_session_forged:
  assumes f: "fresh e" and n: "48 < n" and u: "private_name_ok u" "proc_name_ok p" and chk: "check (forged_header u p)"
    and inp: "sk_in k = put_header (forged_header u p)" and ans: "sk_recv k = [Got 48]"
  shows "\<exists>m e' k'. read_session (int n) check e k = Inr (Msg m, e', k') \<and> Message_get_message_header m = forged_header u p \<and> s_acp_ops e' = s_acp_ops e"
proof -
  let ?h = "forged_header u p" and ?m = "Message_new_message (int n)"
  let ?k = "k\<lparr> sk_recv := [], sk_in := [] \<rparr>"
  let ?w = "\<lparr> in_mess_head = 1, pm_cur_element = 0, pm_cur_byte = 0, pm_total_bytes = 0 \<rparr> :: partial_message_info"
  note c = forged_canon [of u p]
  define m1 where "m1 = write_element 0 0 (put_header ?h) ?m"
  have "read_header ?m ?w k = (Read_complete, m1, place 0 48 0, ?k)"
    using inp ans by (simp add: read_header_def sock_recv_def Let_def m1_def Message_set_location_begin_body_def)
  moreover have "Message_get_message_header m1 = ?h"
    using get_put_header [OF c(2)] n by (simp add: m1_def write_element_def Message_new_message_def Message_get_message_header_def write_at_def)
  ultimately have rs: "read_session (int n) check e k = read_message (int n) e (set_header ?h m1) (place 0 48 0) ?k"
    using f chk terminate_forged [OF u] c(1) by (simp add: read_session_def fresh_def Message_reset_current_location_def)
  define m2 where "m2 = set_header ?h m1"
  have m1: "length m1 = 1" "length (se_buf (hd m1)) = n" using n by (simp_all add: m1_def write_element_def Message_new_message_def)
  note b = set_header_flat [where h = ?h, OF m1 n, folded m2_def]
  have h: "Message_get_message_header m2 = ?h" using header_of_flat [OF b(1) c(2) body_bufs [OF b(2)] n] .
  have sz: "read_size m2 = 0" using h by (simp add: read_size_def Let_def forged_header_def data_header_def)
  obtain x where x: "m2 = [x]" using m1 by (cases m1) (auto simp: m2_def set_header_def)
  have "Message_element_len_fixup (int n) m2 = Inr [x\<lparr> se_len := 48 \<rparr>]"
    using h n by (simp add: Message_element_len_fixup_def Let_def forged_header_def data_header_def x set_element_len_def)
  moreover have "Message_get_message_header [x\<lparr> se_len := 48 \<rparr>] = ?h" using h by (simp add: x Message_get_message_header_def)
  moreover have "read_body (int n) 0 m2 (place 0 48 0) ?k = Inr (Read_complete, m2, place 0 48 0, ?k)" by (subst read_body.simps) simp
  ultimately show ?thesis using sz by (simp add: rs read_message_def m2_def [symmetric])
qed

text \<open>What becomes of it.\<close>

lemma forged_allowed: "Message_get_message_header m = forged_header u p \<Longrightarrow> access_decision num_local ops m = Inr Allow"
  using forged_bits(5,6,9) [OF forged_type [of u p]] by (simp add: access_decision_def Let_def)

lemma forged_passed:
  "Message_get_message_header m = forged_header u p \<Longrightarrow>
   pass_down i m s = Some (Inr (s_emit [Prot_new_message_call \<lparr> dl_type = AGREED_TYPE, dl_mess = m \<rparr>] s))"
  using forged_bits(7,10) [OF forged_type [of u p]] by (simp add: pass_down_def Let_def Prot_Create_Down_Link_def)

lemma forged_fatal:
  assumes "Message_get_message_header m = forged_header u p" and "Gstate s \<in> {GOP, GTRANS}"
  shows "Sess_deliver_message L m s = Some (Inl (Alarm_exit ''G_handle_groups''))"
  using assms(2) forged_bits(3,5-8) [OF forged_type [of u p]]
  by (auto simp: Sess_deliver_message_def Message_endian_correct_message_header_def assms(1) Let_def G_handle_groups_def)

lemma forged_message_fatal:
  assumes "sess_ok ss s" and "i \<in> set ss" and "fresh (ses_of s i)" and "48 < sizeof_body s"
    and "private_name_ok (s_name (ses_of s i))" and "proc_name_ok (my_name s)"
    and "sk_in (socks s (s_mbox (ses_of s i))) = put_header (forged_header (s_name (ses_of s i)) (my_name s))"
    and "sk_recv (socks s (s_mbox (ses_of s i))) = [Got 48]"
  shows "\<exists>m s'. Sess_read num_local (s_mbox (ses_of s i)) s = Some (Inr s') \<and>
    s_out s' = s_out s @ [Prot_new_message_call \<lparr> dl_type = AGREED_TYPE, dl_mess = m \<rparr>] \<and>
    (\<forall>L r. Gstate r \<in> {GOP, GTRANS} \<longrightarrow> Sess_deliver_message L m r = Some (Inl (Alarm_exit ''G_handle_groups'')))"
proof -
  let ?u = "s_name (ses_of s i)" and ?p = "my_name s" and ?b = "s_mbox (ses_of s i)"
  let ?check = "Sess_validate_read_header (sizeof_body s) ?u ?p"
  define n where "n = nat (sizeof_body s)"
  have n: "sizeof_body s = int n" "48 < n" using assms(4) by (auto simp: n_def)
  obtain m e' k' where m: "read_session (sizeof_body s) ?check (ses_of s i) (socks s ?b) = Inr (Msg m, e', k')" "Message_get_message_header m = forged_header ?u ?p"
      "s_acp_ops e' = s_acp_ops (ses_of s i)"
    using read_session_forged [where check = ?check, OF assms(3) n(2) assms(5,6) _ assms(7,8)] forged_valid [OF assms(5,6,4)] n(1) by auto
  have "Sess_read num_local ?b s = pass_down i m (set_sock ?b k' (upd_ses i (\<lambda>_. e') s))"
    using sess_index [OF assms(1,2)] m(1) forged_allowed [OF m(2)] by (simp add: Sess_read_def Let_def)
  then show ?thesis using forged_passed [OF m(2)] forged_fatal [OF m(2)]
    by (intro exI [of _ m]) (simp add: s_emit_def set_sock_def upd_ses_def)
qed

end
