(* ===== verification/Group_Properties.thy ===== *)
theory Group_Properties
  imports Group_Union Group_Forged Session_Properties Sample
begin

text \<open>
  The properties of the groups: the exchange between daemons that come together, when it can be
  started at all, and a message of a client that ends every daemon.
\<close>

section \<open>Containers and a small state\<close>

text \<open>Lists that are kept in order do what the library promises for its skip lists.\<close>

definition list_skl :: "('e \<Rightarrow> 'k) \<Rightarrow> ('e, 'k) skl_ops" where
  "list_skl key = \<lparr> skl_find = (\<lambda>cmp xs k. List.find (\<lambda>x. cmp (key x) k = 0) xs),
     skl_put = (\<lambda>cmp xs e. filter (\<lambda>x. cmp (key x) (key e) < 0) xs @ e # filter (\<lambda>x. 0 < cmp (key x) (key e)) xs),
     skl_erase = (\<lambda>cmp xs k. filter (\<lambda>x. cmp (key x) k \<noteq> 0) xs) \<rparr>"

definition list_lib :: std_lib where
  "list_lib = \<lparr> lib_groups = list_skl g_name, lib_daemons = list_skl dm_proc_id, lib_members = list_skl cstr, lib_vs = list_skl vs_key,
     arr_push = (\<lambda>xs x. xs @ [x]), arr_pop = butlast \<rparr>"

lemma list_lib_ok: "lib_ok list_lib"
  by (simp add: lib_ok_def list_lib_def skl_ok_def list_skl_def)

definition idle_socket :: socket where
  "idle_socket = \<lparr> sk_send = [], sk_recv = [], sk_in = [], sk_sent = [] \<rparr>"

definition sample_groups :: "proc_id list \<Rightarrow> group list \<Rightarrow> groups_state" where
  "sample_groups synced gs = \<lparr> Gstate = GOP, gr_Trans_memb = sample_conf, gr_Trans_memb_id = \<lparr> m_proc_id = 1, m_time = 5 \<rparr>,
     gr_Reg_memb = sample_conf, gr_Reg_memb_id = \<lparr> m_proc_id = 1, m_time = 6 \<rparr>, Groups_bufs = [], Groups_bufs_fresh = False,
     Num_mess_gathered = 0, Num_daemons_gathered = 0, Gathered_complete = False, Gathered = [], GroupsList = gs,
     Num_groups = int (length gs), MySyncedSet = synced, Cn_active = sample_conf, gr_Config = sample_conf, gr_My = sample_proc 1 0 0,
     sess = sample_sessions 1364 idle_socket \<rparr>"

definition sample_group :: "proc_id \<Rightarrow> string list \<Rightarrow> group" where
  "sample_group i ms = \<lparr> g_name = ''g'', grp_id = \<lparr> gid_memb_id = \<lparr> m_proc_id = i, m_time = 4 \<rparr>, gid_index = 2 \<rparr>, g_changed = False,
     g_num_members = int (length ms),
     DaemonsList = [\<lparr> dm_proc_id = i, dm_memb_id = \<lparr> m_proc_id = i, m_time = 4 \<rparr>, MembersList = ms \<rparr>], mboxes = [] \<rparr>"

lemma sample_groups_lists: "lists_ok (sample_groups synced [sample_group i ms])"
  by (simp add: lists_ok_def sample_groups_def sample_group_def group_ok_def skl_sorted_def)

section \<open>The exchange of groups\<close>

text \<open>
  C38. When the ring has changed, the first daemon of every synced set sends the groups of its set in
  GROUPS messages, of which only the last is agreed; the others put each to the front of what they
  have gathered from it. A daemon of another set that reads them then knows exactly what both knew:
  its own daemons of every group, and those of the sender, with all their members and with the
  identifier of the sender's group; its lists stay sorted and its counts right, and its synced set
  becomes the merge of both. A group that only the sender had takes the sender's identifier; a group
  that both had under different identifiers, or that one of them had marked, is marked as changed,
  so that its members will be told. Nothing is lost or made up, however the groups and daemons are
  split into buffers.
\<close>

theorem groups_exchanged:
  assumes "lib_ok L" and "speaker_ok s" and "Groups_bufs s = []" and "lists_ok r"
    and "\<forall>x \<in> known_daemons s. \<forall>y \<in> known_daemons r. dm_proc_id (snd x) \<noteq> dm_proc_id (snd y)"
    and "merge_synced (gr_Config r) (MySyncedSet r) (MySyncedSet s) = Inr zs" and "length zs \<le> 128"
  shows "\<exists>ms s' r'. send_new_bufs s = Some (Inr s') \<and> s_out (sess s') = s_out (sess s) @ map groups_call ms \<and>
    map is_agreed ms = map (\<lambda>j. Suc j = length ms) [0..<length ms] \<and>
    read_link L \<lparr> gm_rep_proc_id = i, gm_complete = True, gm_messages = rev ms \<rparr> (sset, r) = Inr (Some (MySyncedSet s), r') \<and>
    lists_ok r' \<and> MySyncedSet r' = zs \<and> known_daemons r' = known_daemons r \<union> told s \<and>
    (\<forall>n m. gid_of r' n = Some m \<longleftrightarrow> gid_of r n = Some m \<or> gid_of r n = None \<and> gid_of s n = Some m) \<and>
    (\<forall>g \<in> set (GroupsList s). DaemonsList g \<noteq> [] \<longrightarrow>
       (is_changed r' (g_name g) \<longleftrightarrow> is_changed r (g_name g) \<or> g_changed g \<or> gid_of r (g_name g) \<notin> {None, gid_of s (g_name g)}))"
  by (rule exchange_ok [OF assms])

theorem groups_exchanged_witness:
  "\<exists>ms s' r'. send_new_bufs (sample_groups [1] [sample_group 1 [strncpy ''#u#d'' 32]]) = Some (Inr s') \<and>
    read_link list_lib \<lparr> gm_rep_proc_id = 1, gm_complete = True, gm_messages = rev ms \<rparr> (None, sample_groups [3] [sample_group 3 [strncpy ''#v#e'' 32]]) =
      Inr (Some [1], r') \<and> MySyncedSet r' = [1, 3] \<and> is_changed r' ''g'' \<and> gid_of r' ''g'' = Some \<lparr> m_proc_id = 3, m_time = 4 \<rparr>"
proof -
  let ?s = "sample_groups [1] [sample_group 1 [strncpy ''#u#d'' 32]]" and ?r = "sample_groups [3] [sample_group 3 [strncpy ''#v#e'' 32]]"
  have "members_ok [strncpy ''#u#d'' 32]" by (simp add: members_ok_def skl_sorted_def)
  moreover have "name_ok ''g''" by (simp add: name_ok_def)
  ultimately have sp: "speaker_ok ?s"
    using sample_groups_lists [of "[1]" 1 "[strncpy ''#u#d'' 32]"]
    by (simp add: speaker_ok_def sample_groups_def sample_group_def gid_ok_def memb_id_ok_def MAX_LOCAL_GROUP_MEMBERS_def sample_sessions_def)
  have ne: "\<forall>x \<in> known_daemons ?s. \<forall>y \<in> known_daemons ?r. dm_proc_id (snd x) \<noteq> dm_proc_id (snd y)"
    by (simp add: known_daemons_def sample_groups_def sample_group_def)
  have mg: "merge_synced (gr_Config ?r) (MySyncedSet ?r) (MySyncedSet ?s) = Inr [1, 3]"
    by (simp add: sample_groups_def sample_conf_def sample_proc_def Conf_proc_ref_by_id_in_conf_def guard_res_def)
  have f: "gid_of ?s ''g'' = Some \<lparr> m_proc_id = 1, m_time = 4 \<rparr>" "gid_of ?r ''g'' = Some \<lparr> m_proc_id = 3, m_time = 4 \<rparr>" "MySyncedSet ?s = [1]"
    by (simp_all add: gid_of_def cur_group_def sample_groups_def sample_group_def)
  have g: "\<exists>g \<in> set (GroupsList ?s). g_name g = ''g'' \<and> DaemonsList g \<noteq> []" by (simp add: sample_groups_def sample_group_def)
  from groups_exchanged [OF list_lib_ok sp _ sample_groups_lists ne mg, of 1 None]
  obtain ms s' r' where "send_new_bufs ?s = Some (Inr s')"
      "read_link list_lib \<lparr> gm_rep_proc_id = 1, gm_complete = True, gm_messages = rev ms \<rparr> (None, ?r) = Inr (Some (MySyncedSet ?s), r')"
      "MySyncedSet r' = [1, 3]" "\<forall>n m. gid_of r' n = Some m \<longleftrightarrow> gid_of ?r n = Some m \<or> gid_of ?r n = None \<and> gid_of ?s n = Some m"
      "\<forall>g \<in> set (GroupsList ?s). DaemonsList g \<noteq> [] \<longrightarrow>
       (is_changed r' (g_name g) \<longleftrightarrow> is_changed ?r (g_name g) \<or> g_changed g \<or> gid_of ?r (g_name g) \<notin> {None, gid_of ?s (g_name g)})"
    by (auto simp: sample_groups_def)
  then show ?thesis using f g by (intro exI [of _ ms] exI [of _ s'] exI [of _ r']) auto
qed

text \<open>
  C39. \<open>G_build_new_groups_bufs\<close> returns exactly when no daemon has \<open>MAX_LOCAL_GROUP_MEMBERS\<close> members
  or more in a group. The session layer lets so many clients of a daemon join a group, because the
  limit leaves out the header of the message that the code adds to the size of every daemon: with
  as many, the daemon fits into no buffer, and the loop adds buffers for ever at the next change
  of the ring.
\<close>

theorem groups_buffers_end:
  "(\<exists>s'. G_build_new_groups_bufs s = Some (Inr s')) \<longleftrightarrow>
   (\<forall>g \<in> set (GroupsList s). \<forall>d \<in> set (DaemonsList g). int (length (MembersList d)) < MAX_LOCAL_GROUP_MEMBERS)"
  by (rule build_bufs_iff)

theorem groups_buffers_end_witness:
  "(\<exists>s'. G_build_new_groups_bufs (sample_groups [1] [sample_group 1 [strncpy ''#u#d'' 32]]) = Some (Inr s')) \<and>
   \<not> (\<exists>s'. G_build_new_groups_bufs (sample_groups [1] [sample_group 1 (replicate 3122 (strncpy ''#u#d'' 32))]) = Some (Inr s'))"
  unfolding groups_buffers_end by (simp add: sample_groups_def sample_group_def MAX_LOCAL_GROUP_MEMBERS_def)

section \<open>A message of a client\<close>

text \<open>
  C40. Any client can end all daemons. A header with the types of an agreed message and of a GROUPS
  message passes \<open>Sess_validate_read_header\<close>, which counts the bits of the regular types and those
  of join, leave and kill; no access control is asked, since it is not only a regular message. It is
  sent as it is, and every daemon that delivers it outside an exchange of groups exits in
  \<open>G_handle_groups\<close>.
\<close>

theorem forged_groups_message_fatal:
  assumes "sess_ok ss s" and "i \<in> set ss" and "fresh (ses_of s i)" and "48 < sizeof_body s"
    and "private_name_ok (s_name (ses_of s i))" and "proc_name_ok (my_name s)"
    and "sk_in (socks s (s_mbox (ses_of s i))) = put_header (forged_header (s_name (ses_of s i)) (my_name s))"
    and "sk_recv (socks s (s_mbox (ses_of s i))) = [Got 48]"
  shows "\<exists>m s'. Sess_read num_local (s_mbox (ses_of s i)) s = Some (Inr s') \<and>
    s_out s' = s_out s @ [Prot_new_message_call \<lparr> dl_type = AGREED_TYPE, dl_mess = m \<rparr>] \<and>
    (\<forall>L r. Gstate r \<in> {GOP, GTRANS} \<longrightarrow> Sess_deliver_message L m r = Some (Inl (Alarm_exit ''G_handle_groups'')))"
  by (rule forged_message_fatal [OF assms])

theorem forged_groups_message_fatal_witness:
  "\<exists>m s'. Sess_read (\<lambda>_. 0) 5 (sample_sessions 64 \<lparr> sk_send = [], sk_recv = [Got 48], sk_in = put_header (forged_header ''u'' ''d''), sk_sent = [] \<rparr>) = Some (Inr s') \<and>
    s_out s' = [Prot_new_message_call \<lparr> dl_type = AGREED_TYPE, dl_mess = m \<rparr>] \<and>
    Sess_deliver_message list_lib m (sample_groups [1] []) = Some (Inl (Alarm_exit ''G_handle_groups''))"
proof -
  let ?k = "\<lparr> sk_send = [], sk_recv = [Got 48], sk_in = put_header (forged_header ''u'' ''d''), sk_sent = [] \<rparr>"
  let ?s = "sample_sessions 64 ?k"
  have u: "private_name_ok ''u''" "proc_name_ok ''d''" by code_simp+
  have f: "ses_of ?s 0 = sample_session" "my_name ?s = ''d''" "sizeof_body ?s = 64" "socks ?s 5 = ?k" "s_name sample_session = ''u''"
      "s_mbox sample_session = 5" "fresh sample_session" "s_out ?s = []"
    by (simp_all add: sample_sessions_def sample_table_def sample_session_def fresh_def)
  have g: "Gstate (sample_groups [1] []) \<in> {GOP, GTRANS}" by (simp add: sample_groups_def)
  note o = forged_groups_message_fatal [OF sample_sessions_ok, of 0 64 ?k "\<lambda>_. 0", unfolded f]
  obtain m s' where "Sess_read (\<lambda>_. 0) 5 ?s = Some (Inr s')" "s_out s' = [Prot_new_message_call \<lparr> dl_type = AGREED_TYPE, dl_mess = m \<rparr>]"
      "\<forall>L r. Gstate r \<in> {GOP, GTRANS} \<longrightarrow> Sess_deliver_message L m r = Some (Inl (Alarm_exit ''G_handle_groups''))"
    using o u f(7) by auto
  then show ?thesis using g by blast
qed

end
