(* ===== verification/Spec2Isabelle.thy ===== *)
theory Spec2Isabelle
  imports Form_Properties Session_Properties Group_Properties
begin

text \<open>
  A model of the Spread daemon, version 5.0.1, whose C sources are under \<open>src/daemon\<close>: its ring
  protocol, its sessions with clients and their groups, with the theorems that make them correct.

  \<^bold>\<open>The program.\<close> Spread daemons form a ring. A token goes round it; the daemon that has the
  token numbers and sends its clients' messages, asks for packets it has missed, answers the
  requests of others and learns up to which number all daemons have everything (\<open>Aru\<close>).
  Messages are packed into packets, and packets are delivered to the sessions in the order of
  their numbers, SAFE ones only when they are stable. When the token is lost the membership
  algorithm gathers the daemons that can be reached and forms a new ring. The parts are the
  wire format (\<open>net_types.h\<close>, \<open>arch.h\<close>), the configuration (\<open>configuration.c\<close>), the network
  layer (\<open>network.c\<close>), flow control (\<open>flow_control.c\<close>), the protocol (\<open>protocol.c\<close>) and the
  membership algorithm (\<open>membership.c\<close>). Above them are the sessions with the clients
  (\<open>session.c\<close>, \<open>message.c\<close>), which ask the access control (\<open>acm.c\<close> with its methods) before they
  take a client's messages, and the groups that clients join (\<open>groups.c\<close>), which the daemons
  exchange when the ring changes; below them the event loop, the link layer and the log.

  \<^bold>\<open>State and errors.\<close> \<open>Daemon_State\<close> holds one record per file of static variables and the
  record \<open>daemon\<close> of all of them. An operation takes the state and returns it changed. Calls
  that leave the modelled code (datagrams, timers, hand-ups to the sessions, the log) are
  appended to \<open>out\<close> in the order in which they are made. A fatal alarm is \<open>Inl (Alarm_exit f)\<close>
  with the function's name; reading an uninitialised variable or outside an array, which C
  leaves undefined, is \<open>Inl (Undefined f)\<close>. The C integers are \<open>int\<close> where the code keeps them
  in range; identifiers, type words and the hash are 32-bit words, and every assignment to a
  16-bit variable converts (\<open>to_int16\<close>, \<open>to_int16u\<close>). Bodies of regular packets are lists of
  bytes, bodies of membership and monitor packets are the structures their handlers read.
  Memory management, log output and the return codes of sends, which no caller uses, are left
  out.

  \<^bold>\<open>Theories and sources.\<close>
  \<^item> \<open>Prelude\<close>: results, loops that may fail or stop early, C arithmetic, runs of a step relation.
  \<^item> \<open>Net_Types\<close>: type bits, headers, byte order. The contracts of the two token counters
    (\<open>nibble_pair\<close>) and of headers that can be turned round (\<open>flipper\<close>) are locales.
  \<^item> \<open>Configuration\<close>, \<open>Conf_Ring\<close>: \<open>configuration.c\<close>, and the ring as one list of daemons.
  \<^item> \<open>Selection\<close>, \<open>Members\<close>: the lists of members and representatives of \<open>membership.c\<close>; the
    sort is proved in the locale \<open>least_search\<close>.
  \<^item> \<open>Flow_Control\<close>: \<open>flow_control.c\<close>. \<open>Network\<close>: \<open>network.c\<close> but for \<open>Net_init\<close>.
  \<^item> \<open>Packing\<close>: the loops over the fragments of a packet in \<open>Send_new_packets\<close>,
    \<open>Deliver_packet\<close> and \<open>Prot_handle_bcast\<close>, on bytes.
  \<^item> \<open>Delivery\<close>, \<open>Discard\<close>: delivery, stability and the end of a view change.
  \<^item> \<open>Views\<close>, \<open>Membership\<close>: the memberships and the states of \<open>membership.c\<close>.
  \<^item> \<open>Form\<close>: the form tokens of \<open>membership.c\<close> that install a new ring.
  \<^item> \<open>Sending\<close>, \<open>Protocol\<close>: the queues, new packets, retransmissions, and the two handlers
    \<open>Prot_handle_bcast\<close> and \<open>Prot_handle_token\<close>.
  \<^item> \<open>Startup\<close>: \<open>Prot_init\<close> and \<open>Memb_init\<close>.
  \<^item> \<open>Messages\<close>: \<open>message.c\<close>, headers and buffers on bytes. \<open>Group_Names\<close>: private group names.
  \<^item> \<open>Sessions\<close>, \<open>Session_Table\<close>: the table of sessions of \<open>session.c\<close>, an array with a sorted
    list, a hash table and a free list threaded through it, and its invariant \<open>table_ok\<close>.
  \<^item> \<open>Access_Control\<close>: \<open>acm.c\<close>, \<open>auth-null.c\<close>, \<open>auth-ip.c\<close> and \<open>acp-permit.c\<close>.
  \<^item> \<open>Session_IO\<close>, \<open>Session_Read\<close>, \<open>Session_Accept\<close>: writing to clients, reading from them, and
    the way from a connection to a session. The module's state is \<open>sess_state\<close>. A socket is
    what the operating system will answer to \<open>send\<close> and \<open>recv\<close>, and what went through it.
  \<^item> \<open>Group_Data\<close>, \<open>Group_Notices\<close>, \<open>Group_Clients\<close>: the groups of \<open>groups.c\<close>, the messages about them
    to their local members, and joining, leaving and the end of a client. Skip lists and arrays
    come from a library that is not part of the sources: its operations are the argument \<open>L\<close>, and
    \<open>lib_ok\<close> is what it promises.
  \<^item> \<open>Group_Exchange\<close>, \<open>Group_Gather\<close>: the changes of the ring as the groups see them, the GROUPS
    messages, and \<open>Sess_deliver_message\<close>, from which all of this is called.

  \<^bold>\<open>Invariants.\<close> \<open>window_ok\<close> (in \<open>Delivery\<close>) is the invariant of the packet window: the counters
  are ordered, each number has its own slot, nothing up to \<open>My_aru\<close> is missing, and no SAFE
  packet is delivered before it is stable. \<open>Send_Frames\<close>, \<open>Send_Correct\<close>, \<open>Ring_Invariant\<close> and
  \<open>Token_Invariant\<close> carry it through sending, receiving and a whole visit of the token;
  \<open>Token_Total\<close> shows that such a visit does not end the process, \<open>Handlers\<close> that every event
  keeps the invariant (\<open>daemon_step\<close>), and \<open>Startup\<close> that it holds from the start on, by an
  interpretation of the locale \<open>step_system\<close>. \<open>Loss\<close> follows the loss of a token,
  \<open>Form_Correct\<close> the form tokens, and \<open>Form_Alone\<close> the forming of a ring of one daemon.
  \<open>Session_Life\<close> carries the invariant \<open>sess_inv\<close> of the sessions through every handler
  (\<open>sess_step\<close>), with the same locale. \<open>Session_Stream\<close> and \<open>Session_Delivery\<close> show what the
  clients are sent; \<open>Session_Framing\<close> and \<open>Session_Progress\<close> that a client's messages are put
  together; \<open>Session_Oversize\<close> follows a message that is too large. \<open>Group_Order\<close> shows that the
  orders of the groups' lists are orders; \<open>Group_Buffers\<close> when the GROUPS messages can be built;
  \<open>Group_Messages\<close>, \<open>Group_Roundtrip\<close> and \<open>Group_Pieces\<close> what is in them; \<open>Group_Merge\<close> and
  \<open>Group_Union\<close> what a daemon that reads them knows afterwards, with the invariant \<open>lists_ok\<close> of
  the groups; \<open>Group_Forged\<close> follows a message of a client that looks like one of them.

  \<^bold>\<open>Properties.\<close> \<open>Order_Properties\<close>, \<open>Message_Properties\<close>, \<open>Ring_Properties\<close>,
  \<open>Membership_Properties\<close>, \<open>Start_Properties\<close>, \<open>Form_Properties\<close>, \<open>Session_Properties\<close> and
  \<open>Group_Properties\<close> state what the parts promise: order and
  stability of delivery, round trips of messages and headers, authenticity of what is
  received, the way of the token, the membership's lists and views, recovery from the loss of
  a token, the start, the forming of a new ring, the table of sessions, the bytes that go to
  and come from the clients, and the exchange of groups. \<open>Sample\<close> is a ring of three daemons on which each property is
  applied once.

  \<^bold>\<open>Loops.\<close> The ones over arrays are folds over index lists,
  those over fragments recurse on the bytes or messages left, and \<open>Send_new_packets\<close> on the
  number of packets it may still send. The loops over linked sessions are \<open>scan\<close>, a partial
  function whose \<open>None\<close> is a loop that does not end; in every reachable state they end. The loop
  that builds the GROUPS messages (\<open>build_bufs\<close>) is another one, and can be endless. No fuel is
  used.

  \<^bold>\<open>Not modelled.\<close> \<open>Net_init\<close> and the channels of \<open>status.c\<close> are socket set-up. Of \<open>session.c\<close>
  the same holds for \<open>Sess_init\<close>. Of the groups, printing and the masks of other protocols are
  left out. The password method (\<open>auth-pword.c\<close>) calls libraries for its hashes. What the ring
  hands up is in \<open>out\<close>, and the groups take it from there: the two are not composed. The parser of the
  configuration file is generated code; its result is an argument. The monitor, the test
  programs, the log and the Java client are separate programs or output. The bytes of form
  tokens are not parsed: the rings on a token are a list of records, so a token that lies about
  its own counts is outside the model. The runs of \<open>daemon_step\<close> follow a daemon up to the
  second form token; from there the EVS phase has its own invariant, which is not proved.
\<close>

end
